(* ===== verification/WG_Prelude.thy ===== *)
theory WG_Prelude
  imports Main "HOL-Library.Word"
begin

text \<open>
  Shared vocabulary of the development.

  \<^item> Machine integers of the C++ sources are words of their width (\<open>byte\<close>, \<open>u16\<close>, \<open>u32\<close>,
    \<open>u64\<close>); \<open>std::size_t\<close> values that only measure a span or an array are \<open>nat\<close>.
  \<^item> A \<open>std::span\<close> or \<open>std::array\<close> of bytes is a \<open>byte list\<close>; writing through a span at an
    offset is \<open>put_bytes\<close>.
  \<^item> A C++ condition \<open>a() && b() && ...\<close> whose operands change state, and equally a sequence of
    \<open>if (!a()) return false;\<close> statements, is a list of \<^emph>\<open>steps\<close> \<open>'s \<Rightarrow> bool \<times> 's\<close> run by
    \<open>all_steps\<close>: the first step that answers \<open>False\<close> stops the run, and the state it left behind is
    the state of the whole expression.
  \<^item> A pointer parameter whose callers pass the address of an object is modelled by the object; a
    pointer that callers really leave null is an \<open>option\<close>.
  \<^item> Logging calls have no counterpart: they do not change the state of the program.
\<close>

unbundle bit_operations_syntax

type_synonym byte = "8 word"
type_synonym u16 = "16 word"
type_synonym u32 = "32 word"
type_synonym u64 = "64 word"

type_synonym 's step = "'s \<Rightarrow> bool \<times> 's"

named_theorems steps_simps \<open>evaluation of step sequences\<close>
named_theorems wf_simps \<open>lengths and well-formedness of wire data\<close>

subsection \<open>Definitions\<close>

abbreviation zeros :: "nat \<Rightarrow> byte list" where
  "zeros n \<equiv> replicate n 0"

text \<open>\<open>std::ranges::copy(bs, out.begin() + off)\<close>: the caller guarantees the room.\<close>

definition put_bytes :: "nat \<Rightarrow> 'a list \<Rightarrow> 'a list \<Rightarrow> 'a list" where
  "put_bytes off bs out = take off out @ bs @ drop (off + length bs) out"

text \<open>\<open>span.subspan(off, n)\<close>.\<close>

definition subspan :: "nat \<Rightarrow> nat \<Rightarrow> 'a list \<Rightarrow> 'a list" where
  "subspan off n xs = take n (drop off xs)"

fun all_steps :: "'s step list \<Rightarrow> 's step" where
  "all_steps [] s = (True, s)"
| "all_steps (f # fs) s =
     (case f s of (ok, s') \<Rightarrow> if ok then all_steps fs s' else (False, s'))"

text \<open>A guard of the form \<open>if (!cond) return false;\<close> as a step, and an unconditional statement.\<close>

definition guard_step :: "('s \<Rightarrow> bool) \<Rightarrow> 's step" where
  "guard_step c s = (c s, s)"

definition do_step :: "('s \<Rightarrow> 's) \<Rightarrow> 's step" where
  "do_step f s = (True, f s)"

subsection \<open>Lists and spans\<close>

lemma length_put_bytes [simp, wf_simps]:
  "off + length bs \<le> length out \<Longrightarrow> length (put_bytes off bs out) = length out"
  by (simp add: put_bytes_def)

lemma put_bytes_0: "put_bytes 0 bs out = bs @ drop (length bs) out"
  by (simp add: put_bytes_def)

lemma take_put_bytes:
  "off + length bs \<le> length out \<Longrightarrow> n = off + length bs \<Longrightarrow>
   take n (put_bytes off bs out) = take off out @ bs"
  by (simp add: put_bytes_def)

lemma drop_put_bytes:
  "off + length bs \<le> length out \<Longrightarrow> n = off + length bs \<Longrightarrow>
   drop n (put_bytes off bs out) = drop n out"
  by (simp add: put_bytes_def)

lemma length_subspan [simp, wf_simps]:
  "off + n \<le> length xs \<Longrightarrow> length (subspan off n xs) = n"
  by (simp add: subspan_def)

lemma take_append_subspan: "take off xs @ subspan off n xs = take (off + n) xs"
  by (simp add: subspan_def take_add)

lemma put_bytes_same:
  "off + length bs \<le> length out \<Longrightarrow> bs = subspan off (length bs) out \<Longrightarrow> put_bytes off bs out = out"
  by (metis append.assoc append_take_drop_id put_bytes_def take_append_subspan)

lemma length4_conv: "length xs = 4 \<longleftrightarrow> (\<exists>a b c d. xs = [a, b, c, d])"
  by (auto simp: numeral_eq_Suc length_Suc_conv)

lemma length8_conv:
  "length xs = 8 \<longleftrightarrow> (\<exists>a b c d e f g h. xs = [a, b, c, d, e, f, g, h])"
  by (auto simp: numeral_eq_Suc length_Suc_conv)

text \<open>Every residue class meets every run of as many consecutive numbers as the modulus.\<close>

lemma residue_in_run:
  fixes n j m :: nat
  assumes "j < m"
  shows "\<exists>i. n \<le> i \<and> i < n + m \<and> i mod m = j"
proof (cases "n mod m \<le> j")
  case True
  let ?i = "m * (n div m) + j"
  have n: "n = m * (n div m) + n mod m" by simp
  have "n \<le> ?i" using n True by linarith
  moreover have "?i < n + m" using n assms by linarith
  moreover have "?i mod m = j" using assms by simp
  ultimately show ?thesis by blast
next
  case False
  let ?i = "m * (n div m) + m + j"
  have n: "n = m * (n div m) + n mod m" "n mod m < m" using assms by simp_all
  have "n \<le> ?i" using n by linarith
  moreover have "?i < n + m" using n False by linarith
  moreover have "?i mod m = j"
  proof -
    have "?i = j + m * (n div m + 1)" by (simp add: algebra_simps)
    then show ?thesis using assms by (metis mod_less mod_mult_self2)
  qed
  ultimately show ?thesis by blast
qed

text \<open>Numbers of the same residue class that are close to each other are equal.\<close>

lemma residue_close_eq:
  fixes a b m :: nat
  assumes "a mod m = b mod m" "a < b + m" "b < a + m"
  shows "a = b"
proof (cases "a \<le> b")
  case True
  then have "m dvd b - a" using assms(1) by (metis mod_eq_dvd_iff_nat)
  moreover have "b - a < m" using assms(3) True by linarith
  ultimately show ?thesis using True by (metis diff_is_0_eq le_antisym nat_dvd_not_less neq0_conv)
next
  case False
  then have "m dvd a - b" using assms(1) by (metis mod_eq_dvd_iff_nat nat_le_linear)
  moreover have "a - b < m" using assms(2) False by linarith
  ultimately show ?thesis using False
    by (metis diff_is_0_eq nat_dvd_not_less nat_le_linear neq0_conv)
qed

subsection \<open>Words\<close>

lemma unat_take_bit_mod: "unat (take_bit n (x :: 'a::len word)) = unat x mod 2 ^ n"
  by (metis take_bit_eq_mod unsigned_take_bit_eq)

lemma unat_and_127: "unat (x AND (127 :: u64)) = unat x mod 128"
proof -
  have "(127 :: u64) = mask 7" by (simp add: mask_eq_exp_minus_1)
  then have "x AND 127 = take_bit 7 x" by (simp add: take_bit_eq_mask)
  then show ?thesis by (simp add: unat_take_bit_mod)
qed

lemma unat_and_63: "unat (x AND (63 :: u64)) = unat x mod 64"
proof -
  have "(63 :: u64) = mask 6" by (simp add: mask_eq_exp_minus_1)
  then have "x AND 63 = take_bit 6 x" by (simp add: take_bit_eq_mask)
  then show ?thesis by (simp add: unat_take_bit_mod)
qed

lemma unat_drop_bit_div: "unat (drop_bit n (x :: 'a::len word)) = unat x div 2 ^ n"
  by (metis drop_bit_eq_div unat_drop_bit_eq)

lemma unat_u64_bound: "unat (x :: u64) < 2 ^ 64"
  using unsigned_less[of x] by simp

subsection \<open>Step sequences\<close>

lemma all_steps_append:
  "all_steps (fs @ gs) s =
     (case all_steps fs s of (ok, s') \<Rightarrow> if ok then all_steps gs s' else (False, s'))"
  by (induction fs arbitrary: s) (auto split: prod.splits)

lemma guard_step_eq [steps_simps]: "guard_step c s = (ok, s') \<longleftrightarrow> ok = c s \<and> s' = s"
  by (auto simp: guard_step_def)

lemma do_step_eq [steps_simps]: "do_step f s = (ok, s') \<longleftrightarrow> ok \<and> s' = f s"
  by (auto simp: do_step_def)

lemma all_steps_ConsE:
  assumes "all_steps (f # fs) s = (True, t)"
  obtains s' where "f s = (True, s')" "all_steps fs s' = (True, t)"
  using assms by (auto split: prod.splits if_splits)

lemma all_steps_Cons_True:
  "f s = (True, s') \<Longrightarrow> all_steps (f # fs) s = all_steps fs s'"
  by simp

text \<open>An invariant that every step keeps is kept by the sequence, also when it stops early.\<close>

lemma all_steps_invariant:
  assumes "\<And>f s ok s'. f \<in> set fs \<Longrightarrow> P s \<Longrightarrow> f s = (ok, s') \<Longrightarrow> P s'"
    and "P s" and "all_steps fs s = (ok, s')"
  shows "P s'"
  using assms
proof (induction fs arbitrary: s)
  case Nil
  then show ?case by simp
next
  case (Cons f fs)
  obtain ok1 s1 where f: "f s = (ok1, s1)" by fastforce
  have s1: "P s1" using Cons.prems(1)[of f s ok1 s1] Cons.prems(2) f by simp
  show ?case
  proof (cases ok1)
    case True
    with f Cons.prems(3) have "all_steps fs s1 = (ok, s')" by simp
    with Cons.IH[of s1] s1 Cons.prems(1) show ?thesis by (meson list.set_intros(2))
  next
    case False
    with f Cons.prems(3) s1 show ?thesis by simp
  qed
qed

end
