(* ===== verification/WG_Endian.thy ===== *)
theory WG_Endian
  imports WG_Prelude
begin

text \<open>
  Byte order helpers: \<open>wireguard/endian.hpp\<close> (little endian, used by every WireGuard message),
  \<open>StoreBe64\<close>/\<open>StoreBe32\<close> of \<open>wireguard/handshake.cpp\<close> (TAI64N timestamps) and
  \<open>LoadBigEndian16\<close> of \<open>wireguard/inner_packet.cpp\<close> (IP headers). A pointer into a buffer is the
  buffer with the preceding bytes dropped; a store is the list of the bytes it writes, which callers
  place with \<^const>\<open>put_bytes\<close>.
\<close>

subsection \<open>Definitions\<close>

definition LoadLe32 :: "byte list \<Rightarrow> u32" where
  "LoadLe32 data =
     ucast (data ! 0) OR push_bit 8 (ucast (data ! 1)) OR push_bit 16 (ucast (data ! 2)) OR
     push_bit 24 (ucast (data ! 3))"

definition LoadLe64 :: "byte list \<Rightarrow> u64" where
  "LoadLe64 data = ucast (LoadLe32 data) OR push_bit 32 (ucast (LoadLe32 (drop 4 data)))"

definition StoreLe32 :: "u32 \<Rightarrow> byte list" where
  "StoreLe32 value =
     [ucast (value AND 0xFF), ucast (drop_bit 8 value AND 0xFF), ucast (drop_bit 16 value AND 0xFF),
      ucast (drop_bit 24 value AND 0xFF)]"

definition StoreLe64 :: "u64 \<Rightarrow> byte list" where
  "StoreLe64 value =
     StoreLe32 (ucast (value AND 0xFFFFFFFF)) @ StoreLe32 (ucast (drop_bit 32 value))"

definition StoreBe64 :: "u64 \<Rightarrow> byte list" where
  "StoreBe64 value = map (\<lambda>i. ucast (drop_bit (i * 8) value AND 0xFF)) [7, 6, 5, 4, 3, 2, 1, 0]"

definition StoreBe32 :: "u32 \<Rightarrow> byte list" where
  "StoreBe32 value =
     [ucast (drop_bit 24 value AND 0xFF), ucast (drop_bit 16 value AND 0xFF),
      ucast (drop_bit 8 value AND 0xFF), ucast (value AND 0xFF)]"

definition LoadBigEndian16 :: "byte list \<Rightarrow> u16" where
  "LoadBigEndian16 value = push_bit 8 (ucast (value ! 0)) OR ucast (value ! 1)"

subsection \<open>Lengths\<close>

lemma length_StoreLe32 [simp, wf_simps]: "length (StoreLe32 v) = 4"
  by (simp add: StoreLe32_def)

lemma length_StoreLe64 [simp, wf_simps]: "length (StoreLe64 v) = 8"
  by (simp add: StoreLe64_def)

lemma length_StoreBe64 [simp, wf_simps]: "length (StoreBe64 v) = 8"
  by (simp add: StoreBe64_def)

lemma length_StoreBe32 [simp, wf_simps]: "length (StoreBe32 v) = 4"
  by (simp add: StoreBe32_def)

lemma LoadLe32_append [simp]: "4 \<le> length xs \<Longrightarrow> LoadLe32 (xs @ ys) = LoadLe32 xs"
  by (cases xs) (auto simp: LoadLe32_def nth_append)

lemma LoadLe64_append [simp]: "8 \<le> length xs \<Longrightarrow> LoadLe64 (xs @ ys) = LoadLe64 xs"
  by (simp add: LoadLe64_def)

lemma LoadLe32_take: "4 \<le> n \<Longrightarrow> LoadLe32 (take n xs) = LoadLe32 xs"
  by (simp add: LoadLe32_def)

lemma LoadLe64_take: "8 \<le> n \<Longrightarrow> LoadLe64 (take n xs) = LoadLe64 xs"
  by (simp add: LoadLe64_def LoadLe32_take drop_take)

subsection \<open>Round trips\<close>

lemma mask_FF: "(0xFF :: 'a::len word) = mask 8"
  by (simp add: mask_eq_exp_minus_1)

lemma mask_FFFFFFFF: "(0xFFFFFFFF :: 'a::len word) = mask 32"
  by (simp add: mask_eq_exp_minus_1)

lemma ucast_and_FF [simp]: "(ucast (x AND 0xFF :: 'a::len word) :: byte) = ucast x"
  by (rule bit_word_eqI) (simp add: mask_FF bit_simps, auto dest: bit_imp_le_length)

lemma ucast_and_FFFFFFFF [simp]: "(ucast (x AND 0xFFFFFFFF :: 'a::len word) :: u32) = ucast x"
  by (rule bit_word_eqI) (simp add: mask_FFFFFFFF bit_simps, auto dest: bit_imp_le_length)

lemma bit_byte_le: "bit (x :: byte) n \<Longrightarrow> n < 8"
  using bit_imp_le_length[of x n] by simp

lemma not_bit_byte: "8 \<le> n \<Longrightarrow> \<not> bit (x :: byte) n"
  using bit_byte_le[of x n] by auto

lemma bit_u32_le: "bit (x :: u32) n \<Longrightarrow> n < 32"
  using bit_imp_le_length[of x n] by simp

lemma LoadLe32_StoreLe32 [simp]: "LoadLe32 (StoreLe32 v) = v"
proof (rule bit_word_eqI)
  fix n
  assume "n < LENGTH(32)"
  then have "n < 8 \<or> (8 \<le> n \<and> n < 16) \<or> (16 \<le> n \<and> n < 24) \<or> (24 \<le> n \<and> n < 32)" by auto
  then show "bit (LoadLe32 (StoreLe32 v)) n = bit v n"
    by (elim disjE) (simp_all add: LoadLe32_def StoreLe32_def bit_simps, arith+)
qed

lemma StoreLe32_LoadLe32:
  assumes "length xs = 4"
  shows "StoreLe32 (LoadLe32 xs) = xs"
proof -
  from assms obtain a b c d where xs: "xs = [a, b, c, d]"
    by (auto simp: length4_conv)
  let ?v = "LoadLe32 xs"
  have "ucast ?v = a" "ucast (drop_bit 8 ?v) = b" "ucast (drop_bit 16 ?v) = c"
    "ucast (drop_bit 24 ?v) = d"
       apply (auto intro!: bit_word_eqI simp: xs LoadLe32_def bit_simps not_bit_byte)
    done
  then show ?thesis by (simp add: StoreLe32_def xs)
qed

lemma LoadLe64_StoreLe64 [simp]: "LoadLe64 (StoreLe64 v) = v"
proof (rule bit_word_eqI)
  fix n
  assume "n < LENGTH(64)"
  then have "n < 32 \<or> (32 \<le> n \<and> n < 64)" by auto
  then show "bit (LoadLe64 (StoreLe64 v)) n = bit v n"
    by (elim disjE) (simp_all add: LoadLe64_def StoreLe64_def bit_simps, arith)
qed

lemma StoreLe64_LoadLe64:
  assumes "length xs = 8"
  shows "StoreLe64 (LoadLe64 xs) = xs"
proof -
  have lo: "ucast (LoadLe64 xs) = LoadLe32 (take 4 xs)"
    by (rule bit_word_eqI) (simp add: LoadLe64_def LoadLe32_take bit_simps)
  have hi: "ucast (drop_bit 32 (LoadLe64 xs)) = LoadLe32 (drop 4 xs)"
    by (rule bit_word_eqI) (simp add: LoadLe64_def bit_simps, auto dest: bit_u32_le)
  have "StoreLe64 (LoadLe64 xs) = take 4 xs @ drop 4 xs"
    using assms by (simp add: StoreLe64_def lo hi StoreLe32_LoadLe32)
  then show ?thesis by simp
qed

lemma StoreLe32_inj: "StoreLe32 a = StoreLe32 b \<longleftrightarrow> a = b"
  by (metis LoadLe32_StoreLe32)

lemma StoreLe64_inj: "StoreLe64 a = StoreLe64 b \<longleftrightarrow> a = b"
  by (metis LoadLe64_StoreLe64)

end
