(* ===== verification/WG_Messages.thy ===== *)
theory WG_Messages
  imports WG_Endian
begin

text \<open>
  The WireGuard wire messages: \<open>wireguard/constants.hpp\<close> (sizes), \<open>wireguard/messages.hpp\<close>,
  \<open>wireguard/messages.cpp\<close> (typed reader and writer, parsers, serialisers) and
  \<open>wireguard/dispatch.cpp\<close> (routing a datagram to one of four handlers).

  \<open>PacketReader\<close> and \<open>PacketWriter\<close> keep their span and offset; the members that return \<open>bool\<close> and
  update an out-parameter are steps over the pair of reader (writer) and message, so that the
  \<open>&&\<close> chains of the parsers are \<^const>\<open>all_steps\<close> of the same operands in the same order. Parsers take
  the out-parameter's old value and return its new one.

  The locale \<open>wire_codec\<close> is the contract between a serialiser and its parser; all four message kinds
  interpret it, and dispatch rests on the interpretations.
\<close>

subsection \<open>Constants and data\<close>

datatype MessageType =
    MT_Invalid
  | MT_HandshakeInitiation
  | MT_HandshakeResponse
  | MT_CookieReply
  | MT_TransportData
  | MT_Unnamed u32 \<comment> \<open>a value of the underlying type that no enumerator names\<close>

definition MessageType_of_u32 :: "u32 \<Rightarrow> MessageType" where
  "MessageType_of_u32 v =
     (if v = 0 then MT_Invalid
      else if v = 1 then MT_HandshakeInitiation
      else if v = 2 then MT_HandshakeResponse
      else if v = 3 then MT_CookieReply
      else if v = 4 then MT_TransportData
      else MT_Unnamed v)"

fun u32_of_MessageType :: "MessageType \<Rightarrow> u32" where
  "u32_of_MessageType MT_Invalid = 0"
| "u32_of_MessageType MT_HandshakeInitiation = 1"
| "u32_of_MessageType MT_HandshakeResponse = 2"
| "u32_of_MessageType MT_CookieReply = 3"
| "u32_of_MessageType MT_TransportData = 4"
| "u32_of_MessageType (MT_Unnamed v) = v"

abbreviation (input) MessageTypeSize :: nat where "MessageTypeSize \<equiv> 4"
abbreviation (input) NoisePublicKeySize :: nat where "NoisePublicKeySize \<equiv> 32"
abbreviation (input) NoiseMacSize :: nat where "NoiseMacSize \<equiv> 16"
abbreviation (input) NoiseTagSize :: nat where "NoiseTagSize \<equiv> 16"
abbreviation (input) TAI64NTimestampSize :: nat where "TAI64NTimestampSize \<equiv> 12"
abbreviation (input) CookieNonceSize :: nat where "CookieNonceSize \<equiv> 24"
abbreviation (input) CookieValueSize :: nat where "CookieValueSize \<equiv> 16"
abbreviation (input) EncryptedStaticSize :: nat where "EncryptedStaticSize \<equiv> 48"
abbreviation (input) EncryptedTimestampSize :: nat where "EncryptedTimestampSize \<equiv> 28"
abbreviation (input) EncryptedNothingSize :: nat where "EncryptedNothingSize \<equiv> 16"
abbreviation (input) EncryptedCookieSize :: nat where "EncryptedCookieSize \<equiv> 32"

abbreviation (input) HandshakeInitiationSize :: nat where "HandshakeInitiationSize \<equiv> 148"
abbreviation (input) HandshakeResponseSize :: nat where "HandshakeResponseSize \<equiv> 92"
abbreviation (input) HandshakeCookieSize :: nat where "HandshakeCookieSize \<equiv> 64"
abbreviation (input) TransportDataHeaderSize :: nat where "TransportDataHeaderSize \<equiv> 16"

record message_macs =
  mac1 :: "byte list"
  mac2 :: "byte list"

record message_handshake_initiation =
  hi_type :: u32
  hi_sender_index :: u32
  hi_unencrypted_ephemeral :: "byte list"
  hi_encrypted_static :: "byte list"
  hi_encrypted_timestamp :: "byte list"
  hi_macs :: message_macs

record message_handshake_response =
  hr_type :: u32
  hr_sender_index :: u32
  hr_receiver_index :: u32
  hr_unencrypted_ephemeral :: "byte list"
  hr_encrypted_nothing :: "byte list"
  hr_macs :: message_macs

record message_handshake_cookie =
  hc_type :: u32
  hc_receiver_index :: u32
  hc_nonce :: "byte list"
  hc_encrypted_cookie :: "byte list"

record message_transport_data =
  td_type :: u32
  td_receiver_index :: u32
  td_counter :: u64

text \<open>The value-initialised structs (\<open>message = {}\<close>).\<close>

definition zero_macs :: message_macs where
  "zero_macs = \<lparr>mac1 = zeros NoiseMacSize, mac2 = zeros NoiseMacSize\<rparr>"

definition zero_initiation :: message_handshake_initiation where
  "zero_initiation = \<lparr>hi_type = 0, hi_sender_index = 0, hi_unencrypted_ephemeral = zeros NoisePublicKeySize,
     hi_encrypted_static = zeros EncryptedStaticSize,
     hi_encrypted_timestamp = zeros EncryptedTimestampSize, hi_macs = zero_macs\<rparr>"

definition zero_response :: message_handshake_response where
  "zero_response = \<lparr>hr_type = 0, hr_sender_index = 0, hr_receiver_index = 0,
     hr_unencrypted_ephemeral = zeros NoisePublicKeySize,
     hr_encrypted_nothing = zeros EncryptedNothingSize, hr_macs = zero_macs\<rparr>"

definition zero_cookie_reply :: message_handshake_cookie where
  "zero_cookie_reply = \<lparr>hc_type = 0, hc_receiver_index = 0, hc_nonce = zeros CookieNonceSize,
     hc_encrypted_cookie = zeros EncryptedCookieSize\<rparr>"

definition zero_transport_data :: message_transport_data where
  "zero_transport_data = \<lparr>td_type = 0, td_receiver_index = 0, td_counter = 0\<rparr>"

datatype ParseError =
    PE_None
  | PE_MissingType
  | PE_UnknownType
  | PE_InvalidLength
  | PE_InvalidArgument
  | PE_InsufficientCapacity

record ParseResult =
  pr_success :: bool
  pr_error :: ParseError
  pr_type :: MessageType

subsection \<open>Reader and writer\<close>

definition MakeFailure :: "ParseError \<Rightarrow> MessageType \<Rightarrow> ParseResult" where
  "MakeFailure err t = \<lparr>pr_success = False, pr_error = err, pr_type = t\<rparr>"

definition MakeSuccess :: "MessageType \<Rightarrow> ParseResult" where
  "MakeSuccess t = \<lparr>pr_success = True, pr_error = PE_None, pr_type = t\<rparr>"

record PacketReader =
  rd_input :: "byte list"
  rd_offset :: nat

definition CanRead :: "nat \<Rightarrow> PacketReader \<Rightarrow> bool" where
  "CanRead sz r \<longleftrightarrow> sz \<le> length (rd_input r) - rd_offset r"

definition ReadLe32 :: "(u32 \<Rightarrow> 'm \<Rightarrow> 'm) \<Rightarrow> (PacketReader \<times> 'm) step" where
  "ReadLe32 set_value = (\<lambda>(r, m).
     if \<not> CanRead 4 r then (False, (r, m))
     else (True, (r\<lparr>rd_offset := rd_offset r + 4\<rparr>,
                  set_value (LoadLe32 (drop (rd_offset r) (rd_input r))) m)))"

definition ReadLe64 :: "(u64 \<Rightarrow> 'm \<Rightarrow> 'm) \<Rightarrow> (PacketReader \<times> 'm) step" where
  "ReadLe64 set_value = (\<lambda>(r, m).
     if \<not> CanRead 8 r then (False, (r, m))
     else (True, (r\<lparr>rd_offset := rd_offset r + 8\<rparr>,
                  set_value (LoadLe64 (drop (rd_offset r) (rd_input r))) m)))"

definition ReadArray :: "nat \<Rightarrow> (byte list \<Rightarrow> 'm \<Rightarrow> 'm) \<Rightarrow> (PacketReader \<times> 'm) step" where
  "ReadArray sz set_value = (\<lambda>(r, m).
     if \<not> CanRead sz r then (False, (r, m))
     else (True, (r\<lparr>rd_offset := rd_offset r + sz\<rparr>,
                  set_value (subspan (rd_offset r) sz (rd_input r)) m)))"

record PacketWriter =
  wr_output :: "byte list"
  wr_offset :: nat

definition CanWrite :: "nat \<Rightarrow> PacketWriter \<Rightarrow> bool" where
  "CanWrite sz w \<longleftrightarrow> sz \<le> length (wr_output w) - wr_offset w"

definition WriteArray :: "byte list \<Rightarrow> PacketWriter step" where
  "WriteArray value w =
     (if \<not> CanWrite (length value) w then (False, w)
      else (True, w\<lparr>wr_output := put_bytes (wr_offset w) value (wr_output w),
                    wr_offset := wr_offset w + length value\<rparr>))"

definition WriteLe32 :: "u32 \<Rightarrow> PacketWriter step" where
  "WriteLe32 value w =
     (if \<not> CanWrite 4 w then (False, w)
      else (True, w\<lparr>wr_output := put_bytes (wr_offset w) (StoreLe32 value) (wr_output w),
                    wr_offset := wr_offset w + 4\<rparr>))"

definition WriteLe64 :: "u64 \<Rightarrow> PacketWriter step" where
  "WriteLe64 value w =
     (if \<not> CanWrite 8 w then (False, w)
      else (True, w\<lparr>wr_output := put_bytes (wr_offset w) (StoreLe64 value) (wr_output w),
                    wr_offset := wr_offset w + 8\<rparr>))"

subsection \<open>Parsers and serialisers\<close>

definition InspectMessageType :: "byte list \<Rightarrow> ParseResult" where
  "InspectMessageType packet =
     (if length packet < MessageTypeSize then MakeFailure PE_MissingType MT_Invalid
      else let t = MessageType_of_u32 (LoadLe32 packet) in
        (case t of
           MT_HandshakeInitiation \<Rightarrow> MakeSuccess t
         | MT_HandshakeResponse \<Rightarrow> MakeSuccess t
         | MT_CookieReply \<Rightarrow> MakeSuccess t
         | MT_TransportData \<Rightarrow> MakeSuccess t
         | MT_Invalid \<Rightarrow> MakeFailure PE_UnknownType t
         | MT_Unnamed _ \<Rightarrow> MakeFailure PE_UnknownType t))"

abbreviation SetMessageType :: "MessageType \<Rightarrow> u32" where
  "SetMessageType \<equiv> u32_of_MessageType"

abbreviation GetMessageType :: "u32 \<Rightarrow> MessageType" where
  "GetMessageType \<equiv> MessageType_of_u32"

definition ValidatePacket :: "byte list \<Rightarrow> MessageType \<Rightarrow> nat \<Rightarrow> bool \<Rightarrow> ParseResult" where
  "ValidatePacket packet expected_type required_size exact_size =
     (let type_result = InspectMessageType packet in
      if \<not> pr_success type_result then type_result
      else if pr_type type_result \<noteq> expected_type
        then MakeFailure PE_UnknownType (pr_type type_result)
      else if (exact_size \<and> length packet \<noteq> required_size) \<or> (\<not> exact_size \<and> length packet < required_size)
        then MakeFailure PE_InvalidLength (pr_type type_result)
      else MakeSuccess (pr_type type_result))"

definition ValidateSerializeTarget ::
  "byte list \<Rightarrow> nat \<Rightarrow> MessageType \<Rightarrow> MessageType \<Rightarrow> ParseError" where
  "ValidateSerializeTarget output required_size actual_type expected_type =
     (if length output < required_size then PE_InsufficientCapacity
      else if actual_type = expected_type then PE_None else PE_InvalidArgument)"

text \<open>The common tail of the parsers: run the reads, and report a short read as a length error.\<close>

definition run_reads ::
  "ParseResult \<Rightarrow> byte list \<Rightarrow> (PacketReader \<times> 'm) step list \<Rightarrow> 'm \<Rightarrow> ParseResult \<times> 'm" where
  "run_reads result packet reads out =
     (if \<not> pr_success result then (result, out)
      else case all_steps reads (\<lparr>rd_input = packet, rd_offset = 0\<rparr>, out) of
        (parsed, (_, m)) \<Rightarrow> (if parsed then result else MakeFailure PE_InvalidLength (pr_type result), m))"

text \<open>The common tail of the serialisers: the writes go to \<open>output.first(sz)\<close>.\<close>

definition run_writes ::
  "ParseError \<Rightarrow> nat \<Rightarrow> byte list \<Rightarrow> PacketWriter step list \<Rightarrow> ParseError \<times> byte list" where
  "run_writes err sz output writes =
     (if err \<noteq> PE_None then (err, output)
      else case all_steps writes \<lparr>wr_output = take sz output, wr_offset = 0\<rparr> of
        (ok, w) \<Rightarrow> (if ok then PE_None else PE_InsufficientCapacity, wr_output w @ drop sz output))"

definition ParseHandshakeInitiation ::
  "byte list \<Rightarrow> message_handshake_initiation \<Rightarrow> ParseResult \<times> message_handshake_initiation" where
  "ParseHandshakeInitiation packet out =
     run_reads (ValidatePacket packet MT_HandshakeInitiation HandshakeInitiationSize True) packet
       [ReadLe32 (\<lambda>v m. m\<lparr>hi_type := v\<rparr>),
        ReadLe32 (\<lambda>v m. m\<lparr>hi_sender_index := v\<rparr>),
        ReadArray NoisePublicKeySize (\<lambda>v m. m\<lparr>hi_unencrypted_ephemeral := v\<rparr>),
        ReadArray EncryptedStaticSize (\<lambda>v m. m\<lparr>hi_encrypted_static := v\<rparr>),
        ReadArray EncryptedTimestampSize (\<lambda>v m. m\<lparr>hi_encrypted_timestamp := v\<rparr>),
        ReadArray NoiseMacSize (\<lambda>v m. m\<lparr>hi_macs := (hi_macs m)\<lparr>mac1 := v\<rparr>\<rparr>),
        ReadArray NoiseMacSize (\<lambda>v m. m\<lparr>hi_macs := (hi_macs m)\<lparr>mac2 := v\<rparr>\<rparr>)] out"

definition ParseHandshakeResponse ::
  "byte list \<Rightarrow> message_handshake_response \<Rightarrow> ParseResult \<times> message_handshake_response" where
  "ParseHandshakeResponse packet out =
     run_reads (ValidatePacket packet MT_HandshakeResponse HandshakeResponseSize True) packet
       [ReadLe32 (\<lambda>v m. m\<lparr>hr_type := v\<rparr>),
        ReadLe32 (\<lambda>v m. m\<lparr>hr_sender_index := v\<rparr>),
        ReadLe32 (\<lambda>v m. m\<lparr>hr_receiver_index := v\<rparr>),
        ReadArray NoisePublicKeySize (\<lambda>v m. m\<lparr>hr_unencrypted_ephemeral := v\<rparr>),
        ReadArray EncryptedNothingSize (\<lambda>v m. m\<lparr>hr_encrypted_nothing := v\<rparr>),
        ReadArray NoiseMacSize (\<lambda>v m. m\<lparr>hr_macs := (hr_macs m)\<lparr>mac1 := v\<rparr>\<rparr>),
        ReadArray NoiseMacSize (\<lambda>v m. m\<lparr>hr_macs := (hr_macs m)\<lparr>mac2 := v\<rparr>\<rparr>)] out"

definition ParseHandshakeCookie ::
  "byte list \<Rightarrow> message_handshake_cookie \<Rightarrow> ParseResult \<times> message_handshake_cookie" where
  "ParseHandshakeCookie packet out =
     run_reads (ValidatePacket packet MT_CookieReply HandshakeCookieSize True) packet
       [ReadLe32 (\<lambda>v m. m\<lparr>hc_type := v\<rparr>),
        ReadLe32 (\<lambda>v m. m\<lparr>hc_receiver_index := v\<rparr>),
        ReadArray CookieNonceSize (\<lambda>v m. m\<lparr>hc_nonce := v\<rparr>),
        ReadArray EncryptedCookieSize (\<lambda>v m. m\<lparr>hc_encrypted_cookie := v\<rparr>)] out"

definition ParseTransportDataHeader ::
  "byte list \<Rightarrow> message_transport_data \<Rightarrow> ParseResult \<times> message_transport_data" where
  "ParseTransportDataHeader packet out =
     run_reads (ValidatePacket packet MT_TransportData TransportDataHeaderSize False) packet
       [ReadLe32 (\<lambda>v m. m\<lparr>td_type := v\<rparr>),
        ReadLe32 (\<lambda>v m. m\<lparr>td_receiver_index := v\<rparr>),
        ReadLe64 (\<lambda>v m. m\<lparr>td_counter := v\<rparr>)] out"

definition SerializeHandshakeInitiation ::
  "byte list \<Rightarrow> message_handshake_initiation \<Rightarrow> ParseError \<times> byte list" where
  "SerializeHandshakeInitiation output m =
     run_writes (ValidateSerializeTarget output HandshakeInitiationSize
                   (GetMessageType (hi_type m)) MT_HandshakeInitiation)
       HandshakeInitiationSize output
       [WriteLe32 (hi_type m), WriteLe32 (hi_sender_index m),
        WriteArray (hi_unencrypted_ephemeral m), WriteArray (hi_encrypted_static m),
        WriteArray (hi_encrypted_timestamp m), WriteArray (mac1 (hi_macs m)),
        WriteArray (mac2 (hi_macs m))]"

definition SerializeHandshakeResponse ::
  "byte list \<Rightarrow> message_handshake_response \<Rightarrow> ParseError \<times> byte list" where
  "SerializeHandshakeResponse output m =
     run_writes (ValidateSerializeTarget output HandshakeResponseSize
                   (GetMessageType (hr_type m)) MT_HandshakeResponse)
       HandshakeResponseSize output
       [WriteLe32 (hr_type m), WriteLe32 (hr_sender_index m), WriteLe32 (hr_receiver_index m),
        WriteArray (hr_unencrypted_ephemeral m), WriteArray (hr_encrypted_nothing m),
        WriteArray (mac1 (hr_macs m)), WriteArray (mac2 (hr_macs m))]"

definition SerializeHandshakeCookie ::
  "byte list \<Rightarrow> message_handshake_cookie \<Rightarrow> ParseError \<times> byte list" where
  "SerializeHandshakeCookie output m =
     run_writes (ValidateSerializeTarget output HandshakeCookieSize
                   (GetMessageType (hc_type m)) MT_CookieReply)
       HandshakeCookieSize output
       [WriteLe32 (hc_type m), WriteLe32 (hc_receiver_index m), WriteArray (hc_nonce m),
        WriteArray (hc_encrypted_cookie m)]"

definition SerializeTransportDataHeader ::
  "byte list \<Rightarrow> message_transport_data \<Rightarrow> ParseError \<times> byte list" where
  "SerializeTransportDataHeader output m =
     run_writes (ValidateSerializeTarget output TransportDataHeaderSize
                   (GetMessageType (td_type m)) MT_TransportData)
       TransportDataHeaderSize output
       [WriteLe32 (td_type m), WriteLe32 (td_receiver_index m), WriteLe64 (td_counter m)]"

subsection \<open>Names\<close>

fun GetMessageTypeName :: "MessageType \<Rightarrow> string" where
  "GetMessageTypeName MT_Invalid = ''invalid''"
| "GetMessageTypeName MT_HandshakeInitiation = ''handshake_initiation''"
| "GetMessageTypeName MT_HandshakeResponse = ''handshake_response''"
| "GetMessageTypeName MT_CookieReply = ''cookie_reply''"
| "GetMessageTypeName MT_TransportData = ''transport_data''"
| "GetMessageTypeName (MT_Unnamed _) = ''unknown''"

fun GetParseErrorName :: "ParseError \<Rightarrow> string" where
  "GetParseErrorName PE_None = ''none''"
| "GetParseErrorName PE_MissingType = ''missing_type''"
| "GetParseErrorName PE_UnknownType = ''unknown_type''"
| "GetParseErrorName PE_InvalidLength = ''invalid_length''"
| "GetParseErrorName PE_InvalidArgument = ''invalid_argument''"
| "GetParseErrorName PE_InsufficientCapacity = ''insufficient_capacity''"

subsection \<open>Dispatch\<close>

text \<open>The handlers are nullable function pointers over one context object.\<close>

record 'c PacketDispatchHandlers =
  on_handshake_initiation :: "('c \<Rightarrow> message_handshake_initiation \<Rightarrow> 'c) option"
  on_handshake_response :: "('c \<Rightarrow> message_handshake_response \<Rightarrow> 'c) option"
  on_cookie_reply :: "('c \<Rightarrow> message_handshake_cookie \<Rightarrow> 'c) option"
  on_transport_data :: "('c \<Rightarrow> message_transport_data \<Rightarrow> byte list \<Rightarrow> 'c) option"

definition DispatchPacket ::
  "byte list \<Rightarrow> 'c PacketDispatchHandlers \<Rightarrow> 'c \<Rightarrow> ParseResult \<times> 'c" where
  "DispatchPacket packet handlers context =
     (let result = InspectMessageType packet in
      if \<not> pr_success result then (result, context)
      else case pr_type result of
        MT_HandshakeInitiation \<Rightarrow>
          (case ParseHandshakeInitiation packet zero_initiation of (result, message) \<Rightarrow>
             (result,
              case on_handshake_initiation handlers of
                Some h \<Rightarrow> if pr_success result then h context message else context
              | None \<Rightarrow> context))
      | MT_HandshakeResponse \<Rightarrow>
          (case ParseHandshakeResponse packet zero_response of (result, message) \<Rightarrow>
             (result,
              case on_handshake_response handlers of
                Some h \<Rightarrow> if pr_success result then h context message else context
              | None \<Rightarrow> context))
      | MT_CookieReply \<Rightarrow>
          (case ParseHandshakeCookie packet zero_cookie_reply of (result, message) \<Rightarrow>
             (result,
              case on_cookie_reply handlers of
                Some h \<Rightarrow> if pr_success result then h context message else context
              | None \<Rightarrow> context))
      | MT_TransportData \<Rightarrow>
          (case ParseTransportDataHeader packet zero_transport_data of (result, message) \<Rightarrow>
             (result,
              case on_transport_data handlers of
                Some h \<Rightarrow> if pr_success result
                          then h context message (drop TransportDataHeaderSize packet) else context
              | None \<Rightarrow> context))
      | _ \<Rightarrow> (\<lparr>pr_success = False, pr_error = PE_UnknownType, pr_type = pr_type result\<rparr>, context))"

subsection \<open>Specification: the wire layout\<close>

text \<open>The layout of each message as the concatenation of its fields, and the well-formed messages:
  the enumerator of the kind in the type field and every array at its declared length.\<close>

definition wire_initiation :: "message_handshake_initiation \<Rightarrow> byte list" where
  "wire_initiation m = StoreLe32 (hi_type m) @ StoreLe32 (hi_sender_index m) @
     hi_unencrypted_ephemeral m @ hi_encrypted_static m @ hi_encrypted_timestamp m @
     mac1 (hi_macs m) @ mac2 (hi_macs m)"

definition wire_response :: "message_handshake_response \<Rightarrow> byte list" where
  "wire_response m = StoreLe32 (hr_type m) @ StoreLe32 (hr_sender_index m) @
     StoreLe32 (hr_receiver_index m) @ hr_unencrypted_ephemeral m @ hr_encrypted_nothing m @
     mac1 (hr_macs m) @ mac2 (hr_macs m)"

definition wire_cookie :: "message_handshake_cookie \<Rightarrow> byte list" where
  "wire_cookie m = StoreLe32 (hc_type m) @ StoreLe32 (hc_receiver_index m) @ hc_nonce m @
     hc_encrypted_cookie m"

definition wire_transport :: "message_transport_data \<Rightarrow> byte list" where
  "wire_transport m = StoreLe32 (td_type m) @ StoreLe32 (td_receiver_index m) @
     StoreLe64 (td_counter m)"

definition wf_initiation :: "message_handshake_initiation \<Rightarrow> bool" where
  "wf_initiation m \<longleftrightarrow> hi_type m = 1 \<and> length (hi_unencrypted_ephemeral m) = 32 \<and>
     length (hi_encrypted_static m) = 48 \<and> length (hi_encrypted_timestamp m) = 28 \<and>
     length (mac1 (hi_macs m)) = 16 \<and> length (mac2 (hi_macs m)) = 16"

definition wf_response :: "message_handshake_response \<Rightarrow> bool" where
  "wf_response m \<longleftrightarrow> hr_type m = 2 \<and> length (hr_unencrypted_ephemeral m) = 32 \<and>
     length (hr_encrypted_nothing m) = 16 \<and>
     length (mac1 (hr_macs m)) = 16 \<and> length (mac2 (hr_macs m)) = 16"

definition wf_cookie :: "message_handshake_cookie \<Rightarrow> bool" where
  "wf_cookie m \<longleftrightarrow> hc_type m = 3 \<and> length (hc_nonce m) = 24 \<and> length (hc_encrypted_cookie m) = 32"

definition wf_transport :: "message_transport_data \<Rightarrow> bool" where
  "wf_transport m \<longleftrightarrow> td_type m = 4"

text \<open>A writer that has produced \<open>w\<close> and still has \<open>rest\<close> ahead of it.\<close>

definition writer_at :: "byte list \<Rightarrow> byte list \<Rightarrow> PacketWriter" where
  "writer_at w rest = \<lparr>wr_output = w @ rest, wr_offset = length w\<rparr>"

subsection \<open>The codec contract\<close>

text \<open>
  What a serialiser and a parser promise each other. \<open>exact\<close> says whether the datagram must end
  after the message; a transport header is followed by its payload.
\<close>

locale wire_codec =
  fixes encode :: "'m \<Rightarrow> byte list"
    and serialize :: "byte list \<Rightarrow> 'm \<Rightarrow> ParseError \<times> byte list"
    and parse :: "byte list \<Rightarrow> 'm \<Rightarrow> ParseResult \<times> 'm"
    and wf :: "'m \<Rightarrow> bool"
    and msize :: nat
    and mtype :: MessageType
    and exact :: bool
  assumes encode_length: "wf m \<Longrightarrow> length (encode m) = msize"
    and serialize_wf: "wf m \<Longrightarrow> msize \<le> length out \<Longrightarrow>
      serialize out m = (PE_None, encode m @ drop msize out)"
    and serialize_short: "length out < msize \<Longrightarrow> serialize out m = (PE_InsufficientCapacity, out)"
    and parse_encode: "wf m \<Longrightarrow> exact \<longrightarrow> rest = [] \<Longrightarrow>
      parse (encode m @ rest) m0 = (MakeSuccess mtype, m)"
    and parse_sound: "parse packet m0 = (r, m) \<Longrightarrow> pr_success r \<Longrightarrow>
      r = MakeSuccess mtype \<and> wf m \<and> packet = encode m @ drop msize packet \<and>
      (exact \<longrightarrow> length packet = msize)"
    and parse_unchanged: "parse packet m0 = (r, m) \<Longrightarrow> \<not> pr_success r \<Longrightarrow> m = m0"
begin

lemma parse_serialize:
  assumes "wf m" "msize \<le> length out" "serialize out m = (err, out')"
  shows "err = PE_None \<and> length out' = length out \<and> drop msize out' = drop msize out \<and>
    parse (take msize out') m0 = (MakeSuccess mtype, m)"
proof -
  from assms have *: "err = PE_None" "out' = encode m @ drop msize out"
    by (simp_all add: serialize_wf)
  have "parse (encode m @ []) m0 = (MakeSuccess mtype, m)"
    by (rule parse_encode) (simp_all add: assms(1))
  with * assms(2) encode_length[OF assms(1)] show ?thesis by simp
qed

lemma serialize_parse:
  assumes "parse packet m0 = (r, m)" "pr_success r" "msize \<le> length out"
  shows "serialize out m = (PE_None, take msize packet @ drop msize out)"
proof -
  from parse_sound[OF assms(1,2)] have wf: "wf m" and p: "packet = encode m @ drop msize packet"
    by auto
  have "take msize packet = encode m"
    by (subst p) (simp add: encode_length[OF wf])
  with serialize_wf[OF wf assms(3)] show ?thesis by simp
qed

lemma parse_cases:
  assumes "parse packet m0 = (r, m)"
  shows "if pr_success r then wf m \<and> packet = encode m @ (if exact then [] else drop msize packet)
    else m = m0"
  using parse_sound[OF assms] parse_unchanged[OF assms] by auto

lemma encode_inj:
  assumes "wf m" "wf m'" "encode m = encode m'"
  shows "m = m'"
  using parse_encode[of m "[]" m] parse_encode[of m' "[]" m] assms by simp

lemma parse_determines_packet:
  assumes "exact" "parse p m0 = (r, m)" "parse q m0 = (r', m)" "pr_success r" "pr_success r'"
  shows "p = q"
  using parse_sound[OF assms(2,4)] parse_sound[OF assms(3,5)] assms(1)
  by (metis append_Nil2 drop_all order_refl)

end

subsection \<open>Lemmas\<close>

lemma MakeSuccess_sel [simp]:
  "pr_success (MakeSuccess t)" "pr_error (MakeSuccess t) = PE_None" "pr_type (MakeSuccess t) = t"
  by (simp_all add: MakeSuccess_def)

lemma MakeFailure_sel [simp]:
  "\<not> pr_success (MakeFailure e t)" "pr_error (MakeFailure e t) = e" "pr_type (MakeFailure e t) = t"
  by (simp_all add: MakeFailure_def)

lemma MessageType_of_u32_eq [simp]:
  "MessageType_of_u32 v = MT_Invalid \<longleftrightarrow> v = 0"
  "MessageType_of_u32 v = MT_HandshakeInitiation \<longleftrightarrow> v = 1"
  "MessageType_of_u32 v = MT_HandshakeResponse \<longleftrightarrow> v = 2"
  "MessageType_of_u32 v = MT_CookieReply \<longleftrightarrow> v = 3"
  "MessageType_of_u32 v = MT_TransportData \<longleftrightarrow> v = 4"
  by (auto simp: MessageType_of_u32_def)

lemma u32_of_MessageType_of_u32 [simp]: "u32_of_MessageType (MessageType_of_u32 v) = v"
  by (auto simp: MessageType_of_u32_def)

lemma InspectMessageType_success:
  "pr_success (InspectMessageType p) \<longleftrightarrow> 4 \<le> length p \<and> LoadLe32 p \<in> {1, 2, 3, 4}"
  by (auto simp: InspectMessageType_def MessageType_of_u32_def)

lemma InspectMessageType_eq_success:
  "4 \<le> length p \<Longrightarrow> MessageType_of_u32 (LoadLe32 p) = t \<Longrightarrow>
   t \<in> {MT_HandshakeInitiation, MT_HandshakeResponse, MT_CookieReply, MT_TransportData} \<Longrightarrow>
   InspectMessageType p = MakeSuccess t"
  by (auto simp: InspectMessageType_def MessageType_of_u32_def)

lemma InspectMessageType_type:
  "pr_success (InspectMessageType p) \<Longrightarrow> pr_type (InspectMessageType p) = MessageType_of_u32 (LoadLe32 p)"
  by (auto simp: InspectMessageType_def MessageType_of_u32_def split: if_splits)

lemma ValidatePacket_success:
  assumes "t \<in> {MT_HandshakeInitiation, MT_HandshakeResponse, MT_CookieReply, MT_TransportData}"
    and "4 \<le> n"
  shows "pr_success (ValidatePacket p t n ex) \<longleftrightarrow>
    MessageType_of_u32 (LoadLe32 p) = t \<and> (if ex then length p = n else n \<le> length p)"
    and "pr_success (ValidatePacket p t n ex) \<Longrightarrow> ValidatePacket p t n ex = MakeSuccess t"
  using assms InspectMessageType_type[of p]
  by (auto simp: ValidatePacket_def Let_def InspectMessageType_success not_less)

lemma writer_at_start: "\<lparr>wr_output = out, wr_offset = 0\<rparr> = writer_at [] out"
  by (simp add: writer_at_def)

lemma write_at [steps_simps]:
  "length v \<le> length rest \<Longrightarrow>
    WriteArray v (writer_at w rest) = (True, writer_at (w @ v) (drop (length v) rest))"
  "4 \<le> length rest \<Longrightarrow>
    WriteLe32 a (writer_at w rest) = (True, writer_at (w @ StoreLe32 a) (drop 4 rest))"
  "8 \<le> length rest \<Longrightarrow>
    WriteLe64 b (writer_at w rest) = (True, writer_at (w @ StoreLe64 b) (drop 8 rest))"
  by (simp_all add: WriteArray_def WriteLe32_def WriteLe64_def CanWrite_def writer_at_def put_bytes_def)

lemma wr_output_writer_at [simp]: "wr_output (writer_at w rest) = w @ rest"
  by (simp add: writer_at_def)

lemma read_at [steps_simps]:
  "n \<le> length p - k \<Longrightarrow> ReadArray n f (\<lparr>rd_input = p, rd_offset = k\<rparr>, m) =
    (True, (\<lparr>rd_input = p, rd_offset = k + n\<rparr>, f (subspan k n p) m))"
  "4 \<le> length p - k \<Longrightarrow> ReadLe32 g (\<lparr>rd_input = p, rd_offset = k\<rparr>, m) =
    (True, (\<lparr>rd_input = p, rd_offset = k + 4\<rparr>, g (LoadLe32 (drop k p)) m))"
  "8 \<le> length p - k \<Longrightarrow> ReadLe64 h (\<lparr>rd_input = p, rd_offset = k\<rparr>, m) =
    (True, (\<lparr>rd_input = p, rd_offset = k + 8\<rparr>, h (LoadLe64 (drop k p)) m))"
  by (simp_all add: ReadArray_def ReadLe32_def ReadLe64_def CanRead_def)

lemmas wf_defs = wf_initiation_def wf_response_def wf_cookie_def wf_transport_def

lemma ValidateSerializeTarget_None:
  "ValidateSerializeTarget out n a e = PE_None \<longleftrightarrow> n \<le> length out \<and> a = e"
  by (auto simp: ValidateSerializeTarget_def)

lemma run_writes_ok:
  assumes "n \<le> length out" "all_steps ws (writer_at [] (take n out)) = (True, writer_at enc [])"
  shows "run_writes PE_None n out ws = (PE_None, enc @ drop n out)"
  using assms by (simp add: run_writes_def writer_at_start)

lemma run_writes_error: "err \<noteq> PE_None \<Longrightarrow> run_writes err n out ws = (err, out)"
  by (simp add: run_writes_def)

lemma run_reads_ok:
  assumes "all_steps rs (\<lparr>rd_input = p, rd_offset = 0\<rparr>, m0) = (True, (r, m))"
  shows "run_reads (MakeSuccess t) p rs m0 = (MakeSuccess t, m)"
  using assms by (simp add: run_reads_def)

lemma run_reads_failed: "\<not> pr_success res \<Longrightarrow> run_reads res p rs m0 = (res, m0)"
  by (simp add: run_reads_def)

lemma encode_lengths [wf_simps]:
  "wf_initiation m1 \<Longrightarrow> length (wire_initiation m1) = 148"
  "wf_response m2 \<Longrightarrow> length (wire_response m2) = 92"
  "wf_cookie m3 \<Longrightarrow> length (wire_cookie m3) = 64"
  "wf_transport m4 \<Longrightarrow> length (wire_transport m4) = 16"
  by (simp_all add: wire_initiation_def wire_response_def wire_cookie_def wire_transport_def wf_defs)

lemma LoadLe32_wire [simp]:
  "LoadLe32 (wire_initiation m1 @ r) = hi_type m1"
  "LoadLe32 (wire_response m2 @ r) = hr_type m2"
  "LoadLe32 (wire_cookie m3 @ r) = hc_type m3"
  "LoadLe32 (wire_transport m4 @ r) = td_type m4"
  by (simp_all add: wire_initiation_def wire_response_def wire_cookie_def wire_transport_def)

lemma SerializeHandshakeInitiation_wf:
  assumes "wf_initiation m" "148 \<le> length out"
  shows "SerializeHandshakeInitiation out m = (PE_None, wire_initiation m @ drop 148 out)"
proof -
  have v: "ValidateSerializeTarget out 148 (GetMessageType (hi_type m)) MT_HandshakeInitiation = PE_None"
    using assms by (simp add: ValidateSerializeTarget_None wf_defs)
  show ?thesis unfolding SerializeHandshakeInitiation_def v using assms
    by (intro run_writes_ok) (simp_all add: steps_simps wf_defs wire_initiation_def)
qed

lemma SerializeHandshakeResponse_wf:
  assumes "wf_response m" "92 \<le> length out"
  shows "SerializeHandshakeResponse out m = (PE_None, wire_response m @ drop 92 out)"
proof -
  have v: "ValidateSerializeTarget out 92 (GetMessageType (hr_type m)) MT_HandshakeResponse = PE_None"
    using assms by (simp add: ValidateSerializeTarget_None wf_defs)
  show ?thesis unfolding SerializeHandshakeResponse_def v using assms
    by (intro run_writes_ok) (simp_all add: steps_simps wf_defs wire_response_def)
qed

lemma SerializeHandshakeCookie_wf:
  assumes "wf_cookie m" "64 \<le> length out"
  shows "SerializeHandshakeCookie out m = (PE_None, wire_cookie m @ drop 64 out)"
proof -
  have v: "ValidateSerializeTarget out 64 (GetMessageType (hc_type m)) MT_CookieReply = PE_None"
    using assms by (simp add: ValidateSerializeTarget_None wf_defs)
  show ?thesis unfolding SerializeHandshakeCookie_def v using assms
    by (intro run_writes_ok) (simp_all add: steps_simps wf_defs wire_cookie_def)
qed

lemma SerializeTransportDataHeader_wf:
  assumes "wf_transport m" "16 \<le> length out"
  shows "SerializeTransportDataHeader out m = (PE_None, wire_transport m @ drop 16 out)"
proof -
  have v: "ValidateSerializeTarget out 16 (GetMessageType (td_type m)) MT_TransportData = PE_None"
    using assms by (simp add: ValidateSerializeTarget_None wf_defs)
  show ?thesis unfolding SerializeTransportDataHeader_def v using assms
    by (intro run_writes_ok) (simp_all add: steps_simps wf_defs wire_transport_def)
qed

lemma serialize_short_buffer:
  "length out < 148 \<Longrightarrow> SerializeHandshakeInitiation out m1 = (PE_InsufficientCapacity, out)"
  "length out < 92 \<Longrightarrow> SerializeHandshakeResponse out m2 = (PE_InsufficientCapacity, out)"
  "length out < 64 \<Longrightarrow> SerializeHandshakeCookie out m3 = (PE_InsufficientCapacity, out)"
  "length out < 16 \<Longrightarrow> SerializeTransportDataHeader out m4 = (PE_InsufficientCapacity, out)"
  by (simp_all add: SerializeHandshakeInitiation_def SerializeHandshakeResponse_def
      SerializeHandshakeCookie_def SerializeTransportDataHeader_def ValidateSerializeTarget_def
      run_writes_error)

text \<open>What a parser leaves in its out-parameter when the datagram has the right type and length.\<close>

lemma ParseHandshakeInitiation_eq:
  assumes "pr_success (ValidatePacket p MT_HandshakeInitiation 148 True)"
  shows "ParseHandshakeInitiation p m0 = (MakeSuccess MT_HandshakeInitiation,
    m0\<lparr>hi_type := LoadLe32 p, hi_sender_index := LoadLe32 (drop 4 p),
       hi_unencrypted_ephemeral := subspan 8 32 p, hi_encrypted_static := subspan 40 48 p,
       hi_encrypted_timestamp := subspan 88 28 p,
       hi_macs := (hi_macs m0)\<lparr>mac1 := subspan 116 16 p, mac2 := subspan 132 16 p\<rparr>\<rparr>)"
  unfolding ParseHandshakeInitiation_def ValidatePacket_success(2)[OF _ _ assms, simplified]
  using assms by (intro run_reads_ok) (simp add: steps_simps ValidatePacket_success)

lemma ParseHandshakeResponse_eq:
  assumes "pr_success (ValidatePacket p MT_HandshakeResponse 92 True)"
  shows "ParseHandshakeResponse p m0 = (MakeSuccess MT_HandshakeResponse,
    m0\<lparr>hr_type := LoadLe32 p, hr_sender_index := LoadLe32 (drop 4 p),
       hr_receiver_index := LoadLe32 (drop 8 p),
       hr_unencrypted_ephemeral := subspan 12 32 p, hr_encrypted_nothing := subspan 44 16 p,
       hr_macs := (hr_macs m0)\<lparr>mac1 := subspan 60 16 p, mac2 := subspan 76 16 p\<rparr>\<rparr>)"
  unfolding ParseHandshakeResponse_def ValidatePacket_success(2)[OF _ _ assms, simplified]
  using assms by (intro run_reads_ok) (simp add: steps_simps ValidatePacket_success)

lemma ParseHandshakeCookie_eq:
  assumes "pr_success (ValidatePacket p MT_CookieReply 64 True)"
  shows "ParseHandshakeCookie p m0 = (MakeSuccess MT_CookieReply,
    m0\<lparr>hc_type := LoadLe32 p, hc_receiver_index := LoadLe32 (drop 4 p),
       hc_nonce := subspan 8 24 p, hc_encrypted_cookie := subspan 32 32 p\<rparr>)"
  unfolding ParseHandshakeCookie_def ValidatePacket_success(2)[OF _ _ assms, simplified]
  using assms by (intro run_reads_ok) (simp add: steps_simps ValidatePacket_success)

lemma ParseTransportDataHeader_eq:
  assumes "pr_success (ValidatePacket p MT_TransportData 16 False)"
  shows "ParseTransportDataHeader p m0 = (MakeSuccess MT_TransportData,
    m0\<lparr>td_type := LoadLe32 p, td_receiver_index := LoadLe32 (drop 4 p),
       td_counter := LoadLe64 (drop 8 p)\<rparr>)"
proof -
  have "16 \<le> length p" using assms by (simp add: ValidatePacket_success)
  then show ?thesis
    unfolding ParseTransportDataHeader_def ValidatePacket_success(2)[OF _ _ assms, simplified]
    by (intro run_reads_ok) (simp add: steps_simps)
qed

lemma parse_rejected:
  "\<not> pr_success (ValidatePacket p MT_HandshakeInitiation 148 True) \<Longrightarrow>
    ParseHandshakeInitiation p m1 = (ValidatePacket p MT_HandshakeInitiation 148 True, m1)"
  "\<not> pr_success (ValidatePacket p MT_HandshakeResponse 92 True) \<Longrightarrow>
    ParseHandshakeResponse p m2 = (ValidatePacket p MT_HandshakeResponse 92 True, m2)"
  "\<not> pr_success (ValidatePacket p MT_CookieReply 64 True) \<Longrightarrow>
    ParseHandshakeCookie p m3 = (ValidatePacket p MT_CookieReply 64 True, m3)"
  "\<not> pr_success (ValidatePacket p MT_TransportData 16 False) \<Longrightarrow>
    ParseTransportDataHeader p m4 = (ValidatePacket p MT_TransportData 16 False, m4)"
  by (simp_all add: ParseHandshakeInitiation_def ParseHandshakeResponse_def
      ParseHandshakeCookie_def ParseTransportDataHeader_def run_reads_failed)

lemma parse_success_iff:
  "pr_success (fst (ParseHandshakeInitiation p m1)) \<longleftrightarrow>
    pr_success (ValidatePacket p MT_HandshakeInitiation 148 True)"
  "pr_success (fst (ParseHandshakeResponse p m2)) \<longleftrightarrow>
    pr_success (ValidatePacket p MT_HandshakeResponse 92 True)"
  "pr_success (fst (ParseHandshakeCookie p m3)) \<longleftrightarrow>
    pr_success (ValidatePacket p MT_CookieReply 64 True)"
  "pr_success (fst (ParseTransportDataHeader p m4)) \<longleftrightarrow>
    pr_success (ValidatePacket p MT_TransportData 16 False)"
  by (metis MakeSuccess_sel(1) ParseHandshakeInitiation_eq ParseHandshakeResponse_eq
      ParseHandshakeCookie_eq ParseTransportDataHeader_eq fst_conv parse_rejected)+

lemmas parse_eqs = ParseHandshakeInitiation_eq ParseHandshakeResponse_eq ParseHandshakeCookie_eq
  ParseTransportDataHeader_eq

lemma drop_take_subspan: "drop k (take (k + n) p) = subspan k n p"
  by (simp add: subspan_def drop_take)

text \<open>Splitting a datagram into its fields.\<close>

lemma split_packet: "n \<le> length p \<Longrightarrow> drop k p = subspan k n p @ drop (k + n) p"
  by (metis add.commute append_take_drop_id drop_drop subspan_def)

lemma StoreLe32_field: "k + 4 \<le> length p \<Longrightarrow> StoreLe32 (LoadLe32 (drop k p)) = subspan k 4 p"
  by (metis LoadLe32_take StoreLe32_LoadLe32 length_subspan order_refl subspan_def)

lemma StoreLe64_field: "k + 8 \<le> length p \<Longrightarrow> StoreLe64 (LoadLe64 (drop k p)) = subspan k 8 p"
  by (metis LoadLe64_take StoreLe64_LoadLe64 length_subspan order_refl subspan_def)

lemma fields_join:
  "subspan 0 n p = take n p"
  "k + n = l \<Longrightarrow> subspan k n p @ subspan l n' p = subspan k (n + n') p"
  "k + n = l \<Longrightarrow> subspan k n p @ subspan l n' p @ rest = subspan k (n + n') p @ rest"
  "k + n = l \<Longrightarrow> subspan k n p @ drop l p = drop k p"
  "k + n = l \<Longrightarrow> take k p @ subspan k n p = take l p"
  "k + n = l \<Longrightarrow> take k p @ subspan k n p @ rest = take l p @ rest"
  by (auto simp: subspan_def take_add add.commute simp flip: drop_drop)
    (metis add.commute append_take_drop_id drop_drop)+

interpretation initiation: wire_codec wire_initiation SerializeHandshakeInitiation
  ParseHandshakeInitiation wf_initiation 148 MT_HandshakeInitiation True
proof (unfold_locales, goal_cases)
  case (1 m)
  then show ?case by (rule encode_lengths)
next
  case (2 m out)
  then show ?case by (rule SerializeHandshakeInitiation_wf)
next
  case (3 out m)
  then show ?case by (rule serialize_short_buffer)
next
  case (4 m rest m0)
  then show ?case
    by (subst ParseHandshakeInitiation_eq)
      (simp_all add: ValidatePacket_success encode_lengths wf_defs,
       simp_all add: wire_initiation_def wf_defs subspan_def)
next
  case (5 p m0 r m)
  then have v: "pr_success (ValidatePacket p MT_HandshakeInitiation 148 True)"
    using parse_success_iff(1)[of p m0] by simp
  then have "length p = 148" "LoadLe32 p = 1" by (simp_all add: ValidatePacket_success)
  with 5 show ?case
    using StoreLe32_field[of 0 p] StoreLe32_field[of 4 p]
    by (auto simp: ParseHandshakeInitiation_eq[OF v] wf_defs wire_initiation_def fields_join)
next
  case (6 p m0 r m)
  then show ?case using parse_success_iff(1)[of p m0] parse_rejected(1)[of p m0] by simp
qed

interpretation response: wire_codec wire_response SerializeHandshakeResponse
  ParseHandshakeResponse wf_response 92 MT_HandshakeResponse True
proof (unfold_locales, goal_cases)
  case (1 m)
  then show ?case by (rule encode_lengths)
next
  case (2 m out)
  then show ?case by (rule SerializeHandshakeResponse_wf)
next
  case (3 out m)
  then show ?case by (rule serialize_short_buffer)
next
  case (4 m rest m0)
  then show ?case
    by (subst ParseHandshakeResponse_eq)
      (simp_all add: ValidatePacket_success encode_lengths wf_defs,
       simp_all add: wire_response_def wf_defs subspan_def)
next
  case (5 p m0 r m)
  then have v: "pr_success (ValidatePacket p MT_HandshakeResponse 92 True)"
    using parse_success_iff(2)[of p m0] by simp
  then have "length p = 92" "LoadLe32 p = 2" by (simp_all add: ValidatePacket_success)
  with 5 show ?case
    using StoreLe32_field[of 0 p] StoreLe32_field[of 4 p] StoreLe32_field[of 8 p]
    by (auto simp: ParseHandshakeResponse_eq[OF v] wf_defs wire_response_def fields_join)
next
  case (6 p m0 r m)
  then show ?case using parse_success_iff(2)[of p m0] parse_rejected(2)[of p m0] by simp
qed

interpretation cookie: wire_codec wire_cookie SerializeHandshakeCookie
  ParseHandshakeCookie wf_cookie 64 MT_CookieReply True
proof (unfold_locales, goal_cases)
  case (1 m)
  then show ?case by (rule encode_lengths)
next
  case (2 m out)
  then show ?case by (rule SerializeHandshakeCookie_wf)
next
  case (3 out m)
  then show ?case by (rule serialize_short_buffer)
next
  case (4 m rest m0)
  then show ?case
    by (subst ParseHandshakeCookie_eq)
      (simp_all add: ValidatePacket_success encode_lengths wf_defs,
       simp_all add: wire_cookie_def wf_defs subspan_def)
next
  case (5 p m0 r m)
  then have v: "pr_success (ValidatePacket p MT_CookieReply 64 True)"
    using parse_success_iff(3)[of p m0] by simp
  then have "length p = 64" "LoadLe32 p = 3" by (simp_all add: ValidatePacket_success)
  with 5 show ?case
    using StoreLe32_field[of 0 p] StoreLe32_field[of 4 p]
    by (auto simp: ParseHandshakeCookie_eq[OF v] wf_defs wire_cookie_def fields_join)
next
  case (6 p m0 r m)
  then show ?case using parse_success_iff(3)[of p m0] parse_rejected(3)[of p m0] by simp
qed

interpretation transport: wire_codec wire_transport SerializeTransportDataHeader
  ParseTransportDataHeader wf_transport 16 MT_TransportData False
proof (unfold_locales, goal_cases)
  case (1 m)
  then show ?case by (rule encode_lengths)
next
  case (2 m out)
  then show ?case by (rule SerializeTransportDataHeader_wf)
next
  case (3 out m)
  then show ?case by (rule serialize_short_buffer)
next
  case (4 m rest m0)
  then show ?case
    by (subst ParseTransportDataHeader_eq)
      (simp_all add: ValidatePacket_success encode_lengths wf_defs,
       simp_all add: wire_transport_def wf_defs subspan_def)
next
  case (5 p m0 r m)
  then have v: "pr_success (ValidatePacket p MT_TransportData 16 False)"
    using parse_success_iff(4)[of p m0] by simp
  then have "16 \<le> length p" "LoadLe32 p = 4" by (simp_all add: ValidatePacket_success)
  with 5 show ?case
    using StoreLe32_field[of 0 p] StoreLe32_field[of 4 p] StoreLe64_field[of 8 p]
    by (auto simp: ParseTransportDataHeader_eq[OF v] wf_defs wire_transport_def fields_join)
next
  case (6 p m0 r m)
  then show ?case using parse_success_iff(4)[of p m0] parse_rejected(4)[of p m0] by simp
qed

subsection \<open>Properties\<close>

text \<open>C33: Round trip. Each of the four serialisers, given a well-formed message and a buffer that is long
  enough, writes exactly the message's bytes and nothing behind them, and the matching parser reads
  that prefix back to the same message, whatever its out-parameter held before.\<close>

theorem message_roundtrip:
  assumes "wf_initiation m1" "wf_response m2" "wf_cookie m3" "wf_transport m4"
    and "148 \<le> length out"
  shows "(let out1 = snd (SerializeHandshakeInitiation out m1) in
        ParseHandshakeInitiation (take 148 out1) n1 = (MakeSuccess MT_HandshakeInitiation, m1) \<and>
        drop 148 out1 = drop 148 out) \<and>
      (let out2 = snd (SerializeHandshakeResponse out m2) in
        ParseHandshakeResponse (take 92 out2) n2 = (MakeSuccess MT_HandshakeResponse, m2) \<and>
        drop 92 out2 = drop 92 out) \<and>
      (let out3 = snd (SerializeHandshakeCookie out m3) in
        ParseHandshakeCookie (take 64 out3) n3 = (MakeSuccess MT_CookieReply, m3) \<and>
        drop 64 out3 = drop 64 out) \<and>
      (let out4 = snd (SerializeTransportDataHeader out m4) in
        ParseTransportDataHeader out4 n4 = (MakeSuccess MT_TransportData, m4) \<and>
        drop 16 out4 = drop 16 out)"
  using assms initiation.parse_encode[of m1 "[]" n1] response.parse_encode[of m2 "[]" n2]
    cookie.parse_encode[of m3 "[]" n3] transport.parse_encode[of m4 "drop 16 out" n4]
  by (simp add: initiation.serialize_wf response.serialize_wf cookie.serialize_wf
      transport.serialize_wf encode_lengths)

theorem message_roundtrip_witness:
  "wf_initiation (zero_initiation\<lparr>hi_type := 1, hi_sender_index := 7\<rparr>) \<and>
   (let out1 = snd (SerializeHandshakeInitiation (zeros 200) (zero_initiation\<lparr>hi_type := 1, hi_sender_index := 7\<rparr>)) in
    ParseHandshakeInitiation (take 148 out1) zero_initiation =
      (MakeSuccess MT_HandshakeInitiation, zero_initiation\<lparr>hi_type := 1, hi_sender_index := 7\<rparr>))"
proof -
  have w: "wf_initiation (zero_initiation\<lparr>hi_type := 1, hi_sender_index := 7\<rparr>)"
    "wf_response (zero_response\<lparr>hr_type := 2\<rparr>)" "wf_cookie (zero_cookie_reply\<lparr>hc_type := 3\<rparr>)"
    "wf_transport (zero_transport_data\<lparr>td_type := 4\<rparr>)"
    by (simp_all add: wf_defs zero_initiation_def zero_response_def zero_cookie_reply_def
        zero_transport_data_def zero_macs_def)
  show ?thesis
    using w(1) message_roundtrip[OF w, of "zeros 200" zero_initiation] by (simp add: Let_def)
qed

text \<open>C34: Parsing is exact. A datagram that a parser accepts is, byte for byte, the serialisation of the
  message it delivered (followed, for transport data only, by the payload), the message is well formed,
  and a rejected datagram leaves the out-parameter untouched.\<close>

theorem parse_exact:
  "(case ParseHandshakeInitiation p n1 of (r, m) \<Rightarrow>
      if pr_success r then wf_initiation m \<and> p = wire_initiation m else m = n1) \<and>
   (case ParseHandshakeResponse p n2 of (r, m) \<Rightarrow>
      if pr_success r then wf_response m \<and> p = wire_response m else m = n2) \<and>
   (case ParseHandshakeCookie p n3 of (r, m) \<Rightarrow>
      if pr_success r then wf_cookie m \<and> p = wire_cookie m else m = n3) \<and>
   (case ParseTransportDataHeader p n4 of (r, m) \<Rightarrow>
      if pr_success r then wf_transport m \<and> p = wire_transport m @ drop 16 p else m = n4)"
  by (intro conjI case_prodI2; drule initiation.parse_cases response.parse_cases
      cookie.parse_cases transport.parse_cases; simp only: if_True if_False append_Nil2)

text \<open>Dispatch. A datagram that dispatch reports as accepted is the serialisation of exactly one
  message and only the handler for that kind ran, on that message (and, for transport data, on the
  bytes behind the header); a missing handler is skipped; a datagram that is rejected runs no
  handler at all.\<close>

theorem dispatch_spec:
  "case DispatchPacket p h c of (r, c') \<Rightarrow>
     if pr_success r then
       (\<exists>m. wf_initiation m \<and> p = wire_initiation m \<and> r = MakeSuccess MT_HandshakeInitiation \<and>
          c' = (case on_handshake_initiation h of None \<Rightarrow> c | Some f \<Rightarrow> f c m)) \<or>
       (\<exists>m. wf_response m \<and> p = wire_response m \<and> r = MakeSuccess MT_HandshakeResponse \<and>
          c' = (case on_handshake_response h of None \<Rightarrow> c | Some f \<Rightarrow> f c m)) \<or>
       (\<exists>m. wf_cookie m \<and> p = wire_cookie m \<and> r = MakeSuccess MT_CookieReply \<and>
          c' = (case on_cookie_reply h of None \<Rightarrow> c | Some f \<Rightarrow> f c m)) \<or>
       (\<exists>m. wf_transport m \<and> p = wire_transport m @ drop 16 p \<and> r = MakeSuccess MT_TransportData \<and>
          c' = (case on_transport_data h of None \<Rightarrow> c | Some f \<Rightarrow> f c m (drop 16 p)))
     else c' = c"
proof (cases "pr_success (InspectMessageType p)")
  case False
  then show ?thesis by (simp add: DispatchPacket_def)
next
  case True
  let ?t = "pr_type (InspectMessageType p)"
  have "?t = MT_HandshakeInitiation \<or> ?t = MT_HandshakeResponse \<or> ?t = MT_CookieReply \<or>
      ?t = MT_TransportData"
    using True by (auto simp: InspectMessageType_type InspectMessageType_success)
  then show ?thesis
  proof (elim disjE)
    assume "?t = MT_HandshakeInitiation"
    moreover obtain r m where "ParseHandshakeInitiation p zero_initiation = (r, m)" by fastforce
    ultimately show ?thesis
      using True initiation.parse_cases[of p zero_initiation r m]
        initiation.parse_sound[of p zero_initiation r m]
      by (cases "on_handshake_initiation h") (auto simp: DispatchPacket_def)
  next
    assume "?t = MT_HandshakeResponse"
    moreover obtain r m where "ParseHandshakeResponse p zero_response = (r, m)" by fastforce
    ultimately show ?thesis
      using True response.parse_cases[of p zero_response r m]
        response.parse_sound[of p zero_response r m]
      by (cases "on_handshake_response h") (auto simp: DispatchPacket_def)
  next
    assume "?t = MT_CookieReply"
    moreover obtain r m where "ParseHandshakeCookie p zero_cookie_reply = (r, m)" by fastforce
    ultimately show ?thesis
      using True cookie.parse_cases[of p zero_cookie_reply r m]
        cookie.parse_sound[of p zero_cookie_reply r m]
      by (cases "on_cookie_reply h") (auto simp: DispatchPacket_def)
  next
    assume "?t = MT_TransportData"
    moreover obtain r m where "ParseTransportDataHeader p zero_transport_data = (r, m)" by fastforce
    ultimately show ?thesis
      using True transport.parse_cases[of p zero_transport_data r m]
        transport.parse_sound[of p zero_transport_data r m]
      by (cases "on_transport_data h") (auto simp: DispatchPacket_def)
  qed
qed

end
