(* ===== verification/WG_Crypto.thy ===== *)
theory WG_Crypto
  imports WG_Prelude
begin

text \<open>
  The crypto wrappers of \<open>wireguard/crypto/primitives.hpp\<close> and \<open>primitives.cpp\<close>, over the vendored
  BLAKE2s and Monocypher, and the platform services the protocol core calls.

  The vendored C code is a parameter: \<open>crypto_backend\<close> collects the functions the wrappers call. The
  streaming BLAKE2s interface (\<open>blake2s_init\<close>, \<open>blake2s_update\<close>, \<open>blake2s_final\<close>) is given by the digest
  of the concatenated input, which is what the streaming interface documents. \<open>crypto_laws\<close> states the
  documented behaviour that theorems about whole exchanges rely on. \<open>platform\<close> collects the clock
  and random sources over an arbitrary world state \<open>'w\<close>, so that two reads of a clock may differ.
\<close>

subsection \<open>Parameters\<close>

record crypto_backend =
  be_blake2s :: "nat \<Rightarrow> byte list \<Rightarrow> byte list \<Rightarrow> byte list"
    \<comment> \<open>digest size, key, data\<close>
  be_aead_write_ietf :: "byte list \<Rightarrow> byte list \<Rightarrow> byte list \<Rightarrow> byte list \<Rightarrow> byte list \<times> byte list"
    \<comment> \<open>key, nonce, additional data, plain text; cipher text and tag\<close>
  be_aead_read_ietf ::
    "byte list \<Rightarrow> byte list \<Rightarrow> byte list \<Rightarrow> byte list \<Rightarrow> byte list \<Rightarrow> byte list option"
    \<comment> \<open>key, nonce, tag, additional data, cipher text\<close>
  be_aead_write_x :: "byte list \<Rightarrow> byte list \<Rightarrow> byte list \<Rightarrow> byte list \<Rightarrow> byte list \<times> byte list"
  be_aead_read_x ::
    "byte list \<Rightarrow> byte list \<Rightarrow> byte list \<Rightarrow> byte list \<Rightarrow> byte list \<Rightarrow> byte list option"
  be_x25519 :: "byte list \<Rightarrow> byte list \<Rightarrow> byte list"
  be_x25519_public_key :: "byte list \<Rightarrow> byte list"

record 'w platform =
  ktime_get_coarse_boottime_ns :: "'w \<Rightarrow> int \<times> 'w"
  ktime_get_real_ts64 :: "'w \<Rightarrow> (int \<times> int) \<times> 'w"
  get_random_bytes :: "nat \<Rightarrow> 'w \<Rightarrow> byte list \<times> 'w"
  get_random_u32 :: "'w \<Rightarrow> u32 \<times> 'w"

subsection \<open>Clearing and comparing\<close>

definition secure_clear :: "byte list \<Rightarrow> byte list" where
  "secure_clear bytes = zeros (length bytes)"

definition secure_equal :: "byte list \<Rightarrow> byte list \<Rightarrow> bool" where
  "secure_equal lhs rhs \<longleftrightarrow> length lhs = length rhs \<and> (lhs = [] \<or> lhs = rhs)"

subsection \<open>BLAKE2s\<close>

abbreviation (input) Blake2sBlockSize :: nat where "Blake2sBlockSize \<equiv> 64"
abbreviation (input) Blake2sHashSize :: nat where "Blake2sHashSize \<equiv> 32"
abbreviation (input) Blake2sKeySize :: nat where "Blake2sKeySize \<equiv> 32"

record Blake2sHasher =
  bh_key :: "byte list"
  bh_data :: "byte list"
  bh_digest_size :: nat
  bh_initialized :: bool
  bh_finalized :: bool

definition Blake2sHasher_init :: Blake2sHasher where
  "Blake2sHasher_init =
     \<lparr>bh_key = [], bh_data = [], bh_digest_size = 0, bh_initialized = False, bh_finalized = False\<rparr>"

definition Blake2sHasher_Reset :: "Blake2sHasher \<Rightarrow> Blake2sHasher" where
  "Blake2sHasher_Reset h = Blake2sHasher_init"

definition InitializeDigest :: "nat \<Rightarrow> byte list \<Rightarrow> Blake2sHasher step" where
  "InitializeDigest digest_size key h =
     (let h = Blake2sHasher_Reset h in
      if digest_size = 0 \<or> digest_size > Blake2sHashSize \<or> length key > Blake2sKeySize then (False, h)
      else (True, h\<lparr>bh_key := key, bh_digest_size := digest_size, bh_initialized := True\<rparr>))"

definition Blake2s_Update :: "byte list \<Rightarrow> Blake2sHasher step" where
  "Blake2s_Update data h =
     (if \<not> bh_initialized h \<or> bh_finalized h then (False, h)
      else (True, h\<lparr>bh_data := bh_data h @ data\<rparr>))"

text \<open>\<open>Final\<close> with an output array of \<open>n\<close> bytes; on failure the array is cleared.\<close>

definition Blake2s_Final ::
  "crypto_backend \<Rightarrow> nat \<Rightarrow> Blake2sHasher \<Rightarrow> (bool \<times> byte list) \<times> Blake2sHasher" where
  "Blake2s_Final be n h =
     (if \<not> bh_initialized h \<or> bh_finalized h \<or> n \<noteq> bh_digest_size h then ((False, zeros n), h)
      else ((True, be_blake2s be (bh_digest_size h) (bh_key h) (bh_data h)),
            (Blake2sHasher_Reset h)\<lparr>bh_finalized := True\<rparr>))"

text \<open>Initialise, update with each piece, finish: the pattern of every hash in the sources, with the
  failure of any part reported as \<open>False\<close>. \<open>old\<close> is the output array before the call, which is
  written only by \<open>Final\<close>.\<close>

definition hash_pieces ::
  "crypto_backend \<Rightarrow> nat \<Rightarrow> byte list \<Rightarrow> byte list list \<Rightarrow> byte list \<Rightarrow> bool \<times> byte list" where
  "hash_pieces be n key pieces old =
     (case all_steps (InitializeDigest n key # map Blake2s_Update pieces) Blake2sHasher_init of
        (ok, h) \<Rightarrow> if ok then fst (Blake2s_Final be n h) else (False, old))"

definition Blake2sHash ::
  "crypto_backend \<Rightarrow> nat \<Rightarrow> byte list \<Rightarrow> byte list \<Rightarrow> bool \<times> byte list" where
  "Blake2sHash be n data key =
     (case hash_pieces be n key [data] (zeros n) of
        (ok, out) \<Rightarrow> if ok then (True, out) else (False, zeros n))"

definition Blake2sHmac :: "crypto_backend \<Rightarrow> byte list \<Rightarrow> byte list \<Rightarrow> bool \<times> byte list" where
  "Blake2sHmac be key data =
     (let normalized =
            (if length key > Blake2sBlockSize then
               (case Blake2sHash be Blake2sHashSize key [] of
                  (ok, h) \<Rightarrow> if ok then Some (put_bytes 0 h (zeros Blake2sBlockSize)) else None)
             else Some (put_bytes 0 key (zeros Blake2sBlockSize)))
      in case normalized of
           None \<Rightarrow> (False, zeros Blake2sHashSize)
         | Some k \<Rightarrow>
             (let inner_pad = map (\<lambda>b. b XOR 0x36) k; outer_pad = map (\<lambda>b. b XOR 0x5C) k in
              case hash_pieces be Blake2sHashSize [] [inner_pad, data] (zeros Blake2sHashSize) of
                (False, _) \<Rightarrow> (False, zeros Blake2sHashSize)
              | (True, inner_hash) \<Rightarrow>
                  (case hash_pieces be Blake2sHashSize [] [outer_pad, inner_hash]
                          (zeros Blake2sHashSize) of
                     (ok, out) \<Rightarrow> if ok then (True, out) else (False, zeros Blake2sHashSize))))"

subsection \<open>Authenticated encryption and key agreement\<close>

text \<open>Encryption into a span of \<open>n\<close> bytes: \<open>None\<close> is \<open>false\<close> with nothing written.\<close>

definition chacha20poly1305_encrypt ::
  "crypto_backend \<Rightarrow> nat \<Rightarrow> byte list \<Rightarrow> byte list \<Rightarrow> byte list \<Rightarrow> byte list \<Rightarrow>
   (byte list \<times> byte list) option" where
  "chacha20poly1305_encrypt be n plaintext aad key nonce =
     (if n \<noteq> length plaintext then None else Some (be_aead_write_ietf be key nonce aad plaintext))"

definition chacha20poly1305_decrypt ::
  "crypto_backend \<Rightarrow> byte list \<Rightarrow> byte list \<Rightarrow> byte list \<Rightarrow> byte list \<Rightarrow> byte list \<Rightarrow> byte list \<Rightarrow>
   bool \<times> byte list" where
  "chacha20poly1305_decrypt be out ciphertext tag aad key nonce =
     (if length out \<noteq> length ciphertext then (False, out)
      else case be_aead_read_ietf be key nonce tag aad ciphertext of
             Some plaintext \<Rightarrow> (True, plaintext)
           | None \<Rightarrow> (False, secure_clear out))"

definition xchacha20poly1305_encrypt ::
  "crypto_backend \<Rightarrow> nat \<Rightarrow> byte list \<Rightarrow> byte list \<Rightarrow> byte list \<Rightarrow> byte list \<Rightarrow>
   (byte list \<times> byte list) option" where
  "xchacha20poly1305_encrypt be n plaintext aad key nonce =
     (if n \<noteq> length plaintext then None else Some (be_aead_write_x be key nonce aad plaintext))"

definition xchacha20poly1305_decrypt ::
  "crypto_backend \<Rightarrow> byte list \<Rightarrow> byte list \<Rightarrow> byte list \<Rightarrow> byte list \<Rightarrow> byte list \<Rightarrow> byte list \<Rightarrow>
   bool \<times> byte list" where
  "xchacha20poly1305_decrypt be out ciphertext tag aad key nonce =
     (if length out \<noteq> length ciphertext then (False, out)
      else case be_aead_read_x be key nonce tag aad ciphertext of
             Some plaintext \<Rightarrow> (True, plaintext)
           | None \<Rightarrow> (False, secure_clear out))"

definition x25519 :: "crypto_backend \<Rightarrow> byte list \<Rightarrow> byte list \<Rightarrow> bool \<times> byte list" where
  "x25519 be scalar point =
     (let out = be_x25519 be scalar point in
      if list_all (\<lambda>b. b = 0) out then (False, secure_clear out) else (True, out))"

definition x25519_public_key :: "crypto_backend \<Rightarrow> byte list \<Rightarrow> bool \<times> byte list" where
  "x25519_public_key be private_key = (True, be_x25519_public_key be private_key)"

subsection \<open>Documented behaviour of the parameters\<close>

definition aead_laws ::
  "(byte list \<Rightarrow> byte list \<Rightarrow> byte list \<Rightarrow> byte list \<Rightarrow> byte list \<times> byte list) \<Rightarrow>
   (byte list \<Rightarrow> byte list \<Rightarrow> byte list \<Rightarrow> byte list \<Rightarrow> byte list \<Rightarrow> byte list option) \<Rightarrow> bool" where
  "aead_laws wr rd \<longleftrightarrow>
     (\<forall>key nonce aad p. case wr key nonce aad p of (c, t) \<Rightarrow>
        length c = length p \<and> length t = 16 \<and> rd key nonce t aad c = Some p) \<and>
     (\<forall>key nonce t aad c p. rd key nonce t aad c = Some p \<longrightarrow> length p = length c)"

definition crypto_laws :: "crypto_backend \<Rightarrow> bool" where
  "crypto_laws be \<longleftrightarrow>
     aead_laws (be_aead_write_ietf be) (be_aead_read_ietf be) \<and>
     aead_laws (be_aead_write_x be) (be_aead_read_x be) \<and>
     (\<forall>n k d. length (be_blake2s be n k d) = n) \<and>
     (\<forall>a p. length (be_x25519 be a p) = 32) \<and>
     (\<forall>a. length (be_x25519_public_key be a) = 32) \<and>
     (\<forall>a b. be_x25519 be a (be_x25519_public_key be b) = be_x25519 be b (be_x25519_public_key be a))"

definition platform_laws :: "'w platform \<Rightarrow> bool" where
  "platform_laws pf \<longleftrightarrow> (\<forall>n w. length (fst (get_random_bytes pf n w)) = n)"

text \<open>An instance of the parameters, for concrete examples: it satisfies the laws.\<close>

definition example_backend :: crypto_backend where
  "example_backend =
     \<lparr>be_blake2s = (\<lambda>n k d. replicate n (of_nat (length d))),
      be_aead_write_ietf = (\<lambda>key nonce aad p. (p, zeros 16)),
      be_aead_read_ietf = (\<lambda>key nonce t aad c. if t = zeros 16 then Some c else None),
      be_aead_write_x = (\<lambda>key nonce aad p. (p, zeros 16)),
      be_aead_read_x = (\<lambda>key nonce t aad c. if t = zeros 16 then Some c else None),
      be_x25519 = (\<lambda>a p. replicate 32 1),
      be_x25519_public_key = (\<lambda>a. replicate 32 2)\<rparr>"

text \<open>Example world: a clock that advances by one second per read.\<close>

definition example_platform :: "int platform" where
  "example_platform =
     \<lparr>ktime_get_coarse_boottime_ns = (\<lambda>w. (w, w + 1000000000)),
      ktime_get_real_ts64 = (\<lambda>w. ((w, 0), w)),
      get_random_bytes = (\<lambda>n w. (replicate n 5, w)),
      get_random_u32 = (\<lambda>w. (7, w))\<rparr>"

subsection \<open>Lemmas\<close>

lemma secure_clear_zeros [simp]: "secure_clear (zeros n) = zeros n"
  by (simp add: secure_clear_def)

lemma length_secure_clear [simp, wf_simps]: "length (secure_clear xs) = length xs"
  by (simp add: secure_clear_def)

lemma secure_equal_iff [simp]: "secure_equal lhs rhs \<longleftrightarrow> lhs = rhs"
  by (auto simp: secure_equal_def)

lemma update_steps:
  "bh_initialized h \<Longrightarrow> \<not> bh_finalized h \<Longrightarrow>
   all_steps (map Blake2s_Update pieces) h = (True, h\<lparr>bh_data := bh_data h @ concat pieces\<rparr>)"
  by (induction pieces arbitrary: h) (simp_all add: Blake2s_Update_def)

text \<open>A streamed hash of pieces is the digest of their concatenation.\<close>

lemma hash_pieces_eq:
  assumes "0 < n" "n \<le> 32" "length key \<le> 32"
  shows "hash_pieces be n key pieces old = (True, be_blake2s be n key (concat pieces))"
  using assms
  by (simp add: hash_pieces_def InitializeDigest_def Blake2sHasher_Reset_def Blake2sHasher_init_def
      update_steps Blake2s_Final_def)

lemma Blake2sHash_eq:
  "0 < n \<Longrightarrow> n \<le> 32 \<Longrightarrow> length key \<le> 32 \<Longrightarrow> Blake2sHash be n data key = (True, be_blake2s be n key data)"
  by (simp add: Blake2sHash_def hash_pieces_eq)

lemma Blake2sHash_long_key:
  "32 < length key \<Longrightarrow> Blake2sHash be n data key = (False, zeros n)"
  by (simp add: Blake2sHash_def hash_pieces_def InitializeDigest_def)

text \<open>HMAC as RFC 2104 writes it, over the backend's BLAKE2s.\<close>

definition hmac_spec :: "crypto_backend \<Rightarrow> byte list \<Rightarrow> byte list \<Rightarrow> byte list" where
  "hmac_spec be key data =
     (let k0 = (if length key > 64 then be_blake2s be 32 [] key else key);
          k = k0 @ zeros (64 - length k0);
          H = be_blake2s be 32 []
      in H (map (\<lambda>b. b XOR 0x5C) k @ H (map (\<lambda>b. b XOR 0x36) k @ data)))"

lemma Blake2sHmac_eq:
  "(\<And>n k d. length (be_blake2s be n k d) = n) \<Longrightarrow> Blake2sHmac be key data = (True, hmac_spec be key data)"
  by (simp add: Blake2sHmac_def hmac_spec_def hash_pieces_eq Blake2sHash_eq put_bytes_0 Let_def)

lemma aead_lawsD:
  assumes "aead_laws wr rd"
  shows "wr key nonce aad pt = (c, t) \<Longrightarrow>
      length c = length pt \<and> length t = 16 \<and> rd key nonce t aad c = Some pt"
    and "rd key nonce t aad c = Some pt \<Longrightarrow> length pt = length c"
proof -
  have w: "case wr key nonce aad pt of (c, t) \<Rightarrow>
      length c = length pt \<and> length t = 16 \<and> rd key nonce t aad c = Some pt"
    using assms unfolding aead_laws_def by (elim conjE allE)
  show "wr key nonce aad pt = (c, t) \<Longrightarrow>
      length c = length pt \<and> length t = 16 \<and> rd key nonce t aad c = Some pt"
    using w by simp
  show "rd key nonce t aad c = Some pt \<Longrightarrow> length pt = length c"
    using assms unfolding aead_laws_def by blast
qed

lemma crypto_laws_aead:
  assumes "crypto_laws be"
  shows "aead_laws (be_aead_write_ietf be) (be_aead_read_ietf be)"
    and "aead_laws (be_aead_write_x be) (be_aead_read_x be)"
  using assms by (simp_all only: crypto_laws_def)

lemma crypto_lawsD:
  assumes "crypto_laws be"
  shows "length (be_blake2s be n k d) = n"
    and "length (be_x25519 be a p) = 32"
    and "length (be_x25519_public_key be a) = 32"
  using assms by (simp_all only: crypto_laws_def)

lemma crypto_laws_dh:
  assumes "crypto_laws be"
  shows "be_x25519 be a (be_x25519_public_key be b) = be_x25519 be b (be_x25519_public_key be a)"
  using assms unfolding crypto_laws_def by blast

lemmas ietf_laws = aead_lawsD[OF crypto_laws_aead(1)]
lemmas xaead_laws = aead_lawsD[OF crypto_laws_aead(2)]

lemma length_hmac_spec: "crypto_laws be \<Longrightarrow> length (hmac_spec be key data) = 32"
  by (simp add: hmac_spec_def Let_def crypto_lawsD)

lemma crypto_laws_example: "crypto_laws example_backend"
  by (simp add: crypto_laws_def aead_laws_def example_backend_def)

lemma platform_laws_example: "platform_laws example_platform"
  by (simp add: platform_laws_def example_platform_def)

text \<open>C36: HMAC. With digests of the advertised length, \<open>Blake2sHmac\<close> computes HMAC-BLAKE2s as RFC 2104
  defines it, for keys of any length, and never reports a failure.\<close>

theorem Blake2sHmac_rfc2104:
  assumes "crypto_laws be"
  shows "Blake2sHmac be key data = (True, hmac_spec be key data)"
  by (rule Blake2sHmac_eq) (rule crypto_lawsD(1)[OF assms])

theorem Blake2sHmac_rfc2104_witness:
  "Blake2sHmac example_backend (replicate 70 3) [1, 2] =
     (True, hmac_spec example_backend (replicate 70 3) [1, 2])"
  by (rule Blake2sHmac_rfc2104[OF crypto_laws_example])

end
