(* ===== verification/WG_Keys.thy ===== *)
theory WG_Keys
  imports WG_Crypto WG_Endian
begin

text \<open>
  Key material of \<open>wireguard/session.hpp\<close> and \<open>session.cpp\<close>: the key structs, the base64 text form of a
  32-byte key, parsing of configured keys, the static identity of a peer and the material of a
  handshake. The four key structs of the source have the same two fields, and the template
  \<open>MoveSecret\<close> treats them alike; one record \<open>noise_key\<close> stands for them, with a type synonym for each.
\<close>

subsection \<open>Keys\<close>

abbreviation (input) NoisePublicKeySize :: nat where "NoisePublicKeySize \<equiv> 32"
abbreviation (input) WireGuardEncodedKeySize :: nat where "WireGuardEncodedKeySize \<equiv> 44"

record noise_key =
  key_bytes :: "byte list"
  key_valid :: bool

type_synonym noise_public_key = noise_key
type_synonym noise_private_key = noise_key
type_synonym noise_symmetric_key = noise_key
type_synonym noise_secret32 = noise_key

definition noise_key_init :: noise_key where
  "noise_key_init = \<lparr>key_bytes = zeros 32, key_valid = False\<rparr>"

definition key_Clear :: "noise_key \<Rightarrow> noise_key" where
  "key_Clear k = k\<lparr>key_bytes := secure_clear (key_bytes k), key_valid := False\<rparr>"

text \<open>\<open>MoveSecret(destination, source)\<close>: both objects afterwards, for two distinct objects.\<close>

definition MoveSecret :: "noise_key \<Rightarrow> noise_key \<Rightarrow> noise_key \<times> noise_key" where
  "MoveSecret destination source =
     (let destination = key_Clear destination;
          destination = destination\<lparr>key_bytes := key_bytes source\<rparr>;
          destination = destination\<lparr>key_valid := key_valid source\<rparr>
      in (destination, key_Clear source))"

subsection \<open>Base64 text of a key\<close>

definition Base64Alphabet :: string where
  "Base64Alphabet = ''ABCDEFGHIJKLMNOPQRSTUVWXYZabcdefghijklmnopqrstuvwxyz0123456789+/''"

definition DecodeBase64Char :: "char \<Rightarrow> int" where
  "DecodeBase64Char ch =
     (let n = (of_char ch :: int) in
      if of_char (CHR ''A'') \<le> n \<and> n \<le> of_char (CHR ''Z'') then n - of_char (CHR ''A'')
      else if of_char (CHR ''a'') \<le> n \<and> n \<le> of_char (CHR ''z'') then n - of_char (CHR ''a'') + 26
      else if of_char (CHR ''0'') \<le> n \<and> n \<le> of_char (CHR ''9'') then n - of_char (CHR ''0'') + 52
      else if ch = CHR ''+'' then 62
      else if ch = CHR ''/'' then 63
      else -1)"

definition IsAllZero :: "byte list \<Rightarrow> bool" where
  "IsAllZero bytes = (fold (\<lambda>b value. value OR b) bytes 0 = 0)"

definition ClampX25519PrivateKey :: "byte list \<Rightarrow> byte list" where
  "ClampX25519PrivateKey bytes =
     (let bytes = bytes[0 := bytes ! 0 AND 248];
          bytes = bytes[31 := bytes ! 31 AND 127]
      in bytes[31 := bytes ! 31 OR 64])"

text \<open>One \<open>if (out_index >= NoisePublicKeySize) return false; out[out_index++] = byte;\<close>.\<close>

definition push_out :: "byte \<Rightarrow> (nat \<times> byte list) step" where
  "push_out b = (\<lambda>(out_index, out).
     if out_index \<ge> NoisePublicKeySize then (False, (out_index, out))
     else (True, (Suc out_index, out[out_index := b])))"

text \<open>One pass of the decoding loop over a group of four characters.\<close>

definition DecodeGroup :: "bool \<Rightarrow> char \<Rightarrow> char \<Rightarrow> char \<Rightarrow> char \<Rightarrow> (nat \<times> byte list) step" where
  "DecodeGroup last_group t0 t1 t2 t3 st =
     (let a = DecodeBase64Char t0;
          b = DecodeBase64Char t1;
          c = (if t2 = CHR ''='' then -2 else DecodeBase64Char t2);
          d = (if t3 = CHR ''='' then -2 else DecodeBase64Char t3)
      in if a < 0 \<or> b < 0 \<or> c = -1 \<or> d = -1 then (False, st)
         else if \<not> last_group \<and> (c < 0 \<or> d < 0) then (False, st)
         else if (if last_group then c < 0 \<or> d \<noteq> -2 else c < 0 \<or> d < 0) then (False, st)
         else
           (let value = push_bit 18 (word_of_int a) OR push_bit 12 (word_of_int b)
                  OR push_bit 6 (word_of_int (if c < 0 then 0 else c))
                  OR word_of_int (if d < 0 then 0 else d) :: u32
            in all_steps
                 ([push_out (ucast (drop_bit 16 value AND 0xFF))] @
                  (if c \<ge> 0 then [push_out (ucast (drop_bit 8 value AND 0xFF))] else []) @
                  (if d \<ge> 0 then [push_out (ucast (value AND 0xFF))] else [])) st))"

fun DecodeGroups :: "string \<Rightarrow> (nat \<times> byte list) step" where
  "DecodeGroups (t0 # t1 # t2 # t3 # rest) st =
     (case DecodeGroup (rest = []) t0 t1 t2 t3 st of
        (ok, st) \<Rightarrow> if ok then DecodeGroups rest st else (False, st))"
| "DecodeGroups _ st = (fst st = NoisePublicKeySize, st)"

definition DecodeWireGuardKey :: "byte list \<Rightarrow> string \<Rightarrow> bool \<times> byte list" where
  "DecodeWireGuardKey out text =
     (if length text \<noteq> WireGuardEncodedKeySize \<or> last text \<noteq> CHR ''='' then (False, out)
      else case DecodeGroups text (0, out) of (ok, (_, out)) \<Rightarrow> (ok, out))"

text \<open>The encoding loop: the bytes from index \<open>i\<close> on, the output index and the output text.\<close>

fun EncodeGroups :: "byte list \<Rightarrow> nat \<times> string \<Rightarrow> nat \<times> string" where
  "EncodeGroups [] st = st"
| "EncodeGroups (b0 # bs) (out_index, out) =
     (let remaining = Suc (length bs);
          value = push_bit 16 (ucast b0) OR push_bit 8 (if remaining > 1 then ucast (bs ! 0) else 0)
                    OR (if remaining > 2 then ucast (bs ! 1) else 0) :: u32;
          out = out[out_index := Base64Alphabet ! unat (drop_bit 18 value AND 0x3F)];
          out = out[out_index + 1 := Base64Alphabet ! unat (drop_bit 12 value AND 0x3F)];
          out = out[out_index + 2 :=
                 (if remaining > 1 then Base64Alphabet ! unat (drop_bit 6 value AND 0x3F) else CHR ''='')];
          out = out[out_index + 3 :=
                 (if remaining > 2 then Base64Alphabet ! unat (value AND 0x3F) else CHR ''='')]
      in EncodeGroups (drop 2 bs) (out_index + 4, out))"

definition EncodeWireGuardKey :: "string \<Rightarrow> byte list \<Rightarrow> bool \<times> string" where
  "EncodeWireGuardKey out_text bytes =
     (if length out_text < WireGuardEncodedKeySize + 1 then (False, out_text)
      else case EncodeGroups bytes (0, out_text) of
             (out_index, out) \<Rightarrow> (out_index = WireGuardEncodedKeySize, out[out_index := CHR 0x00]))"

subsection \<open>Parsing configured keys\<close>

definition noise_is_valid_encoded_key :: "string \<Rightarrow> bool \<Rightarrow> bool" where
  "noise_is_valid_encoded_key text allow_empty =
     (if text = [] then allow_empty else fst (DecodeWireGuardKey (zeros 32) text))"

definition noise_parse_private_key :: "string \<Rightarrow> noise_private_key step" where
  "noise_parse_private_key text out_key =
     (case DecodeWireGuardKey (zeros 32) text of (ok, bytes) \<Rightarrow>
        if \<not> ok then (False, out_key)
        else if IsAllZero bytes then (False, out_key)
        else (True, fst (MoveSecret out_key
                      \<lparr>key_bytes = ClampX25519PrivateKey bytes, key_valid = True\<rparr>)))"

definition noise_parse_public_key :: "string \<Rightarrow> noise_public_key step" where
  "noise_parse_public_key text out_key =
     (case DecodeWireGuardKey (zeros 32) text of (ok, bytes) \<Rightarrow>
        if \<not> ok then (False, out_key) else (True, \<lparr>key_bytes = bytes, key_valid = True\<rparr>))"

definition noise_parse_preshared_key :: "string \<Rightarrow> noise_symmetric_key step" where
  "noise_parse_preshared_key text out_key =
     (if text = [] then (False, out_key)
      else case DecodeWireGuardKey (zeros 32) text of (ok, bytes) \<Rightarrow>
        if \<not> ok then (False, out_key)
        else (True, fst (MoveSecret out_key \<lparr>key_bytes = bytes, key_valid = True\<rparr>)))"

definition noise_public_key_to_text :: "noise_public_key \<Rightarrow> string step" where
  "noise_public_key_to_text key out_text =
     (if \<not> key_valid key then (False, out_text) else EncodeWireGuardKey out_text (key_bytes key))"

definition noise_derive_public_key ::
  "crypto_backend \<Rightarrow> noise_private_key \<Rightarrow> noise_public_key step" where
  "noise_derive_public_key be private_key out_key =
     (if \<not> key_valid private_key then (False, out_key)
      else case x25519_public_key be (key_bytes private_key) of (ok, bytes) \<Rightarrow>
        if \<not> ok then (False, out_key) else (True, \<lparr>key_bytes = bytes, key_valid = True\<rparr>))"

definition noise_derive_public_key_text ::
  "crypto_backend \<Rightarrow> noise_private_key \<Rightarrow> string step" where
  "noise_derive_public_key_text be private_key out_text =
     (case noise_derive_public_key be private_key noise_key_init of (ok, public_key) \<Rightarrow>
        if \<not> ok then (False, out_text) else noise_public_key_to_text public_key out_text)"

definition noise_derive_public_key_text_from_text ::
  "crypto_backend \<Rightarrow> string \<Rightarrow> string step" where
  "noise_derive_public_key_text_from_text be private_key_text out_text =
     (case noise_parse_private_key private_key_text noise_key_init of (ok, private_key) \<Rightarrow>
        if \<not> ok then (False, out_text) else noise_derive_public_key_text be private_key out_text)"

subsection \<open>Static identity and handshake material\<close>

record noise_static_identity =
  static_private :: noise_private_key
  static_public :: noise_public_key
  remote_static :: noise_public_key
  preshared_key :: noise_symmetric_key

record noise_handshake_material =
  ephemeral_private :: noise_private_key
  ephemeral_public :: noise_public_key
  remote_ephemeral :: noise_public_key
  precomputed_static_static :: noise_secret32
  chaining_key :: noise_symmetric_key
  hash :: noise_symmetric_key

definition noise_static_identity_zero :: noise_static_identity where
  "noise_static_identity_zero =
     \<lparr>static_private = noise_key_init, static_public = noise_key_init, remote_static = noise_key_init,
      preshared_key = noise_key_init\<rparr>"

definition noise_handshake_material_zero :: noise_handshake_material where
  "noise_handshake_material_zero =
     \<lparr>ephemeral_private = noise_key_init, ephemeral_public = noise_key_init,
      remote_ephemeral = noise_key_init, precomputed_static_static = noise_key_init,
      chaining_key = noise_key_init, hash = noise_key_init\<rparr>"

definition noise_static_identity_reset :: "noise_static_identity \<Rightarrow> noise_static_identity" where
  "noise_static_identity_reset i =
     i\<lparr>static_private := key_Clear (static_private i),
       static_public := (static_public i)\<lparr>key_bytes := secure_clear (key_bytes (static_public i)),
                                          key_valid := False\<rparr>,
       remote_static := (remote_static i)\<lparr>key_bytes := secure_clear (key_bytes (remote_static i)),
                                          key_valid := False\<rparr>,
       preshared_key := key_Clear (preshared_key i)\<rparr>"

definition noise_handshake_material_reset :: "noise_handshake_material \<Rightarrow> noise_handshake_material" where
  "noise_handshake_material_reset m =
     m\<lparr>ephemeral_private := key_Clear (ephemeral_private m),
       ephemeral_public := (ephemeral_public m)\<lparr>key_bytes := secure_clear (key_bytes (ephemeral_public m)),
                                                key_valid := False\<rparr>,
       remote_ephemeral := (remote_ephemeral m)\<lparr>key_bytes := secure_clear (key_bytes (remote_ephemeral m)),
                                                key_valid := False\<rparr>,
       precomputed_static_static := key_Clear (precomputed_static_static m),
       chaining_key := key_Clear (chaining_key m),
       hash := key_Clear (hash m)\<rparr>"

text \<open>\<open>preshared_key\<close> may be a null pointer: \<open>None\<close>.\<close>

definition noise_static_identity_init_from_keys ::
  "crypto_backend \<Rightarrow> noise_private_key \<Rightarrow> string \<Rightarrow> noise_symmetric_key option \<Rightarrow>
   noise_static_identity step" where
  "noise_static_identity_init_from_keys be private_key peer_public_key_text psk identity =
     (if \<not> key_valid private_key then (False, identity)
      else
        (let i = noise_static_identity_reset identity;
             i = i\<lparr>static_private := \<lparr>key_bytes = key_bytes private_key, key_valid = True\<rparr>\<rparr>
         in case noise_derive_public_key be (static_private i) (static_public i) of (ok, pk) \<Rightarrow>
              let i = i\<lparr>static_public := pk\<rparr> in
              if \<not> ok then (False, noise_static_identity_reset i)
              else case noise_parse_public_key peer_public_key_text (remote_static i) of (ok, rk) \<Rightarrow>
                let i = i\<lparr>remote_static := rk\<rparr> in
                if \<not> ok then (False, noise_static_identity_reset i)
                else (True,
                  (case psk of
                     Some k \<Rightarrow> if key_valid k
                       then i\<lparr>preshared_key := \<lparr>key_bytes = key_bytes k, key_valid = True\<rparr>\<rparr> else i
                   | None \<Rightarrow> i))))"

definition noise_static_identity_init ::
  "crypto_backend \<Rightarrow> string \<Rightarrow> string \<Rightarrow> string \<Rightarrow> noise_static_identity step" where
  "noise_static_identity_init be private_key_text peer_public_key_text preshared_key_text identity =
     (let i = noise_static_identity_reset identity in
      case noise_parse_private_key private_key_text (static_private i) of (ok, k) \<Rightarrow>
        let i = i\<lparr>static_private := k\<rparr> in
        if \<not> ok then (False, noise_static_identity_reset i)
        else case x25519_public_key be (key_bytes (static_private i)) of (ok, bytes) \<Rightarrow>
          let i = i\<lparr>static_public := (static_public i)\<lparr>key_bytes := bytes\<rparr>\<rparr> in
          if \<not> ok then (False, noise_static_identity_reset i)
          else
            let i = i\<lparr>static_public := (static_public i)\<lparr>key_valid := True\<rparr>\<rparr> in
            case noise_parse_public_key peer_public_key_text (remote_static i) of (ok, k) \<Rightarrow>
              let i = i\<lparr>remote_static := k\<rparr> in
              if \<not> ok then (False, noise_static_identity_reset i)
              else if preshared_key_text \<noteq> [] then
                (case noise_parse_preshared_key preshared_key_text (preshared_key i) of (ok, k) \<Rightarrow>
                   let i = i\<lparr>preshared_key := k\<rparr> in
                   if \<not> ok then (False, noise_static_identity_reset i) else (True, i))
              else (True, i))"

definition noise_precompute_static_static ::
  "crypto_backend \<Rightarrow> noise_static_identity \<Rightarrow> noise_handshake_material step" where
  "noise_precompute_static_static be identity material =
     (if \<not> key_valid (static_private identity) \<or> \<not> key_valid (remote_static identity) then (False, material)
      else case x25519 be (key_bytes (static_private identity)) (key_bytes (remote_static identity)) of
        (ok, bytes) \<Rightarrow>
          if \<not> ok \<or> IsAllZero bytes then (False, material)
          else (True, material\<lparr>precomputed_static_static :=
                  fst (MoveSecret (precomputed_static_static material)
                         \<lparr>key_bytes = bytes, key_valid = True\<rparr>)\<rparr>))"

subsection \<open>Lemmas\<close>

lemma MoveSecret_eq: "MoveSecret d s = (s, key_Clear s)"
  by (simp add: MoveSecret_def key_Clear_def)

lemma IsAllZero_aux:
  "fold (\<lambda>b value. value OR b) bytes v = 0 \<longleftrightarrow> v = (0 :: byte) \<and> list_all (\<lambda>b. b = 0) bytes"
  by (induction bytes arbitrary: v) (auto simp: or_eq_0_iff)

lemma IsAllZero_iff: "IsAllZero bytes \<longleftrightarrow> list_all (\<lambda>b. b = 0) bytes"
  by (simp add: IsAllZero_def IsAllZero_aux)

lemma length_Clamp [simp, wf_simps]: "length (ClampX25519PrivateKey k) = length k"
  by (simp add: ClampX25519PrivateKey_def Let_def)

lemma key_bytes_Clear [simp]: "key_bytes (key_Clear k) = zeros (length (key_bytes k))"
  and key_valid_Clear [simp]: "\<not> key_valid (key_Clear k)"
  by (simp_all add: key_Clear_def secure_clear_def)

text \<open>The alphabet: the decoder inverts it on the sextets, and its characters are recognised.\<close>

definition is_b64 :: "char \<Rightarrow> bool" where
  "is_b64 ch \<longleftrightarrow> ch \<in> set Base64Alphabet"

lemma length_Base64Alphabet [simp]: "length Base64Alphabet = 64"
  by (simp add: Base64Alphabet_def)

lemma decode_alphabet_all: "map DecodeBase64Char Base64Alphabet = map int [0..<64]"
  by code_simp

lemma decode_alphabet: "i < 64 \<Longrightarrow> DecodeBase64Char (Base64Alphabet ! i) = int i"
  using arg_cong[OF decode_alphabet_all, of "\<lambda>xs. xs ! i"] by simp

lemma is_b64_nth [simp]: "i < 64 \<Longrightarrow> is_b64 (Base64Alphabet ! i)"
  by (simp add: is_b64_def)

lemma decode_all_chars:
  "list_all (\<lambda>ch. (DecodeBase64Char ch = -1) = (ch \<notin> set Base64Alphabet) \<and> DecodeBase64Char ch \<ge> -1
     \<and> DecodeBase64Char ch < 64) Enum.enum"
  by code_simp

lemma decode_char_bounds:
  "(DecodeBase64Char ch = -1) = (\<not> is_b64 ch)" "DecodeBase64Char ch \<ge> -1" "DecodeBase64Char ch < 64"
  using decode_all_chars by (auto simp: list_all_iff enum_UNIV is_b64_def)

lemma not_b64_pad: "\<not> is_b64 (CHR ''='')"
  by code_simp

subsection \<open>The text form\<close>

definition pack24 :: "byte \<Rightarrow> byte \<Rightarrow> byte \<Rightarrow> u32" where
  "pack24 a b c = push_bit 16 (ucast a) OR push_bit 8 (ucast b) OR ucast c"

definition sextet :: "nat \<Rightarrow> u32 \<Rightarrow> char" where
  "sextet k v = Base64Alphabet ! unat (drop_bit k v AND 0x3F)"

fun b64text :: "byte list \<Rightarrow> string" where
  "b64text (a # b # c # rest) =
     (let v = pack24 a b c in sextet 18 v # sextet 12 v # sextet 6 v # sextet 0 v # b64text rest)"
| "b64text [a, b] = (let v = pack24 a b 0 in [sextet 18 v, sextet 12 v, sextet 6 v, CHR ''=''])"
| "b64text [a] = (let v = pack24 a 0 0 in [sextet 18 v, sextet 12 v, CHR ''='', CHR ''=''])"
| "b64text [] = []"

lemma mask_3F: "(0x3F :: u32) = mask 6"
  by (simp add: mask_eq_exp_minus_1)

lemma mask_FF32: "(0xFF :: u32) = mask 8"
  by (simp add: mask_eq_exp_minus_1)

lemma sextet_bound: "unat (v AND 0x3F :: u32) < 64"
  using take_bit_nat_less_exp[of 6 "unat v"]
  by (simp add: mask_3F unsigned_take_bit_eq flip: take_bit_eq_mask)

lemma decode_sextet [simp]: "DecodeBase64Char (sextet k v) = uint (drop_bit k v AND 0x3F)"
  by (simp add: sextet_def decode_alphabet sextet_bound)

lemma is_b64_sextet [simp]: "is_b64 (sextet k v)"
  by (simp add: sextet_def sextet_bound)

lemma sextet_not_pad [simp]: "sextet k v \<noteq> CHR ''=''"
  using is_b64_sextet not_b64_pad by metis

lemma bit_pack24:
  "bit (pack24 a b c) n \<longleftrightarrow>
     (if n < 8 then bit c n else if n < 16 then bit b (n - 8) else if n < 24 then bit a (n - 16) else False)"
  unfolding pack24_def
  by (auto simp: bit_simps not_bit_byte bit_byte_le dest: bit_imp_le_length)

lemma join24:
  fixes v :: u32
  assumes "\<And>n. bit v n \<Longrightarrow> n < 24"
  shows "push_bit 18 (drop_bit 18 v AND 0x3F) OR push_bit 12 (drop_bit 12 v AND 0x3F)
    OR push_bit 6 (drop_bit 6 v AND 0x3F) OR (v AND 0x3F) = v"
proof (rule bit_word_eqI)
  fix n assume "n < LENGTH(32)"
  consider "n < 6" | "6 \<le> n" "n < 12" | "12 \<le> n" "n < 18" | "18 \<le> n" "n < 24" | "24 \<le> n" by linarith
  thus "bit (push_bit 18 (drop_bit 18 v AND 0x3F) OR push_bit 12 (drop_bit 12 v AND 0x3F)
    OR push_bit 6 (drop_bit 6 v AND 0x3F) OR (v AND 0x3F)) n = bit v n"
    using assms[of n] \<open>n < LENGTH(32)\<close>
    by cases (auto simp: mask_3F bit_or_iff bit_and_iff bit_push_bit_iff bit_drop_bit_eq bit_mask_iff)
qed

lemma sextets_join:
  "push_bit 18 (drop_bit 18 (pack24 a b c) AND 0x3F) OR push_bit 12 (drop_bit 12 (pack24 a b c) AND 0x3F)
   OR push_bit 6 (drop_bit 6 (pack24 a b c) AND 0x3F) OR (pack24 a b c AND 0x3F) = pack24 a b c"
  by (rule join24) (simp add: bit_pack24 split: if_splits)

lemma pack24_low: "pack24 a b 0 AND 0x3F = 0"
  by (rule bit_word_eqI) (simp add: mask_3F bit_and_iff bit_mask_iff bit_pack24)

lemma pack24_bytes:
  "ucast (drop_bit 16 (pack24 a b c) AND 0xFF) = a"
  "ucast (drop_bit 8 (pack24 a b c) AND 0xFF) = b"
  "ucast (pack24 a b c AND 0xFF) = c"
  unfolding mask_FF32
  by (rule bit_word_eqI, simp add: bit_ucast_iff bit_and_iff bit_mask_iff bit_drop_bit_eq bit_pack24)+

lemma uint_sextet [simp]: "word_of_int (uint (w :: u32)) = w" by simp

lemma uint_not_neg [simp]: "\<not> uint w < 0" "uint w \<noteq> -1"
  using uint_ge_0[of w] by linarith+

lemma push_out_ok: "i < 32 \<Longrightarrow> push_out b (i, out) = (True, (Suc i, out[i := b]))"
  by (simp add: push_out_def)

lemma sextets_join_int:
  "push_bit 18 (word_of_int (DecodeBase64Char (sextet 18 (pack24 a b c)))) OR
   push_bit 12 (word_of_int (DecodeBase64Char (sextet 12 (pack24 a b c)))) OR
   push_bit 6 (word_of_int (DecodeBase64Char (sextet 6 (pack24 a b c)))) OR
   word_of_int (DecodeBase64Char (sextet 0 (pack24 a b c))) = pack24 a b c"
  using sextets_join[of a b c] by (simp only: decode_sextet word_of_int_uint drop_bit_0 id_apply)

lemma DecodeGroup_full:
  assumes "i + 3 \<le> 32"
  shows "DecodeGroup False (sextet 18 (pack24 a b c)) (sextet 12 (pack24 a b c)) (sextet 6 (pack24 a b c))
      (sextet 0 (pack24 a b c)) (i, out) = (True, (i + 3, out[i := a, i + 1 := b, i + 2 := c]))"
proof -
  have nn: "\<not> DecodeBase64Char (sextet k v) < 0" "DecodeBase64Char (sextet k v) \<noteq> -1" for k v
    using uint_not_neg by (simp_all only: decode_sextet not_False_eq_True)
  show ?thesis using assms
    by (simp only: DecodeGroup_def Let_def sextet_not_pad if_False nn sextets_join_int pack24_bytes
        not_less[symmetric] simp_thms if_True append.simps)
       (simp add: push_out_ok)
qed

lemma DecodeGroup_last:
  assumes "i + 2 \<le> 32"
  shows "DecodeGroup True (sextet 18 (pack24 a b 0)) (sextet 12 (pack24 a b 0)) (sextet 6 (pack24 a b 0))
      (CHR ''='') (i, out) = (True, (i + 2, out[i := a, i + 1 := b]))"
proof -
  have nn: "\<not> DecodeBase64Char (sextet k v) < 0" "DecodeBase64Char (sextet k v) \<noteq> -1" for k v
    using uint_not_neg by (simp_all only: decode_sextet not_False_eq_True)
  have "word_of_int (DecodeBase64Char (sextet 0 (pack24 a b 0))) = (0 :: u32)"
    by (simp add: pack24_low)
  hence join: "push_bit 18 (word_of_int (DecodeBase64Char (sextet 18 (pack24 a b 0)))) OR
     push_bit 12 (word_of_int (DecodeBase64Char (sextet 12 (pack24 a b 0)))) OR
     push_bit 6 (word_of_int (DecodeBase64Char (sextet 6 (pack24 a b 0)))) OR word_of_int 0 = pack24 a b 0"
    using sextets_join_int[of a b 0] by (simp only: word_of_int_0)
  have neg: "((-2 :: int) = -1) = False" "((-2 :: int) < 0) = True" "((0 :: int) \<le> -2) = False" by simp_all
  show ?thesis using assms
    by (simp only: DecodeGroup_def Let_def sextet_not_pad if_False nn join pack24_bytes
        not_less[symmetric] simp_thms if_True append.simps neg)
       (simp add: push_out_ok)
qed

lemma put_bytes_Cons:
  "i < length out \<Longrightarrow> put_bytes i (b # bs) out = put_bytes (i + 1) bs (out[i := b])"
  by (simp add: put_bytes_def take_Suc_conv_app_nth drop_update_cancel)

lemma put_bytes_Nil [simp]: "put_bytes i [] out = out"
  by (simp add: put_bytes_def)

lemma put_bytes_3:
  assumes "i + length (w # x # y # bs) \<le> length out"
  shows "put_bytes i (w # x # y # bs) out = put_bytes (i + 3) bs (out[i := w, i + 1 := x, i + 2 := y])"
proof -
  have n: "i + 3 = Suc (Suc (Suc i))" by simp
  show ?thesis using assms unfolding n by (simp add: put_bytes_Cons)
qed

lemma put_bytes_4:
  assumes "i + 4 \<le> length out"
  shows "put_bytes i (w # x # y # z # bs) out =
    put_bytes (i + 4) bs (out[i := w, i + 1 := x, i + 2 := y, i + 3 := z])"
proof -
  have n: "i + 4 = Suc (Suc (Suc (Suc i)))" "i + 3 = Suc (Suc (Suc i))" by simp_all
  show ?thesis using assms unfolding n by (simp add: put_bytes_Cons)
qed

lemma length_b64text: "length (b64text bs) = 4 * ((length bs + 2) div 3)"
proof (induction bs rule: b64text.induct)
  case (1 a b c rest)
  thus ?case using div_add_self2[of 3 "length rest + 2"] by (simp add: Let_def)
qed (simp_all add: Let_def)

lemma b64text_Nil_iff: "b64text bs = [] \<longleftrightarrow> bs = []"
  by (cases bs rule: b64text.cases) (simp_all add: Let_def)

lemma decode_b64text:
  assumes "length bs mod 3 = 2" "i + length bs = 32" "length out = 32"
  shows "DecodeGroups (b64text bs) (i, out) = (True, (32, put_bytes i bs out))"
  using assms
proof (induction bs arbitrary: i out rule: b64text.induct)
  case (1 a b c rest)
  hence r: "length rest mod 3 = 2" "i + 3 \<le> 32" by simp_all
  hence ne: "b64text rest \<noteq> []" by (auto simp: b64text_Nil_iff)
  have "DecodeGroups (b64text (a # b # c # rest)) (i, out) =
      DecodeGroups (b64text rest) (i + 3, out[i := a, i + 1 := b, i + 2 := c])"
    using r(2) ne by (simp add: Let_def DecodeGroup_full del: One_nat_def)
  also have "\<dots> = (True, (32, put_bytes (i + 3) rest (out[i := a, i + 1 := b, i + 2 := c])))"
    by (rule 1(1)[OF refl r(1)]) (use 1(2-) in simp_all)
  finally show ?case using put_bytes_3[of i a b c rest out] 1(2-) by simp
qed (simp_all add: Let_def DecodeGroup_last put_bytes_Cons)

lemma EncodeGroups_3:
  "EncodeGroups (a # b # c # rest) (i, out) =
     (let v = pack24 a b c in EncodeGroups rest (i + 4,
        out[i := sextet 18 v, i + 1 := sextet 12 v, i + 2 := sextet 6 v, i + 3 := sextet 0 v]))"
  by (simp add: Let_def sextet_def pack24_def)

lemma EncodeGroups_short:
  "EncodeGroups [a, b] (i, out) =
     (let v = pack24 a b 0 in (i + 4,
        out[i := sextet 18 v, i + 1 := sextet 12 v, i + 2 := sextet 6 v, i + 3 := CHR ''='']))"
  "EncodeGroups [a] (i, out) =
     (let v = pack24 a 0 0 in (i + 4,
        out[i := sextet 18 v, i + 1 := sextet 12 v, i + 2 := CHR ''='', i + 3 := CHR ''='']))"
  by (simp_all add: Let_def sextet_def pack24_def)

lemma encode_b64text:
  assumes "i + length (b64text bs) \<le> length out"
  shows "EncodeGroups bs (i, out) = (i + length (b64text bs), put_bytes i (b64text bs) out)"
  using assms
proof (induction bs arbitrary: i out rule: b64text.induct)
  case (1 a b c rest)
  let ?v = "pack24 a b c"
  let ?out = "out[i := sextet 18 ?v, i + 1 := sextet 12 ?v, i + 2 := sextet 6 ?v, i + 3 := sextet 0 ?v]"
  have room: "i + 4 + length (b64text rest) \<le> length ?out" using 1(2) by (simp add: Let_def)
  have "EncodeGroups (a # b # c # rest) (i, out) = EncodeGroups rest (i + 4, ?out)"
    by (simp only: EncodeGroups_3 Let_def)
  also have "\<dots> = (i + 4 + length (b64text rest), put_bytes (i + 4) (b64text rest) ?out)"
    by (rule 1(1)[OF refl room])
  also have "put_bytes (i + 4) (b64text rest) ?out = put_bytes i (b64text (a # b # c # rest)) out"
    using room by (simp only: b64text.simps Let_def length_list_update)
      (rule put_bytes_4[symmetric], linarith)
  finally show ?case by (simp add: Let_def)
next
  case (2 a b)
  thus ?case by (simp add: EncodeGroups_short(1) put_bytes_4 Let_def del: EncodeGroups.simps)
next
  case (3 a)
  thus ?case by (simp add: EncodeGroups_short(2) put_bytes_4 Let_def del: EncodeGroups.simps)
qed simp

lemma last_b64text: "length bs mod 3 = 2 \<Longrightarrow> last (b64text bs) = CHR ''=''"
proof (induction bs rule: b64text.induct)
  case (1 a b c rest)
  hence "length rest mod 3 = 2" by simp
  hence "rest \<noteq> []" by auto
  thus ?case using 1 by (simp add: Let_def b64text_Nil_iff)
qed (simp_all add: Let_def)

lemma EncodeWireGuardKey_eq:
  assumes "length k = 32" "45 \<le> length out"
  shows "EncodeWireGuardKey out k = (True, b64text k @ CHR 0x00 # drop 45 out)"
proof -
  have "length (b64text k) = 44" using assms by (simp add: length_b64text)
  moreover have "drop 44 out = out ! 44 # drop 45 out"
    using assms Cons_nth_drop_Suc[of 44 out] by simp
  ultimately show ?thesis using assms
    by (simp add: EncodeWireGuardKey_def encode_b64text put_bytes_0 list_update_append)
qed

lemma DecodeWireGuardKey_b64text:
  assumes "length k = 32" "length out = 32"
  shows "DecodeWireGuardKey out (b64text k) = (True, k)"
  using assms
  by (simp add: DecodeWireGuardKey_def length_b64text last_b64text decode_b64text put_bytes_0)

lemma push_outs_ok:
  "i + length bs \<le> 32 \<Longrightarrow>
   \<exists>out'. length out' = length out \<and> all_steps (map push_out bs) (i, out) = (True, (i + length bs, out'))"
proof (induction bs arbitrary: i out)
  case (Cons b bs)
  then show ?case using Cons.IH[of "Suc i" "out[i := b]"] by (auto simp: push_out_def)
qed simp

lemma is_b64_iff: "is_b64 t \<longleftrightarrow> 0 \<le> DecodeBase64Char t"
  using decode_char_bounds(1,2)[of t] by linarith

lemma DecodeGroup_False:
  assumes "i + 3 \<le> 32"
  shows "\<exists>out'. length out' = length out \<and> DecodeGroup False t0 t1 t2 t3 (i, out) =
    (if is_b64 t0 \<and> is_b64 t1 \<and> is_b64 t2 \<and> is_b64 t3 then (True, (i + 3, out')) else (False, (i, out)))"
proof (cases "is_b64 t0 \<and> is_b64 t1 \<and> is_b64 t2 \<and> is_b64 t3")
  case True
  then have "t2 \<noteq> CHR ''=''" "t3 \<noteq> CHR ''=''" using not_b64_pad by auto
  then obtain x y z where "DecodeGroup False t0 t1 t2 t3 (i, out) = all_steps (map push_out [x, y, z]) (i, out)"
    using True by (auto simp: DecodeGroup_def Let_def is_b64_iff)
  then show ?thesis using push_outs_ok[of i "[x, y, z]" out] assms True by auto
next
  case False
  then show ?thesis by (auto simp: DecodeGroup_def Let_def is_b64_iff)
qed

lemma DecodeGroup_True:
  assumes "i + 2 \<le> 32"
  shows "\<exists>out'. length out' = length out \<and> DecodeGroup True t0 t1 t2 t3 (i, out) =
    (if is_b64 t0 \<and> is_b64 t1 \<and> is_b64 t2 \<and> t3 = CHR ''='' then (True, (i + 2, out')) else (False, (i, out)))"
proof (cases "is_b64 t0 \<and> is_b64 t1 \<and> is_b64 t2 \<and> t3 = CHR ''=''")
  case True
  then have "t2 \<noteq> CHR ''=''" using not_b64_pad by auto
  then obtain x y where "DecodeGroup True t0 t1 t2 t3 (i, out) = all_steps (map push_out [x, y]) (i, out)"
    using True by (auto simp: DecodeGroup_def Let_def is_b64_iff)
  then show ?thesis using push_outs_ok[of i "[x, y]" out] assms True by auto
next
  case False
  moreover have "DecodeBase64Char t3 \<noteq> -2" using decode_char_bounds(2)[of t3] by linarith
  ultimately show ?thesis by (auto simp: DecodeGroup_def Let_def is_b64_iff)
qed

lemma DecodeGroups_accepts:
  assumes "length tx = 4 * Suc n" "i + 3 * n = 30"
  shows "\<exists>j out'. length out' = length out \<and> DecodeGroups tx (i, out) =
    (list_all is_b64 (butlast tx) \<and> last tx = CHR ''='', (j, out'))"
  using assms
proof (induction n arbitrary: tx i out)
  case 0
  then obtain t0 t1 t2 t3 where t: "tx = [t0, t1, t2, t3]" by (auto simp: length4_conv)
  obtain out' where "length out' = length out" "DecodeGroup True t0 t1 t2 t3 (i, out) =
      (if is_b64 t0 \<and> is_b64 t1 \<and> is_b64 t2 \<and> t3 = CHR ''='' then (True, (i + 2, out')) else (False, (i, out)))"
    using DecodeGroup_True[of i out t0 t1 t2 t3] 0 by auto
  then show ?case using 0 by (auto simp: t)
next
  case (Suc n)
  define rest where "rest = drop 4 tx"
  have len: "length rest = 4 * Suc n" "rest \<noteq> []" using Suc.prems(1) by (auto simp: rest_def)
  obtain t0 t1 t2 t3 where "take 4 tx = [t0, t1, t2, t3]"
    using Suc.prems(1) length4_conv[of "take 4 tx"] by auto
  then have t: "tx = t0 # t1 # t2 # t3 # rest"
    using append_take_drop_id[of 4 tx] by (simp add: rest_def)
  obtain out1 where o1: "length out1 = length out" "DecodeGroup False t0 t1 t2 t3 (i, out) =
      (if is_b64 t0 \<and> is_b64 t1 \<and> is_b64 t2 \<and> is_b64 t3 then (True, (i + 3, out1)) else (False, (i, out)))"
    using DecodeGroup_False[of i out t0 t1 t2 t3] Suc.prems(2) by auto
  obtain j out' where "length out' = length out1" "DecodeGroups rest (i + 3, out1) =
      (list_all is_b64 (butlast rest) \<and> last rest = CHR ''='', (j, out'))"
    using Suc.IH[of rest "i + 3" out1] len(1) Suc.prems(2) by auto
  then show ?case using o1 len(2) by (auto simp: t)
qed

definition encoded_key :: "string \<Rightarrow> bool" where
  "encoded_key tx \<longleftrightarrow> length tx = 44 \<and> last tx = CHR ''='' \<and> list_all is_b64 (butlast tx)"

lemma DecodeWireGuardKey_accepts:
  "fst (DecodeWireGuardKey out tx) = encoded_key tx"
  "length (snd (DecodeWireGuardKey out tx)) = length out"
  using DecodeGroups_accepts[of tx 10 0 out]
  by (auto simp: DecodeWireGuardKey_def encoded_key_def)

definition wf_key :: "noise_key \<Rightarrow> bool" where
  "wf_key k \<longleftrightarrow> length (key_bytes k) = 32"

definition wf_identity :: "noise_static_identity \<Rightarrow> bool" where
  "wf_identity i \<longleftrightarrow> wf_key (static_private i) \<and> wf_key (static_public i) \<and> wf_key (remote_static i)
     \<and> wf_key (preshared_key i)"

definition decoded_key :: "string \<Rightarrow> byte list" where
  "decoded_key tx = snd (DecodeWireGuardKey (zeros 32) tx)"

lemma decode_key_eq: "DecodeWireGuardKey (zeros 32) tx = (encoded_key tx, decoded_key tx)"
  using DecodeWireGuardKey_accepts(1)[of "zeros 32" tx] by (simp add: decoded_key_def prod_eq_iff)

lemma length_decoded_key [simp, wf_simps]: "length (decoded_key tx) = 32"
  by (simp add: decoded_key_def DecodeWireGuardKey_accepts)

lemma clear_wf_key: "wf_key k \<Longrightarrow> key_Clear k = noise_key_init"
  by (simp add: key_Clear_def wf_key_def noise_key_init_def secure_clear_def)

lemma reset_identity: "wf_identity i \<Longrightarrow> noise_static_identity_reset i = noise_static_identity_zero"
  by (simp add: noise_static_identity_reset_def noise_static_identity_zero_def wf_identity_def
      clear_wf_key flip: key_Clear_def)

lemma wf_noise_key_init [simp]: "wf_key noise_key_init"
  by (simp add: wf_key_def noise_key_init_def)

definition identity_of_text :: "crypto_backend \<Rightarrow> string \<Rightarrow> string \<Rightarrow> string \<Rightarrow> noise_static_identity" where
  "identity_of_text be priv pub psk =
     (let k = ClampX25519PrivateKey (decoded_key priv) in
      \<lparr>static_private = \<lparr>key_bytes = k, key_valid = True\<rparr>,
       static_public = \<lparr>key_bytes = be_x25519_public_key be k, key_valid = True\<rparr>,
       remote_static = \<lparr>key_bytes = decoded_key pub, key_valid = True\<rparr>,
       preshared_key = (if psk = [] then noise_key_init
                        else \<lparr>key_bytes = decoded_key psk, key_valid = True\<rparr>)\<rparr>)"

lemma clamped_bits:
  assumes "length k = 32"
  shows "ClampX25519PrivateKey k ! 0 AND 7 = 0"
    and "ClampX25519PrivateKey k ! 31 AND 192 = 64"
    and "subspan 1 30 (ClampX25519PrivateKey k) = subspan 1 30 k"
proof -
  have "((x :: byte) AND 248) AND 7 = 0" for x by (simp add: and.assoc)
  moreover have "((x :: byte) AND 127 OR 64) AND 192 = 64" for x
    by (simp add: and.assoc bit.conj_disj_distrib2)
  moreover have "take 30 (drop (Suc 0) (k[0 := x, 31 := y])) = take 30 (drop (Suc 0) k)" for x y
    using assms by (auto intro!: nth_equalityI)
  ultimately show "ClampX25519PrivateKey k ! 0 AND 7 = 0" "ClampX25519PrivateKey k ! 31 AND 192 = 64"
    "subspan 1 30 (ClampX25519PrivateKey k) = subspan 1 30 k"
    using assms by (simp_all add: ClampX25519PrivateKey_def Let_def subspan_def)
qed

lemma noise_static_identity_init_eq:
  assumes "wf_identity i" "\<And>a. length (be_x25519_public_key be a) = 32"
  shows "noise_static_identity_init be priv pub psk i =
    (if encoded_key priv \<and> \<not> IsAllZero (decoded_key priv) \<and> encoded_key pub \<and> (psk = [] \<or> encoded_key psk)
     then (True, identity_of_text be priv pub psk) else (False, noise_static_identity_zero))"
proof -
  have wf: "wf_key \<lparr>key_bytes = ClampX25519PrivateKey (decoded_key t), key_valid = v\<rparr>"
    "wf_key \<lparr>key_bytes = decoded_key t, key_valid = v\<rparr>"
    "wf_key \<lparr>key_bytes = be_x25519_public_key be a, key_valid = v\<rparr>" for t v a
    using assms(2) by (simp_all add: wf_key_def)
  have reset: "noise_static_identity_reset \<lparr>static_private = a, static_public = b, remote_static = c,
      preshared_key = d\<rparr> = noise_static_identity_zero"
    if "wf_key a" "wf_key b" "wf_key c" "wf_key d" for a b c d
    using that by (intro reset_identity) (simp add: wf_identity_def)
  have reset0: "noise_static_identity_reset noise_static_identity_zero = noise_static_identity_zero"
    by (intro reset_identity) (simp add: wf_identity_def noise_static_identity_zero_def)
  have init: "noise_key_init\<lparr>key_bytes := b, key_valid := v\<rparr> = \<lparr>key_bytes = b, key_valid = v\<rparr>" for b v
    by (simp add: noise_key_init_def)
  show ?thesis
    by (simp add: noise_static_identity_init_def noise_parse_private_key_def noise_parse_public_key_def
        noise_parse_preshared_key_def decode_key_eq reset_identity[OF assms(1)] x25519_public_key_def
        MoveSecret_eq identity_of_text_def noise_static_identity_zero_def[symmetric] Let_def)
       (simp add: noise_static_identity_zero_def init; simp add: reset reset0 wf init noise_static_identity_zero_def[symmetric])
qed

text \<open>C25: Base64 round trip. Encoding a 32-byte key into a large enough buffer succeeds, terminates the
  text with a NUL at position 44, leaves the rest of the buffer alone, and decoding the 44 characters
  gives the key back.\<close>

theorem key_text_roundtrip:
  assumes "length k = 32" "45 \<le> length out"
  shows "case EncodeWireGuardKey out k of (ok, written) \<Rightarrow>
    ok \<and> written ! 44 = CHR 0x00 \<and> drop 45 written = drop 45 out \<and>
    DecodeWireGuardKey (zeros 32) (take 44 written) = (True, k)"
proof -
  have "length (b64text k) = 44" using assms by (simp add: length_b64text)
  then show ?thesis
    using assms by (simp add: EncodeWireGuardKey_eq DecodeWireGuardKey_b64text nth_append)
qed

theorem key_text_roundtrip_witness:
  "case EncodeWireGuardKey (replicate 46 (CHR ''x'')) (replicate 32 0xA7) of (ok, written) \<Rightarrow>
    ok \<and> written ! 44 = CHR 0x00 \<and> drop 45 written = drop 45 (replicate 46 (CHR ''x'')) \<and>
    DecodeWireGuardKey (zeros 32) (take 44 written) = (True, replicate 32 0xA7)"
  by (rule key_text_roundtrip) simp_all

text \<open>Accepted key texts. The decoder accepts exactly the texts of 43 base64 characters followed
  by one padding character, and it never changes the size of the output array.\<close>

theorem key_text_accepted:
  "fst (DecodeWireGuardKey out t) =
     (length t = 44 \<and> last t = CHR ''='' \<and> list_all (\<lambda>ch. ch \<in> set Base64Alphabet) (butlast t))
   \<and> length (snd (DecodeWireGuardKey out t)) = length out"
  using DecodeWireGuardKey_accepts[of out t] by (simp add: encoded_key_def is_b64_def[abs_def])

text \<open>Static identity. Initialising an identity from configured texts succeeds exactly when the
  private and public key texts are valid, the private key is not zero and the preshared key is
  absent or valid; it then holds the clamped private key, its public key and the decoded remote and
  preshared keys. On every failure all key material of the identity is zero and marked invalid.\<close>

theorem static_identity_init_spec:
  assumes "wf_identity i" "crypto_laws be"
  shows "case noise_static_identity_init be priv pub psk i of (ok, i') \<Rightarrow>
    ok = (encoded_key priv \<and> decoded_key priv \<noteq> zeros 32 \<and> encoded_key pub \<and>
          (psk = [] \<or> encoded_key psk)) \<and>
    i' = (if ok then identity_of_text be priv pub psk else noise_static_identity_zero) \<and>
    (if ok then key_bytes (static_private i') ! 0 AND 7 = 0 \<and> key_bytes (static_private i') ! 31 AND 192 = 64
     else True)"
proof -
  have z: "IsAllZero (decoded_key t) \<longleftrightarrow> decoded_key t = zeros 32" for t
    using length_decoded_key[of t] by (auto simp: IsAllZero_iff list_all_iff intro!: replicate_eqI)
  show ?thesis
    using noise_static_identity_init_eq[OF assms(1) crypto_lawsD(3)[OF assms(2)]]
      clamped_bits[OF length_decoded_key, of priv]
    by (simp add: z identity_of_text_def Let_def)
qed

theorem static_identity_init_spec_witness:
  "noise_static_identity_init example_backend (replicate 43 (CHR ''B'') @ ''='')
      (replicate 43 (CHR ''C'') @ ''='') [] noise_static_identity_zero =
    (True, identity_of_text example_backend (replicate 43 (CHR ''B'') @ ''='')
             (replicate 43 (CHR ''C'') @ ''='') [])"
proof -
  have wf: "wf_identity noise_static_identity_zero"
    by (simp add: wf_identity_def noise_static_identity_zero_def)
  have "encoded_key (replicate 43 (CHR ''B'') @ ''='')"
    "decoded_key (replicate 43 (CHR ''B'') @ ''='') \<noteq> zeros 32"
    "encoded_key (replicate 43 (CHR ''C'') @ ''='')" by code_simp+
  then show ?thesis
    using static_identity_init_spec[OF wf crypto_laws_example, of "replicate 43 (CHR ''B'') @ ''=''"
        "replicate 43 (CHR ''C'') @ ''=''" "[]"]
    by (auto split: prod.splits)
qed

end
