(* ===== verification/WG_Replay.thy ===== *)
theory WG_Replay
  imports WG_Prelude
begin

text \<open>
  The anti-replay window of a receiving key: class \<open>ReplayWindow\<close> of \<open>wireguard/session.hpp\<close> and
  \<open>wireguard/session.cpp\<close>. The ring of 128 blocks of 64 bits is kept as the code keeps it (a list of
  \<open>u64\<close>); the reference definition is a set of accepted counters below the highest one
  (\<open>window_spec\<close>). The locale \<open>replay_filter\<close> states what a receiver relies on; the ring interprets it.
\<close>

subsection \<open>Definitions\<close>

abbreviation (input) BlockBitLog :: nat where "BlockBitLog \<equiv> 6"
abbreviation (input) BlockBits :: nat where "BlockBits \<equiv> 64"
abbreviation (input) RingBlocks :: nat where "RingBlocks \<equiv> 128"
abbreviation (input) WindowSize :: u64 where "WindowSize \<equiv> 8128" \<comment> \<open>(RingBlocks - 1) * BlockBits\<close>
abbreviation (input) BlockMask :: u64 where "BlockMask \<equiv> 127"
abbreviation (input) BitMask :: u64 where "BitMask \<equiv> 63"

record ReplayWindow =
  m_highest_counter :: u64
  m_ring :: "u64 list"
  m_initialized :: bool

definition ReplayWindow_init :: ReplayWindow where
  "ReplayWindow_init = \<lparr>m_highest_counter = 0, m_ring = replicate RingBlocks 0, m_initialized = False\<rparr>"

text \<open>\<open>for (i = first; i <= last; ++i) m_ring[i & BlockMask] = 0\<close>\<close>

definition clear_blocks :: "u64 \<Rightarrow> u64 \<Rightarrow> u64 list \<Rightarrow> u64 list" where
  "clear_blocks first_block last_block ring =
     fold (\<lambda>i r. r[unat (word_of_nat i AND BlockMask) := 0])
       [unat first_block ..< Suc (unat last_block)] ring"

definition TryAdvance :: "u64 \<Rightarrow> ReplayWindow step" where
  "TryAdvance counter w =
     (let index_block = drop_bit BlockBitLog counter;
          advanced =
            (if m_highest_counter w < counter then
               (let current = drop_bit BlockBitLog (m_highest_counter w);
                    diff = index_block - current;
                    diff = (if of_nat RingBlocks < diff then of_nat RingBlocks else diff)
                in Some (w\<lparr>m_ring := clear_blocks (current + 1) (current + diff) (m_ring w),
                           m_highest_counter := counter\<rparr>))
             else if m_initialized w \<and> WindowSize < m_highest_counter w - counter then None
             else Some w)
      in case advanced of
           None \<Rightarrow> (False, w)
         | Some w \<Rightarrow>
             (let index_block = index_block AND BlockMask;
                  index_bit = counter AND BitMask;
                  old_block = m_ring w ! unat index_block;
                  new_block = old_block OR push_bit (unat index_bit) 1
              in (old_block \<noteq> new_block,
                  w\<lparr>m_ring := (m_ring w)[unat index_block := new_block], m_initialized := True\<rparr>)))"

definition ReplayWindow_Reset :: "ReplayWindow \<Rightarrow> ReplayWindow" where
  "ReplayWindow_Reset w =
     w\<lparr>m_highest_counter := 0, m_ring := replicate (length (m_ring w)) 0, m_initialized := False\<rparr>"

definition HasReceivedPacket :: "ReplayWindow \<Rightarrow> bool" where
  "HasReceivedPacket w = m_initialized w"

definition HighestCounter :: "ReplayWindow \<Rightarrow> u64" where
  "HighestCounter w = m_highest_counter w"

subsection \<open>Specification\<close>

text \<open>The reference filter: the highest accepted counter and the set of all accepted counters.\<close>

definition window_spec :: "nat \<Rightarrow> nat \<times> nat set \<Rightarrow> bool \<times> (nat \<times> nat set)" where
  "window_spec c = (\<lambda>(h, S).
     if h < c then (True, (c, insert c S))
     else if h - c > 8128 then (False, (h, S))
     else (c \<notin> S, (h, insert c S)))"

text \<open>The bit of the ring that stands for a counter.\<close>

definition ring_bit :: "u64 list \<Rightarrow> nat \<Rightarrow> bool" where
  "ring_bit ring c = bit (ring ! (c div 64 mod 128)) (c mod 64)"

definition window_rel :: "ReplayWindow \<Rightarrow> nat \<times> nat set \<Rightarrow> bool" where
  "window_rel w = (\<lambda>(h, S).
     length (m_ring w) = 128 \<and> unat (m_highest_counter w) = h \<and> S \<subseteq> {..h} \<and>
     (m_initialized w \<longleftrightarrow> S \<noteq> {}) \<and> (\<not> m_initialized w \<longrightarrow> h = 0) \<and>
     (\<forall>c. c div 64 \<le> h div 64 \<and> h div 64 < c div 64 + 128 \<longrightarrow> (ring_bit (m_ring w) c \<longleftrightarrow> c \<in> S)))"

text \<open>Feeding a sequence of counters and keeping the accepted ones.\<close>

fun accepted_counters :: "(u64 \<Rightarrow> 'w step) \<Rightarrow> 'w \<Rightarrow> u64 list \<Rightarrow> u64 list" where
  "accepted_counters step w [] = []"
| "accepted_counters step w (c # cs) =
     (case step c w of (ok, w') \<Rightarrow>
        if ok then c # accepted_counters step w' cs else accepted_counters step w' cs)"

text \<open>The accept/reject decisions of a filter along a sequence of counters.\<close>

fun decisions :: "('c \<Rightarrow> 's step) \<Rightarrow> 's \<Rightarrow> 'c list \<Rightarrow> bool list" where
  "decisions step s [] = []"
| "decisions step s (c # cs) = (case step c s of (ok, s') \<Rightarrow> ok # decisions step s' cs)"

subsection \<open>Contract\<close>

locale replay_filter =
  fixes advance :: "u64 \<Rightarrow> 'w step"
    and rel :: "'w \<Rightarrow> nat \<times> nat set \<Rightarrow> bool"
    and start :: 'w
  assumes rel_start: "rel start (0, {})"
    and rel_below: "rel w (h, S) \<Longrightarrow> S \<subseteq> {..h}"
    and advance_refines: "rel w hS \<Longrightarrow> advance c w = (ok, w') \<Longrightarrow>
      \<exists>hS'. window_spec (unat c) hS = (ok, hS') \<and> rel w' hS'"
begin

lemma accepted_fresh:
  assumes "rel w (h, S)"
  shows "distinct (accepted_counters advance w cs) \<and>
    S \<inter> unat ` set (accepted_counters advance w cs) = {}"
  using assms
proof (induction cs arbitrary: w h S)
  case Nil
  then show ?case by simp
next
  case (Cons c cs)
  obtain ok w' where a: "advance c w = (ok, w')" by fastforce
  obtain h' S' where s: "window_spec (unat c) (h, S) = (ok, (h', S'))" and r: "rel w' (h', S')"
    using advance_refines[OF Cons.prems a] by auto
  have ih: "distinct (accepted_counters advance w' cs)"
    "S' \<inter> unat ` set (accepted_counters advance w' cs) = {}"
    using Cons.IH[OF r] by auto
  have S': "S \<subseteq> S'" and new: "ok \<Longrightarrow> unat c \<notin> S \<and> unat c \<in> S'"
    using s rel_below[OF Cons.prems] by (auto simp: window_spec_def split: if_splits)
  show ?case using ih S' new a by (cases ok) auto
qed

lemma decisions_refine: "rel w hS \<Longrightarrow> decisions advance w cs = decisions window_spec hS (map unat cs)"
proof (induction cs arbitrary: w hS)
  case Nil
  then show ?case by simp
next
  case (Cons c cs)
  obtain ok w' where a: "advance c w = (ok, w')" by fastforce
  then obtain hS' where "window_spec (unat c) hS = (ok, hS')" "rel w' hS'"
    using advance_refines[OF Cons.prems] by blast
  with a Cons.IH show ?case by simp
qed

lemma no_counter_twice: "distinct (accepted_counters advance start cs)"
  using accepted_fresh[OF rel_start] by blast

end

subsection \<open>The ring in natural numbers\<close>

lemma unat_block_index: "i < 2 ^ 64 \<Longrightarrow> unat (word_of_nat i AND (127 :: u64)) = i mod 128"
  by (simp add: unat_and_127 unat_of_nat)

lemma length_clear_fold [simp]:
  "length (fold (\<lambda>i r. r[f i := 0]) is ring) = length ring"
  by (induction "is" arbitrary: ring) auto

lemma nth_clear_fold:
  "j < length ring \<Longrightarrow>
   fold (\<lambda>i r. r[f i := 0]) is ring ! j = (if j \<in> f ` set is then 0 else ring ! j)"
  by (induction "is" arbitrary: ring) (auto simp: nth_list_update)

lemma length_clear_blocks [simp]: "length (clear_blocks a b ring) = length ring"
  unfolding clear_blocks_def by (rule length_clear_fold)

lemma nth_clear_blocks:
  assumes "length ring = 128" "j < 128"
  shows "clear_blocks a b ring ! j =
    (if \<exists>i. unat a \<le> i \<and> i \<le> unat b \<and> i mod 128 = j then 0 else ring ! j)"
proof -
  have "(\<lambda>i. unat (word_of_nat i AND (127 :: u64))) ` {unat a ..< Suc (unat b)} =
      (\<lambda>i. i mod 128) ` {unat a ..< Suc (unat b)}"
    using unat_u64_bound[of b] by (intro image_cong) (auto simp: unat_block_index)
  then show ?thesis
    using assms unfolding clear_blocks_def
    by (subst nth_clear_fold) (auto simp del: upt_Suc simp: less_Suc_eq_le)
qed

text \<open>Setting a bit changes the mark of exactly one counter of the window.\<close>

lemma bit_or_power:
  "k < 64 \<Longrightarrow> bit (x OR 2 ^ k :: u64) n \<longleftrightarrow> bit x n \<or> n = k"
  by (auto simp: bit_simps)

lemma or_power_eq:
  assumes "k < 64"
  shows "x = (x OR 2 ^ k :: u64) \<longleftrightarrow> bit x k"
  using assms bit_or_power[of k x] by (metis bit_eqI)

lemma ring_bit_update:
  assumes "length ring = 128"
    and "x div 64 < c div 64 + 128" "c div 64 < x div 64 + 128"
  shows "ring_bit (ring[c div 64 mod 128 := (ring ! (c div 64 mod 128)) OR 2 ^ (c mod 64)]) x \<longleftrightarrow>
    ring_bit ring x \<or> x = c"
proof (cases "x div 64 = c div 64")
  case True
  then have "x mod 64 = c mod 64 \<longleftrightarrow> x = c" by (metis div_mult_mod_eq)
  with True assms show ?thesis by (simp add: ring_bit_def bit_or_power)
next
  case False
  then have "x div 64 mod 128 \<noteq> c div 64 mod 128" using assms(2,3) residue_close_eq by blast
  moreover have "x \<noteq> c" using False by blast
  ultimately show ?thesis by (simp add: ring_bit_def)
qed

text \<open>Advancing the highest counter forgets the marks that leave the window and no others.\<close>

lemma ring_bit_advance:
  assumes len: "length ring = 128" and hc: "h < c" and S: "S \<subseteq> {..h}"
    and inv: "\<And>x. x div 64 \<le> h div 64 \<Longrightarrow> h div 64 < x div 64 + 128 \<Longrightarrow> ring_bit ring x \<longleftrightarrow> x \<in> S"
    and a: "unat a = h div 64 + 1" and b: "unat b = h div 64 + min 128 (c div 64 - h div 64)"
    and x: "x div 64 \<le> c div 64" "c div 64 < x div 64 + 128"
  shows "ring_bit (clear_blocks a b ring) x \<longleftrightarrow> x \<in> S"
proof -
  let ?j = "x div 64 mod 128"
  let ?cleared = "\<exists>i. unat a \<le> i \<and> i \<le> unat b \<and> i mod 128 = ?j"
  have bit: "ring_bit (clear_blocks a b ring) x \<longleftrightarrow> \<not> ?cleared \<and> ring_bit ring x"
    using len by (auto simp: ring_bit_def nth_clear_blocks)
  show ?thesis
  proof (cases "x div 64 \<le> h div 64")
    case True
    have "\<not> ?cleared"
    proof
      assume ?cleared
      then obtain i where i: "unat a \<le> i" "i \<le> unat b" "i mod 128 = ?j" by blast
      have "x div 64 < i" "i \<le> c div 64" using i(1,2) a b True by linarith+
      with residue_close_eq[OF i(3)] x show False by linarith
    qed
    moreover have "h div 64 \<le> c div 64" using hc by (simp add: div_le_mono)
    ultimately show ?thesis using bit inv True x(2) by auto
  next
    case False
    then have "h < x" using div_le_mono[of x h 64] by (meson not_less)
    then have "x \<notin> S" using S by auto
    moreover have ?cleared
    proof (cases "c div 64 - h div 64 \<le> 128")
      case True
      then show ?thesis using a b x False by (intro exI[of _ "x div 64"]) auto
    next
      case far: False
      let ?b = "h div 64"
      obtain i where "?b + 1 \<le> i" "i < ?b + 1 + 128" "i mod 128 = ?j"
        using residue_in_run[of ?j 128 "?b + 1"] by auto
      then show ?thesis using a b far by (intro exI[of _ i]) auto
    qed
    ultimately show ?thesis using bit by blast
  qed
qed

subsection \<open>Refinement\<close>

definition mark :: "u64 \<Rightarrow> u64 list \<Rightarrow> bool \<times> u64 list" where
  "mark counter ring =
     (let k = unat (drop_bit 6 counter AND 127); old_block = ring ! k;
          new_block = old_block OR push_bit (unat (counter AND 63)) 1
      in (old_block \<noteq> new_block, ring[k := new_block]))"

lemma TryAdvance_cases:
  "TryAdvance c w =
    (if m_highest_counter w < c then
       (let a = drop_bit 6 (m_highest_counter w) + 1;
            d = drop_bit 6 c - drop_bit 6 (m_highest_counter w);
            b = drop_bit 6 (m_highest_counter w) + (if 128 < d then 128 else d);
            r = mark c (clear_blocks a b (m_ring w))
        in (fst r, w\<lparr>m_ring := snd r, m_highest_counter := c, m_initialized := True\<rparr>))
     else if m_initialized w \<and> 8128 < m_highest_counter w - c then (False, w)
     else (let r = mark c (m_ring w) in (fst r, w\<lparr>m_ring := snd r, m_initialized := True\<rparr>)))"
  by (simp add: TryAdvance_def mark_def Let_def)

lemma mark_spec:
  assumes len: "length ring = 128" and h: "unat c div 64 \<le> h div 64" "h div 64 < unat c div 64 + 128"
    and inv: "\<And>x. x div 64 \<le> h div 64 \<Longrightarrow> h div 64 < x div 64 + 128 \<Longrightarrow> ring_bit ring x \<longleftrightarrow> x \<in> S"
    and m: "mark c ring = (ok, ring')"
  shows "ok \<longleftrightarrow> unat c \<notin> S" "length ring' = 128"
    and "\<And>x. x div 64 \<le> h div 64 \<Longrightarrow> h div 64 < x div 64 + 128 \<Longrightarrow>
      ring_bit ring' x \<longleftrightarrow> x \<in> insert (unat c) S"
proof -
  let ?k = "unat c div 64 mod 128"
  from m have r: "ring' = ring[?k := (ring ! ?k) OR 2 ^ (unat c mod 64)]"
    and ok: "ok \<longleftrightarrow> ring ! ?k \<noteq> (ring ! ?k OR 2 ^ (unat c mod 64))"
    by (auto simp: mark_def Let_def unat_and_127 unat_and_63 unat_drop_bit_div)
  show "length ring' = 128" using len r by simp
  have "ok \<longleftrightarrow> \<not> ring_bit ring (unat c)" using ok by (simp add: or_power_eq ring_bit_def)
  then show "ok \<longleftrightarrow> unat c \<notin> S" using inv h by blast
  fix x
  assume x: "x div 64 \<le> h div 64" "h div 64 < x div 64 + 128"
  then have "ring_bit ring' x \<longleftrightarrow> ring_bit ring x \<or> x = unat c"
    unfolding r using h by (intro ring_bit_update[OF len]) linarith+
  with inv x show "ring_bit ring' x \<longleftrightarrow> x \<in> insert (unat c) S" by auto
qed

lemma unat_block_bounds:
  fixes c h :: u64
  assumes "h < c"
  defines "d \<equiv> drop_bit 6 c - drop_bit 6 h"
  shows "unat (drop_bit 6 h + 1) = unat h div 64 + 1"
    and "unat (drop_bit 6 h + (if 128 < d then 128 else d)) =
      unat h div 64 + min 128 (unat c div 64 - unat h div 64)"
proof -
  have le: "unat h div 64 \<le> unat c div 64" using assms(1) by (simp add: div_le_mono word_less_nat_alt)
  have small: "unat h div 64 < 2 ^ 58" "unat c div 64 < 2 ^ 58"
    using unat_u64_bound[of h] unat_u64_bound[of c] by (simp_all add: div_less_iff_less_mult)
  have d: "unat d = unat c div 64 - unat h div 64"
    using le by (simp add: d_def unat_sub_if' unat_drop_bit_div word_le_nat_alt)
  have lt: "128 < d \<longleftrightarrow> 128 < unat c div 64 - unat h div 64"
    by (simp add: word_less_nat_alt d)
  show "unat (drop_bit 6 h + 1) = unat h div 64 + 1"
    using small by (simp add: unat_plus_if' unat_drop_bit_div)
  show "unat (drop_bit 6 h + (if 128 < d then 128 else d)) =
      unat h div 64 + min 128 (unat c div 64 - unat h div 64)"
    using small by (auto simp: lt unat_plus_if' unat_drop_bit_div d)
qed

lemma TryAdvance_refines:
  assumes rel: "window_rel w (h, S)" and adv: "TryAdvance c w = (ok, w')"
  shows "\<exists>hS'. window_spec (unat c) (h, S) = (ok, hS') \<and> window_rel w' hS'"
proof -
  note relD = rel[unfolded window_rel_def, simplified]
  have len: "length (m_ring w) = 128" and high: "unat (m_highest_counter w) = h"
    and S: "S \<subseteq> {..h}" and init: "m_initialized w \<longleftrightarrow> S \<noteq> {}" "\<not> m_initialized w \<Longrightarrow> h = 0"
    and inv: "\<And>x. x div 64 \<le> h div 64 \<Longrightarrow> h div 64 < x div 64 + 128 \<Longrightarrow>
      ring_bit (m_ring w) x \<longleftrightarrow> x \<in> S"
    using relD by auto
  consider (ahead) "h < unat c" | (stale) "unat c \<le> h" "h - unat c > 8128"
    | (inside) "unat c \<le> h" "h - unat c \<le> 8128" by linarith
  then show ?thesis
  proof cases
    case ahead
    then have hc: "m_highest_counter w < c" by (simp add: word_less_nat_alt high)
    define ring1 where "ring1 = clear_blocks (drop_bit 6 (m_highest_counter w) + 1)
      (drop_bit 6 (m_highest_counter w) +
        (if 128 < drop_bit 6 c - drop_bit 6 (m_highest_counter w) then 128
         else drop_bit 6 c - drop_bit 6 (m_highest_counter w))) (m_ring w)"
    have inv1: "ring_bit ring1 x \<longleftrightarrow> x \<in> S"
      if "x div 64 \<le> unat c div 64" "unat c div 64 < x div 64 + 128" for x
      unfolding ring1_def
      by (rule ring_bit_advance[OF len ahead S inv _ _ that])
        (simp_all add: unat_block_bounds[OF hc] high)
    obtain ring2 where m: "mark c ring1 = (ok, ring2)"
      and w': "w' = w\<lparr>m_ring := ring2, m_highest_counter := c, m_initialized := True\<rparr>"
      using adv hc by (cases "mark c ring1") (simp add: TryAdvance_cases Let_def ring1_def)
    have len1: "length ring1 = 128" by (simp add: ring1_def len)
    note ms = mark_spec[OF len1 _ _ inv1 m, of "unat c", simplified]
    have "unat c \<notin> S" using S ahead by auto
    with ms(1) ahead have "window_spec (unat c) (h, S) = (ok, (unat c, insert (unat c) S))"
      by (simp add: window_spec_def)
    moreover have "window_rel w' (unat c, insert (unat c) S)"
      using ms(2,3) S ahead by (auto simp: window_rel_def w')
    ultimately show ?thesis by blast
  next
    case stale
    have "unat (m_highest_counter w - c) = h - unat c"
      using stale(1) by (simp add: unat_sub_if' high)
    then have far: "8128 < m_highest_counter w - c" "\<not> m_highest_counter w < c"
      using stale by (simp_all add: word_less_nat_alt high)
    moreover have "m_initialized w" using init(2) stale(2) by (cases "m_initialized w") auto
    ultimately have "ok = False" "w' = w" using adv by (auto simp: TryAdvance_cases)
    then show ?thesis using rel stale by (auto simp: window_spec_def)
  next
    case inside
    have "unat (m_highest_counter w - c) = h - unat c"
      using inside(1) by (simp add: unat_sub_if' high)
    then have near: "\<not> 8128 < m_highest_counter w - c" "\<not> m_highest_counter w < c"
      using inside by (simp_all add: word_less_nat_alt high)
    obtain ring2 where m: "mark c (m_ring w) = (ok, ring2)"
      and w': "w' = w\<lparr>m_ring := ring2, m_initialized := True\<rparr>"
      using adv near by (cases "mark c (m_ring w)") (auto simp: TryAdvance_cases Let_def)
    have blk: "unat c div 64 \<le> h div 64" "h div 64 < unat c div 64 + 128"
      using inside by (auto simp: div_le_mono)
    note ms = mark_spec[OF len blk inv m]
    have "window_spec (unat c) (h, S) = (ok, (h, insert (unat c) S))"
      using ms(1) inside by (simp add: window_spec_def)
    moreover have "window_rel w' (h, insert (unat c) S)"
      using ms(2,3) S inside high by (auto simp: window_rel_def w')
    ultimately show ?thesis by blast
  qed
qed

lemma window_rel_init: "window_rel ReplayWindow_init (0, {})"
  by (simp add: window_rel_def ReplayWindow_init_def ring_bit_def)

lemma window_rel_Reset: "length (m_ring w) = 128 \<Longrightarrow> window_rel (ReplayWindow_Reset w) (0, {})"
  by (simp add: window_rel_def ReplayWindow_Reset_def ring_bit_def)

interpretation ring: replay_filter TryAdvance window_rel ReplayWindow_init
proof unfold_locales
  show "window_rel ReplayWindow_init (0, {})" by (rule window_rel_init)
  show "window_rel w (h, S) \<Longrightarrow> S \<subseteq> {..h}" for w h S by (simp add: window_rel_def)
  show "window_rel w hS \<Longrightarrow> TryAdvance c w = (ok, w') \<Longrightarrow>
      \<exists>hS'. window_spec (unat c) hS = (ok, hS') \<and> window_rel w' hS'" for w hS c ok w'
    using TryAdvance_refines[of w "fst hS" "snd hS" c ok w'] by simp
qed

subsection \<open>Properties\<close>

text \<open>C15: The ring implements the reference filter. On every sequence of counters, starting from a fresh
  or a reset window, the bitmap ring takes exactly the accept and reject decisions of the reference
  definition that remembers the set of all accepted counters: accept above the highest, reject
  further than 8128 below it, and otherwise accept iff not seen before.\<close>

theorem replay_window_equivalence:
  "decisions TryAdvance ReplayWindow_init cs = decisions window_spec (0, {}) (map unat cs) \<and>
   decisions TryAdvance (ReplayWindow_Reset (snd (TryAdvance c ReplayWindow_init))) cs =
     decisions window_spec (0, {}) (map unat cs)"
proof -
  obtain ok w' where a: "TryAdvance c ReplayWindow_init = (ok, w')" by fastforce
  then obtain hS where "window_rel w' hS" using ring.advance_refines[OF window_rel_init] by blast
  then have "length (m_ring w') = 128" by (auto simp: window_rel_def)
  then show ?thesis
    using ring.decisions_refine window_rel_init window_rel_Reset a by simp
qed

text \<open>C16: No replay. Whatever sequence of counters arrives, with repetitions and in any order, no counter is
  accepted twice.\<close>

theorem no_counter_accepted_twice: "distinct (accepted_counters TryAdvance ReplayWindow_init cs)"
  by (rule ring.no_counter_twice)

end
