(* ===== verification/WG_Keypair.thy ===== *)
theory WG_Keypair
  imports WG_Keys WG_Replay
begin

text \<open>
  Session state of \<open>wireguard/session.hpp\<close> and \<open>session.cpp\<close>: the cookie kept for a peer
  (\<open>noise_cookie\<close>) and the transport keypair (\<open>noise_keypair\<close>) with its send counter, its expiry and its
  replay window. Monotonic time points and durations are nanoseconds, as \<open>int\<close>. The lemmas show
  that a keypair never hands out a send counter twice or beyond the limit, when it may send and
  receive, and that moving a keypair leaves nothing behind.
\<close>

subsection \<open>Protocol limits (\<open>constants.hpp\<close>)\<close>

type_synonym MonotonicTimePoint = int
type_synonym MonotonicDuration = int

definition RekeyAfterMessages :: u64 where "RekeyAfterMessages = push_bit 60 1"
definition RejectAfterMessages :: u64 where "RejectAfterMessages = - 1 - push_bit 13 1"

abbreviation seconds :: "int \<Rightarrow> MonotonicDuration" where "seconds n \<equiv> n * 1000000000"
abbreviation milliseconds :: "int \<Rightarrow> MonotonicDuration" where "milliseconds n \<equiv> n * 1000000"
abbreviation (input) RekeyAfterTime :: MonotonicDuration where "RekeyAfterTime \<equiv> seconds 120"
abbreviation (input) RejectAfterTime :: MonotonicDuration where "RejectAfterTime \<equiv> seconds 180"

subsection \<open>Cookies\<close>

record noise_cookie =
  cookie_value :: "byte list"
  last_mac1 :: "byte list"
  cookie_birth_time :: MonotonicTimePoint
  cookie_valid :: bool
  has_last_mac1 :: bool

definition noise_cookie_zero :: noise_cookie where
  "noise_cookie_zero = \<lparr>cookie_value = zeros 16, last_mac1 = zeros 16, cookie_birth_time = 0,
     cookie_valid = False, has_last_mac1 = False\<rparr>"

definition cookie_Clear :: "noise_cookie \<Rightarrow> noise_cookie" where
  "cookie_Clear c = c\<lparr>cookie_value := secure_clear (cookie_value c), last_mac1 := secure_clear (last_mac1 c),
     cookie_birth_time := 0, cookie_valid := False, has_last_mac1 := False\<rparr>"

definition cookie_move_assign :: "noise_cookie \<Rightarrow> noise_cookie \<Rightarrow> noise_cookie \<times> noise_cookie" where
  "cookie_move_assign this other =
     (let this = cookie_Clear this;
          this = this\<lparr>cookie_value := cookie_value other, last_mac1 := last_mac1 other,
                      cookie_birth_time := cookie_birth_time other, cookie_valid := cookie_valid other,
                      has_last_mac1 := has_last_mac1 other\<rparr>
      in (this, cookie_Clear other))"

definition noise_cookie_reset :: "noise_cookie \<Rightarrow> noise_cookie" where
  "noise_cookie_reset cookie = cookie_Clear cookie"

definition noise_cookie_record_last_mac1 :: "byte list \<Rightarrow> noise_cookie \<Rightarrow> noise_cookie" where
  "noise_cookie_record_last_mac1 mac1 cookie = cookie\<lparr>last_mac1 := mac1, has_last_mac1 := True\<rparr>"

definition GetMonotonicTime :: "'w platform \<Rightarrow> 'w \<Rightarrow> MonotonicTimePoint \<times> 'w" where
  "GetMonotonicTime pf w = ktime_get_coarse_boottime_ns pf w"

definition noise_cookie_is_valid :: "'w platform \<Rightarrow> noise_cookie \<Rightarrow> 'w \<Rightarrow> bool \<times> 'w" where
  "noise_cookie_is_valid pf cookie w =
     (if \<not> cookie_valid cookie then (False, w)
      else case GetMonotonicTime pf w of (now, w) \<Rightarrow>
        (cookie_birth_time cookie > 0 \<and> now \<ge> cookie_birth_time cookie \<and>
         now - cookie_birth_time cookie \<le> seconds 120, w))"

subsection \<open>Keypairs\<close>

datatype KeypairState = KS_Empty | KS_Established

datatype KeypairSendState = KSS_Ready | KSS_Invalid | KSS_Expired | KSS_CounterExhausted

record KeypairAgeResult =
  age_valid :: bool
  age :: MonotonicDuration

record noise_keypair =
  m_state :: KeypairState
  m_local_index :: u32
  m_remote_index :: u32
  m_send_counter :: u64
  m_is_initiator :: bool
  m_birth_time :: MonotonicTimePoint
  m_sending_key :: noise_symmetric_key
  m_receiving_key :: noise_symmetric_key
  m_receive_replay_window :: ReplayWindow

definition noise_keypair_init :: noise_keypair where
  "noise_keypair_init =
     \<lparr>m_state = KS_Empty, m_local_index = 0, m_remote_index = 0, m_send_counter = 0,
      m_is_initiator = False, m_birth_time = 0, m_sending_key = noise_key_init,
      m_receiving_key = noise_key_init, m_receive_replay_window = ReplayWindow_init\<rparr>"

definition keypair_Reset :: "noise_keypair \<Rightarrow> noise_keypair" where
  "keypair_Reset kp =
     kp\<lparr>m_state := KS_Empty, m_local_index := 0, m_remote_index := 0, m_send_counter := 0,
        m_is_initiator := False, m_birth_time := 0,
        m_sending_key := key_Clear (m_sending_key kp),
        m_receiving_key := key_Clear (m_receiving_key kp),
        m_receive_replay_window := ReplayWindow_Reset (m_receive_replay_window kp)\<rparr>"

definition Establish ::
  "u32 \<Rightarrow> u32 \<Rightarrow> MonotonicTimePoint \<Rightarrow> noise_symmetric_key \<Rightarrow> noise_symmetric_key \<Rightarrow> u64 \<Rightarrow> bool \<Rightarrow>
   noise_keypair \<Rightarrow> noise_keypair" where
  "Establish local_index remote_index birth_time sending_key receiving_key send_counter is_initiator kp =
     (let kp = keypair_Reset kp in
      if local_index = 0 \<or> remote_index = 0 \<or> birth_time < 0 \<or> \<not> key_valid sending_key
         \<or> \<not> key_valid receiving_key then kp
      else
        kp\<lparr>m_state := KS_Established, m_local_index := local_index, m_remote_index := remote_index,
           m_birth_time := birth_time,
           m_sending_key := \<lparr>key_bytes = key_bytes sending_key, key_valid = key_valid sending_key\<rparr>,
           m_receiving_key := \<lparr>key_bytes = key_bytes receiving_key, key_valid = key_valid receiving_key\<rparr>,
           m_send_counter := send_counter, m_is_initiator := is_initiator\<rparr>)"

text \<open>\<open>noise_keypair::operator=(noise_keypair&&)\<close> on two distinct objects: both afterwards.\<close>

definition keypair_move_assign :: "noise_keypair \<Rightarrow> noise_keypair \<Rightarrow> noise_keypair \<times> noise_keypair" where
  "keypair_move_assign this other =
     (let this = keypair_Reset this;
          (send, other_send) = MoveSecret (m_sending_key this) (m_sending_key other);
          (recv, other_recv) = MoveSecret (m_receiving_key this) (m_receiving_key other)
      in (this\<lparr>m_state := m_state other, m_local_index := m_local_index other,
               m_remote_index := m_remote_index other, m_send_counter := m_send_counter other,
               m_is_initiator := m_is_initiator other, m_birth_time := m_birth_time other,
               m_sending_key := send, m_receiving_key := recv,
               m_receive_replay_window := m_receive_replay_window other\<rparr>,
          other\<lparr>m_sending_key := other_send, m_receiving_key := other_recv,
                m_state := KS_Empty, m_local_index := 0, m_remote_index := 0, m_send_counter := 0,
                m_is_initiator := False, m_birth_time := 0,
                m_receive_replay_window := ReplayWindow_Reset (m_receive_replay_window other)\<rparr>))"

definition keypair_IsValid :: "noise_keypair \<Rightarrow> bool" where
  "keypair_IsValid kp \<longleftrightarrow> m_state kp = KS_Established \<and> m_local_index kp \<noteq> 0 \<and> m_remote_index kp \<noteq> 0 \<and>
     key_valid (m_sending_key kp) \<and> key_valid (m_receiving_key kp)"

definition AgeAt :: "noise_keypair \<Rightarrow> MonotonicTimePoint \<Rightarrow> KeypairAgeResult" where
  "AgeAt kp now =
     (if \<not> keypair_IsValid kp \<or> now < m_birth_time kp then \<lparr>age_valid = False, age = 0\<rparr>
      else \<lparr>age_valid = True, age = now - m_birth_time kp\<rparr>)"

definition SendStateAt :: "noise_keypair \<Rightarrow> MonotonicTimePoint \<Rightarrow> KeypairSendState" where
  "SendStateAt kp now =
     (let a = AgeAt kp now in
      if \<not> age_valid a then KSS_Invalid
      else if age a \<ge> RejectAfterTime then KSS_Expired
      else if m_send_counter kp \<ge> RejectAfterMessages then KSS_CounterExhausted
      else KSS_Ready)"

definition CanSendAt :: "noise_keypair \<Rightarrow> MonotonicTimePoint \<Rightarrow> bool" where
  "CanSendAt kp now = (SendStateAt kp now = KSS_Ready)"

definition CanReceiveAt :: "noise_keypair \<Rightarrow> MonotonicTimePoint \<Rightarrow> bool" where
  "CanReceiveAt kp now = (let a = AgeAt kp now in age_valid a \<and> age a < RejectAfterTime)"

definition NeedsRekeyAt :: "noise_keypair \<Rightarrow> MonotonicTimePoint \<Rightarrow> bool" where
  "NeedsRekeyAt kp now =
     (let a = AgeAt kp now in
      age_valid a \<and> (m_send_counter kp > RekeyAfterMessages \<or> (m_is_initiator kp \<and> age a > RekeyAfterTime)))"

definition GetKeypairSendStateName :: "KeypairSendState \<Rightarrow> string" where
  "GetKeypairSendStateName s =
     (case s of KSS_Ready \<Rightarrow> ''ready'' | KSS_Invalid \<Rightarrow> ''invalid'' | KSS_Expired \<Rightarrow> ''expired''
      | KSS_CounterExhausted \<Rightarrow> ''counter_exhausted'')"

definition ReserveSendCounterAt ::
  "MonotonicTimePoint \<Rightarrow> noise_keypair \<Rightarrow> u64 \<Rightarrow> KeypairSendState \<times> noise_keypair \<times> u64" where
  "ReserveSendCounterAt now kp out_counter =
     (let state = SendStateAt kp now in
      if state \<noteq> KSS_Ready then (state, kp, out_counter)
      else (KSS_Ready, kp\<lparr>m_send_counter := m_send_counter kp + 1\<rparr>, m_send_counter kp))"

subsection \<open>Counters handed out over time\<close>

text \<open>The counters of a run of reservations at the given times, in order; a failed reservation
  contributes none.\<close>

fun reserved_counters :: "noise_keypair \<Rightarrow> MonotonicTimePoint list \<Rightarrow> u64 list" where
  "reserved_counters kp [] = []"
| "reserved_counters kp (now # nows) =
     (case ReserveSendCounterAt now kp 0 of (state, kp', c) \<Rightarrow>
        if state = KSS_Ready then c # reserved_counters kp' nows else reserved_counters kp' nows)"

lemma RejectAfterMessages_eq: "RejectAfterMessages = 18446744073709543423"
  by (simp add: RejectAfterMessages_def)

lemma RekeyAfterMessages_eq: "RekeyAfterMessages = 1152921504606846976"
  by (simp add: RekeyAfterMessages_def)

lemma reject_no_wrap: "c < RejectAfterMessages \<Longrightarrow> unat (c + 1) = Suc (unat c)"
  by (simp add: RejectAfterMessages_eq word_less_nat_alt unat_plus_if')

lemma SendStateAt_Ready:
  "SendStateAt kp now = KSS_Ready \<longleftrightarrow>
     keypair_IsValid kp \<and> m_birth_time kp \<le> now \<and> now - m_birth_time kp < seconds 180 \<and>
     m_send_counter kp < RejectAfterMessages"
  by (auto simp: SendStateAt_def AgeAt_def Let_def)

lemma reserved_bounds:
  "sorted_wrt (<) (reserved_counters kp nows) \<and>
   (\<forall>c \<in> set (reserved_counters kp nows). m_send_counter kp \<le> c \<and> c < RejectAfterMessages)"
proof (induction nows arbitrary: kp)
  case (Cons now nows)
  let ?kp = "kp\<lparr>m_send_counter := m_send_counter kp + 1\<rparr>"
  show ?case
  proof (cases "SendStateAt kp now = KSS_Ready")
    case True
    then have lim: "m_send_counter kp < RejectAfterMessages" by (simp add: SendStateAt_Ready)
    have "m_send_counter kp < m_send_counter ?kp"
      using reject_no_wrap[OF lim] by (simp add: word_less_nat_alt)
    then show ?thesis using True Cons[of ?kp] lim
      by (auto simp: ReserveSendCounterAt_def Let_def)
  next
    case False
    then show ?thesis using Cons[of kp] by (simp add: ReserveSendCounterAt_def Let_def)
  qed
qed simp

lemma keypair_move_eq: "keypair_move_assign this other = (other, keypair_Reset other)"
  by (simp add: keypair_move_assign_def MoveSecret_eq keypair_Reset_def)

lemma keypair_Reset_IsValid [simp]: "\<not> keypair_IsValid (keypair_Reset kp)"
  by (simp add: keypair_IsValid_def keypair_Reset_def)

lemma keypair_init_IsValid [simp]: "\<not> keypair_IsValid noise_keypair_init"
  by (simp add: keypair_IsValid_def noise_keypair_init_def)

lemma keypair_Reset_local [simp]: "m_local_index (keypair_Reset kp) = 0"
  by (simp add: keypair_Reset_def)

text \<open>Lengths of the arrays inside a keypair.\<close>

definition wf_keypair :: "noise_keypair \<Rightarrow> bool" where
  "wf_keypair kp \<longleftrightarrow> wf_key (m_sending_key kp) \<and> wf_key (m_receiving_key kp) \<and>
     length (m_ring (m_receive_replay_window kp)) = 128"

lemma ReplayWindow_Reset_eq: "length (m_ring w) = 128 \<Longrightarrow> ReplayWindow_Reset w = ReplayWindow_init"
  by (simp add: ReplayWindow_Reset_def ReplayWindow_init_def)

lemma keypair_Reset_eq: "wf_keypair kp \<Longrightarrow> keypair_Reset kp = noise_keypair_init"
  by (simp add: keypair_Reset_def noise_keypair_init_def wf_keypair_def clear_wf_key ReplayWindow_Reset_eq)

lemma wf_keypair_init [simp]: "wf_keypair noise_keypair_init"
  by (simp add: wf_keypair_def noise_keypair_init_def ReplayWindow_init_def)

lemma Establish_IsValid:
  "keypair_IsValid (Establish l r birth sk rk c ini kp) \<longleftrightarrow>
     l \<noteq> 0 \<and> r \<noteq> 0 \<and> 0 \<le> birth \<and> key_valid sk \<and> key_valid rk"
  by (auto simp: Establish_def Let_def keypair_IsValid_def keypair_Reset_def)

lemma wf_keypair_Reset [simp]: "wf_keypair kp \<Longrightarrow> wf_keypair (keypair_Reset kp)"
  by (simp add: keypair_Reset_eq)

lemma wf_keypair_Establish:
  "wf_keypair kp \<Longrightarrow> wf_key sk \<Longrightarrow> wf_key rk \<Longrightarrow> wf_keypair (Establish l r birth sk rk c ini kp)"
  by (simp add: Establish_def Let_def keypair_Reset_eq wf_keypair_def noise_keypair_init_def wf_key_def
      noise_key_init_def ReplayWindow_init_def)

subsection \<open>Properties\<close>

text \<open>C17: Send counters. Whatever the keypair and whatever the times of the calls, the counters that
  \<open>ReserveSendCounterAt\<close> hands out are strictly increasing, so no nonce is ever used twice with one
  key, and all of them are below \<open>RejectAfterMessages\<close>.\<close>

theorem send_counters_unique:
  "sorted_wrt (<) (reserved_counters kp nows) \<and> distinct (reserved_counters kp nows) \<and>
   list_all (\<lambda>c. c < RejectAfterMessages) (reserved_counters kp nows)"
  using reserved_bounds[of kp nows]
  by (simp add: list_all_iff strict_sorted_iff)

text \<open>C24: Keypair lifetime. A keypair established with nonzero indices, a nonnegative birth time and
  valid keys is usable for receiving exactly in the 180 seconds from its birth, and for sending in
  the same period as long as its counter is below the limit; established with anything else it is
  not usable at any time.\<close>

theorem keypair_lifetime:
  "let kp' = Establish l r birth sk rk c ini kp;
       good = (l \<noteq> 0 \<and> r \<noteq> 0 \<and> 0 \<le> birth \<and> key_valid sk \<and> key_valid rk)
   in CanReceiveAt kp' now = (good \<and> birth \<le> now \<and> now < birth + seconds 180) \<and>
      CanSendAt kp' now = (CanReceiveAt kp' now \<and> c < RejectAfterMessages) \<and>
      NeedsRekeyAt kp' now =
        (good \<and> birth \<le> now \<and> (c > RekeyAfterMessages \<or> ini \<and> now > birth + seconds 120)) \<and>
      keypair_IsValid kp' = good"
proof -
  define good where "good \<longleftrightarrow> l \<noteq> 0 \<and> r \<noteq> 0 \<and> 0 \<le> birth \<and> key_valid sk \<and> key_valid rk"
  define kp' where "kp' = Establish l r birth sk rk c ini kp"
  have v: "keypair_IsValid kp' = good" by (simp add: kp'_def good_def Establish_IsValid)
  have f: "m_birth_time kp' = birth \<and> m_send_counter kp' = c \<and> m_is_initiator kp' = ini" if good
    using that by (auto simp: kp'_def good_def Establish_def Let_def)
  show ?thesis unfolding good_def[symmetric] kp'_def[symmetric] Let_def
    by (cases good) (auto simp: v f CanReceiveAt_def CanSendAt_def SendStateAt_Ready AgeAt_def NeedsRekeyAt_def)
qed

text \<open>Moving a keypair. Move assignment transfers the whole keypair, and the source is left in the
  state of a fresh object: no key, counter, index or replay history stays behind in it.\<close>

theorem keypair_move_leaves_nothing:
  assumes "wf_keypair other"
  shows "keypair_move_assign this other = (other, noise_keypair_init)"
  by (simp add: keypair_move_eq keypair_Reset_eq[OF assms])

theorem keypair_move_leaves_nothing_witness:
  "let k = \<lparr>key_bytes = replicate 32 9, key_valid = True\<rparr>;
       kp = Establish 3 4 5 k k 6 True noise_keypair_init
   in keypair_IsValid kp \<and> keypair_move_assign noise_keypair_init kp = (kp, noise_keypair_init)"
proof -
  let ?k = "\<lparr>key_bytes = replicate 32 9, key_valid = True\<rparr>"
  let ?kp = "Establish 3 4 5 ?k ?k 6 True noise_keypair_init"
  have "wf_keypair ?kp" by (rule wf_keypair_Establish) (simp_all add: wf_key_def)
  from keypair_move_leaves_nothing[OF this] show ?thesis
    by (simp add: Let_def Establish_IsValid)
qed

end
