(* ===== verification/WG_Queue.thy ===== *)
theory WG_Queue
  imports WG_Prelude
begin

text \<open>
  The bounded packet queue of \<open>wireguard/inner_packet.hpp\<close>: \<open>InnerPacketQueue<Capacity>\<close>, a ring of
  records with a head, a count and statistics. \<open>Capacity\<close> is the length of the record array. The
  locale \<open>bounded_fifo\<close> is what the users of the queue rely on (a list of at most \<open>Capacity\<close> packets,
  refused when full, served in order); the ring interprets it.
\<close>

subsection \<open>Definitions\<close>

record InnerPacketRecord =
  ipr_bytes :: "byte list"
  packet_id :: u64
  activation_generation :: u32
  peer_index :: u32
  ipr_size :: u16

definition InnerPacketRecord_init :: InnerPacketRecord where
  "InnerPacketRecord_init =
     \<lparr>ipr_bytes = zeros 1500, packet_id = 0, activation_generation = 0, peer_index = 0, ipr_size = 0\<rparr>"

datatype QueuePushResult = QP_Pushed | QP_Full

datatype QueueDisposition =
  QD_Delivered | QD_Sent | QD_Stale | QD_Unavailable | QD_SendFailed | QD_RetryExhausted | QD_Cleared

definition GetQueueDispositionName :: "QueueDisposition \<Rightarrow> string" where
  "GetQueueDispositionName d =
     (case d of QD_Delivered \<Rightarrow> ''delivered'' | QD_Sent \<Rightarrow> ''sent'' | QD_Stale \<Rightarrow> ''stale''
      | QD_Unavailable \<Rightarrow> ''unavailable'' | QD_SendFailed \<Rightarrow> ''send_failed''
      | QD_RetryExhausted \<Rightarrow> ''retry_exhausted'' | QD_Cleared \<Rightarrow> ''cleared'')"

record QueueStatistics =
  qs_pushed :: u64
  qs_popped :: u64
  qs_rejected_full :: u64
  qs_delivered :: u64
  qs_sent :: u64
  qs_stale :: u64
  qs_unavailable :: u64
  qs_send_failed :: u64
  qs_retry_exhausted :: u64
  qs_cleared :: u64
  qs_high_watermark :: nat

definition QueueStatistics_init :: QueueStatistics where
  "QueueStatistics_init =
     \<lparr>qs_pushed = 0, qs_popped = 0, qs_rejected_full = 0, qs_delivered = 0, qs_sent = 0, qs_stale = 0,
      qs_unavailable = 0, qs_send_failed = 0, qs_retry_exhausted = 0, qs_cleared = 0,
      qs_high_watermark = 0\<rparr>"

definition Dropped :: "QueueStatistics \<Rightarrow> u64" where
  "Dropped s = qs_rejected_full s + qs_stale s + qs_unavailable s + qs_send_failed s
     + qs_retry_exhausted s + qs_cleared s"

record InnerPacketQueue =
  m_records :: "InnerPacketRecord list"
  m_head :: nat
  m_count :: nat
  m_statistics :: QueueStatistics

definition InnerPacketQueue_init :: "nat \<Rightarrow> InnerPacketQueue" where
  "InnerPacketQueue_init Capacity =
     \<lparr>m_records = replicate Capacity InnerPacketRecord_init, m_head = 0, m_count = 0,
      m_statistics = QueueStatistics_init\<rparr>"

definition CapacityValue :: "InnerPacketQueue \<Rightarrow> nat" where
  "CapacityValue q = length (m_records q)"

definition RecordDisposition :: "QueueDisposition \<Rightarrow> nat \<Rightarrow> QueueStatistics \<Rightarrow> QueueStatistics" where
  "RecordDisposition disposition count s =
     (let v = of_nat count in
      case disposition of
        QD_Delivered \<Rightarrow> s\<lparr>qs_delivered := qs_delivered s + v\<rparr>
      | QD_Sent \<Rightarrow> s\<lparr>qs_sent := qs_sent s + v\<rparr>
      | QD_Stale \<Rightarrow> s\<lparr>qs_stale := qs_stale s + v\<rparr>
      | QD_Unavailable \<Rightarrow> s\<lparr>qs_unavailable := qs_unavailable s + v\<rparr>
      | QD_SendFailed \<Rightarrow> s\<lparr>qs_send_failed := qs_send_failed s + v\<rparr>
      | QD_RetryExhausted \<Rightarrow> s\<lparr>qs_retry_exhausted := qs_retry_exhausted s + v\<rparr>
      | QD_Cleared \<Rightarrow> s\<lparr>qs_cleared := qs_cleared s + v\<rparr>)"

definition Queue_Push :: "InnerPacketRecord \<Rightarrow> InnerPacketQueue \<Rightarrow> QueuePushResult \<times> InnerPacketQueue" where
  "Queue_Push packet q =
     (let s = m_statistics q in
      if m_count q = CapacityValue q then
        (QP_Full, q\<lparr>m_statistics := s\<lparr>qs_rejected_full := qs_rejected_full s + 1\<rparr>\<rparr>)
      else
        (let count = m_count q + 1;
             s = s\<lparr>qs_pushed := qs_pushed s + 1\<rparr>;
             s = (if count > qs_high_watermark s then s\<lparr>qs_high_watermark := count\<rparr> else s)
         in (QP_Pushed,
             q\<lparr>m_records := (m_records q)[(m_head q + m_count q) mod CapacityValue q := packet],
               m_count := count, m_statistics := s\<rparr>)))"

definition Queue_Front :: "InnerPacketQueue \<Rightarrow> InnerPacketRecord option" where
  "Queue_Front q = (if m_count q = 0 then None else Some (m_records q ! m_head q))"

text \<open>\<open>None\<close> is the answer \<open>false\<close>; \<open>Some r\<close> is \<open>true\<close> with \<open>r\<close> stored through \<open>out\<close> when it is not null.\<close>

definition Queue_Pop ::
  "QueueDisposition \<Rightarrow> InnerPacketQueue \<Rightarrow> InnerPacketRecord option \<times> InnerPacketQueue" where
  "Queue_Pop disposition q =
     (if m_count q = 0 then (None, q)
      else
        (let s = m_statistics q; s = s\<lparr>qs_popped := qs_popped s + 1\<rparr>
         in (Some (m_records q ! m_head q),
             q\<lparr>m_records := (m_records q)[m_head q := InnerPacketRecord_init],
               m_head := (m_head q + 1) mod CapacityValue q,
               m_count := m_count q - 1,
               m_statistics := RecordDisposition disposition 1 s\<rparr>)))"

definition Queue_Clear :: "QueueDisposition \<Rightarrow> InnerPacketQueue \<Rightarrow> nat \<times> InnerPacketQueue" where
  "Queue_Clear disposition q =
     (let cleared = m_count q;
          records = fold (\<lambda>i rs. rs[(m_head q + i) mod CapacityValue q := InnerPacketRecord_init])
                      [0..<m_count q] (m_records q);
          s = m_statistics q; s = s\<lparr>qs_popped := qs_popped s + of_nat cleared\<rparr>
      in (cleared, q\<lparr>m_records := records, m_head := 0, m_count := 0,
                     m_statistics := RecordDisposition disposition cleared s\<rparr>))"

definition Queue_Size :: "InnerPacketQueue \<Rightarrow> nat" where
  "Queue_Size q = m_count q"

subsection \<open>Specification\<close>

text \<open>Operations and their observable results, for runs of a queue.\<close>

datatype 'a queue_op = Op_Push 'a | Op_Pop QueueDisposition | Op_Clear QueueDisposition | Op_Front

datatype 'a queue_result = R_Push QueuePushResult | R_Pop "'a option" | R_Clear nat | R_Front "'a option"

fun list_queue_step :: "nat \<Rightarrow> 'a queue_op \<Rightarrow> 'a list \<Rightarrow> 'a queue_result \<times> 'a list" where
  "list_queue_step cap (Op_Push x) xs =
     (if length xs = cap then (R_Push QP_Full, xs) else (R_Push QP_Pushed, xs @ [x]))"
| "list_queue_step cap (Op_Pop d) xs =
     (case xs of [] \<Rightarrow> (R_Pop None, []) | y # ys \<Rightarrow> (R_Pop (Some y), ys))"
| "list_queue_step cap (Op_Clear d) xs = (R_Clear (length xs), [])"
| "list_queue_step cap Op_Front xs = (R_Front (case xs of [] \<Rightarrow> None | y # ys \<Rightarrow> Some y), xs)"

fun queue_step ::
  "InnerPacketRecord queue_op \<Rightarrow> InnerPacketQueue \<Rightarrow> InnerPacketRecord queue_result \<times> InnerPacketQueue" where
  "queue_step (Op_Push x) q = (case Queue_Push x q of (r, q') \<Rightarrow> (R_Push r, q'))"
| "queue_step (Op_Pop d) q = (case Queue_Pop d q of (r, q') \<Rightarrow> (R_Pop r, q'))"
| "queue_step (Op_Clear d) q = (case Queue_Clear d q of (r, q') \<Rightarrow> (R_Clear r, q'))"
| "queue_step Op_Front q = (R_Front (Queue_Front q), q)"

fun run_ops :: "('op \<Rightarrow> 's \<Rightarrow> 'r \<times> 's) \<Rightarrow> 'op list \<Rightarrow> 's \<Rightarrow> 'r list \<times> 's" where
  "run_ops step [] s = ([], s)"
| "run_ops step (x # xs) s =
     (case step x s of (r, s') \<Rightarrow> case run_ops step xs s' of (rs, s'') \<Rightarrow> (r # rs, s''))"

definition queue_inv :: "InnerPacketQueue \<Rightarrow> bool" where
  "queue_inv q \<longleftrightarrow> 0 < CapacityValue q \<and> m_head q < CapacityValue q \<and> m_count q \<le> CapacityValue q"

definition queue_list :: "InnerPacketQueue \<Rightarrow> InnerPacketRecord list" where
  "queue_list q = map (\<lambda>i. m_records q ! ((m_head q + i) mod CapacityValue q)) [0..<m_count q]"

text \<open>What users of a bounded queue rely on: it behaves as a list with a capacity.\<close>

locale bounded_fifo =
  fixes step :: "'a queue_op \<Rightarrow> 'q \<Rightarrow> 'a queue_result \<times> 'q"
    and abs :: "'q \<Rightarrow> 'a list"
    and inv :: "'q \<Rightarrow> bool"
    and cap :: "'q \<Rightarrow> nat"
  assumes step_refines: "inv q \<Longrightarrow> step x q = (r, q') \<Longrightarrow>
    inv q' \<and> cap q' = cap q \<and> list_queue_step (cap q) x (abs q) = (r, abs q')"
    and bounded: "inv q \<Longrightarrow> length (abs q) \<le> cap q"
begin

lemma run_refines:
  "inv q \<Longrightarrow> run_ops step xs q = (rs, q') \<Longrightarrow>
   inv q' \<and> cap q' = cap q \<and> run_ops (list_queue_step (cap q)) xs (abs q) = (rs, abs q')"
proof (induction xs arbitrary: q rs q')
  case (Cons x xs)
  obtain r q1 where 1: "step x q = (r, q1)" by fastforce
  obtain rs1 q2 where 2: "run_ops step xs q1 = (rs1, q2)" by fastforce
  have s: "inv q1" "cap q1 = cap q" "list_queue_step (cap q) x (abs q) = (r, abs q1)"
    using step_refines[OF Cons.prems(1) 1] by simp_all
  show ?case using Cons.IH[OF s(1) 2] s Cons.prems(2) 1 2 by simp
qed simp

lemma run_results:
  "inv q \<Longrightarrow> fst (run_ops step xs q) = fst (run_ops (list_queue_step (cap q)) xs (abs q))"
  using run_refines[of q xs "fst (run_ops step xs q)" "snd (run_ops step xs q)"] by simp

lemma run_bounded:
  "inv q \<Longrightarrow> length (abs (snd (run_ops step xs q))) \<le> cap q"
  using run_refines[of q xs "fst (run_ops step xs q)" "snd (run_ops step xs q)"]
    bounded[of "snd (run_ops step xs q)"] by simp

end

subsection \<open>The ring refines the list\<close>

lemma length_queue_list [simp]: "length (queue_list q) = m_count q"
  by (simp add: queue_list_def)

lemma ring_index_neq:
  fixes h i n c :: nat
  assumes "i < n" "n < c"
  shows "(h + i) mod c \<noteq> (h + n) mod c"
proof
  assume "(h + i) mod c = (h + n) mod c"
  then have "(int h + int i) mod int c = (int h + int n) mod int c"
    by (metis of_nat_add zmod_int)
  then have "int c dvd (int n - int i)"
    by (simp add: mod_eq_dvd_iff dvd_diff_commute)
  then show False using assms by (auto dest: zdvd_imp_le)
qed

lemma queue_list_push:
  assumes "queue_inv q" "m_count q \<noteq> CapacityValue q" "Queue_Push x q = (r, q')"
  shows "r = QP_Pushed \<and> queue_inv q' \<and> CapacityValue q' = CapacityValue q \<and> queue_list q' = queue_list q @ [x]"
proof -
  let ?c = "CapacityValue q"
  have n: "m_count q < ?c" "0 < ?c" using assms(1,2) by (auto simp: queue_inv_def)
  have ne: "(m_head q + m_count q) mod ?c \<noteq> (m_head q + i) mod ?c" if "i < m_count q" for i
    using ring_index_neq[OF that n(1), of "m_head q"] by simp
  have "map (\<lambda>i. (m_records q)[(m_head q + m_count q) mod ?c := x] ! ((m_head q + i) mod ?c)) [0..<m_count q]
      = queue_list q"
    by (simp add: queue_list_def ne)
  then show ?thesis using assms n
    by (auto simp: Queue_Push_def Let_def queue_inv_def queue_list_def CapacityValue_def)
qed

lemma queue_list_pop:
  assumes "queue_inv q" "m_count q \<noteq> 0" "Queue_Pop d q = (r, q')"
  shows "queue_inv q' \<and> CapacityValue q' = CapacityValue q \<and> (\<exists>y. r = Some y \<and> queue_list q = y # queue_list q')"
proof -
  let ?c = "CapacityValue q"
  have n: "m_head q < ?c" "m_count q \<le> ?c" "0 < ?c" using assms(1) by (auto simp: queue_inv_def)
  have nth: "(m_records q)[m_head q := InnerPacketRecord_init] ! ((Suc (m_head q) mod ?c + i) mod ?c)
      = m_records q ! ((m_head q + Suc i) mod ?c)" if "i < m_count q - 1" for i
  proof -
    have "(Suc (m_head q) mod ?c + i) mod ?c = (m_head q + Suc i) mod ?c" by (simp add: mod_add_left_eq)
    moreover have "(m_head q + Suc i) mod ?c \<noteq> m_head q"
    proof -
      have "Suc i < ?c" using that n by linarith
      then show ?thesis using ring_index_neq[of 0 "Suc i" ?c "m_head q"] n(1) by auto
    qed
    ultimately show ?thesis by simp
  qed
  have "queue_list q = m_records q ! m_head q # map (\<lambda>i. m_records q ! ((m_head q + Suc i) mod ?c)) [0..<m_count q - 1]"
  proof -
    obtain k where k: "m_count q = Suc k" using assms(2) by (cases "m_count q") auto
    have "[0..<Suc k] = 0 # map Suc [0..<k]" by (simp add: upt_conv_Cons map_Suc_upt del: upt_Suc)
    then show ?thesis using n by (simp add: queue_list_def k o_def del: upt_Suc)
  qed
  then show ?thesis using assms n nth
    by (auto simp: Queue_Pop_def Let_def queue_inv_def queue_list_def CapacityValue_def)
qed

lemma queue_clear_fold:
  "length (fold (\<lambda>i rs. rs[f i := z]) is rs) = length rs"
  by (induction "is" arbitrary: rs) simp_all

lemma queue_list_clear:
  assumes "queue_inv q" "Queue_Clear d q = (n, q')"
  shows "n = m_count q \<and> queue_inv q' \<and> CapacityValue q' = CapacityValue q \<and> queue_list q' = []"
proof -
  have "n = m_count q" "CapacityValue q' = CapacityValue q" "m_head q' = 0" "m_count q' = 0"
    using assms(2) by (auto simp: Queue_Clear_def Let_def CapacityValue_def queue_clear_fold)
  then show ?thesis using assms(1) by (simp add: queue_inv_def queue_list_def)
qed

lemma queue_front: "queue_inv q \<Longrightarrow> Queue_Front q = (case queue_list q of [] \<Rightarrow> None | y # ys \<Rightarrow> Some y)"
  by (cases "m_count q") (auto simp: Queue_Front_def queue_list_def queue_inv_def upt_conv_Cons simp del: upt_Suc)

lemma queue_step_refines:
  assumes "queue_inv q" "queue_step x q = (r, q')"
  shows "queue_inv q' \<and> CapacityValue q' = CapacityValue q \<and>
    list_queue_step (CapacityValue q) x (queue_list q) = (r, queue_list q')"
proof (cases x)
  case (Op_Push p)
  show ?thesis
  proof (cases "m_count q = CapacityValue q")
    case True
    then show ?thesis using assms Op_Push
      by (auto simp: Queue_Push_def Let_def queue_inv_def queue_list_def CapacityValue_def)
  next
    case False
    then show ?thesis using assms Op_Push queue_list_push[of q p] by (auto split: prod.splits)
  qed
next
  case (Op_Pop d)
  show ?thesis
  proof (cases "m_count q = 0")
    case True
    then show ?thesis using assms Op_Pop by (auto simp: Queue_Pop_def queue_list_def)
  next
    case False
    then show ?thesis using assms Op_Pop queue_list_pop[of q d] by (fastforce split: prod.splits)
  qed
next
  case (Op_Clear d)
  then show ?thesis using assms queue_list_clear[of q d] by (auto split: prod.splits)
next
  case Op_Front
  then show ?thesis using assms queue_front by auto
qed

interpretation ring_queue: bounded_fifo queue_step queue_list queue_inv CapacityValue
proof unfold_locales
  show "queue_inv q \<Longrightarrow> queue_step x q = (r, q') \<Longrightarrow> queue_inv q' \<and> CapacityValue q' = CapacityValue q \<and>
      list_queue_step (CapacityValue q) x (queue_list q) = (r, queue_list q')" for q x r q'
    by (rule queue_step_refines)
  show "queue_inv q \<Longrightarrow> length (queue_list q) \<le> CapacityValue q" for q
    by (simp add: queue_inv_def)
qed

lemma queue_inv_init: "0 < c \<Longrightarrow> queue_inv (InnerPacketQueue_init c)"
  and CapacityValue_init [simp]: "CapacityValue (InnerPacketQueue_init c) = c"
  and queue_list_init [simp]: "queue_list (InnerPacketQueue_init c) = []"
  by (simp_all add: queue_inv_def InnerPacketQueue_init_def CapacityValue_def queue_list_def)

subsection \<open>Accounting\<close>

definition disposed :: "QueueStatistics \<Rightarrow> u64" where
  "disposed s = qs_delivered s + qs_sent s + qs_stale s + qs_unavailable s + qs_send_failed s
     + qs_retry_exhausted s + qs_cleared s"

definition queue_accounts :: "InnerPacketQueue \<Rightarrow> bool" where
  "queue_accounts q \<longleftrightarrow>
     qs_pushed (m_statistics q) = qs_popped (m_statistics q) + of_nat (m_count q) \<and>
     qs_popped (m_statistics q) = disposed (m_statistics q) \<and>
     m_count q \<le> qs_high_watermark (m_statistics q) \<and>
     qs_high_watermark (m_statistics q) \<le> CapacityValue q"

lemma RecordDisposition_other:
  "qs_pushed (RecordDisposition d n s) = qs_pushed s" "qs_popped (RecordDisposition d n s) = qs_popped s"
  "qs_rejected_full (RecordDisposition d n s) = qs_rejected_full s"
  "qs_high_watermark (RecordDisposition d n s) = qs_high_watermark s"
  "disposed (RecordDisposition d n s) = disposed s + of_nat n"
  by (cases d; simp add: RecordDisposition_def disposed_def)+

lemma queue_accounts_step:
  assumes "queue_inv q" "queue_accounts q"
  shows "queue_accounts (snd (queue_step x q))"
proof (cases x)
  case (Op_Push p)
  then show ?thesis using assms
    by (auto simp: queue_accounts_def queue_inv_def Queue_Push_def Let_def disposed_def CapacityValue_def)
next
  case (Op_Pop d)
  have "disposed (s\<lparr>qs_popped := v\<rparr>) = disposed s" for s v by (simp add: disposed_def)
  with Op_Pop show ?thesis using assms
    by (auto simp: queue_accounts_def Queue_Pop_def Let_def RecordDisposition_other CapacityValue_def
        of_nat_diff algebra_simps)
next
  case (Op_Clear d)
  have "disposed (s\<lparr>qs_popped := v\<rparr>) = disposed s" for s v by (simp add: disposed_def)
  with Op_Clear show ?thesis using assms
    by (auto simp: queue_accounts_def Queue_Clear_def Let_def RecordDisposition_other CapacityValue_def
        queue_clear_fold)
next
  case Op_Front
  then show ?thesis using assms by simp
qed

lemma queue_accounts_run:
  "queue_inv q \<Longrightarrow> queue_accounts q \<Longrightarrow> queue_accounts (snd (run_ops queue_step xs q))"
proof (induction xs arbitrary: q)
  case (Cons x xs)
  then have "queue_inv (snd (queue_step x q))" "queue_accounts (snd (queue_step x q))"
    using queue_step_refines[of q x "fst (queue_step x q)" "snd (queue_step x q)"] queue_accounts_step
    by auto
  from Cons.IH[OF this] show ?case by (simp add: case_prod_beta)
qed simp

subsection \<open>Properties\<close>

text \<open>C28: Queue behaviour. On every sequence of operations a queue with at least one slot answers
  exactly as a list of at most \<open>Capacity\<close> packets does: packets leave in the order they entered, a
  full queue refuses and keeps its contents, clearing reports the number removed, and the number of
  packets held never exceeds the capacity.\<close>

theorem queue_is_bounded_fifo:
  assumes "0 < c"
  shows "fst (run_ops queue_step xs (InnerPacketQueue_init c)) = fst (run_ops (list_queue_step c) xs []) \<and>
    Queue_Size (snd (run_ops queue_step xs (InnerPacketQueue_init c))) \<le> c"
  using ring_queue.run_results[OF queue_inv_init[OF assms], of xs]
    ring_queue.run_bounded[OF queue_inv_init[OF assms], of xs]
  by (simp add: Queue_Size_def)

theorem queue_is_bounded_fifo_witness:
  "fst (run_ops queue_step [Op_Push (InnerPacketRecord_init\<lparr>packet_id := 1\<rparr>), Op_Pop QD_Sent, Op_Front]
          (InnerPacketQueue_init 1)) =
     [R_Push QP_Pushed, R_Pop (Some (InnerPacketRecord_init\<lparr>packet_id := 1\<rparr>)), R_Front None]"
  using queue_is_bounded_fifo[of 1 "[Op_Push (InnerPacketRecord_init\<lparr>packet_id := 1\<rparr>), Op_Pop QD_Sent, Op_Front]"]
  by simp

text \<open>Queue statistics. After every sequence of operations the statistics of a queue balance: the
  packets pushed are those popped plus those still held, every popped packet is counted under exactly
  one disposition (both as 64-bit counters, which wrap together), and the high watermark lies
  between the current size and the capacity.\<close>

theorem queue_statistics_balance:
  assumes "0 < c"
  shows "queue_accounts (snd (run_ops queue_step xs (InnerPacketQueue_init c)))"
  using assms
  by (intro queue_accounts_run queue_inv_init)
     (simp_all add: queue_accounts_def InnerPacketQueue_init_def QueueStatistics_init_def disposed_def CapacityValue_def)

theorem queue_statistics_balance_witness:
  "queue_accounts (snd (run_ops queue_step [Op_Push InnerPacketRecord_init, Op_Clear QD_Stale] (InnerPacketQueue_init 2)))"
  by (rule queue_statistics_balance) simp

end
