(* ===== verification/WG_Counter.thy ===== *)
theory WG_Counter
  imports WG_Prelude
begin

text \<open>
  Counters that skip zero. Timer generations (\<open>TimerCoordinator::NextGeneration\<close>) and session indices
  (\<open>wg_index_allocator_next\<close>) are both drawn from a 32-bit counter that wraps from its maximum to 1.
  The locale \<open>nonzero_counter\<close> states this contract and shows when two draws are different; the two
  components interpret it.
\<close>

definition succ0 :: "u32 \<Rightarrow> u32" where
  "succ0 g = (if g + 1 = 0 then 1 else g + 1)"

fun draws :: "('s \<Rightarrow> u32 \<times> 's) \<Rightarrow> nat \<Rightarrow> 's \<Rightarrow> u32 list \<times> 's" where
  "draws next 0 s = ([], s)"
| "draws next (Suc n) s = (case next s of (r, s') \<Rightarrow> case draws next n s' of (rs, s'') \<Rightarrow> (r # rs, s''))"

lemma unat_u32_bound: "unat (g :: u32) < 4294967296"
  using unsigned_less[of g] by simp

lemma succ0_nonzero [simp]: "succ0 g \<noteq> 0"
  by (simp add: succ0_def)

lemma succ0_unat:
  assumes "g \<noteq> 0"
  shows "unat (succ0 g) = (unat g mod 4294967295) + 1"
proof (cases "g + 1 = 0")
  case True
  then have "g = - 1" by (simp add: eq_neg_iff_add_eq_0)
  moreover have "(- 1 :: u32) = 4294967295" by simp
  ultimately have "g = 4294967295" by (simp only:)
  then show ?thesis by (simp add: succ0_def)
next
  case False
  have b: "unat g < 4294967296" using unat_u32_bound[of g] by simp
  have "unat g \<noteq> 4294967295"
  proof
    assume "unat g = 4294967295"
    then have "g = 4294967295" by (simp add: word_unat_eq_iff)
    then show False using False by simp
  qed
  then show ?thesis using b False by (simp add: succ0_def unat_plus_if')
qed

lemma succ0_pow:
  assumes "g \<noteq> 0"
  shows "unat ((succ0 ^^ n) g) = (unat g - 1 + n) mod 4294967295 + 1"
proof (induction n)
  case 0
  have "unat g < 4294967296" "unat g \<noteq> 0" using unat_u32_bound[of g] assms by (simp_all add: unat_eq_zero)
  then show ?case by simp
next
  case (Suc n)
  have "(succ0 ^^ n) g \<noteq> 0" using assms by (cases n) simp_all
  then show ?case using Suc by (simp add: succ0_unat mod_simps)
qed

lemma succ0_pow_neq:
  assumes "g \<noteq> 0" "0 < n" "n < 4294967295"
  shows "(succ0 ^^ n) g \<noteq> g"
proof
  assume eq: "(succ0 ^^ n) g = g"
  have u: "unat g = (unat g - 1 + n) mod 4294967295 + 1" using succ0_pow[OF assms(1), of n] by (simp only: eq)
  define a where "a = unat g - 1"
  have a: "a < 4294967295" "unat g = a + 1"
    using unat_u32_bound[of g] assms(1) by (simp_all add: a_def unat_eq_zero[symmetric] del: unat_eq_zero)
  have "(a + n) mod 4294967295 = a" using u unfolding a_def[symmetric] a(2) by simp
  moreover have "(a + n) mod 4294967295 = (if a + n < 4294967295 then a + n else a + n - 4294967295)"
    using a(1) assms(3) by (simp add: le_mod_geq)
  ultimately show False using a(1) assms(2,3) by (auto split: if_splits)
qed

locale nonzero_counter =
  fixes next_value :: "'s \<Rightarrow> u32 \<times> 's"
    and upcoming :: "'s \<Rightarrow> u32"
    and ok :: "'s \<Rightarrow> bool"
  assumes next_ok: "ok s \<Longrightarrow> next_value s = (r, s') \<Longrightarrow>
    r = upcoming s \<and> r \<noteq> 0 \<and> upcoming s' = succ0 r \<and> ok s'"
begin

lemma draws_nth:
  "ok s \<Longrightarrow> draws next_value n s = (rs, s') \<Longrightarrow>
   ok s' \<and> upcoming s' = (succ0 ^^ n) (upcoming s) \<and> rs = map (\<lambda>i. (succ0 ^^ i) (upcoming s)) [0..<n]"
proof (induction n arbitrary: s rs)
  case (Suc n)
  obtain r s1 where 1: "next_value s = (r, s1)" by fastforce
  obtain rs1 s2 where 2: "draws next_value n s1 = (rs1, s2)" by fastforce
  have n: "r = upcoming s" "upcoming s1 = succ0 r" "ok s1" using next_ok[OF Suc.prems(1) 1] by simp_all
  have r: "rs = r # rs1" "s' = s2" using Suc.prems(2) by (simp_all add: 1 2)
  have "[0..<Suc n] = 0 # map Suc [0..<n]" by (simp add: upt_conv_Cons map_Suc_upt del: upt_Suc)
  then show ?case using Suc.IH[OF n(3)] 2 n r by (simp add: funpow_swap1 o_def del: upt_Suc)
qed simp

lemma draws_distinct_nonzero:
  assumes "ok s" "n \<le> 4294967295" "0 < n" "draws next_value n s = (rs, s')"
  shows "distinct rs \<and> 0 \<notin> set rs \<and> length rs = n"
proof -
  have g: "upcoming s \<noteq> 0" using next_ok[OF assms(1), of "fst (next_value s)" "snd (next_value s)"] by auto
  have rs: "rs = map (\<lambda>i. (succ0 ^^ i) (upcoming s)) [0..<n]" using draws_nth[OF assms(1,4)] by simp
  have nz: "(succ0 ^^ i) (upcoming s) \<noteq> 0" for i using g by (cases i) simp_all
  have "(succ0 ^^ i) (upcoming s) \<noteq> (succ0 ^^ j) (upcoming s)" if "i < j" "j < n" for i j
  proof -
    have "(succ0 ^^ j) (upcoming s) = (succ0 ^^ (j - i)) ((succ0 ^^ i) (upcoming s))"
      using that funpow_add[of "j - i" i succ0] by simp
    moreover have "0 < j - i" "j - i < 4294967295" using that assms(2) by linarith+
    ultimately show ?thesis using succ0_pow_neq[OF nz[of i], of "j - i"] by metis
  qed
  then have "inj_on (\<lambda>i. (succ0 ^^ i) (upcoming s)) {0..<n}"
    by (intro inj_onI) (metis atLeastLessThan_iff linorder_neqE_nat)
  then show ?thesis using nz by (auto simp: rs distinct_map)
qed

end

end
