(* ===== verification/WG_Timers.thy ===== *)
theory WG_Timers
  imports WG_Counter
begin

text \<open>
  Protocol timers. \<open>wireguard/timers.hpp\<close> and \<open>timers.cpp\<close> keep the intent of a peer (which hook is
  pending and when it is due, in milliseconds, as \<open>int\<close>); \<open>wireguard/timer_coordinator.hpp\<close> and
  \<open>timer_coordinator.cpp\<close> hand out tokens so that a timer event that fires late can be recognised as
  stale.
\<close>

subsection \<open>Timer intent\<close>

datatype TimerHook =
  TH_RetransmitHandshake | TH_SendKeepalive | TH_NewHandshake | TH_ZeroKeyMaterial | TH_PersistentKeepalive

type_synonym TimerDeadline = int
type_synonym TimerDelay = int

record wg_timer_hook_state =
  pending :: bool
  deadline :: TimerDeadline

definition wg_timer_hook_state_init :: wg_timer_hook_state where
  "wg_timer_hook_state_init = \<lparr>pending = False, deadline = 0\<rparr>"

record wg_timers =
  retransmit_handshake :: wg_timer_hook_state
  send_keepalive :: wg_timer_hook_state
  new_handshake :: wg_timer_hook_state
  zero_key_material :: wg_timer_hook_state
  persistent_keepalive :: wg_timer_hook_state
  need_another_keepalive :: bool

definition wg_timers_zero :: wg_timers where
  "wg_timers_zero =
     \<lparr>retransmit_handshake = wg_timer_hook_state_init, send_keepalive = wg_timer_hook_state_init,
      new_handshake = wg_timer_hook_state_init, zero_key_material = wg_timer_hook_state_init,
      persistent_keepalive = wg_timer_hook_state_init, need_another_keepalive = False\<rparr>"

text \<open>\<open>GetHookState\<close> returns a pointer: reading through it, and updating through it.\<close>

definition GetHookState :: "wg_timers \<Rightarrow> TimerHook \<Rightarrow> wg_timer_hook_state" where
  "GetHookState t hook =
     (case hook of
        TH_RetransmitHandshake \<Rightarrow> retransmit_handshake t
      | TH_SendKeepalive \<Rightarrow> send_keepalive t
      | TH_NewHandshake \<Rightarrow> new_handshake t
      | TH_ZeroKeyMaterial \<Rightarrow> zero_key_material t
      | TH_PersistentKeepalive \<Rightarrow> persistent_keepalive t)"

definition SetHookState :: "TimerHook \<Rightarrow> wg_timer_hook_state \<Rightarrow> wg_timers \<Rightarrow> wg_timers" where
  "SetHookState hook s t =
     (case hook of
        TH_RetransmitHandshake \<Rightarrow> t\<lparr>retransmit_handshake := s\<rparr>
      | TH_SendKeepalive \<Rightarrow> t\<lparr>send_keepalive := s\<rparr>
      | TH_NewHandshake \<Rightarrow> t\<lparr>new_handshake := s\<rparr>
      | TH_ZeroKeyMaterial \<Rightarrow> t\<lparr>zero_key_material := s\<rparr>
      | TH_PersistentKeepalive \<Rightarrow> t\<lparr>persistent_keepalive := s\<rparr>)"

definition GetTimerHookName :: "TimerHook \<Rightarrow> string" where
  "GetTimerHookName hook =
     (case hook of
        TH_RetransmitHandshake \<Rightarrow> ''retransmit_handshake''
      | TH_SendKeepalive \<Rightarrow> ''send_keepalive''
      | TH_NewHandshake \<Rightarrow> ''new_handshake''
      | TH_ZeroKeyMaterial \<Rightarrow> ''zero_key_material''
      | TH_PersistentKeepalive \<Rightarrow> ''persistent_keepalive'')"

definition wg_timers_init :: "wg_timers \<Rightarrow> wg_timers" where
  "wg_timers_init t = wg_timers_zero"

definition wg_timers_schedule :: "TimerHook \<Rightarrow> TimerDeadline \<Rightarrow> wg_timers \<Rightarrow> wg_timers" where
  "wg_timers_schedule hook due t =
     SetHookState hook ((GetHookState t hook)\<lparr>pending := True, deadline := due\<rparr>) t"

definition wg_timers_cancel :: "TimerHook \<Rightarrow> wg_timers \<Rightarrow> wg_timers" where
  "wg_timers_cancel hook t =
     (if \<not> pending (GetHookState t hook) then t
      else SetHookState hook ((GetHookState t hook)\<lparr>pending := False, deadline := 0\<rparr>) t)"

definition wg_timers_cancel_all :: "wg_timers \<Rightarrow> wg_timers" where
  "wg_timers_cancel_all t =
     (let t = wg_timers_cancel TH_RetransmitHandshake t;
          t = wg_timers_cancel TH_SendKeepalive t;
          t = wg_timers_cancel TH_NewHandshake t;
          t = wg_timers_cancel TH_ZeroKeyMaterial t;
          t = wg_timers_cancel TH_PersistentKeepalive t
      in t\<lparr>need_another_keepalive := False\<rparr>)"

definition wg_timers_any_pending :: "wg_timers \<Rightarrow> bool" where
  "wg_timers_any_pending t \<longleftrightarrow>
     pending (GetHookState t TH_RetransmitHandshake) \<or> pending (GetHookState t TH_SendKeepalive) \<or>
     pending (GetHookState t TH_NewHandshake) \<or> pending (GetHookState t TH_ZeroKeyMaterial) \<or>
     pending (GetHookState t TH_PersistentKeepalive)"

definition GetHandshakeRetryDelay :: "u32 \<Rightarrow> TimerDelay" where
  "GetHandshakeRetryDelay jitter_ms = 5000 + int (unat (jitter_ms mod 334))"

subsection \<open>Timer coordinator\<close>

record TimerOwner =
  owner_peer_index :: u32
  owner_activation_generation :: u32
  owner_protocol_sequence :: u32

definition TimerOwner_init :: TimerOwner where
  "TimerOwner_init = \<lparr>owner_peer_index = 0, owner_activation_generation = 0, owner_protocol_sequence = 0\<rparr>"

record TimerToken =
  token_hook :: TimerHook
  token_owner :: TimerOwner
  token_generation :: u32

definition TimerToken_init :: TimerToken where
  "TimerToken_init =
     \<lparr>token_hook = TH_RetransmitHandshake, token_owner = TimerOwner_init, token_generation = 0\<rparr>"

definition TimerToken_IsValid :: "TimerToken \<Rightarrow> bool" where
  "TimerToken_IsValid t = (token_generation t \<noteq> 0)"

record HookState =
  hs_token :: TimerToken
  hs_armed :: bool

definition HookState_init :: HookState where
  "HookState_init = \<lparr>hs_token = TimerToken_init, hs_armed = False\<rparr>"

abbreviation (input) HookCount :: nat where "HookCount \<equiv> 5"

record TimerCoordinator =
  m_hooks :: "HookState list"
  m_next_generation :: u32

definition TimerCoordinator_init :: TimerCoordinator where
  "TimerCoordinator_init = \<lparr>m_hooks = replicate HookCount HookState_init, m_next_generation = 1\<rparr>"

definition HookIndex :: "TimerHook \<Rightarrow> nat" where
  "HookIndex hook =
     (case hook of TH_RetransmitHandshake \<Rightarrow> 0 | TH_SendKeepalive \<Rightarrow> 1 | TH_NewHandshake \<Rightarrow> 2
      | TH_ZeroKeyMaterial \<Rightarrow> 3 | TH_PersistentKeepalive \<Rightarrow> 4)"

text \<open>The recursive call happens only after a stored generation of 0, and then finds 1.\<close>

function NextGeneration :: "TimerCoordinator \<Rightarrow> u32 \<times> TimerCoordinator" where
  "NextGeneration c =
     (let generation = m_next_generation c;
          c = c\<lparr>m_next_generation := m_next_generation c + 1\<rparr>;
          c = (if m_next_generation c = 0 then c\<lparr>m_next_generation := 1\<rparr> else c)
      in if generation = 0 then NextGeneration c else (generation, c))"
  by auto
termination
  by (relation "measure (\<lambda>c. if m_next_generation c = 0 then 1 else 0)") (auto simp: Let_def)

definition Arm :: "TimerHook \<Rightarrow> TimerOwner \<Rightarrow> TimerCoordinator \<Rightarrow> TimerToken \<times> TimerCoordinator" where
  "Arm hook owner c =
     (case NextGeneration c of (generation, c) \<Rightarrow>
        let token = \<lparr>token_hook = hook, token_owner = owner, token_generation = generation\<rparr>
        in (token, c\<lparr>m_hooks := (m_hooks c)[HookIndex hook := \<lparr>hs_token = token, hs_armed = True\<rparr>]\<rparr>))"

definition Cancel :: "TimerHook \<Rightarrow> TimerCoordinator \<Rightarrow> TimerToken \<times> TimerCoordinator" where
  "Cancel hook c =
     (let state = m_hooks c ! HookIndex hook;
          canceled = (if hs_armed state then hs_token state else TimerToken_init);
          c = c\<lparr>m_hooks := (m_hooks c)[HookIndex hook := HookState_init]\<rparr>
      in (canceled, snd (NextGeneration c)))"

definition CancelAll :: "TimerCoordinator \<Rightarrow> TimerCoordinator" where
  "CancelAll c =
     snd (NextGeneration
       (c\<lparr>m_hooks := fold (\<lambda>i hooks. hooks[i := HookState_init]) [0..<HookCount] (m_hooks c)\<rparr>))"

definition IsCurrent :: "TimerToken \<Rightarrow> TimerOwner \<Rightarrow> TimerCoordinator \<Rightarrow> bool" where
  "IsCurrent token current_owner c =
     (if \<not> TimerToken_IsValid token \<or> token_owner token \<noteq> current_owner then False
      else (let state = m_hooks c ! HookIndex (token_hook token)
            in hs_armed state \<and> hs_token state = token))"

definition IsArmed :: "TimerHook \<Rightarrow> TimerCoordinator \<Rightarrow> bool" where
  "IsArmed hook c = hs_armed (m_hooks c ! HookIndex hook)"

declare NextGeneration.simps [simp del]

subsection \<open>Lemmas\<close>

lemma NextGeneration_eq:
  "m_next_generation c \<noteq> 0 \<Longrightarrow>
   NextGeneration c = (m_next_generation c, c\<lparr>m_next_generation := succ0 (m_next_generation c)\<rparr>)"
  by (subst NextGeneration.simps) (simp add: Let_def succ0_def)

interpretation generations: nonzero_counter NextGeneration m_next_generation "\<lambda>c. m_next_generation c \<noteq> 0"
  by unfold_locales (auto simp: NextGeneration_eq)

lemma HookIndex_less [simp]: "HookIndex h < 5"
  by (cases h) (simp_all add: HookIndex_def)

lemma HookIndex_inj [simp]: "HookIndex h = HookIndex h' \<longleftrightarrow> h = h'"
  by (cases h; cases h') (simp_all add: HookIndex_def)

lemma clear_hooks:
  assumes "length hs = 5"
  shows "fold (\<lambda>i hooks. hooks[i := HookState_init]) [0..<5] hs = replicate 5 HookState_init"
proof -
  obtain a b c d e where "hs = [a, b, c, d, e]"
    using assms by (auto simp: numeral_eq_Suc length_Suc_conv)
  then show ?thesis by (simp add: numeral_eq_Suc upt_rec)
qed

text \<open>Runs of the coordinator.\<close>

datatype timer_op = TO_Arm TimerHook TimerOwner | TO_Cancel TimerHook | TO_CancelAll

fun apply_timer_op :: "timer_op \<Rightarrow> TimerCoordinator \<Rightarrow> TimerCoordinator" where
  "apply_timer_op (TO_Arm h owner) c = snd (Arm h owner c)"
| "apply_timer_op (TO_Cancel h) c = snd (Cancel h c)"
| "apply_timer_op TO_CancelAll c = CancelAll c"

fun touches :: "TimerHook \<Rightarrow> timer_op \<Rightarrow> bool" where
  "touches h (TO_Arm h' owner) = (h' = h)"
| "touches h (TO_Cancel h') = (h' = h)"
| "touches h TO_CancelAll = True"

definition wf_coordinator :: "TimerCoordinator \<Rightarrow> bool" where
  "wf_coordinator c \<longleftrightarrow> length (m_hooks c) = 5 \<and> m_next_generation c \<noteq> 0"

lemma wf_coordinator_init: "wf_coordinator TimerCoordinator_init"
  by (simp add: wf_coordinator_def TimerCoordinator_init_def)

lemma op_hooks:
  assumes "wf_coordinator c"
  shows "snd (Arm h owner c) = c\<lparr>m_next_generation := succ0 (m_next_generation c),
      m_hooks := (m_hooks c)[HookIndex h := \<lparr>hs_token = fst (Arm h owner c), hs_armed = True\<rparr>]\<rparr>"
    and "token_generation (fst (Arm h owner c)) = m_next_generation c"
    and "snd (Cancel h c) = c\<lparr>m_next_generation := succ0 (m_next_generation c),
      m_hooks := (m_hooks c)[HookIndex h := HookState_init]\<rparr>"
    and "CancelAll c = c\<lparr>m_next_generation := succ0 (m_next_generation c),
      m_hooks := replicate 5 HookState_init\<rparr>"
proof -
  have len: "length (m_hooks c) = 5" and nz: "m_next_generation c \<noteq> 0"
    using assms by (simp_all add: wf_coordinator_def)
  have "m_next_generation (c\<lparr>m_hooks := hs\<rparr>) \<noteq> 0" for hs using nz by simp
  note N = NextGeneration_eq[OF nz] NextGeneration_eq[OF this]
  show "snd (Arm h owner c) = c\<lparr>m_next_generation := succ0 (m_next_generation c),
      m_hooks := (m_hooks c)[HookIndex h := \<lparr>hs_token = fst (Arm h owner c), hs_armed = True\<rparr>]\<rparr>"
    "token_generation (fst (Arm h owner c)) = m_next_generation c"
    "snd (Cancel h c) = c\<lparr>m_next_generation := succ0 (m_next_generation c),
      m_hooks := (m_hooks c)[HookIndex h := HookState_init]\<rparr>"
    by (simp_all add: Arm_def Cancel_def N Let_def)
  show "CancelAll c = c\<lparr>m_next_generation := succ0 (m_next_generation c), m_hooks := replicate 5 HookState_init\<rparr>"
    unfolding CancelAll_def clear_hooks[OF len] N by simp
qed

lemma not_armed_init [simp]: "\<not> hs_armed HookState_init"
  by (simp add: HookState_init_def)

text \<open>One operation draws one generation, and changes the hooks it touches only.\<close>

lemma apply_timer_op_effect:
  assumes "wf_coordinator c"
  shows "wf_coordinator (apply_timer_op x c)"
    and "m_next_generation (apply_timer_op x c) = succ0 (m_next_generation c)"
    and "\<not> touches h x \<Longrightarrow> m_hooks (apply_timer_op x c) ! HookIndex h = m_hooks c ! HookIndex h"
    and "touches h x \<Longrightarrow> hs_armed (m_hooks (apply_timer_op x c) ! HookIndex h) \<Longrightarrow>
      token_generation (hs_token (m_hooks (apply_timer_op x c) ! HookIndex h)) = m_next_generation c"
proof -
  have len: "length (m_hooks c) = 5" and nz: "m_next_generation c \<noteq> 0"
    using assms by (simp_all add: wf_coordinator_def)
  have all: "replicate 5 HookState_init ! HookIndex h = HookState_init" by (rule nth_replicate) simp
  show "wf_coordinator (apply_timer_op x c)"
    "m_next_generation (apply_timer_op x c) = succ0 (m_next_generation c)"
    "\<not> touches h x \<Longrightarrow> m_hooks (apply_timer_op x c) ! HookIndex h = m_hooks c ! HookIndex h"
    "touches h x \<Longrightarrow> hs_armed (m_hooks (apply_timer_op x c) ! HookIndex h) \<Longrightarrow>
      token_generation (hs_token (m_hooks (apply_timer_op x c) ! HookIndex h)) = m_next_generation c"
    using len all by (cases x; simp add: wf_coordinator_def op_hooks[OF assms])+
qed

lemma timer_run:
  assumes "wf_coordinator c" "m_next_generation c = succ0 g" "m_hooks c ! HookIndex h = s"
  defines "c' \<equiv> \<lambda>ops. fold apply_timer_op ops c"
  shows "wf_coordinator (c' ops) \<and> m_next_generation (c' ops) = (succ0 ^^ Suc (length ops)) g \<and>
    (if list_ex (touches h) ops
     then hs_armed (m_hooks (c' ops) ! HookIndex h) \<longrightarrow>
       (\<exists>k. 0 < k \<and> k \<le> length ops \<and>
         token_generation (hs_token (m_hooks (c' ops) ! HookIndex h)) = (succ0 ^^ k) g)
     else m_hooks (c' ops) ! HookIndex h = s)"
proof (induction ops rule: rev_induct)
  case Nil
  then show ?case using assms by simp
next
  case (snoc x ops)
  let ?c = "c' ops"
  have wf: "wf_coordinator ?c" and g: "m_next_generation ?c = (succ0 ^^ Suc (length ops)) g" using snoc by simp_all
  have step: "c' (ops @ [x]) = apply_timer_op x ?c" by (simp add: c'_def)
  note eff = apply_timer_op_effect(1,2)[OF wf, of x] apply_timer_op_effect(3,4)[OF wf, of h x]
  show ?case
  proof (cases "touches h x")
    case True
    then show ?thesis using eff g by (auto simp: step intro!: exI[of _ "Suc (length ops)"])
  next
    case False
    then show ?thesis using eff(1,2) eff(3)[OF False] g snoc
      by (auto simp: step split: if_splits)
  qed
qed

lemma IsCurrent_run:
  assumes "wf_coordinator c" "Arm h owner c = (t, c1)" "length ops < 4294967295"
  shows "IsCurrent t owner' (fold apply_timer_op ops c1) =
    (owner' = owner \<and> list_all (\<lambda>x. \<not> touches h x) ops)"
proof -
  define g where "g = m_next_generation c"
  have g: "g \<noteq> 0" using assms(1) by (simp add: wf_coordinator_def g_def)
  have t: "t = \<lparr>token_hook = h, token_owner = owner, token_generation = g\<rparr>"
    and c1: "c1 = apply_timer_op (TO_Arm h owner) c"
    using assms(1,2) by (auto simp: Arm_def NextGeneration_eq wf_coordinator_def g_def Let_def)
  have s: "m_hooks c1 ! HookIndex h = \<lparr>hs_token = t, hs_armed = True\<rparr>"
    using assms(1,2) by (auto simp: Arm_def NextGeneration_eq wf_coordinator_def Let_def)
  have wf: "wf_coordinator c1" "m_next_generation c1 = succ0 g"
    using apply_timer_op_effect(1,2)[OF assms(1)] by (simp_all only: c1 g_def)
  have ne: "g \<noteq> (succ0 ^^ k) g" if "0 < k" "k \<le> length ops" for k
    using succ0_pow_neq[OF g that(1)] that(2) assms(3) by fastforce
  have untouched: "list_all (\<lambda>x. \<not> touches h x) ops \<longleftrightarrow> \<not> list_ex (touches h) ops"
    by (induction ops) simp_all
  show ?thesis
    using timer_run[OF wf s, of ops] ne g
    by (auto simp: IsCurrent_def TimerToken_IsValid_def t untouched Let_def split: if_splits)
qed

subsection \<open>Timer intent as a map\<close>

definition due :: "wg_timers \<Rightarrow> TimerHook \<Rightarrow> TimerDeadline option" where
  "due t hook = (if pending (GetHookState t hook) then Some (deadline (GetHookState t hook)) else None)"

lemma Get_SetHookState [simp]:
  "GetHookState (SetHookState h s t) h' = (if h' = h then s else GetHookState t h')"
  by (cases h; cases h'; simp add: GetHookState_def SetHookState_def)

lemma GetHookState_need [simp]: "GetHookState (t\<lparr>need_another_keepalive := b\<rparr>) h = GetHookState t h"
  by (cases h) (simp_all add: GetHookState_def)

lemma due_schedule: "due (wg_timers_schedule h d t) = (due t)(h \<mapsto> d)"
  by (rule ext) (simp add: due_def wg_timers_schedule_def)

lemma due_cancel: "due (wg_timers_cancel h t) = (due t)(h := None)"
  by (rule ext) (simp add: due_def wg_timers_cancel_def)

lemma due_cancel_all: "due (wg_timers_cancel_all t) = Map.empty"
proof
  have need: "due (t\<lparr>need_another_keepalive := b\<rparr>) = due t" for t b by (rule ext) (simp add: due_def)
  show "due (wg_timers_cancel_all t) h = None" for h
    by (cases h) (simp_all add: wg_timers_cancel_all_def Let_def need due_cancel)
qed

subsection \<open>Properties\<close>

text \<open>C30: Stale timers. A token handed out by \<open>Arm\<close> stays current for its owner exactly as long as its
  hook is neither armed again nor cancelled, whatever else the coordinator does, over any run of
  fewer than \<open>2^32 - 1\<close> operations (the period of the generation counter, which skips zero).\<close>

theorem timer_token_current_exact:
  assumes "wf_coordinator c" "Arm h owner c = (t, c1)" "length ops < 4294967295"
  shows "IsCurrent t owner' (fold apply_timer_op ops c1) =
    (owner' = owner \<and> list_all (\<lambda>x. \<not> touches h x) ops)"
  using assms by (rule IsCurrent_run)

theorem timer_token_current_exact_witness:
  "let (t, c1) = Arm TH_SendKeepalive TimerOwner_init TimerCoordinator_init in
   IsCurrent t TimerOwner_init (fold apply_timer_op [TO_Cancel TH_NewHandshake] c1) \<and>
   \<not> IsCurrent t TimerOwner_init
       (fold apply_timer_op [TO_Cancel TH_SendKeepalive, TO_Arm TH_SendKeepalive TimerOwner_init] c1)"
proof -
  obtain t c1 where a: "Arm TH_SendKeepalive TimerOwner_init TimerCoordinator_init = (t, c1)" by (rule prod.exhaust)
  show ?thesis
    using timer_token_current_exact[OF wf_coordinator_init a, of "[TO_Cancel TH_NewHandshake]" TimerOwner_init]
      timer_token_current_exact[OF wf_coordinator_init a,
        of "[TO_Cancel TH_SendKeepalive, TO_Arm TH_SendKeepalive TimerOwner_init]" TimerOwner_init]
    by (simp add: a)
qed

text \<open>Timer intent. The timers of a peer behave as a partial map from hooks to deadlines: scheduling
  sets one entry, cancelling removes one, cancelling all removes every one, and a timer is reported
  pending exactly when the map is not empty. A handshake retry is due after 5000 to 5333 ms.\<close>

theorem timers_are_a_map:
  "due (wg_timers_init t) = Map.empty \<and>
   due (wg_timers_schedule h d t) = (due t)(h \<mapsto> d) \<and>
   due (wg_timers_cancel h t) = (due t)(h := None) \<and>
   due (wg_timers_cancel_all t) = Map.empty \<and>
   wg_timers_any_pending t = (due t \<noteq> Map.empty) \<and>
   5000 \<le> GetHandshakeRetryDelay j \<and> GetHandshakeRetryDelay j \<le> 5333"
proof -
  have "due (wg_timers_init t) h = None" for h
    by (cases h) (simp_all add: due_def wg_timers_init_def wg_timers_zero_def GetHookState_def wg_timer_hook_state_init_def)
  moreover have "wg_timers_any_pending t = (\<exists>h. due t h \<noteq> None)"
  proof
    assume "\<exists>h. due t h \<noteq> None"
    then obtain h where "due t h \<noteq> None" ..
    then show "wg_timers_any_pending t" by (cases h) (auto simp: wg_timers_any_pending_def due_def split: if_splits)
  qed (auto simp: wg_timers_any_pending_def due_def)
  moreover have "uint (j mod 334) < 334" by (simp add: uint_mod)
  ultimately show ?thesis
    by (auto simp: due_schedule due_cancel due_cancel_all GetHandshakeRetryDelay_def)
qed

end
