(* ===== verification/WG_Peer.thy ===== *)
theory WG_Peer
  imports WG_Messages WG_Keypair WG_Queue WG_Timers
begin

text \<open>
  The protocol peer of \<open>wireguard/peer.hpp\<close> and \<open>peer.cpp\<close>, with the handshake state of
  \<open>wireguard/handshake.hpp\<close> it embeds: initialisation from a configuration, the retry sequence of a
  handshake, the staging queue, and the scrubbing of key material. \<open>pf\<close> is the platform and \<open>w\<close> its
  state; an operation that reads the clock returns the new state of the platform.
\<close>

subsection \<open>Handshake state\<close>

datatype HandshakeState =
  HS_Zeroed | HS_InitiationCreated | HS_InitiationReceived | HS_ResponseCreated | HS_ResponseReceived
  | HS_SessionDerived | HS_Failed

definition GetHandshakeStateName :: "HandshakeState \<Rightarrow> string" where
  "GetHandshakeStateName s =
     (case s of HS_Zeroed \<Rightarrow> ''zeroed'' | HS_InitiationCreated \<Rightarrow> ''initiation_created''
      | HS_InitiationReceived \<Rightarrow> ''initiation_received'' | HS_ResponseCreated \<Rightarrow> ''response_created''
      | HS_ResponseReceived \<Rightarrow> ''response_received'' | HS_SessionDerived \<Rightarrow> ''session_derived''
      | HS_Failed \<Rightarrow> ''failed'')"

record noise_handshake =
  h_state :: HandshakeState
  h_local_index :: u32
  h_remote_index :: u32
  transition_count :: u32
  last_transition :: MonotonicTimePoint
  last_initiation_timestamp :: "byte list"
  last_initiation_consumption :: MonotonicTimePoint
  has_last_initiation_timestamp :: bool

definition noise_handshake_zero :: noise_handshake where
  "noise_handshake_zero =
     \<lparr>h_state = HS_Zeroed, h_local_index = 0, h_remote_index = 0, transition_count = 0,
      last_transition = 0, last_initiation_timestamp = zeros 12, last_initiation_consumption = 0,
      has_last_initiation_timestamp = False\<rparr>"

definition noise_handshake_init :: "'w platform \<Rightarrow> noise_handshake \<Rightarrow> 'w \<Rightarrow> noise_handshake \<times> 'w" where
  "noise_handshake_init pf h w =
     (case GetMonotonicTime pf w of (now, w) \<Rightarrow>
        (noise_handshake_zero\<lparr>h_state := HS_Zeroed, last_transition := now\<rparr>, w))"

definition noise_handshake_transition ::
  "'w platform \<Rightarrow> HandshakeState \<Rightarrow> noise_handshake \<Rightarrow> 'w \<Rightarrow> bool \<times> noise_handshake \<times> 'w" where
  "noise_handshake_transition pf new_state h w =
     (case GetMonotonicTime pf w of (now, w) \<Rightarrow>
        (h_state h \<noteq> new_state,
         h\<lparr>h_state := new_state, last_transition := now, transition_count := transition_count h + 1\<rparr>, w))"

definition noise_handshake_set_local_index :: "u32 \<Rightarrow> noise_handshake \<Rightarrow> noise_handshake" where
  "noise_handshake_set_local_index i h = h\<lparr>h_local_index := i\<rparr>"

definition noise_handshake_set_remote_index :: "u32 \<Rightarrow> noise_handshake \<Rightarrow> noise_handshake" where
  "noise_handshake_set_remote_index i h = h\<lparr>h_remote_index := i\<rparr>"

subsection \<open>The peer\<close>

abbreviation (input) PeerNameCapacity :: nat where "PeerNameCapacity \<equiv> 32"
abbreviation (input) PeerStagedPacketCapacity :: nat where "PeerStagedPacketCapacity \<equiv> 8"

datatype OutboundStagingAction = OSA_Idle | OSA_Send | OSA_InitiateHandshake

datatype HandshakeRetryTimeoutAction = HRT_Ignore | HRT_Retry | HRT_Exhausted

record HandshakeRetryTimeoutResult =
  hrt_action :: HandshakeRetryTimeoutAction
  hrt_dropped_staged_packets :: nat

record HandshakeRetryState =
  hr_active :: bool
  hr_send_attempts :: u32
  hr_sequence_count :: u32
  hr_exhausted_sequence_count :: u32

definition HandshakeRetryState_init :: HandshakeRetryState where
  "HandshakeRetryState_init =
     \<lparr>hr_active = False, hr_send_attempts = 0, hr_sequence_count = 0, hr_exhausted_sequence_count = 0\<rparr>"

record wg_peer =
  peer_name :: string
  persistent_keepalive_interval :: u16
  has_preshared_key :: bool
  static_identity :: noise_static_identity
  handshake_material :: noise_handshake_material
  cookie :: noise_cookie
  handshake :: noise_handshake
  timers :: wg_timers
  current_keypair :: noise_keypair
  next_keypair :: noise_keypair
  previous_keypair :: noise_keypair
  staged_outbound_packets :: InnerPacketQueue
  handshake_retry :: HandshakeRetryState
  last_initiation :: message_handshake_initiation
  has_last_initiation :: bool

definition wg_peer_init :: wg_peer where
  "wg_peer_init =
     \<lparr>peer_name = [], persistent_keepalive_interval = 0, has_preshared_key = False,
      static_identity = noise_static_identity_zero, handshake_material = noise_handshake_material_zero,
      cookie = noise_cookie_zero, handshake = noise_handshake_zero, timers = wg_timers_zero,
      current_keypair = noise_keypair_init, next_keypair = noise_keypair_init,
      previous_keypair = noise_keypair_init,
      staged_outbound_packets = InnerPacketQueue_init PeerStagedPacketCapacity,
      handshake_retry = HandshakeRetryState_init, last_initiation = zero_initiation,
      has_last_initiation = False\<rparr>"

record PeerInitializationView =
  piv_name :: string
  piv_local_private_key :: noise_private_key
  piv_remote_public_key :: string
  piv_preshared_key :: "noise_symmetric_key option"
  piv_persistent_keepalive_interval :: u16

definition ClearHandshakeTranscript :: "wg_peer \<Rightarrow> wg_peer" where
  "ClearHandshakeTranscript p =
     (let m = handshake_material p;
          m = m\<lparr>ephemeral_private := key_Clear (ephemeral_private m),
                ephemeral_public := (ephemeral_public m)\<lparr>key_bytes := secure_clear (key_bytes (ephemeral_public m)),
                                                         key_valid := False\<rparr>,
                remote_ephemeral := (remote_ephemeral m)\<lparr>key_bytes := secure_clear (key_bytes (remote_ephemeral m)),
                                                         key_valid := False\<rparr>,
                chaining_key := key_Clear (chaining_key m),
                hash := key_Clear (hash m)\<rparr>
      in p\<lparr>handshake_material := m,
           handshake := (handshake p)\<lparr>h_local_index := 0, h_remote_index := 0\<rparr>\<rparr>)"

definition noise_handshake_clear_transcript :: "wg_peer \<Rightarrow> wg_peer" where
  "noise_handshake_clear_transcript p = ClearHandshakeTranscript p"

definition wg_peer_reset_keypairs :: "wg_peer \<Rightarrow> wg_peer" where
  "wg_peer_reset_keypairs p =
     p\<lparr>current_keypair := keypair_Reset (current_keypair p),
       next_keypair := keypair_Reset (next_keypair p),
       previous_keypair := keypair_Reset (previous_keypair p)\<rparr>"

definition wg_peer_get_outbound_staging_action :: "wg_peer \<Rightarrow> MonotonicTimePoint \<Rightarrow> OutboundStagingAction" where
  "wg_peer_get_outbound_staging_action p now =
     (if Queue_Size (staged_outbound_packets p) = 0 then OSA_Idle
      else if CanSendAt (current_keypair p) now then OSA_Send else OSA_InitiateHandshake)"

definition wg_peer_clear_staged_outbound_packets :: "QueueDisposition \<Rightarrow> wg_peer \<Rightarrow> nat \<times> wg_peer" where
  "wg_peer_clear_staged_outbound_packets disposition p =
     (case Queue_Clear disposition (staged_outbound_packets p) of
        (count, q) \<Rightarrow> (count, p\<lparr>staged_outbound_packets := q\<rparr>))"

definition wg_peer_clear_last_initiation :: "wg_peer \<Rightarrow> wg_peer" where
  "wg_peer_clear_last_initiation p = p\<lparr>last_initiation := zero_initiation, has_last_initiation := False\<rparr>"

definition wg_peer_begin_handshake_retry_sequence :: "wg_peer \<Rightarrow> wg_peer" where
  "wg_peer_begin_handshake_retry_sequence p =
     (let r = handshake_retry p in
      p\<lparr>handshake_retry := r\<lparr>hr_active := True, hr_send_attempts := 1,
                             hr_sequence_count := hr_sequence_count r + 1\<rparr>\<rparr>)"

abbreviation (input) MaxTimerHandshakes :: u32 where "MaxTimerHandshakes \<equiv> 18"

definition wg_peer_handle_handshake_retry_timeout :: "wg_peer \<Rightarrow> HandshakeRetryTimeoutResult \<times> wg_peer" where
  "wg_peer_handle_handshake_retry_timeout p =
     (let r = handshake_retry p in
      if \<not> hr_active r then (\<lparr>hrt_action = HRT_Ignore, hrt_dropped_staged_packets = 0\<rparr>, p)
      else if hr_send_attempts r < MaxTimerHandshakes + 2 then
        (\<lparr>hrt_action = HRT_Retry, hrt_dropped_staged_packets = 0\<rparr>,
         p\<lparr>handshake_retry := r\<lparr>hr_send_attempts := hr_send_attempts r + 1\<rparr>\<rparr>)
      else
        (let p = p\<lparr>handshake_retry := r\<lparr>hr_active := False,
                     hr_exhausted_sequence_count := hr_exhausted_sequence_count r + 1\<rparr>\<rparr>
         in case wg_peer_clear_staged_outbound_packets QD_RetryExhausted p of
              (dropped, p) \<Rightarrow>
                (\<lparr>hrt_action = HRT_Exhausted, hrt_dropped_staged_packets = dropped\<rparr>,
                 wg_peer_clear_last_initiation p)))"

definition wg_peer_complete_handshake_retry_sequence :: "wg_peer \<Rightarrow> wg_peer" where
  "wg_peer_complete_handshake_retry_sequence p =
     wg_peer_clear_last_initiation
       (p\<lparr>handshake_retry := (handshake_retry p)\<lparr>hr_active := False, hr_send_attempts := 0\<rparr>\<rparr>)"

definition wg_peer_zero_key_material :: "'w platform \<Rightarrow> wg_peer \<Rightarrow> 'w \<Rightarrow> wg_peer \<times> 'w" where
  "wg_peer_zero_key_material pf p w =
     (let p = noise_handshake_clear_transcript p in
      case noise_handshake_init pf (handshake p) w of (h, w) \<Rightarrow>
        let p = p\<lparr>handshake := h\<rparr>;
            p = wg_peer_complete_handshake_retry_sequence p;
            p = wg_peer_reset_keypairs p;
            p = snd (wg_peer_clear_staged_outbound_packets QD_Cleared p)
        in (p, w))"

definition wg_peer_scrub_transient_state :: "wg_peer \<Rightarrow> wg_peer" where
  "wg_peer_scrub_transient_state p =
     (let p = noise_handshake_clear_transcript p;
          p = p\<lparr>cookie := noise_cookie_reset (cookie p)\<rparr>;
          p = wg_peer_clear_last_initiation p;
          p = p\<lparr>handshake_retry := HandshakeRetryState_init\<rparr>;
          p = wg_peer_reset_keypairs p
      in snd (wg_peer_clear_staged_outbound_packets QD_Cleared p))"

text \<open>\<open>snprintf\<close> into the name array keeps the first 31 characters.\<close>

definition wg_peer_initialize ::
  "crypto_backend \<Rightarrow> 'w platform \<Rightarrow> PeerInitializationView \<Rightarrow> wg_peer \<Rightarrow> 'w \<Rightarrow> bool \<times> wg_peer \<times> 'w" where
  "wg_peer_initialize be pf config p w =
     (let p = wg_peer_init;
          p = p\<lparr>peer_name := take (PeerNameCapacity - 1) (piv_name config),
                persistent_keepalive_interval := piv_persistent_keepalive_interval config,
                has_preshared_key := (case piv_preshared_key config of None \<Rightarrow> False | Some k \<Rightarrow> key_valid k),
                static_identity := noise_static_identity_reset (static_identity p),
                handshake_material := noise_handshake_material_reset (handshake_material p),
                cookie := noise_cookie_reset (cookie p)\<rparr>
      in case noise_handshake_init pf (handshake p) w of (h, w) \<Rightarrow>
        let p = p\<lparr>handshake := h, timers := wg_timers_init (timers p)\<rparr>;
            p = wg_peer_reset_keypairs p;
            p = wg_peer_clear_last_initiation p;
            p = p\<lparr>handshake_retry := HandshakeRetryState_init\<rparr>
        in case noise_static_identity_init_from_keys be (piv_local_private_key config)
                  (piv_remote_public_key config) (piv_preshared_key config) (static_identity p) of
             (ok, i) \<Rightarrow>
               let p = p\<lparr>static_identity := i\<rparr> in
               if \<not> ok then (False, p, w)
               else case noise_precompute_static_static be (static_identity p) (handshake_material p) of
                 (ok, m) \<Rightarrow>
                   let p = p\<lparr>handshake_material := m\<rparr> in
                   if \<not> ok then
                     (False, p\<lparr>static_identity := noise_static_identity_reset (static_identity p),
                               handshake_material := noise_handshake_material_reset (handshake_material p)\<rparr>, w)
                   else (True, p, w))"

subsection \<open>Well-formedness\<close>

definition wf_material :: "noise_handshake_material \<Rightarrow> bool" where
  "wf_material m \<longleftrightarrow> wf_key (ephemeral_private m) \<and> wf_key (ephemeral_public m) \<and> wf_key (remote_ephemeral m) \<and>
     wf_key (precomputed_static_static m) \<and> wf_key (chaining_key m) \<and> wf_key (hash m)"

definition wf_cookie_state :: "noise_cookie \<Rightarrow> bool" where
  "wf_cookie_state c \<longleftrightarrow> length (cookie_value c) = 16 \<and> length (last_mac1 c) = 16"

definition wf_peer :: "wg_peer \<Rightarrow> bool" where
  "wf_peer p \<longleftrightarrow> wf_identity (static_identity p) \<and> wf_material (handshake_material p) \<and>
     wf_cookie_state (cookie p) \<and> length (last_initiation_timestamp (handshake p)) = 12 \<and>
     wf_keypair (current_keypair p) \<and> wf_keypair (next_keypair p) \<and> wf_keypair (previous_keypair p) \<and>
     queue_inv (staged_outbound_packets p) \<and> CapacityValue (staged_outbound_packets p) = 8"

lemma wf_peerD:
  assumes "wf_peer p"
  shows "wf_identity (static_identity p)" "wf_material (handshake_material p)" "wf_cookie_state (cookie p)"
    "length (last_initiation_timestamp (handshake p)) = 12"
    "wf_keypair (current_keypair p)" "wf_keypair (next_keypair p)" "wf_keypair (previous_keypair p)"
    "queue_inv (staged_outbound_packets p)" "CapacityValue (staged_outbound_packets p) = 8"
  using assms by (simp_all add: wf_peer_def)

lemma reset_material: "wf_material m \<Longrightarrow> noise_handshake_material_reset m = noise_handshake_material_zero"
  by (simp add: noise_handshake_material_reset_def noise_handshake_material_zero_def wf_material_def
      clear_wf_key flip: key_Clear_def)

lemma wf_zero [simp]:
  "wf_identity noise_static_identity_zero" "wf_material noise_handshake_material_zero"
  "wf_cookie_state noise_cookie_zero" "wf_peer wg_peer_init"
  by (simp_all add: wf_identity_def noise_static_identity_zero_def wf_material_def noise_handshake_material_zero_def
      wf_cookie_state_def noise_cookie_zero_def wf_peer_def wg_peer_init_def noise_handshake_zero_def queue_inv_init)

lemma clear_cookie: "wf_cookie_state c \<Longrightarrow> noise_cookie_reset c = noise_cookie_zero"
  by (simp add: noise_cookie_reset_def cookie_Clear_def noise_cookie_zero_def wf_cookie_state_def secure_clear_def)

text \<open>The transcript part of the material is erased; the precomputed secret is kept.\<close>

lemma clear_transcript_material:
  "wf_material (handshake_material p) \<Longrightarrow>
   handshake_material (noise_handshake_clear_transcript p) =
     noise_handshake_material_zero\<lparr>precomputed_static_static := precomputed_static_static (handshake_material p)\<rparr>"
  by (simp add: noise_handshake_clear_transcript_def ClearHandshakeTranscript_def noise_handshake_material_zero_def
      wf_material_def clear_wf_key Let_def flip: key_Clear_def)

lemma reset_keypairs_eq:
  "wf_peer p \<Longrightarrow> wg_peer_reset_keypairs p =
     p\<lparr>current_keypair := noise_keypair_init, next_keypair := noise_keypair_init, previous_keypair := noise_keypair_init\<rparr>"
  by (simp add: wg_peer_reset_keypairs_def wf_peer_def keypair_Reset_eq)

lemma clear_staged_size: "Queue_Size (staged_outbound_packets (snd (wg_peer_clear_staged_outbound_packets d p))) = 0"
  by (simp add: wg_peer_clear_staged_outbound_packets_def Queue_Clear_def Queue_Size_def Let_def)

subsection \<open>Retry sequence\<close>

fun retry_actions :: "nat \<Rightarrow> wg_peer \<Rightarrow> HandshakeRetryTimeoutAction list \<times> wg_peer" where
  "retry_actions 0 p = ([], p)"
| "retry_actions (Suc n) p =
     (case wg_peer_handle_handshake_retry_timeout p of (r, p') \<Rightarrow>
        case retry_actions n p' of (rs, p'') \<Rightarrow> (hrt_action r # rs, p''))"

definition retry_over :: "wg_peer \<Rightarrow> bool" where
  "retry_over p \<longleftrightarrow> \<not> hr_active (handshake_retry p) \<and> Queue_Size (staged_outbound_packets p) = 0 \<and>
     \<not> has_last_initiation p \<and> last_initiation p = zero_initiation"

lemma retry_inactive:
  "\<not> hr_active (handshake_retry p) \<Longrightarrow> retry_actions n p = (replicate n HRT_Ignore, p)"
  by (induction n) (simp_all add: wg_peer_handle_handshake_retry_timeout_def Let_def)

lemma retry_exhaust:
  assumes "hr_active (handshake_retry p)" "hr_send_attempts (handshake_retry p) = 20"
  obtains p' d where "wg_peer_handle_handshake_retry_timeout p = (\<lparr>hrt_action = HRT_Exhausted, hrt_dropped_staged_packets = d\<rparr>, p')"
    "retry_over p'"
  using assms
  by (auto simp: wg_peer_handle_handshake_retry_timeout_def Let_def wg_peer_clear_staged_outbound_packets_def
      wg_peer_clear_last_initiation_def Queue_Clear_def Queue_Size_def retry_over_def)

fun retry_plan :: "nat \<Rightarrow> nat \<Rightarrow> HandshakeRetryTimeoutAction list" where
  "retry_plan k 0 = []"
| "retry_plan 0 (Suc n) = HRT_Exhausted # replicate n HRT_Ignore"
| "retry_plan (Suc k) (Suc n) = HRT_Retry # retry_plan k n"

lemma retry_plan_eq:
  "n \<le> m \<Longrightarrow> retry_plan k n = take n (replicate k HRT_Retry @ HRT_Exhausted # replicate m HRT_Ignore)"
  by (induction k n rule: retry_plan.induct) (simp_all add: min_def)

lemma retry_run:
  assumes "hr_active (handshake_retry p)" "hr_send_attempts (handshake_retry p) = of_nat (20 - k)" "k < 20"
  shows "fst (retry_actions n p) = retry_plan k n \<and>
    (k < n \<longrightarrow> retry_over (snd (retry_actions n p)))"
  using assms
proof (induction k n arbitrary: p rule: retry_plan.induct)
  case (2 n)
  then have "hr_send_attempts (handshake_retry p) = 20" by simp
  with 2(1) obtain p' d where p': "wg_peer_handle_handshake_retry_timeout p =
      (\<lparr>hrt_action = HRT_Exhausted, hrt_dropped_staged_packets = d\<rparr>, p')" "retry_over p'"
    by (rule retry_exhaust)
  have "retry_actions n p' = (replicate n HRT_Ignore, p')"
    using p'(2) by (intro retry_inactive) (simp add: retry_over_def)
  then show ?case using p' by simp
next
  case (3 k n)
  let ?r = "handshake_retry p"
  let ?p = "p\<lparr>handshake_retry := ?r\<lparr>hr_send_attempts := hr_send_attempts ?r + 1\<rparr>\<rparr>"
  have "unat (of_nat (20 - Suc k) :: u32) = 20 - Suc k" by (simp add: unat_of_nat)
  then have "hr_send_attempts ?r < 20" using 3(3,4) by (simp only: word_less_nat_alt) simp
  then have step: "wg_peer_handle_handshake_retry_timeout p =
      (\<lparr>hrt_action = HRT_Retry, hrt_dropped_staged_packets = 0\<rparr>, ?p)"
    using 3(2) by (simp add: wg_peer_handle_handshake_retry_timeout_def Let_def)
  have "20 - k = Suc (20 - Suc k)" using 3(4) by simp
  then have "hr_send_attempts (handshake_retry ?p) = of_nat (20 - k)" using 3(3) by simp
  moreover have "hr_active (handshake_retry ?p)" "k < 20" using 3(2,4) by simp_all
  ultimately have "fst (retry_actions n ?p) = retry_plan k n \<and> (k < n \<longrightarrow> retry_over (snd (retry_actions n ?p)))"
    using 3(1) by blast
  then show ?case by (simp only: retry_actions.simps step case_prod_beta fst_conv snd_conv) simp
qed simp

subsection \<open>Initialisation\<close>

lemma identity_init_from_keys_eq:
  assumes "wf_identity i" "wf_key k" "\<And>a. length (be_x25519_public_key be a) = 32"
  shows "noise_static_identity_init_from_keys be k t psk i =
    (if \<not> key_valid k then (False, i)
     else if \<not> encoded_key t then (False, noise_static_identity_zero)
     else (True,
       \<lparr>static_private = \<lparr>key_bytes = key_bytes k, key_valid = True\<rparr>,
        static_public = \<lparr>key_bytes = be_x25519_public_key be (key_bytes k), key_valid = True\<rparr>,
        remote_static = \<lparr>key_bytes = decoded_key t, key_valid = True\<rparr>,
        preshared_key = (case psk of Some s \<Rightarrow>
           if key_valid s then \<lparr>key_bytes = key_bytes s, key_valid = True\<rparr> else noise_key_init
         | None \<Rightarrow> noise_key_init)\<rparr>))"
proof -
  have reset: "noise_static_identity_reset \<lparr>static_private = \<lparr>key_bytes = key_bytes k, key_valid = True\<rparr>,
      static_public = \<lparr>key_bytes = be_x25519_public_key be (key_bytes k), key_valid = True\<rparr>,
      remote_static = noise_key_init, preshared_key = noise_key_init\<rparr> = noise_static_identity_zero"
    using assms(2,3) by (intro reset_identity) (simp add: wf_identity_def wf_key_def noise_key_init_def)
  show ?thesis
    by (simp add: noise_static_identity_init_from_keys_def reset_identity[OF assms(1)] noise_derive_public_key_def
        x25519_public_key_def noise_parse_public_key_def decode_key_eq Let_def)
       (auto simp: noise_static_identity_zero_def reset split: option.splits)
qed

definition peer_ready :: "wg_peer \<Rightarrow> bool" where
  "peer_ready p \<longleftrightarrow> key_valid (static_private (static_identity p)) \<and> key_valid (static_public (static_identity p)) \<and>
     key_valid (remote_static (static_identity p)) \<and> key_valid (precomputed_static_static (handshake_material p))"

lemma all_zero32: "length bs = 32 \<Longrightarrow> list_all (\<lambda>b. b = 0) bs \<longleftrightarrow> bs = zeros 32"
  by (auto simp: list_all_iff intro!: replicate_eqI)

lemma precompute_eq:
  assumes "key_valid (static_private i)" "key_valid (remote_static i)" "\<And>a p. length (be_x25519 be a p) = 32"
  shows "noise_precompute_static_static be i m =
    (let s = be_x25519 be (key_bytes (static_private i)) (key_bytes (remote_static i)) in
     if s = zeros 32 then (False, m)
     else (True, m\<lparr>precomputed_static_static := \<lparr>key_bytes = s, key_valid = True\<rparr>\<rparr>))"
  using assms by (simp add: noise_precompute_static_static_def x25519_def Let_def MoveSecret_eq IsAllZero_iff
      all_zero32)

text \<open>The peer of \<open>wg_peer_initialize\<close> before its keys are derived.\<close>

definition blank_peer :: "PeerInitializationView \<Rightarrow> MonotonicTimePoint \<Rightarrow> wg_peer" where
  "blank_peer c now = wg_peer_init\<lparr>peer_name := take 31 (piv_name c),
     persistent_keepalive_interval := piv_persistent_keepalive_interval c,
     has_preshared_key := (case piv_preshared_key c of None \<Rightarrow> False | Some k \<Rightarrow> key_valid k),
     handshake := noise_handshake_zero\<lparr>last_transition := now\<rparr>\<rparr>"

lemma wg_peer_initialize_eq:
  "wg_peer_initialize be pf c p w =
     (let (now, w') = ktime_get_coarse_boottime_ns pf w; q = blank_peer c now in
      case noise_static_identity_init_from_keys be (piv_local_private_key c) (piv_remote_public_key c)
             (piv_preshared_key c) noise_static_identity_zero of (ok, i) \<Rightarrow>
        if \<not> ok then (False, q\<lparr>static_identity := i\<rparr>, w')
        else case noise_precompute_static_static be i noise_handshake_material_zero of (ok, m) \<Rightarrow>
          if \<not> ok then (False, q\<lparr>static_identity := noise_static_identity_reset i,
                                handshake_material := noise_handshake_material_reset m\<rparr>, w')
          else (True, q\<lparr>static_identity := i, handshake_material := m\<rparr>, w'))"
proof -
  have r: "keypair_Reset noise_keypair_init = noise_keypair_init" by (rule keypair_Reset_eq) simp
  have z: "noise_handshake_zero\<lparr>h_state := HS_Zeroed, last_transition := t\<rparr> = noise_handshake_zero\<lparr>last_transition := t\<rparr>" for t
    by (simp add: noise_handshake_zero_def)
  show ?thesis
    by (simp add: wg_peer_initialize_def noise_handshake_init_def GetMonotonicTime_def wg_peer_init_def
        wg_peer_reset_keypairs_def wg_peer_clear_last_initiation_def wg_timers_init_def reset_identity reset_material
        clear_cookie r z blank_peer_def Let_def split: prod.splits)
qed

lemma wf_blank_peer: "wf_peer (blank_peer c now)"
  using wf_zero(4) by (simp add: blank_peer_def wf_peer_def noise_handshake_zero_def)

subsection \<open>Properties\<close>

text \<open>Peer initialisation. Initialising a peer succeeds exactly when the private key is valid, the
  remote key text is valid and the static-static secret is not zero. It then has its identity, the
  precomputed secret and a fresh state; on failure it holds no key material. The result is
  well-formed in every case.\<close>

theorem peer_initialize_spec:
  assumes "crypto_laws be" "wf_key (piv_local_private_key c)"
    "case piv_preshared_key c of None \<Rightarrow> True | Some k \<Rightarrow> wf_key k"
  shows "case wg_peer_initialize be pf c p w of (ok, p', w') \<Rightarrow>
    (let priv = key_bytes (piv_local_private_key c); pub = decoded_key (piv_remote_public_key c);
         secret = be_x25519 be priv pub
     in wf_peer p' \<and> h_state (handshake p') = HS_Zeroed \<and> \<not> keypair_IsValid (current_keypair p') \<and>
        ok = (key_valid (piv_local_private_key c) \<and> encoded_key (piv_remote_public_key c) \<and> secret \<noteq> zeros 32) \<and>
        (if ok then peer_ready p' \<and> key_bytes (static_private (static_identity p')) = priv \<and>
              key_bytes (static_public (static_identity p')) = be_x25519_public_key be priv \<and>
              key_bytes (remote_static (static_identity p')) = pub \<and>
              key_bytes (precomputed_static_static (handshake_material p')) = secret
         else static_identity p' = noise_static_identity_zero \<and>
              handshake_material p' = noise_handshake_material_zero))"
proof -
  define priv where "priv = key_bytes (piv_local_private_key c)"
  define pub where "pub = decoded_key (piv_remote_public_key c)"
  obtain now w1 where now: "ktime_get_coarse_boottime_ns pf w = (now, w1)" by fastforce
  note laws = crypto_lawsD[OF assms(1)]
  define i where "i = \<lparr>static_private = \<lparr>key_bytes = priv, key_valid = True\<rparr>,
    static_public = \<lparr>key_bytes = be_x25519_public_key be priv, key_valid = True\<rparr>,
    remote_static = \<lparr>key_bytes = pub, key_valid = True\<rparr>,
    preshared_key = (case piv_preshared_key c of Some s \<Rightarrow>
      if key_valid s then \<lparr>key_bytes = key_bytes s, key_valid = True\<rparr> else noise_key_init | None \<Rightarrow> noise_key_init)\<rparr>"
  have i: "static_private i = \<lparr>key_bytes = priv, key_valid = True\<rparr>"
    "static_public i = \<lparr>key_bytes = be_x25519_public_key be priv, key_valid = True\<rparr>"
    "remote_static i = \<lparr>key_bytes = pub, key_valid = True\<rparr>" by (simp_all add: i_def)
  have wfi: "wf_identity i"
    using assms(2,3) laws(3)
    by (auto simp: i_def priv_def pub_def wf_identity_def wf_key_def noise_key_init_def split: option.splits)
  have wfm: "wf_material (noise_handshake_material_zero\<lparr>precomputed_static_static :=
      \<lparr>key_bytes = be_x25519 be priv pub, key_valid = True\<rparr>\<rparr>)"
    using laws(2) by (simp add: wf_material_def noise_handshake_material_zero_def wf_key_def noise_key_init_def)
  have zi: "noise_static_identity_init_from_keys be (piv_local_private_key c) (piv_remote_public_key c)
      (piv_preshared_key c) noise_static_identity_zero =
      (if key_valid (piv_local_private_key c) \<and> encoded_key (piv_remote_public_key c) then (True, i)
       else (False, noise_static_identity_zero))"
    using identity_init_from_keys_eq[OF wf_zero(1) assms(2) laws(3)]
    by (simp add: i_def priv_def pub_def)
  have pre: "noise_precompute_static_static be i noise_handshake_material_zero =
      (if be_x25519 be priv pub = zeros 32 then (False, noise_handshake_material_zero)
       else (True, noise_handshake_material_zero\<lparr>precomputed_static_static :=
         \<lparr>key_bytes = be_x25519 be priv pub, key_valid = True\<rparr>\<rparr>))"
    using precompute_eq[of i be] laws(2) by (simp add: i Let_def)
  show ?thesis
    using wf_blank_peer[of c now] wfi wfm reset_identity[OF wfi] reset_material[OF wf_zero(2)]
    unfolding wg_peer_initialize_eq now Let_def zi priv_def[symmetric] pub_def[symmetric]
    by (auto simp: pre wf_peer_def peer_ready_def i blank_peer_def wg_peer_init_def noise_handshake_zero_def)
qed

theorem peer_initialize_spec_witness:
  "let c = \<lparr>piv_name = ''peer'', piv_local_private_key = \<lparr>key_bytes = replicate 32 7, key_valid = True\<rparr>,
            piv_remote_public_key = replicate 43 (CHR ''C'') @ ''='', piv_preshared_key = None,
            piv_persistent_keepalive_interval = 25\<rparr>
   in fst (wg_peer_initialize example_backend example_platform c wg_peer_init 0)"
proof -
  let ?c = "\<lparr>piv_name = ''peer'', piv_local_private_key = \<lparr>key_bytes = replicate 32 7, key_valid = True\<rparr>,
            piv_remote_public_key = replicate 43 (CHR ''C'') @ ''='', piv_preshared_key = None,
            piv_persistent_keepalive_interval = 25\<rparr>"
  have "encoded_key (replicate 43 (CHR ''C'') @ ''='')" by code_simp
  moreover have "wf_key (piv_local_private_key ?c)" by (simp add: wf_key_def)
  moreover have "be_x25519 example_backend a b \<noteq> zeros 32" for a b by (simp add: example_backend_def)
  ultimately show ?thesis
    using peer_initialize_spec[OF crypto_laws_example, of ?c example_platform wg_peer_init 0]
    by (simp add: Let_def split: prod.splits)
qed

text \<open>C31: Handshake retries. After a retry sequence begins, the first 19 timeouts ask for another
  initiation (20 sends with the first), the next one gives up, and later ones are ignored; giving up
  leaves no staged packet and no stored initiation behind.\<close>

theorem handshake_retry_bounded:
  "let (actions, p') = retry_actions n (wg_peer_begin_handshake_retry_sequence p)
   in actions = take n (replicate 19 HRT_Retry @ HRT_Exhausted # replicate n HRT_Ignore) \<and>
      (if 19 < n then \<not> hr_active (handshake_retry p') \<and> Queue_Size (staged_outbound_packets p') = 0 \<and>
         \<not> has_last_initiation p' \<and> last_initiation p' = zero_initiation
       else True)"
  using retry_run[of "wg_peer_begin_handshake_retry_sequence p" 19 n] retry_plan_eq[of n n 19]
  by (auto simp: wg_peer_begin_handshake_retry_sequence_def Let_def retry_over_def split: prod.splits)

lemma Queue_Clear_erases:
  assumes "queue_inv q" "i < m_count q"
  shows "m_records (snd (Queue_Clear d q)) ! ((m_head q + i) mod CapacityValue q) = InnerPacketRecord_init"
proof -
  let ?f = "\<lambda>i rs. rs[(m_head q + i) mod CapacityValue q := InnerPacketRecord_init]"
  have update: "rs[j := x] ! k = x" if "rs ! k = x" "k < length rs" for rs j k and x :: InnerPacketRecord
    using that by (cases "j = k") simp_all
  have keep: "fold ?f js rs ! k = InnerPacketRecord_init" if "rs ! k = InnerPacketRecord_init" "k < length rs" for js rs k
    using that by (induction js arbitrary: rs) (simp_all add: update)
  have "fold ?f js rs ! ((m_head q + i) mod CapacityValue q) = InnerPacketRecord_init"
    if "i \<in> set js" "length rs = CapacityValue q" for js rs
    using that assms(1)
    by (induction js arbitrary: rs) (auto simp: queue_inv_def intro: keep)
  then show ?thesis using assms(2) by (simp add: Queue_Clear_def Let_def CapacityValue_def)
qed

text \<open>C32: Zeroing key material. After \<open>wg_peer_zero_key_material\<close> the three keypairs are those of a fresh
  object, the transcript keys are zero and the handshake is zeroed with its indices; the stored initiation is
  overwritten and its flag reset, the retry sequence is over, and every record of the queue that held a staged
  packet is overwritten, so that the queue is empty. The static identity, the precomputed secret and the cookie state
  are kept. The timestamp of the last accepted initiation is forgotten as well.\<close>

theorem zero_key_material_spec:
  assumes "wf_peer p"
  shows "case wg_peer_zero_key_material pf p w of (p', w') \<Rightarrow>
    current_keypair p' = noise_keypair_init \<and> next_keypair p' = noise_keypair_init \<and>
    previous_keypair p' = noise_keypair_init \<and>
    handshake_material p' = noise_handshake_material_zero\<lparr>precomputed_static_static :=
      precomputed_static_static (handshake_material p)\<rparr> \<and>
    handshake p' = noise_handshake_zero\<lparr>last_transition := last_transition (handshake p')\<rparr> \<and>
    static_identity p' = static_identity p \<and> cookie p' = cookie p \<and>
    Queue_Size (staged_outbound_packets p') = 0 \<and>
    (\<forall>i < Queue_Size (staged_outbound_packets p).
       m_records (staged_outbound_packets p') ! ((m_head (staged_outbound_packets p) + i) mod CapacityValue (staged_outbound_packets p)) =
         InnerPacketRecord_init) \<and>
    last_initiation p' = zero_initiation \<and> \<not> has_last_initiation p' \<and> \<not> hr_active (handshake_retry p') \<and>
    \<not> has_last_initiation_timestamp (handshake p')"
proof -
  note d = wf_peerD[OF assms]
  obtain n q where q: "Queue_Clear QD_Cleared (staged_outbound_packets p) = (n, q)" by (rule prod.exhaust)
  have "m_count q = 0" using q by (auto simp: Queue_Clear_def Let_def)
  then show ?thesis
    using d clear_transcript_material[OF d(2)] Queue_Clear_erases[OF d(8), of _ QD_Cleared]
    by (simp add: q wg_peer_zero_key_material_def noise_handshake_init_def Let_def
        wg_peer_complete_handshake_retry_sequence_def wg_peer_clear_last_initiation_def
        wg_peer_reset_keypairs_def keypair_Reset_eq noise_handshake_clear_transcript_def
        ClearHandshakeTranscript_def wg_peer_clear_staged_outbound_packets_def Queue_Size_def
        noise_handshake_zero_def split: prod.splits)
qed

text \<open>A peer with a session, two staged packets and a stored initiation.\<close>

definition example_staged :: "byte \<Rightarrow> InnerPacketRecord" where
  "example_staged b = InnerPacketRecord_init\<lparr>ipr_size := 1, ipr_bytes := [b]\<rparr>"

definition example_used_peer :: wg_peer where
  "example_used_peer =
     wg_peer_init\<lparr>current_keypair := Establish 1 2 5 \<lparr>key_bytes = replicate 32 7, key_valid = True\<rparr>
         \<lparr>key_bytes = replicate 32 9, key_valid = True\<rparr> 3 True noise_keypair_init,
       staged_outbound_packets := snd (Queue_Push (example_staged 2) (snd (Queue_Push (example_staged 1) (InnerPacketQueue_init 8)))),
       last_initiation := zero_initiation\<lparr>hi_sender_index := 1\<rparr>, has_last_initiation := True,
       handshake := noise_handshake_zero\<lparr>has_last_initiation_timestamp := True\<rparr>\<rparr>"

lemma two_pushed:
  assumes "q = snd (Queue_Push b (snd (Queue_Push a (InnerPacketQueue_init 8))))"
  shows "m_records q = [a, b] @ replicate 6 InnerPacketRecord_init" "m_head q = 0" "m_count q = 2"
proof -
  have "(replicate 8 x)[0 := a, 1 := b] = [a, b] @ replicate 6 x" for x by (simp add: numeral_eq_Suc)
  then show "m_records q = [a, b] @ replicate 6 InnerPacketRecord_init" "m_head q = 0" "m_count q = 2"
    unfolding assms InnerPacketQueue_init_def by (simp_all add: Queue_Push_def Let_def CapacityValue_def)
qed

theorem zero_key_material_spec_witness:
  "case wg_peer_zero_key_material example_platform example_used_peer 0 of (p', w') \<Rightarrow>
    keypair_IsValid (current_keypair example_used_peer) \<and> \<not> keypair_IsValid (current_keypair p') \<and>
    key_bytes (m_sending_key (current_keypair example_used_peer)) = replicate 32 7 \<and>
    key_bytes (m_sending_key (current_keypair p')) = zeros 32 \<and>
    take 2 (m_records (staged_outbound_packets example_used_peer)) = [example_staged 1, example_staged 2] \<and>
    m_records (staged_outbound_packets p') ! 0 = InnerPacketRecord_init \<and>
    m_records (staged_outbound_packets p') ! 1 = InnerPacketRecord_init \<and>
    hi_sender_index (last_initiation example_used_peer) = 1 \<and> last_initiation p' = zero_initiation \<and>
    \<not> has_last_initiation_timestamp (handshake p')"
proof -
  have q: "m_records (staged_outbound_packets example_used_peer) = [example_staged 1, example_staged 2] @ replicate 6 InnerPacketRecord_init"
    "m_head (staged_outbound_packets example_used_peer) = 0" "m_count (staged_outbound_packets example_used_peer) = 2"
    using two_pushed[of "staged_outbound_packets example_used_peer" "example_staged 2" "example_staged 1"]
    by (simp_all add: example_used_peer_def)
  have k: "keypair_IsValid (current_keypair example_used_peer)" "key_bytes (m_sending_key (current_keypair example_used_peer)) = replicate 32 7"
    "wf_keypair (current_keypair example_used_peer)"
    by (simp_all add: example_used_peer_def wf_keypair_Establish wf_key_def) (simp_all add: Establish_def Let_def keypair_IsValid_def)
  have i: "hi_sender_index (last_initiation example_used_peer) = 1" by (simp add: example_used_peer_def)
  have rest: "wf_identity (static_identity example_used_peer)" "wf_material (handshake_material example_used_peer)"
    "wf_cookie_state (cookie example_used_peer)" "length (last_initiation_timestamp (handshake example_used_peer)) = 12"
    "wf_keypair (next_keypair example_used_peer)" "wf_keypair (previous_keypair example_used_peer)"
    using wf_zero(4) by (simp_all add: wf_peer_def example_used_peer_def noise_handshake_zero_def)
  have "queue_inv (staged_outbound_packets example_used_peer)" "CapacityValue (staged_outbound_packets example_used_peer) = 8"
    using q by (simp_all add: queue_inv_def CapacityValue_def)
  then have "wf_peer example_used_peer" using rest k(3) by (simp add: wf_peer_def)
  note T = zero_key_material_spec[OF this, of example_platform 0]
  obtain p' w' where z: "wg_peer_zero_key_material example_platform example_used_peer 0 = (p', w')" by (rule prod.exhaust)
  have "\<forall>i < 2. m_records (staged_outbound_packets p') ! (i mod 8) = InnerPacketRecord_init"
    using T unfolding z prod.case Queue_Size_def CapacityValue_def q by simp
  then have "m_records (staged_outbound_packets p') ! 0 = InnerPacketRecord_init" "m_records (staged_outbound_packets p') ! 1 = InnerPacketRecord_init"
    by (auto dest: spec[of _ 0] spec[of _ 1])
  moreover have "\<not> keypair_IsValid noise_keypair_init" "key_bytes (m_sending_key noise_keypair_init) = zeros 32"
    by (simp_all add: noise_keypair_init_def keypair_IsValid_def noise_key_init_def)
  ultimately show ?thesis using T q(1) k i by (simp add: z)
qed

end
