(* ===== verification/WG_Device.thy ===== *)
theory WG_Device
  imports WG_Peer
begin

text \<open>
  The device of \<open>wireguard/device.hpp\<close> and \<open>device.cpp\<close>, which owns one peer, the registry of the
  session indices in use, and the index allocator of \<open>index_allocator.cpp\<close>. The function-local static
  \<open>g_next_index\<close> of the allocator is passed explicitly, next to the platform state, as \<open>(g, w)\<close>. The
  responder's cookie and rate-limit state is declared here because the device embeds it. The
  remaining operation of \<open>device.cpp\<close>, \<open>wg_device_create_handshake_initiation\<close>, is with the handshake.
\<close>

subsection \<open>Index allocation\<close>

record wg_index_allocator =
  last_index :: u32

definition wg_index_allocator_init :: "wg_index_allocator \<Rightarrow> wg_index_allocator" where
  "wg_index_allocator_init a = a\<lparr>last_index := 0\<rparr>"

definition wg_index_allocator_next ::
  "'w platform \<Rightarrow> wg_index_allocator \<times> u32 \<times> 'w \<Rightarrow> u32 \<times> wg_index_allocator \<times> u32 \<times> 'w" where
  "wg_index_allocator_next pf = (\<lambda>(a, g_next_index, w).
     let (g_next_index, w) =
           (if g_next_index = 0 then
              (case get_random_u32 pf w of (r, w) \<Rightarrow> (if r = 0 then 1 else r, w))
            else (g_next_index, w));
         result = g_next_index;
         g_next_index = g_next_index + 1;
         g_next_index = (if g_next_index = 0 then 1 else g_next_index)
     in (result, a\<lparr>last_index := result\<rparr>, g_next_index, w))"

subsection \<open>The device\<close>

datatype wg_index_slot = IS_None | IS_Handshake | IS_CurrentKeypair | IS_NextKeypair | IS_PreviousKeypair

record wg_index_registry_entry =
  re_index :: u32
  re_active :: bool

definition wg_index_registry_entry_init :: wg_index_registry_entry where
  "wg_index_registry_entry_init = \<lparr>re_index = 0, re_active = False\<rparr>"

record wg_index_registry =
  reg_handshake :: wg_index_registry_entry
  reg_current_keypair :: wg_index_registry_entry
  reg_next_keypair :: wg_index_registry_entry
  reg_previous_keypair :: wg_index_registry_entry

definition wg_index_registry_init :: wg_index_registry where
  "wg_index_registry_init =
     \<lparr>reg_handshake = wg_index_registry_entry_init, reg_current_keypair = wg_index_registry_entry_init,
      reg_next_keypair = wg_index_registry_entry_init, reg_previous_keypair = wg_index_registry_entry_init\<rparr>"

datatype address_family = AF_unspecified | AF_inet | AF_inet6

record HandshakeRateLimitEntry =
  rl_family :: address_family
  rl_address :: "byte list"
  rl_last_update :: MonotonicTimePoint
  rl_tokens :: int
  rl_active :: bool
  rl_initialized :: bool

definition HandshakeRateLimitEntry_init :: HandshakeRateLimitEntry where
  "HandshakeRateLimitEntry_init =
     \<lparr>rl_family = AF_unspecified, rl_address = zeros 16, rl_last_update = 0, rl_tokens = 0,
      rl_active = False, rl_initialized = False\<rparr>"

abbreviation (input) HandshakeRateLimitSlots :: nat where "HandshakeRateLimitSlots \<equiv> 8"

record ResponderCookieState =
  secret :: noise_secret32
  secret_birth :: MonotonicTimePoint
  arrival_last_update :: MonotonicTimePoint
  under_load_until :: MonotonicTimePoint
  arrival_tokens :: int
  arrival_initialized :: bool
  rate_limits :: "HandshakeRateLimitEntry list"

definition ResponderCookieState_init :: ResponderCookieState where
  "ResponderCookieState_init =
     \<lparr>secret = noise_key_init, secret_birth = 0, arrival_last_update = 0, under_load_until = 0,
      arrival_tokens = 0, arrival_initialized = False,
      rate_limits = replicate HandshakeRateLimitSlots HandshakeRateLimitEntry_init\<rparr>"

record wg_device =
  index_allocator :: wg_index_allocator
  index_registry :: wg_index_registry
  responder_cookie :: ResponderCookieState
  dev_peer :: wg_peer
  has_peer :: bool

definition wg_device_zero :: wg_device where
  "wg_device_zero =
     \<lparr>index_allocator = \<lparr>last_index = 0\<rparr>, index_registry = wg_index_registry_init,
      responder_cookie = ResponderCookieState_init, dev_peer = wg_peer_init, has_peer = False\<rparr>"

text \<open>A configuration entry; its character arrays are the text before the terminating NUL.\<close>

record PeerConfigEntry =
  cfg_name :: string
  cfg_address :: string
  cfg_endpoint :: string
  cfg_private_key :: string
  cfg_dns :: string
  cfg_public_key :: string
  cfg_preshared_key :: string
  cfg_allowed_ips :: string
  cfg_listen_port :: u16
  cfg_persistent_keepalive :: u16
  cfg_mtu :: u16
  cfg_field_flags :: u32
  cfg_leak_protection :: bool

text \<open>\<open>GetRegistryEntry\<close> returns a pointer, null for the slot \<open>None\<close>: reading and writing through it.\<close>

definition GetRegistryEntry :: "wg_index_registry \<Rightarrow> wg_index_slot \<Rightarrow> wg_index_registry_entry option" where
  "GetRegistryEntry r slot =
     (case slot of
        IS_Handshake \<Rightarrow> Some (reg_handshake r)
      | IS_CurrentKeypair \<Rightarrow> Some (reg_current_keypair r)
      | IS_NextKeypair \<Rightarrow> Some (reg_next_keypair r)
      | IS_PreviousKeypair \<Rightarrow> Some (reg_previous_keypair r)
      | IS_None \<Rightarrow> None)"

definition SetRegistryEntry :: "wg_index_slot \<Rightarrow> u32 \<Rightarrow> wg_device \<Rightarrow> wg_device" where
  "SetRegistryEntry slot index d =
     (let e = \<lparr>re_index = index, re_active = (index \<noteq> 0)\<rparr>; r = index_registry d in
      case slot of
        IS_Handshake \<Rightarrow> d\<lparr>index_registry := r\<lparr>reg_handshake := e\<rparr>\<rparr>
      | IS_CurrentKeypair \<Rightarrow> d\<lparr>index_registry := r\<lparr>reg_current_keypair := e\<rparr>\<rparr>
      | IS_NextKeypair \<Rightarrow> d\<lparr>index_registry := r\<lparr>reg_next_keypair := e\<rparr>\<rparr>
      | IS_PreviousKeypair \<Rightarrow> d\<lparr>index_registry := r\<lparr>reg_previous_keypair := e\<rparr>\<rparr>
      | IS_None \<Rightarrow> d)"

definition wg_device_lookup_index_slot :: "wg_device \<Rightarrow> u32 \<Rightarrow> wg_index_slot" where
  "wg_device_lookup_index_slot d index =
     (if index = 0 then IS_None
      else
        (let hit = (\<lambda>slot. case GetRegistryEntry (index_registry d) slot of
                      None \<Rightarrow> False | Some e \<Rightarrow> re_active e \<and> re_index e = index)
         in case filter hit [IS_Handshake, IS_CurrentKeypair, IS_NextKeypair, IS_PreviousKeypair] of
              [] \<Rightarrow> IS_None | slot # _ \<Rightarrow> slot))"

definition IsRegisteredIndex :: "wg_device \<Rightarrow> u32 \<Rightarrow> bool" where
  "IsRegisteredIndex d index = (wg_device_lookup_index_slot d index \<noteq> IS_None)"

definition wg_device_index_matches_slot :: "wg_device \<Rightarrow> wg_index_slot \<Rightarrow> u32 \<Rightarrow> bool" where
  "wg_device_index_matches_slot d slot index =
     (if index = 0 then False
      else case GetRegistryEntry (index_registry d) slot of
             None \<Rightarrow> False
           | Some e \<Rightarrow> if re_active e then re_index e = index else False)"

definition wg_peer_keypair_for_slot :: "wg_peer \<Rightarrow> wg_index_slot \<Rightarrow> noise_keypair option" where
  "wg_peer_keypair_for_slot p slot =
     (case slot of
        IS_CurrentKeypair \<Rightarrow> Some (current_keypair p)
      | IS_NextKeypair \<Rightarrow> Some (next_keypair p)
      | IS_PreviousKeypair \<Rightarrow> Some (previous_keypair p)
      | IS_Handshake \<Rightarrow> None
      | IS_None \<Rightarrow> None)"

definition wg_device_first_peer :: "wg_device \<Rightarrow> wg_peer option" where
  "wg_device_first_peer d = (if \<not> has_peer d then None else Some (dev_peer d))"

definition wg_device_reset :: "wg_device \<Rightarrow> wg_device" where
  "wg_device_reset d = wg_device_zero"

definition wg_device_clear_index_registry :: "wg_device \<Rightarrow> wg_device" where
  "wg_device_clear_index_registry d = d\<lparr>index_registry := wg_index_registry_init\<rparr>"

definition wg_device_register_handshake_index :: "u32 \<Rightarrow> wg_device \<Rightarrow> wg_device" where
  "wg_device_register_handshake_index index d = SetRegistryEntry IS_Handshake index d"

definition wg_device_init_from_parsed_config ::
  "crypto_backend \<Rightarrow> 'w platform \<Rightarrow> PeerConfigEntry \<Rightarrow> noise_private_key \<Rightarrow> noise_symmetric_key option \<Rightarrow>
   wg_device \<Rightarrow> 'w \<Rightarrow> bool \<times> wg_device \<times> 'w" where
  "wg_device_init_from_parsed_config be pf config local_private_key psk d w =
     (if \<not> key_valid local_private_key then (False, d, w)
      else
        (let d = wg_device_reset d;
             d = d\<lparr>index_allocator := wg_index_allocator_init (index_allocator d)\<rparr>;
             d = wg_device_clear_index_registry d
         in case wg_peer_initialize be pf
                   \<lparr>piv_name = cfg_name config, piv_local_private_key = local_private_key,
                    piv_remote_public_key = cfg_public_key config, piv_preshared_key = psk,
                    piv_persistent_keepalive_interval = cfg_persistent_keepalive config\<rparr> (dev_peer d) w of
              (ok, p, w) \<Rightarrow>
                if \<not> ok then (False, wg_device_reset (d\<lparr>dev_peer := p\<rparr>), w)
                else (True, d\<lparr>dev_peer := p, has_peer := True\<rparr>, w)))"

definition wg_device_init_from_config_entry ::
  "crypto_backend \<Rightarrow> 'w platform \<Rightarrow> PeerConfigEntry \<Rightarrow> wg_device \<Rightarrow> 'w \<Rightarrow> bool \<times> wg_device \<times> 'w" where
  "wg_device_init_from_config_entry be pf config d w =
     (case noise_parse_private_key (cfg_private_key config) noise_key_init of (ok, private_key) \<Rightarrow>
        if \<not> ok then (False, d, w)
        else if cfg_preshared_key config \<noteq> [] then
          (case noise_parse_preshared_key (cfg_preshared_key config) noise_key_init of (ok, psk) \<Rightarrow>
             if \<not> ok then (False, d, w)
             else wg_device_init_from_parsed_config be pf config private_key (Some psk) d w)
        else wg_device_init_from_parsed_config be pf config private_key None d w)"

text \<open>The loop over at most 32 candidates, with \<open>left\<close> attempts left.\<close>

fun allocate_attempts ::
  "'w platform \<Rightarrow> nat \<Rightarrow> wg_device \<Rightarrow> u32 \<times> 'w \<Rightarrow> u32 \<times> wg_device \<times> u32 \<times> 'w" where
  "allocate_attempts pf 0 d gw = (0, d, gw)"
| "allocate_attempts pf (Suc left) d gw =
     (case wg_index_allocator_next pf (index_allocator d, gw) of (candidate, a, gw) \<Rightarrow>
        let d = d\<lparr>index_allocator := a\<rparr> in
        if candidate \<noteq> 0 \<and> \<not> IsRegisteredIndex d candidate then (candidate, d, gw)
        else allocate_attempts pf left d gw)"

definition wg_device_allocate_index ::
  "'w platform \<Rightarrow> wg_device \<Rightarrow> u32 \<times> 'w \<Rightarrow> u32 \<times> wg_device \<times> u32 \<times> 'w" where
  "wg_device_allocate_index pf d gw = allocate_attempts pf 32 d gw"

definition wg_device_refresh_keypair_indices :: "wg_peer option \<Rightarrow> wg_device \<Rightarrow> wg_device" where
  "wg_device_refresh_keypair_indices peer d =
     (let index = (\<lambda>kp. case peer of None \<Rightarrow> 0
                    | Some p \<Rightarrow> if keypair_IsValid (kp p) then m_local_index (kp p) else 0);
          d = SetRegistryEntry IS_Handshake 0 d;
          d = SetRegistryEntry IS_CurrentKeypair (index current_keypair) d;
          d = SetRegistryEntry IS_NextKeypair (index next_keypair) d
      in SetRegistryEntry IS_PreviousKeypair (index previous_keypair) d)"

text \<open>\<open>peer\<close> is the peer of the device.\<close>

definition wg_device_promote_next_keypair :: "wg_device step" where
  "wg_device_promote_next_keypair d =
     (let p = dev_peer d in
      if \<not> keypair_IsValid (next_keypair p) then (False, d)
      else
        (let p = p\<lparr>previous_keypair := keypair_Reset (previous_keypair p)\<rparr>;
             (prev, cur) = keypair_move_assign (previous_keypair p) (current_keypair p);
             p = p\<lparr>previous_keypair := prev, current_keypair := keypair_Reset cur\<rparr>;
             (cur, nxt) = keypair_move_assign (current_keypair p) (next_keypair p);
             p = p\<lparr>current_keypair := cur, next_keypair := keypair_Reset nxt\<rparr>;
             d = d\<lparr>dev_peer := p\<rparr>
         in (True, wg_device_refresh_keypair_indices (Some p) d)))"

subsection \<open>Allocated indices are fresh\<close>

definition upcoming_index :: "'w platform \<Rightarrow> wg_index_allocator \<times> u32 \<times> 'w \<Rightarrow> u32" where
  "upcoming_index pf = (\<lambda>(a, g, w).
     if g \<noteq> 0 then g else (let r = fst (get_random_u32 pf w) in if r = 0 then 1 else r))"

interpretation session_indices:
  nonzero_counter "wg_index_allocator_next pf" "upcoming_index pf" "\<lambda>_. True" for pf :: "'w platform"
proof
  fix s s' :: "wg_index_allocator \<times> u32 \<times> 'w" and r
  assume "wg_index_allocator_next pf s = (r, s')"
  then show "r = upcoming_index pf s \<and> r \<noteq> 0 \<and> upcoming_index pf s' = succ0 r \<and> True"
    by (cases s) (auto simp: wg_index_allocator_next_def upcoming_index_def succ0_def Let_def
        split: prod.splits if_splits)
qed

definition registered :: "wg_device \<Rightarrow> u32 set" where
  "registered d = {i. IsRegisteredIndex d i}"

lemma IsRegisteredIndex_allocator [simp]:
  "IsRegisteredIndex (d\<lparr>index_allocator := a\<rparr>) = IsRegisteredIndex d"
  by (rule ext) (simp add: IsRegisteredIndex_def wg_device_lookup_index_slot_def)

lemma registered_card: "finite (registered d) \<and> card (registered d) \<le> 4"
proof -
  let ?r = "index_registry d"
  let ?xs = "[re_index (reg_handshake ?r), re_index (reg_current_keypair ?r), re_index (reg_next_keypair ?r),
    re_index (reg_previous_keypair ?r)]"
  have "registered d \<subseteq> set ?xs"
    by (auto simp: registered_def IsRegisteredIndex_def wg_device_lookup_index_slot_def GetRegistryEntry_def Let_def
        split: if_splits)
  moreover have "card (set ?xs) \<le> length ?xs" by (rule card_length)
  ultimately show ?thesis
    using finite_subset[of "registered d" "set ?xs"] card_mono[of "set ?xs" "registered d"] by auto
qed

lemma allocate_attempts_result:
  assumes "allocate_attempts pf n d gw = (i, d', gw')"
  shows "(if i = 0 then set (fst (draws (wg_index_allocator_next pf) n (index_allocator d, gw))) \<subseteq> registered d
          else i \<notin> registered d \<and> d' = d\<lparr>index_allocator := \<lparr>last_index = i\<rparr>\<rparr>)"
  using assms
proof (induction n arbitrary: d gw)
  case (Suc n)
  obtain c a gw1 where c: "wg_index_allocator_next pf (index_allocator d, gw) = (c, a, gw1)" by (rule prod_cases3)
  have c0: "c \<noteq> 0" using session_indices.next_ok[OF TrueI c] by blast
  have a: "a = \<lparr>last_index = c\<rparr>"
    using c by (cases gw) (auto simp: wg_index_allocator_next_def Let_def split: prod.splits if_splits)
  show ?case
  proof (cases "IsRegisteredIndex d c")
    case True
    let ?d = "d\<lparr>index_allocator := a\<rparr>"
    have "allocate_attempts pf n ?d gw1 = (i, d', gw')" using Suc.prems True by (simp add: c)
    from Suc.IH[OF this] True show ?thesis
      by (auto simp: c registered_def split: prod.splits if_splits)
  next
    case False
    then have "i = c" "d' = d\<lparr>index_allocator := a\<rparr>" using Suc.prems c0 by (simp_all add: c)
    then show ?thesis using False c0 a by (simp add: registered_def)
  qed
qed simp

lemma allocate_index_fresh_aux:
  assumes "wg_device_allocate_index pf d gw = (i, d', gw')"
  shows "i \<noteq> 0 \<and> i \<notin> registered d \<and> d' = d\<lparr>index_allocator := \<lparr>last_index = i\<rparr>\<rparr>"
proof -
  let ?s = "(index_allocator d, gw)"
  obtain rs s' where rs: "draws (wg_index_allocator_next pf) 32 ?s = (rs, s')" by (rule prod.exhaust)
  have dist: "distinct rs \<and> 0 \<notin> set rs \<and> length rs = 32"
    by (rule session_indices.draws_distinct_nonzero[OF _ _ _ rs]) simp_all
  have "\<not> set rs \<subseteq> registered d"
  proof
    assume "set rs \<subseteq> registered d"
    then have "card (set rs) \<le> 4" using registered_card[of d] card_mono[of "registered d" "set rs"] by simp
    then show False using dist distinct_card[of rs] by simp
  qed
  then show ?thesis
    using allocate_attempts_result[OF assms[unfolded wg_device_allocate_index_def]] rs by (auto split: if_splits)
qed

subsection \<open>The registry\<close>

text \<open>Every active keypair entry names a valid keypair with that local index.\<close>

definition entry_ok :: "wg_index_registry_entry \<Rightarrow> noise_keypair \<Rightarrow> bool" where
  "entry_ok e kp \<longleftrightarrow> (re_active e \<longrightarrow> re_index e \<noteq> 0 \<and> keypair_IsValid kp \<and> m_local_index kp = re_index e)"

definition registry_inv :: "wg_device \<Rightarrow> bool" where
  "registry_inv d \<longleftrightarrow>
     entry_ok (reg_current_keypair (index_registry d)) (current_keypair (dev_peer d)) \<and>
     entry_ok (reg_next_keypair (index_registry d)) (next_keypair (dev_peer d)) \<and>
     entry_ok (reg_previous_keypair (index_registry d)) (previous_keypair (dev_peer d)) \<and>
     (re_active (reg_handshake (index_registry d)) \<longrightarrow> re_index (reg_handshake (index_registry d)) \<noteq> 0)"

lemma registry_inv_lookup:
  assumes "registry_inv d" "wg_device_lookup_index_slot d i = slot" "slot \<noteq> IS_None" "slot \<noteq> IS_Handshake"
  obtains kp where "wg_peer_keypair_for_slot (dev_peer d) slot = Some kp" "keypair_IsValid kp" "m_local_index kp = i"
  using assms
  by (auto simp: wg_device_lookup_index_slot_def GetRegistryEntry_def registry_inv_def entry_ok_def
      wg_peer_keypair_for_slot_def Let_def split: if_splits)

lemma SetRegistryEntry_peer [simp]:
  "dev_peer (SetRegistryEntry slot i d) = dev_peer d" "has_peer (SetRegistryEntry slot i d) = has_peer d"
  "responder_cookie (SetRegistryEntry slot i d) = responder_cookie d"
  by (cases slot; simp add: SetRegistryEntry_def)+

lemma refresh_peer [simp]:
  "dev_peer (wg_device_refresh_keypair_indices p d) = dev_peer d"
  "has_peer (wg_device_refresh_keypair_indices p d) = has_peer d"
  by (simp_all add: wg_device_refresh_keypair_indices_def Let_def)

lemma refresh_registry:
  "index_registry (wg_device_refresh_keypair_indices (Some p) d) =
    (let entry = (\<lambda>kp. let i = (if keypair_IsValid kp then m_local_index kp else 0) in
                    \<lparr>re_index = i, re_active = (i \<noteq> 0)\<rparr>)
     in \<lparr>reg_handshake = wg_index_registry_entry_init, reg_current_keypair = entry (current_keypair p),
         reg_next_keypair = entry (next_keypair p), reg_previous_keypair = entry (previous_keypair p)\<rparr>)"
  by (simp add: wg_device_refresh_keypair_indices_def SetRegistryEntry_def wg_index_registry_entry_init_def Let_def)

lemma registry_inv_refresh: "registry_inv (wg_device_refresh_keypair_indices (Some (dev_peer d)) d)"
  by (simp add: registry_inv_def refresh_registry entry_ok_def Let_def wg_index_registry_entry_init_def)

lemma registry_inv_clear: "registry_inv (wg_device_clear_index_registry d)"
  by (simp add: registry_inv_def wg_device_clear_index_registry_def wg_index_registry_init_def entry_ok_def
      wg_index_registry_entry_init_def)

lemma registry_inv_register: "registry_inv d \<Longrightarrow> registry_inv (wg_device_register_handshake_index i d)"
  by (simp add: registry_inv_def wg_device_register_handshake_index_def SetRegistryEntry_def Let_def)

lemma promote_eq:
  "wg_device_promote_next_keypair d =
     (let p = dev_peer d in
      if keypair_IsValid (next_keypair p) then
        (let p' = p\<lparr>previous_keypair := current_keypair p, current_keypair := next_keypair p,
                    next_keypair := keypair_Reset (keypair_Reset (next_keypair p))\<rparr>
         in (True, wg_device_refresh_keypair_indices (Some p') (d\<lparr>dev_peer := p'\<rparr>)))
      else (False, d))"
  by (simp add: wg_device_promote_next_keypair_def keypair_move_eq Let_def)

subsection \<open>Properties\<close>

text \<open>C29: Fresh session indices. Whatever the state of the device, of the allocator and of the random
  source, \<open>wg_device_allocate_index\<close> finds an index: it is not zero, it is not registered, and nothing
  but the allocator changes.\<close>

theorem allocate_index_fresh:
  "case wg_device_allocate_index pf d gw of (i, d', gw') \<Rightarrow>
     i \<noteq> 0 \<and> wg_device_lookup_index_slot d i = IS_None \<and> d' = d\<lparr>index_allocator := \<lparr>last_index = i\<rparr>\<rparr>"
  using allocate_index_fresh_aux[of pf d gw]
  by (auto simp: registered_def IsRegisteredIndex_def split: prod.splits)

text \<open>Index lookup. After the indices are refreshed, a lookup leads to a keypair slot exactly when a
  valid keypair of the peer has that nonzero local index, and the slot found holds such a keypair.\<close>

theorem refreshed_lookup_exact:
  "let d' = wg_device_refresh_keypair_indices (Some (dev_peer d)) d;
       p = dev_peer d;
       mine = (\<lambda>kp. keypair_IsValid kp \<and> m_local_index kp = i)
   in case wg_peer_keypair_for_slot p (wg_device_lookup_index_slot d' i) of
        Some kp \<Rightarrow> mine kp \<and> i \<noteq> 0
      | None \<Rightarrow> wg_device_lookup_index_slot d' i = IS_None \<and>
          \<not> (mine (current_keypair p) \<or> mine (next_keypair p) \<or> mine (previous_keypair p))"
  by (auto simp: Let_def wg_device_lookup_index_slot_def refresh_registry GetRegistryEntry_def
      wg_peer_keypair_for_slot_def wg_index_registry_entry_init_def keypair_IsValid_def)

text \<open>Promoting the next keypair. Promotion happens exactly when the next keypair is valid; then the
  next keypair becomes the current one with its counter and replay window, the current one becomes the
  previous one, no next keypair is left, and the registry names the keypairs in their new slots.
  Otherwise the device is unchanged.\<close>

theorem promote_next_keypair_spec:
  "case wg_device_promote_next_keypair d of (ok, d') \<Rightarrow>
     ok = keypair_IsValid (next_keypair (dev_peer d)) \<and>
     (if ok then current_keypair (dev_peer d') = next_keypair (dev_peer d) \<and>
           previous_keypair (dev_peer d') = current_keypair (dev_peer d) \<and>
           \<not> keypair_IsValid (next_keypair (dev_peer d')) \<and>
           wg_device_index_matches_slot d' IS_CurrentKeypair (m_local_index (next_keypair (dev_peer d))) \<and>
           registry_inv d'
      else d' = d)"
proof -
  have reg: "registry_inv (wg_device_refresh_keypair_indices (Some p) (d\<lparr>dev_peer := p\<rparr>))" for p
    using registry_inv_refresh[of "d\<lparr>dev_peer := p\<rparr>"] by simp
  show ?thesis
    by (simp add: promote_eq Let_def wg_device_index_matches_slot_def GetRegistryEntry_def refresh_registry reg)
       (simp add: keypair_IsValid_def)
qed

end
