(* ===== verification/WG_Noise.thy ===== *)
theory WG_Noise
  imports WG_Device
begin

text \<open>
  The Noise building blocks of \<open>wireguard/handshake.cpp\<close>: key derivation, transcript hashing, the
  mixing of key agreements and of the preshared key, encryption of handshake payloads, timestamps
  and message authentication codes. An out-parameter is passed with its old value and returned, so
  that what a failing call leaves behind is part of the model. The lemmas give the value of each
  function when the backend behaves as documented.
\<close>

subsection \<open>Constants\<close>

abbreviation (input) NoiseHashSize :: nat where "NoiseHashSize \<equiv> 32"
abbreviation (input) NoiseSymmetricKeySize :: nat where "NoiseSymmetricKeySize \<equiv> 32"
abbreviation (input) InitiationsPerSecond :: int where "InitiationsPerSecond \<equiv> 50"
abbreviation (input) NSEC_PER_SEC :: int where "NSEC_PER_SEC \<equiv> 1000000000"
abbreviation (input) Tai64nBaseSeconds :: u64 where "Tai64nBaseSeconds \<equiv> 0x400000000000000A"
abbreviation (input) ZeroNonce :: "byte list" where "ZeroNonce \<equiv> zeros 12"

text \<open>\<open>ByteView\<close> of a string literal: its characters without the terminating NUL.\<close>

definition ByteView :: "string \<Rightarrow> byte list" where
  "ByteView s = map of_char s"

definition HandshakeName :: string where "HandshakeName = ''Noise_IKpsk2_25519_ChaChaPoly_BLAKE2s''"
definition IdentifierName :: string where "IdentifierName = ''WireGuard v1 zx2c4 Jason@zx2c4.com''"
definition Mac1KeyLabel :: string where "Mac1KeyLabel = ''mac1----''"
definition CookieKeyLabel :: string where "CookieKeyLabel = ''cookie--''"

record HandshakeInitCache =
  cache_chaining_key :: "byte list"
  cache_hash :: "byte list"
  cache_ready :: bool

subsection \<open>Key derivation and transcript hash\<close>

definition IsAllZero_span :: "byte list \<Rightarrow> bool" where
  "IsAllZero_span bytes = list_all (\<lambda>b. b = 0) bytes"

definition GetHandshakeInitCache :: "crypto_backend \<Rightarrow> HandshakeInitCache" where
  "GetHandshakeInitCache be =
     (case Blake2sHash be 32 (ByteView HandshakeName) [] of (chaining_key_ready, ck) \<Rightarrow>
        if \<not> chaining_key_ready then \<lparr>cache_chaining_key = ck, cache_hash = zeros 32, cache_ready = False\<rparr>
        else case hash_pieces be NoiseHashSize [] [ck, ByteView IdentifierName] (zeros 32) of
               (ok, h) \<Rightarrow> \<lparr>cache_chaining_key = ck, cache_hash = h, cache_ready = ok\<rparr>)"

definition Kdf1 :: "crypto_backend \<Rightarrow> byte list \<Rightarrow> byte list \<Rightarrow> byte list step" where
  "Kdf1 be data ck first =
     (case Blake2sHmac be ck data of (ok, sec) \<Rightarrow>
        if \<not> ok then (False, first) else Blake2sHmac be sec [1])"

definition Kdf2 :: "crypto_backend \<Rightarrow> byte list \<Rightarrow> byte list \<Rightarrow> (byte list \<times> byte list) step" where
  "Kdf2 be data ck = (\<lambda>(first, second).
     case Blake2sHmac be ck data of (ok, sec) \<Rightarrow>
       if \<not> ok then (False, (first, second))
       else case Blake2sHmac be sec [1] of (ok, first) \<Rightarrow>
         if \<not> ok then (False, (first, second))
         else case Blake2sHmac be sec (first @ [2]) of (ok, second) \<Rightarrow> (ok, (first, second)))"

definition Kdf3 ::
  "crypto_backend \<Rightarrow> byte list \<Rightarrow> byte list \<Rightarrow> (byte list \<times> byte list \<times> byte list) step" where
  "Kdf3 be data ck = (\<lambda>(first, second, third).
     case Blake2sHmac be ck data of (ok, sec) \<Rightarrow>
       if \<not> ok then (False, (first, second, third))
       else case Blake2sHmac be sec [1] of (ok, first) \<Rightarrow>
         if \<not> ok then (False, (first, second, third))
         else case Blake2sHmac be sec (first @ [2]) of (ok, second) \<Rightarrow>
           if \<not> ok then (False, (first, second, third))
           else case Blake2sHmac be sec (second @ [3]) of (ok, third) \<Rightarrow> (ok, (first, second, third)))"

definition MixHash :: "crypto_backend \<Rightarrow> byte list \<Rightarrow> byte list step" where
  "MixHash be src hsh = hash_pieces be NoiseHashSize [] [hsh, src] hsh"

definition HandshakeInit :: "crypto_backend \<Rightarrow> noise_public_key \<Rightarrow> (byte list \<times> byte list) step" where
  "HandshakeInit be rstatic = (\<lambda>(ck, hsh).
     let cache = GetHandshakeInitCache be in
     if \<not> cache_ready cache then (False, (ck, hsh))
     else case MixHash be (key_bytes rstatic) (cache_hash cache) of
            (ok, hsh) \<Rightarrow> (ok, (cache_chaining_key cache, hsh)))"

text \<open>The state is the chaining key and the derived key.\<close>

definition MixDh :: "crypto_backend \<Rightarrow> byte list \<Rightarrow> byte list \<Rightarrow> (byte list \<times> byte list) step" where
  "MixDh be private_key public_key = (\<lambda>(ck, key).
     case x25519 be private_key public_key of (ok, dh) \<Rightarrow>
       if \<not> ok \<or> IsAllZero_span dh then (False, (ck, key))
       else Kdf2 be dh ck (ck, key))"

definition MixDh_discard :: "crypto_backend \<Rightarrow> byte list \<Rightarrow> byte list \<Rightarrow> byte list step" where
  "MixDh_discard be private_key public_key ck =
     (case MixDh be private_key public_key (ck, zeros NoiseHashSize) of
        (ok, (ck, discarded)) \<Rightarrow> (ok, ck))"

definition MixPrecomputedDh :: "crypto_backend \<Rightarrow> noise_secret32 \<Rightarrow> (byte list \<times> byte list) step" where
  "MixPrecomputedDh be precomputed = (\<lambda>(ck, key).
     if \<not> key_valid precomputed \<or> IsAllZero_span (key_bytes precomputed) then (False, (ck, key))
     else Kdf2 be (key_bytes precomputed) ck (ck, key))"

text \<open>The state is the chaining key, the hash and the key.\<close>

definition MixPsk :: "crypto_backend \<Rightarrow> byte list \<Rightarrow> (byte list \<times> byte list \<times> byte list) step" where
  "MixPsk be psk = (\<lambda>(ck, hsh, key).
     case Kdf3 be psk ck (ck, zeros NoiseHashSize, key) of
       (ok, (ck, temp_hash, key)) \<Rightarrow>
         if \<not> ok then (False, (ck, hsh, key))
         else case MixHash be temp_hash hsh of (ok, hsh) \<Rightarrow> (ok, (ck, hsh, key)))"

text \<open>The state is the destination span and the hash.\<close>

definition MessageEncrypt :: "crypto_backend \<Rightarrow> byte list \<Rightarrow> byte list \<Rightarrow> (byte list \<times> byte list) step" where
  "MessageEncrypt be src_plaintext key = (\<lambda>(dst, hsh).
     if length dst \<noteq> length src_plaintext + NoiseTagSize then (False, (dst, hsh))
     else case chacha20poly1305_encrypt be (length src_plaintext) src_plaintext hsh key ZeroNonce of
            None \<Rightarrow> (False, (dst, hsh))
          | Some (c, tag) \<Rightarrow>
              (let dst = put_bytes (length src_plaintext) tag (put_bytes 0 c dst)
               in case MixHash be dst hsh of (ok, hsh) \<Rightarrow> (ok, (dst, hsh))))"

definition MessageDecrypt :: "crypto_backend \<Rightarrow> byte list \<Rightarrow> byte list \<Rightarrow> (byte list \<times> byte list) step" where
  "MessageDecrypt be src key = (\<lambda>(dst, hsh).
     if length src < NoiseTagSize \<or> length dst \<noteq> length src - NoiseTagSize then (False, (dst, hsh))
     else case chacha20poly1305_decrypt be dst (take (length dst) src) (drop (length src - NoiseTagSize) src)
                 hsh key ZeroNonce of
            (ok, dst) \<Rightarrow>
              if \<not> ok then (False, (dst, hsh))
              else case MixHash be src hsh of (ok, hsh) \<Rightarrow> (ok, (dst, hsh)))"

text \<open>The state is the destination of the key, the chaining key and the hash.\<close>

definition MessageEphemeral :: "crypto_backend \<Rightarrow> byte list \<Rightarrow> (byte list \<times> byte list \<times> byte list) step" where
  "MessageEphemeral be ephemeral_src = (\<lambda>(dst, ck, hsh).
     case MixHash be ephemeral_src hsh of (ok, hsh) \<Rightarrow>
       if \<not> ok then (False, (ephemeral_src, ck, hsh))
       else case Kdf1 be ephemeral_src ck ck of
              (ok, ck) \<Rightarrow> (ok, (ephemeral_src, ck, hsh)))"

definition DeriveSessionKeys ::
  "crypto_backend \<Rightarrow> byte list \<Rightarrow> (noise_symmetric_key \<times> noise_symmetric_key) step" where
  "DeriveSessionKeys be ck = (\<lambda>(first, second).
     case Kdf2 be [] ck (key_bytes first, key_bytes second) of (ok, (a, b)) \<Rightarrow>
       let first = first\<lparr>key_bytes := a\<rparr>; second = second\<lparr>key_bytes := b\<rparr> in
       if \<not> ok then (False, (first, second))
       else (True, (first\<lparr>key_valid := True\<rparr>, second\<lparr>key_valid := True\<rparr>)))"

subsection \<open>Timestamps\<close>

lemma double_grows:
  fixes r :: u64
  assumes "r < push_bit 1 r"
  shows "unat (- 1 - push_bit 1 r) < unat (- 1 - r)"
proof -
  have "unat (- 1 - x) = unat (- 1 :: u64) - unat x" for x :: u64
    by (simp add: unat_sub_if' word_n1_ge[THEN word_le_nat_alt[THEN iffD1]])
  moreover have "unat r < unat (push_bit 1 r)" using assms by (simp add: word_less_nat_alt)
  moreover have "unat (push_bit 1 r) \<le> unat (- 1 :: u64)" by (simp add: word_n1_ge flip: word_le_nat_alt)
  ultimately show ?thesis by simp
qed

function round_down_loop :: "u64 \<Rightarrow> u64 \<Rightarrow> u64" where
  "round_down_loop value result =
     (if push_bit 1 result > result \<and> push_bit 1 result \<le> value
      then round_down_loop value (push_bit 1 result) else result)"
  by auto
termination
  by (relation "measure (\<lambda>(value, result). unat (- 1 - result))") (auto simp: double_grows[simplified])

declare round_down_loop.simps [simp del]

definition RoundDownToPowerOfTwo :: "u64 \<Rightarrow> u64" where
  "RoundDownToPowerOfTwo value = (if value = 0 then 0 else round_down_loop value 1)"

text \<open>\<open>now.tv_nsec % rounding\<close> truncates towards zero; \<open>tv_nsec\<close> is not negative on either path of
  \<open>ktime_get_real_ts64\<close>, where it agrees with \<open>mod\<close>.\<close>

definition Tai64nNow :: "'w platform \<Rightarrow> 'w \<Rightarrow> byte list \<times> 'w" where
  "Tai64nNow pf w =
     (case ktime_get_real_ts64 pf w of ((tv_sec, tv_nsec), w) \<Rightarrow>
        let rounding = RoundDownToPowerOfTwo (word_of_int (NSEC_PER_SEC div InitiationsPerSecond));
            tv_nsec = (if rounding \<noteq> 0 then tv_nsec - tv_nsec mod uint rounding else tv_nsec)
        in (StoreBe64 (Tai64nBaseSeconds + word_of_int tv_sec) @ StoreBe32 (word_of_int tv_nsec), w))"

subsection \<open>Message authentication codes\<close>

definition ComputeMac1_initiation ::
  "crypto_backend \<Rightarrow> noise_public_key \<Rightarrow> message_handshake_initiation step" where
  "ComputeMac1_initiation be rstatic message =
     (if \<not> key_valid rstatic then (False, message)
      else case hash_pieces be NoiseSymmetricKeySize [] [ByteView Mac1KeyLabel, key_bytes rstatic] (zeros 32) of
        (ok, mac1_key) \<Rightarrow>
          if \<not> ok then (False, message)
          else case SerializeHandshakeInitiation (zeros HandshakeInitiationSize) message of (err, serialized) \<Rightarrow>
            if err \<noteq> PE_None then (False, message)
            else case Blake2sHash be NoiseMacSize (take (HandshakeInitiationSize - 2 * NoiseMacSize) serialized) mac1_key of
              (ok, mac) \<Rightarrow> (ok, message\<lparr>hi_macs := (hi_macs message)\<lparr>mac1 := mac\<rparr>\<rparr>))"

definition ComputeMac1_response ::
  "crypto_backend \<Rightarrow> noise_public_key \<Rightarrow> message_handshake_response step" where
  "ComputeMac1_response be rstatic message =
     (if \<not> key_valid rstatic then (False, message)
      else case hash_pieces be NoiseSymmetricKeySize [] [ByteView Mac1KeyLabel, key_bytes rstatic] (zeros 32) of
        (ok, mac1_key) \<Rightarrow>
          if \<not> ok then (False, message)
          else case SerializeHandshakeResponse (zeros HandshakeResponseSize) message of (err, serialized) \<Rightarrow>
            if err \<noteq> PE_None then (False, message)
            else case Blake2sHash be NoiseMacSize (take (HandshakeResponseSize - 2 * NoiseMacSize) serialized) mac1_key of
              (ok, mac) \<Rightarrow> (ok, message\<lparr>hr_macs := (hr_macs message)\<lparr>mac1 := mac\<rparr>\<rparr>))"

text \<open>The template \<open>VerifyMac1\<close> over the message type, its MACs and its \<open>ComputeMac1\<close>.\<close>

definition VerifyMac1 ::
  "('m \<Rightarrow> message_macs) \<Rightarrow> (noise_public_key \<Rightarrow> 'm step) \<Rightarrow> 'm \<Rightarrow> noise_public_key \<Rightarrow> bool" where
  "VerifyMac1 macs compute message local_static =
     (if \<not> key_valid local_static then False
      else case compute local_static message of (computed, expected) \<Rightarrow>
        computed \<and> secure_equal (mac1 (macs expected)) (mac1 (macs message)))"

definition ComputeCookieKey :: "crypto_backend \<Rightarrow> noise_public_key \<Rightarrow> byte list step" where
  "ComputeCookieKey be rstatic key =
     (if \<not> key_valid rstatic then (False, key)
      else hash_pieces be NoiseSymmetricKeySize [] [ByteView CookieKeyLabel, key_bytes rstatic] key)"

text \<open>The template \<open>ComputeMac2<T, Size>\<close>.\<close>

definition ComputeMac2 ::
  "crypto_backend \<Rightarrow> nat \<Rightarrow> (byte list \<Rightarrow> 'm \<Rightarrow> ParseError \<times> byte list) \<Rightarrow> 'm \<Rightarrow> noise_cookie \<Rightarrow> byte list step" where
  "ComputeMac2 be Size serialize message ckie out_mac2 =
     (case serialize (zeros Size) message of (err, serialized) \<Rightarrow>
        if err \<noteq> PE_None then (False, out_mac2)
        else Blake2sHash be NoiseMacSize (take (Size - NoiseMacSize) serialized) (cookie_value ckie))"

subsection \<open>Values\<close>

definition kdf1 :: "crypto_backend \<Rightarrow> byte list \<Rightarrow> byte list \<Rightarrow> byte list" where
  "kdf1 be d ck = hmac_spec be (hmac_spec be ck d) [1]"

definition kdf2 :: "crypto_backend \<Rightarrow> byte list \<Rightarrow> byte list \<Rightarrow> byte list \<times> byte list" where
  "kdf2 be d ck = (let s = hmac_spec be ck d; t1 = hmac_spec be s [1] in (t1, hmac_spec be s (t1 @ [2])))"

definition kdf3 :: "crypto_backend \<Rightarrow> byte list \<Rightarrow> byte list \<Rightarrow> byte list \<times> byte list \<times> byte list" where
  "kdf3 be d ck =
     (let s = hmac_spec be ck d; t1 = hmac_spec be s [1]; t2 = hmac_spec be s (t1 @ [2])
      in (t1, t2, hmac_spec be s (t2 @ [3])))"

definition mix_hash :: "crypto_backend \<Rightarrow> byte list \<Rightarrow> byte list \<Rightarrow> byte list" where
  "mix_hash be h src = be_blake2s be 32 [] (h @ src)"

definition init_ck :: "crypto_backend \<Rightarrow> byte list" where
  "init_ck be = be_blake2s be 32 [] (ByteView HandshakeName)"

definition init_hash :: "crypto_backend \<Rightarrow> byte list \<Rightarrow> byte list" where
  "init_hash be responder_static = mix_hash be (mix_hash be (init_ck be) (ByteView IdentifierName)) responder_static"

definition seal :: "crypto_backend \<Rightarrow> byte list \<Rightarrow> byte list \<Rightarrow> byte list \<Rightarrow> byte list" where
  "seal be key h p = (case be_aead_write_ietf be key ZeroNonce h p of (c, t) \<Rightarrow> c @ t)"

definition mac1_key :: "crypto_backend \<Rightarrow> byte list \<Rightarrow> byte list" where
  "mac1_key be pub = be_blake2s be 32 [] (ByteView Mac1KeyLabel @ pub)"

named_theorems noise_eqs \<open>values of the Noise building blocks\<close>

lemma Hmac_eq: "crypto_laws be \<Longrightarrow> Blake2sHmac be key data = (True, hmac_spec be key data)"
  by (rule Blake2sHmac_eq) (rule crypto_lawsD(1))

lemma Kdf_eqs [noise_eqs]:
  assumes "crypto_laws be"
  shows "Kdf1 be d ck old1 = (True, kdf1 be d ck)"
    and "Kdf2 be d ck old2 = (True, kdf2 be d ck)"
    and "Kdf3 be d ck old3 = (True, kdf3 be d ck)"
  by (simp_all add: Kdf1_def Kdf2_def Kdf3_def kdf1_def kdf2_def kdf3_def Hmac_eq[OF assms] Let_def split: prod.splits)

lemma kdf_lengths:
  assumes "crypto_laws be"
  shows "length (kdf1 be d ck) = 32" "length (fst (kdf2 be d ck)) = 32" "length (snd (kdf2 be d ck)) = 32"
    "length (fst (kdf3 be d ck)) = 32"
  by (simp_all add: kdf1_def kdf2_def kdf3_def Let_def length_hmac_spec[OF assms])

lemma length_mix_hash: "crypto_laws be \<Longrightarrow> length (mix_hash be h src) = 32"
  by (simp add: mix_hash_def crypto_lawsD)

lemma MixHash_eq [noise_eqs]: "MixHash be src h = (True, mix_hash be h src)"
  by (simp add: MixHash_def mix_hash_def hash_pieces_eq)

lemma HandshakeInit_eq [noise_eqs]:
  "HandshakeInit be k (ck, h) = (True, (init_ck be, init_hash be (key_bytes k)))"
  by (simp add: HandshakeInit_def GetHandshakeInitCache_def Blake2sHash_eq hash_pieces_eq MixHash_eq init_ck_def
      init_hash_def Let_def mix_hash_def)

lemma MixDh_eq [noise_eqs]:
  assumes "crypto_laws be" "be_x25519 be a p \<noteq> zeros 32"
  shows "MixDh be a p (ck, key) = (True, kdf2 be (be_x25519 be a p) ck)"
    and "MixDh_discard be a p ck = (True, fst (kdf2 be (be_x25519 be a p) ck))"
proof -
  have "\<not> list_all (\<lambda>b. b = 0) (be_x25519 be a p)"
    using assms(2) all_zero32[OF crypto_lawsD(2)[OF assms(1)]] by blast
  then show m: "MixDh be a p (ck, key) = (True, kdf2 be (be_x25519 be a p) ck)" for key
    by (simp add: MixDh_def x25519_def Let_def IsAllZero_span_def Kdf_eqs[OF assms(1)])
  show "MixDh_discard be a p ck = (True, fst (kdf2 be (be_x25519 be a p) ck))"
    by (simp add: MixDh_discard_def m split: prod.splits)
qed

lemma MixPrecomputedDh_eq [noise_eqs]:
  assumes "crypto_laws be" "key_valid k" "wf_key k" "key_bytes k \<noteq> zeros 32"
  shows "MixPrecomputedDh be k (ck, key) = (True, kdf2 be (key_bytes k) ck)"
  using assms all_zero32[of "key_bytes k"]
  by (simp add: MixPrecomputedDh_def IsAllZero_span_def Kdf_eqs wf_key_def)

lemma MixPsk_eq [noise_eqs]:
  "crypto_laws be \<Longrightarrow> MixPsk be psk (ck, h, key) =
     (True, (case kdf3 be psk ck of (a, t, k) \<Rightarrow> (a, mix_hash be h t, k)))"
  by (simp add: MixPsk_def Kdf_eqs MixHash_eq split: prod.splits)

lemma length_seal: "crypto_laws be \<Longrightarrow> length (seal be key h p) = length p + 16"
  using ietf_laws(1)[of be key ZeroNonce h p] by (simp add: seal_def split: prod.splits)

lemma MessageEncrypt_eq [noise_eqs]:
  assumes "crypto_laws be" "length dst = length p + 16"
  shows "MessageEncrypt be p key (dst, h) = (True, (seal be key h p, mix_hash be h (seal be key h p)))"
proof -
  obtain c t where w: "be_aead_write_ietf be key ZeroNonce h p = (c, t)" by fastforce
  have len: "length c = length p" "length t = 16" using ietf_laws(1)[OF assms(1) w] by simp_all
  have "put_bytes (length p) t (put_bytes 0 c dst) = c @ t"
    using len assms(2) by (simp add: put_bytes_def)
  then show ?thesis
    using assms(2) by (simp add: MessageEncrypt_def chacha20poly1305_encrypt_def w seal_def MixHash_eq Let_def)
qed

lemma MessageDecrypt_seal [noise_eqs]:
  assumes "crypto_laws be" "length dst = length p"
  shows "MessageDecrypt be (seal be key h p) key (dst, h) = (True, (p, mix_hash be h (seal be key h p)))"
proof -
  obtain c t where w: "be_aead_write_ietf be key ZeroNonce h p = (c, t)" by fastforce
  have len: "length c = length p" "length t = 16" "be_aead_read_ietf be key ZeroNonce t h c = Some p"
    using ietf_laws(1)[OF assms(1) w] by simp_all
  then show ?thesis
    using assms(2) by (simp add: MessageDecrypt_def chacha20poly1305_decrypt_def w seal_def MixHash_eq)
qed

lemma MessageEphemeral_eq [noise_eqs]:
  "crypto_laws be \<Longrightarrow> MessageEphemeral be e (dst, ck, h) = (True, (e, kdf1 be e ck, mix_hash be h e))"
  by (simp add: MessageEphemeral_def MixHash_eq Kdf_eqs)

lemma DeriveSessionKeys_eq [noise_eqs]:
  "crypto_laws be \<Longrightarrow> DeriveSessionKeys be ck (k1, k2) =
     (True, (case kdf2 be [] ck of (a, b) \<Rightarrow> (\<lparr>key_bytes = a, key_valid = True\<rparr>, \<lparr>key_bytes = b, key_valid = True\<rparr>)))"
  by (simp add: DeriveSessionKeys_def Kdf_eqs Let_def split: prod.splits)

lemma round_down_initiations: "RoundDownToPowerOfTwo 20000000 = 16777216"
  by code_simp

lemma length_Tai64nNow: "Tai64nNow pf w = (ts, w') \<Longrightarrow> length ts = 12"
  by (auto simp: Tai64nNow_def Let_def split: prod.splits)

subsection \<open>Codes of well-formed messages\<close>

lemma ComputeMac1_initiation_eq:
  assumes "crypto_laws be" "key_valid k" "wf_initiation m"
  shows "ComputeMac1_initiation be k m =
    (True, m\<lparr>hi_macs := (hi_macs m)\<lparr>mac1 := be_blake2s be 16 (mac1_key be (key_bytes k)) (take 116 (wire_initiation m))\<rparr>\<rparr>)"
  using assms SerializeHandshakeInitiation_wf[OF assms(3), of "zeros 148"]
  by (simp add: ComputeMac1_initiation_def hash_pieces_eq Blake2sHash_eq mac1_key_def crypto_lawsD)

lemma ComputeMac1_response_eq:
  assumes "crypto_laws be" "key_valid k" "wf_response m"
  shows "ComputeMac1_response be k m =
    (True, m\<lparr>hr_macs := (hr_macs m)\<lparr>mac1 := be_blake2s be 16 (mac1_key be (key_bytes k)) (take 60 (wire_response m))\<rparr>\<rparr>)"
  using assms SerializeHandshakeResponse_wf[OF assms(3), of "zeros 92"]
  by (simp add: ComputeMac1_response_def hash_pieces_eq Blake2sHash_eq mac1_key_def crypto_lawsD)

lemma take_wire_macs:
  "wf_initiation m1 \<Longrightarrow> take 116 (wire_initiation (m1\<lparr>hi_macs := x\<rparr>)) = take 116 (wire_initiation m1)"
  "wf_response m2 \<Longrightarrow> take 60 (wire_response (m2\<lparr>hr_macs := x\<rparr>)) = take 60 (wire_response m2)"
  by (simp_all add: wire_initiation_def wire_response_def wf_defs)

end
