(* ===== verification/WG_Cookie.thy ===== *)
theory WG_Cookie
  imports WG_Noise
begin

text \<open>
  Admission of handshake packets by a responder (\<open>wireguard/handshake.cpp\<close>): the check of the first
  code on the raw packet, the load detector, cookies bound to the source of a packet, and the rate
  limit per source. A pointer to an entry of \<open>rate_limits\<close> is its position. The callers pass a place
  for the cookie reply, so \<open>out_cookie\<close> is not null.
\<close>

abbreviation (input) UnderLoadAfterTime :: MonotonicDuration where "UnderLoadAfterTime \<equiv> seconds 1"
abbreviation (input) CookieRefreshTime :: MonotonicDuration where "CookieRefreshTime \<equiv> seconds 120"
abbreviation (input) HandshakeRateLimitPacketsPerSecond :: int where "HandshakeRateLimitPacketsPerSecond \<equiv> 20"
abbreviation (input) HandshakeRateLimitBurst :: int where "HandshakeRateLimitBurst \<equiv> 5"

definition HandshakeRateTokenCost :: int where
  "HandshakeRateTokenCost = NSEC_PER_SEC div HandshakeRateLimitPacketsPerSecond"

definition HandshakeRateMaximumTokens :: int where
  "HandshakeRateMaximumTokens = HandshakeRateTokenCost * HandshakeRateLimitBurst"

datatype ResponderHandshakeAdmission = RHA_Accepted | RHA_CookieReply | RHA_RateLimited | RHA_Invalid

record endpoint =
  ep_family :: address_family
  ep_port :: u16
  ep_address :: "byte list"

definition SourceAddressSize :: "endpoint \<Rightarrow> nat" where
  "SourceAddressSize source = (case ep_family source of AF_inet \<Rightarrow> 4 | AF_inet6 \<Rightarrow> 16 | AF_unspecified \<Rightarrow> 0)"

text \<open>The state is the array \<open>out\<close> and \<open>out_size\<close>.\<close>

definition BuildSourceBytes :: "endpoint \<Rightarrow> (byte list \<times> nat) step" where
  "BuildSourceBytes source = (\<lambda>(out, out_size).
     let address_size = SourceAddressSize source in
     if address_size = 0 then (False, (out, out_size))
     else
       let out = put_bytes 0 (take address_size (ep_address source)) out;
           out = out[address_size := ucast (drop_bit 8 (ep_port source)),
                     address_size + 1 := ucast (and (ep_port source) 0xFF)]
       in (True, (out, address_size + 2)))"

definition VerifyPacketMac1 :: "crypto_backend \<Rightarrow> byte list \<Rightarrow> noise_public_key \<Rightarrow> bool" where
  "VerifyPacketMac1 be packet local_static =
     (let type = InspectMessageType packet;
          expected_size = (if pr_success type \<and> pr_type type = MT_HandshakeInitiation then HandshakeInitiationSize
                           else if pr_success type \<and> pr_type type = MT_HandshakeResponse then HandshakeResponseSize
                           else 0)
      in if \<not> key_valid local_static \<or> expected_size = 0 \<or> length packet \<noteq> expected_size then False
         else case hash_pieces be NoiseSymmetricKeySize [] [ByteView Mac1KeyLabel, key_bytes local_static] (zeros 32) of
           (ok, key) \<Rightarrow> ok \<and>
             (case Blake2sHash be NoiseMacSize (take (length packet - 2 * NoiseMacSize) packet) key of
                (ok, expected) \<Rightarrow>
                  ok \<and> secure_equal expected (subspan (length packet - 2 * NoiseMacSize) NoiseMacSize packet)))"

text \<open>The state is \<open>tokens\<close>, \<open>last_update\<close> and \<open>initialized\<close>.\<close>

definition ConsumeHandshakeRate :: "MonotonicTimePoint \<Rightarrow> (int \<times> MonotonicTimePoint \<times> bool) step" where
  "ConsumeHandshakeRate now = (\<lambda>(tokens, last_update, initialized).
     let (tokens, last_update, initialized) =
           (if \<not> initialized then (HandshakeRateMaximumTokens, now, True)
            else if now > last_update
              then (min HandshakeRateMaximumTokens (tokens + (now - last_update)), now, initialized)
            else (tokens, last_update, initialized))
     in if tokens < HandshakeRateTokenCost then (False, (tokens, last_update, initialized))
        else (True, (tokens - HandshakeRateTokenCost, last_update, initialized)))"

text \<open>The two places that keep the three variables.\<close>

definition consume_arrival :: "MonotonicTimePoint \<Rightarrow> ResponderCookieState step" where
  "consume_arrival now st =
     (case ConsumeHandshakeRate now (arrival_tokens st, arrival_last_update st, arrival_initialized st) of
        (ok, (t, l, i)) \<Rightarrow> (ok, st\<lparr>arrival_tokens := t, arrival_last_update := l, arrival_initialized := i\<rparr>))"

definition consume_entry :: "MonotonicTimePoint \<Rightarrow> HandshakeRateLimitEntry step" where
  "consume_entry now e =
     (case ConsumeHandshakeRate now (rl_tokens e, rl_last_update e, rl_initialized e) of
        (ok, (t, l, i)) \<Rightarrow> (ok, e\<lparr>rl_tokens := t, rl_last_update := l, rl_initialized := i\<rparr>))"

definition IsUnderLoad :: "MonotonicTimePoint \<Rightarrow> ResponderCookieState step" where
  "IsUnderLoad now st =
     (case consume_arrival now st of (arrival_allowed, st) \<Rightarrow>
        let st = (if \<not> arrival_allowed then st\<lparr>under_load_until := now + UnderLoadAfterTime\<rparr> else st)
        in (\<not> arrival_allowed \<or> under_load_until st > now, st))"

definition entry_matches :: "endpoint \<Rightarrow> HandshakeRateLimitEntry \<Rightarrow> bool" where
  "entry_matches source e \<longleftrightarrow>
     rl_active e \<and> rl_family e = ep_family source \<and>
     take (SourceAddressSize source) (rl_address e) = take (SourceAddressSize source) (ep_address source)"

definition entry_reusable :: "MonotonicTimePoint \<Rightarrow> HandshakeRateLimitEntry \<Rightarrow> bool" where
  "entry_reusable now e \<longleftrightarrow>
     \<not> rl_active e \<or> (now > rl_last_update e \<and> now - rl_last_update e > UnderLoadAfterTime)"

text \<open>The loop from position \<open>i\<close>: the position of the match, or the last reusable position seen.\<close>

fun rate_limit_scan ::
  "endpoint \<Rightarrow> MonotonicTimePoint \<Rightarrow> nat \<Rightarrow> HandshakeRateLimitEntry list \<Rightarrow> nat option \<Rightarrow> nat + nat option" where
  "rate_limit_scan source now i [] reusable = Inr reusable"
| "rate_limit_scan source now i (e # es) reusable =
     (if entry_matches source e then Inl i
      else rate_limit_scan source now (Suc i) es (if entry_reusable now e then Some i else reusable))"

definition FindRateLimitEntry ::
  "endpoint \<Rightarrow> MonotonicTimePoint \<Rightarrow> ResponderCookieState \<Rightarrow> nat option \<times> ResponderCookieState" where
  "FindRateLimitEntry source now st =
     (let address_size = SourceAddressSize source in
      if address_size = 0 then (None, st)
      else case rate_limit_scan source now 0 (rate_limits st) None of
        Inl i \<Rightarrow> (Some i, st)
      | Inr None \<Rightarrow> (None, st)
      | Inr (Some i) \<Rightarrow>
          (Some i, st\<lparr>rate_limits := (rate_limits st)[i := HandshakeRateLimitEntry_init
             \<lparr>rl_family := ep_family source,
              rl_address := put_bytes 0 (take address_size (ep_address source)) (zeros 16),
              rl_active := True\<rparr>]\<rparr>))"

definition secret_stale :: "MonotonicTimePoint \<Rightarrow> ResponderCookieState \<Rightarrow> bool" where
  "secret_stale now st \<longleftrightarrow>
     \<not> key_valid (secret st) \<or> secret_birth st = 0 \<or> now < secret_birth st \<or> now - secret_birth st > CookieRefreshTime"

definition CheckPacketMac2 ::
  "crypto_backend \<Rightarrow> ResponderCookieState \<Rightarrow> byte list \<Rightarrow> endpoint \<Rightarrow> MonotonicTimePoint \<Rightarrow> bool" where
  "CheckPacketMac2 be st packet source now =
     (if secret_stale now st then False
      else case BuildSourceBytes source (zeros 18, 0) of (ok, (bytes, n)) \<Rightarrow> ok \<and>
        (case Blake2sHash be CookieValueSize (take n bytes) (key_bytes (secret st)) of (ok, value) \<Rightarrow> ok \<and>
          (case Blake2sHash be NoiseMacSize (take (length packet - NoiseMacSize) packet) value of
             (ok, expected) \<Rightarrow> ok \<and> secure_equal expected (drop (length packet - NoiseMacSize) packet))))"

definition CreateCookieReply ::
  "crypto_backend \<Rightarrow> 'w platform \<Rightarrow> noise_public_key \<Rightarrow> byte list \<Rightarrow> endpoint \<Rightarrow> MonotonicTimePoint \<Rightarrow>
   (ResponderCookieState \<times> message_handshake_cookie \<times> 'w) step" where
  "CreateCookieReply be pf local_static packet source now = (\<lambda>(st, out, w).
     if \<not> key_valid local_static then (False, (st, out, w))
     else
       let (st, w) =
             (if secret_stale now st then
                (case get_random_bytes pf 32 w of (bytes, w) \<Rightarrow>
                   (st\<lparr>secret := \<lparr>key_bytes = bytes, key_valid = True\<rparr>, secret_birth := now\<rparr>, w))
              else (st, w))
       in case BuildSourceBytes source (zeros 18, 0) of (ok, (bytes, n)) \<Rightarrow>
         if \<not> ok then (False, (st, out, w))
         else case Blake2sHash be CookieValueSize (take n bytes) (key_bytes (secret st)) of (ok, value) \<Rightarrow>
           if \<not> ok then (False, (st, out, w))
           else case ComputeCookieKey be local_static (zeros 32) of (ok, key) \<Rightarrow>
             if \<not> ok then (False, (st, out, w))
             else case get_random_bytes pf CookieNonceSize w of (nonce, w) \<Rightarrow>
               let out = zero_cookie_reply\<lparr>hc_type := SetMessageType MT_CookieReply,
                           hc_receiver_index := LoadLe32 (drop MessageTypeSize packet), hc_nonce := nonce\<rparr>
               in if hc_receiver_index out = 0 then (False, (st, zero_cookie_reply, w))
                  else case xchacha20poly1305_encrypt be CookieValueSize value
                         (subspan (length packet - 2 * NoiseMacSize) NoiseMacSize packet) key nonce of
                    None \<Rightarrow> (False, (st, zero_cookie_reply, w))
                  | Some (c, tag) \<Rightarrow>
                      (True, (st, out\<lparr>hc_encrypted_cookie :=
                         put_bytes CookieValueSize tag (put_bytes 0 c (hc_encrypted_cookie out))\<rparr>, w)))"

definition MatchesCookieReceiverIndex :: "wg_device \<Rightarrow> u32 \<Rightarrow> bool" where
  "MatchesCookieReceiverIndex d receiver_index =
     (if receiver_index = 0 then False
      else wg_device_lookup_index_slot d receiver_index
             \<in> {IS_Handshake, IS_CurrentKeypair, IS_NextKeypair, IS_PreviousKeypair})"

text \<open>The last statements of \<open>noise_handshake_admit_responder_packet\<close>.\<close>

definition limit_source :: "endpoint \<Rightarrow> MonotonicTimePoint \<Rightarrow> ResponderCookieState step" where
  "limit_source source now st =
     (case FindRateLimitEntry source now st of
        (None, st) \<Rightarrow> (False, st)
      | (Some i, st) \<Rightarrow>
          (case consume_entry now (rate_limits st ! i) of
             (ok, e) \<Rightarrow> (ok, st\<lparr>rate_limits := (rate_limits st)[i := e]\<rparr>)))"

definition noise_handshake_admit_responder_packet ::
  "crypto_backend \<Rightarrow> 'w platform \<Rightarrow> byte list \<Rightarrow> endpoint \<Rightarrow> MonotonicTimePoint \<Rightarrow>
   wg_device \<times> message_handshake_cookie \<times> 'w \<Rightarrow>
   ResponderHandshakeAdmission \<times> wg_device \<times> message_handshake_cookie \<times> 'w" where
  "noise_handshake_admit_responder_packet be pf packet source now = (\<lambda>(d, out, w).
     case wg_device_first_peer d of
       None \<Rightarrow> (RHA_Invalid, d, out, w)
     | Some p \<Rightarrow>
         if SourceAddressSize source = 0 \<or> \<not> VerifyPacketMac1 be packet (static_public (static_identity p))
         then (RHA_Invalid, d, out, w)
         else case IsUnderLoad now (responder_cookie d) of (loaded, st) \<Rightarrow>
           if \<not> loaded then (RHA_Accepted, d\<lparr>responder_cookie := st\<rparr>, out, w)
           else if \<not> CheckPacketMac2 be st packet source now then
             (case CreateCookieReply be pf (static_public (static_identity p)) packet source now (st, out, w) of
                (ok, (st, out, w)) \<Rightarrow>
                  (if ok then RHA_CookieReply else RHA_Invalid, d\<lparr>responder_cookie := st\<rparr>, out, w))
           else
             (case limit_source source now st of
                (ok, st) \<Rightarrow> (if ok then RHA_Accepted else RHA_RateLimited, d\<lparr>responder_cookie := st\<rparr>, out, w)))"

subsection \<open>Token buckets\<close>

text \<open>The contract of a token bucket. \<open>view\<close> is \<open>None\<close> before the first use, then the level and the time of
  the last refill.\<close>

definition refill :: "int \<Rightarrow> int \<Rightarrow> (int \<times> int) option \<Rightarrow> int \<times> int" where
  "refill cap now v =
     (case v of None \<Rightarrow> (cap, now) | Some (t, l) \<Rightarrow> if l < now then (min cap (t + (now - l)), now) else (t, l))"

locale token_bucket =
  fixes consume :: "int \<Rightarrow> 's \<Rightarrow> bool \<times> 's"
    and view :: "'s \<Rightarrow> (int \<times> int) option"
    and cost cap :: int
  assumes cost: "0 < cost" "cost \<le> cap"
    and consume_step: "consume now s = (ok, s') \<Longrightarrow> refill cap now (view s) = (t, l) \<Longrightarrow>
      ok = (cost \<le> t) \<and> view s' = Some (if ok then t - cost else t, l)"
begin

fun grants :: "int list \<Rightarrow> 's \<Rightarrow> nat" where
  "grants [] s = 0"
| "grants (now # rest) s = (case consume now s of (ok, s') \<Rightarrow> (if ok then 1 else 0) + grants rest s')"

lemma first_use_granted: "view s = None \<Longrightarrow> fst (consume now s)"
  using consume_step[of now s] cost by (cases "consume now s") (auto simp: refill_def)

lemma grants_bound:
  assumes "view s = Some (t, l)" "0 \<le> t"
  shows "cost * int (grants nows s) \<le> t + (fold max nows l - l)"
  using assms
proof (induction nows arbitrary: s t l)
  case (Cons now rest)
  obtain ok s' where c: "consume now s = (ok, s')" by (rule prod.exhaust)
  obtain t1 l1 where r: "refill cap now (view s) = (t1, l1)" by (rule prod.exhaust)
  have t1: "l1 = max l now" "t1 \<le> t + (l1 - l)" "0 \<le> t1"
    using r Cons.prems cost by (auto simp: refill_def min_def max_def split: if_splits)
  have s': "ok = (cost \<le> t1)" "view s' = Some (if ok then t1 - cost else t1, l1)" using consume_step[OF c r] by auto
  have "cost * int (grants rest s') \<le> (if ok then t1 - cost else t1) + (fold max rest l1 - l1)"
    using t1(3) s'(1) by (intro Cons.IH[OF s'(2)]) simp
  then show ?case using t1 by (cases ok) (simp_all add: c algebra_simps max.commute)
qed simp

text \<open>Over any sequence of requests the bucket grants what it holds at first plus what flows in.\<close>

lemma grants_from_start:
  assumes "view s = None"
  shows "cost * int (grants (now # rest) s) \<le> cap + (fold max rest now - now)"
proof -
  obtain ok s' where c: "consume now s = (ok, s')" by (rule prod.exhaust)
  have s': "ok" "view s' = Some (cap - cost, now)" using consume_step[OF c, of cap now] assms cost by (simp_all add: refill_def)
  then show ?thesis using grants_bound[OF s'(2), of rest] cost by (simp add: c algebra_simps)
qed

end

lemma ConsumeHandshakeRate_bucket:
  assumes "ConsumeHandshakeRate now (t, l, i) = (ok, (t', l', i'))"
    and "refill HandshakeRateMaximumTokens now (if i then Some (t, l) else None) = (t1, l1)"
  shows "i' \<and> ok = (HandshakeRateTokenCost \<le> t1) \<and> t' = (if ok then t1 - HandshakeRateTokenCost else t1) \<and> l' = l1"
  using assms by (auto simp: ConsumeHandshakeRate_def refill_def Let_def split: if_splits)

lemma rate_constants [simp]: "HandshakeRateTokenCost = 50000000" "HandshakeRateMaximumTokens = 250000000"
  by (simp_all add: HandshakeRateTokenCost_def HandshakeRateMaximumTokens_def)

definition arrival_view :: "ResponderCookieState \<Rightarrow> (int \<times> int) option" where
  "arrival_view st = (if arrival_initialized st then Some (arrival_tokens st, arrival_last_update st) else None)"

definition entry_view :: "HandshakeRateLimitEntry \<Rightarrow> (int \<times> int) option" where
  "entry_view e = (if rl_initialized e then Some (rl_tokens e, rl_last_update e) else None)"

interpretation arrivals: token_bucket consume_arrival arrival_view 50000000 250000000
proof
  fix now s ok s' t l
  assume "consume_arrival now s = (ok, s')" "refill 250000000 now (arrival_view s) = (t, l)"
  then show "ok = (50000000 \<le> t) \<and> arrival_view s' = Some (if ok then t - 50000000 else t, l)"
    using ConsumeHandshakeRate_bucket[of now "arrival_tokens s" "arrival_last_update s" "arrival_initialized s"]
    by (auto simp: consume_arrival_def arrival_view_def split: prod.splits)
qed simp_all

interpretation sources: token_bucket consume_entry entry_view 50000000 250000000
proof
  fix now s ok s' t l
  assume "consume_entry now s = (ok, s')" "refill 250000000 now (entry_view s) = (t, l)"
  then show "ok = (50000000 \<le> t) \<and> entry_view s' = Some (if ok then t - 50000000 else t, l)"
    using ConsumeHandshakeRate_bucket[of now "rl_tokens s" "rl_last_update s" "rl_initialized s"]
    by (auto simp: consume_entry_def entry_view_def split: prod.splits)
qed simp_all

subsection \<open>The rate of one source\<close>

text \<open>A source is its address family and address, without the port.\<close>

definition source_key :: "endpoint \<Rightarrow> address_family \<times> byte list" where
  "source_key s = (ep_family s, take (SourceAddressSize s) (ep_address s))"

definition holds_key :: "address_family \<times> byte list \<Rightarrow> HandshakeRateLimitEntry \<Rightarrow> bool" where
  "holds_key k e \<longleftrightarrow> rl_active e \<and> rl_family e = fst k \<and> take (length (snd k)) (rl_address e) = snd k"

text \<open>What the limiter will grant a source at time \<open>now\<close>: the level of its entry, refilled, or a full bucket.\<close>

definition credit :: "address_family \<times> byte list \<Rightarrow> HandshakeRateLimitEntry list \<Rightarrow> int \<Rightarrow> int" where
  "credit k es now = (case find (holds_key k) es of
     None \<Rightarrow> 250000000 | Some e \<Rightarrow> min 250000000 (rl_tokens e + (now - rl_last_update e)))"

definition entries_ok :: "HandshakeRateLimitEntry list \<Rightarrow> int \<Rightarrow> bool" where
  "entries_ok es now \<longleftrightarrow> (\<forall>e \<in> set es. rl_active e \<longrightarrow>
     rl_initialized e \<and> 0 \<le> rl_tokens e \<and> rl_tokens e \<le> 250000000 \<and> rl_last_update e \<le> now)"

definition wf_source :: "endpoint \<Rightarrow> bool" where
  "wf_source s \<longleftrightarrow> length (ep_address s) = 16"

lemma size_le: "SourceAddressSize s \<le> 16"
  by (simp add: SourceAddressSize_def split: address_family.split)

lemma matches_key: "wf_source s \<Longrightarrow> entry_matches s e \<longleftrightarrow> holds_key (source_key s) e"
  using size_le[of s] by (auto simp: entry_matches_def holds_key_def source_key_def wf_source_def min_def)

lemma scan_Inl:
  "rate_limit_scan s now i es r = Inl j \<Longrightarrow>
     i \<le> j \<and> j - i < length es \<and> entry_matches s (es ! (j - i)) \<and> (\<forall>n < j - i. \<not> entry_matches s (es ! n))"
proof (induction es arbitrary: i r)
  case (Cons e es)
  show ?case
  proof (cases "entry_matches s e")
    case False
    then have "rate_limit_scan s now (Suc i) es (if entry_reusable now e then Some i else r) = Inl j"
      using Cons.prems by simp
    note IH = Cons.IH[OF this]
    then obtain n where "j = Suc i + n" using le_Suc_ex by blast
    then show ?thesis using IH False by (simp add: All_less_Suc2)
  qed (use Cons.prems in simp)
qed simp

lemma scan_Inr:
  "rate_limit_scan s now i es r = Inr r' \<Longrightarrow>
     (\<forall>e \<in> set es. \<not> entry_matches s e) \<and>
     (r' = r \<or> (\<exists>j. r' = Some j \<and> i \<le> j \<and> j - i < length es \<and> entry_reusable now (es ! (j - i))))"
proof (induction es arbitrary: i r)
  case (Cons e es)
  then have e: "\<not> entry_matches s e" by (auto split: if_splits)
  then have "rate_limit_scan s now (Suc i) es (if entry_reusable now e then Some i else r) = Inr r'"
    using Cons.prems by simp
  note IH = Cons.IH[OF this]
  then consider "r' = (if entry_reusable now e then Some i else r)"
    | n where "r' = Some (Suc i + n)" "n < length es" "entry_reusable now (es ! n)"
    by (metis diff_add_inverse le_Suc_ex)
  then show ?case using IH e
    by cases (auto split: if_splits)
qed simp

lemma find_first: "i < length es \<Longrightarrow> P (es ! i) \<Longrightarrow> (\<forall>n < i. \<not> P (es ! n)) \<Longrightarrow> find P es = Some (es ! i)"
proof (induction es arbitrary: i)
  case (Cons e es)
  then show ?case by (cases i) (auto simp: All_less_Suc2)
qed simp

lemma find_update_other:
  "\<not> P x \<Longrightarrow> i < length es \<Longrightarrow> find P (es[i := x]) = find P es \<or> find P es = Some (es ! i) \<and> P (es ! i)"
  by (induction es arbitrary: i) (auto split: nat.splits)

lemma consume_entry_effect:
  assumes "consume_entry now e = (ok, e')" "rl_initialized e \<longrightarrow> 0 \<le> rl_tokens e \<and> rl_tokens e \<le> 250000000 \<and> rl_last_update e \<le> now"
  shows "rl_active e' = rl_active e \<and> rl_family e' = rl_family e \<and> rl_address e' = rl_address e \<and>
    rl_initialized e' \<and> rl_last_update e' = now \<and> 0 \<le> rl_tokens e' \<and> rl_tokens e' \<le> 250000000 \<and>
    rl_tokens e' + (if ok then 50000000 else 0) =
      (if rl_initialized e then min 250000000 (rl_tokens e + (now - rl_last_update e)) else 250000000)"
  using assms by (auto simp: consume_entry_def ConsumeHandshakeRate_def Let_def split: prod.splits if_splits)

lemma find_limited:
  assumes src: "wf_source s" and step: "limit_source s now st = (ok, st')" and ok: "ok \<or> st' \<noteq> st"
  obtains i e e' where "i < length (rate_limits st)" "consume_entry now e = (ok, e')"
    "st' = st\<lparr>rate_limits := (rate_limits st)[i := e']\<rparr>" "holds_key (source_key s) e"
    "\<forall>n < i. \<not> holds_key (source_key s) (rate_limits st ! n)"
    "e = rate_limits st ! i \<or>
     (\<forall>x \<in> set (rate_limits st). \<not> holds_key (source_key s) x) \<and> \<not> rl_initialized e \<and> entry_reusable now (rate_limits st ! i)"
proof -
  define es where "es = rate_limits st"
  have size: "SourceAddressSize s \<noteq> 0"
  proof
    assume "SourceAddressSize s = 0"
    then have "limit_source s now st = (False, st)" by (simp add: limit_source_def FindRateLimitEntry_def)
    then show False using step ok by simp
  qed
  define fresh where "fresh = HandshakeRateLimitEntry_init\<lparr>rl_family := ep_family s,
    rl_address := put_bytes 0 (take (SourceAddressSize s) (ep_address s)) (zeros 16), rl_active := True\<rparr>"
  have fresh: "holds_key (source_key s) fresh" "\<not> rl_initialized fresh"
    using src size_le[of s]
    by (simp_all add: fresh_def holds_key_def source_key_def HandshakeRateLimitEntry_init_def put_bytes_def wf_source_def min_def)
  show thesis
  proof (cases "rate_limit_scan s now 0 es None")
    case (Inl i)
    obtain ok1 e' where c: "consume_entry now (es ! i) = (ok1, e')" by (rule prod.exhaust)
    have "ok1 = ok" "st' = st\<lparr>rate_limits := es[i := e']\<rparr>"
      using step size Inl c by (simp_all add: limit_source_def FindRateLimitEntry_def es_def[symmetric])
    then show thesis
      using that[of i "es ! i" e'] scan_Inl[OF Inl] c by (simp add: matches_key[OF src] es_def)
  next
    case (Inr r)
    then obtain i where i: "r = Some i" using step size ok by (cases r) (auto simp: limit_source_def FindRateLimitEntry_def es_def)
    have sc: "i < length es" "entry_reusable now (es ! i)" "\<forall>e \<in> set es. \<not> entry_matches s e"
      using scan_Inr[OF Inr] i by auto
    obtain ok1 e' where c: "consume_entry now fresh = (ok1, e')" by (rule prod.exhaust)
    have "ok1 = ok" "st' = st\<lparr>rate_limits := es[i := e']\<rparr>"
      using step size Inr c i sc(1)
      by (simp_all add: limit_source_def FindRateLimitEntry_def es_def[symmetric] fresh_def[symmetric])
    then show thesis
      using that[of i fresh e'] sc fresh c nth_mem[of _ es] by (auto simp: matches_key[OF src] es_def)
  qed
qed

lemma keys_unique:
  assumes "wf_source a" "wf_source b" "holds_key (source_key a) e" "holds_key (source_key b) e"
  shows "source_key a = source_key b"
proof -
  have "ep_family a = ep_family b" using assms(3,4) by (simp add: holds_key_def source_key_def)
  then have "SourceAddressSize a = SourceAddressSize b" by (simp add: SourceAddressSize_def)
  then show ?thesis
    using assms size_le[of b] by (auto simp: holds_key_def source_key_def wf_source_def min_def)
qed

lemma limit_source_credit:
  assumes src: "wf_source s" "wf_source a" "k = source_key a" and inv: "entries_ok (rate_limits st) now"
    and step: "limit_source s now st = (ok, st')"
  shows "entries_ok (rate_limits st') now \<and>
    credit k (rate_limits st') now + (if ok \<and> source_key s = k then 50000000 else 0) \<le> credit k (rate_limits st) now"
proof (cases "ok \<or> st' \<noteq> st")
  case True
  then obtain i e e' where L: "i < length (rate_limits st)" "consume_entry now e = (ok, e')"
    "st' = st\<lparr>rate_limits := (rate_limits st)[i := e']\<rparr>" "holds_key (source_key s) e"
    "\<forall>n < i. \<not> holds_key (source_key s) (rate_limits st ! n)"
    "e = rate_limits st ! i \<or>
     (\<forall>x \<in> set (rate_limits st). \<not> holds_key (source_key s) x) \<and> \<not> rl_initialized e \<and> entry_reusable now (rate_limits st ! i)"
    using find_limited[OF src(1) step] by metis
  define es where "es = rate_limits st"
  have e: "rl_initialized e \<longrightarrow> 0 \<le> rl_tokens e \<and> rl_tokens e \<le> 250000000 \<and> rl_last_update e \<le> now"
    using L(1,4,6) inv nth_mem[OF L(1)] by (auto simp: entries_ok_def holds_key_def)
  note e' = consume_entry_effect[OF L(2) e]
  have e'k: "holds_key k' e' = holds_key k' e" for k' using e' by (simp add: holds_key_def)
  have ok': "entries_ok (es[i := e']) now"
    using inv e' set_update_subset_insert[of es i e'] by (auto simp: entries_ok_def es_def)
  have "credit k (es[i := e']) now + (if ok \<and> source_key s = k then 50000000 else 0) \<le> credit k es now"
  proof (cases "holds_key k e")
    case True
    then have k: "source_key s = k" using keys_unique[OF src(1,2)] L(4) src(3) by blast
    have after: "find (holds_key k) (es[i := e']) = Some e'"
      using find_first[of i "es[i := e']" "holds_key k"] L(1,5) e'k[of k] True by (simp add: k es_def)
    have "credit k es now = (if rl_initialized e then min 250000000 (rl_tokens e + (now - rl_last_update e)) else 250000000)"
    proof (cases "e = es ! i")
      case e: True
      then have "find (holds_key k) es = Some e" using find_first[of i es "holds_key k"] L(1,5) True by (simp add: k es_def)
      moreover have "rl_initialized e" using e L(1) inv True by (simp add: entries_ok_def es_def holds_key_def)
      ultimately show ?thesis by (simp add: credit_def)
    next
      case False
      then have "find (holds_key k) es = None" "\<not> rl_initialized e" using L(6) by (auto simp: k es_def find_None_iff)
      then show ?thesis by (simp add: credit_def)
    qed
    then show ?thesis using e' after k by (simp add: credit_def)
  next
    case False
    then have k: "source_key s \<noteq> k" using L(4) by auto
    have "\<not> holds_key k e'" "i < length es" using False e'k L(1) by (simp_all add: es_def)
    from find_update_other[of "holds_key k", OF this] show ?thesis
    proof
      assume f: "find (holds_key k) es = Some (es ! i) \<and> holds_key k (es ! i)"
      then have "e \<noteq> es ! i" using False by auto
      then have "entry_reusable now (es ! i)" using L(6) by (simp add: es_def)
      moreover have "0 \<le> rl_tokens (es ! i)" using f inv L(1) by (simp add: entries_ok_def holds_key_def es_def)
      ultimately have "credit k es now = 250000000" using f by (simp add: credit_def entry_reusable_def holds_key_def)
      then show ?thesis using k by (simp add: credit_def split: option.split)
    qed (use k in \<open>simp add: credit_def\<close>)
  qed
  then show ?thesis using ok' by (simp add: L(3) es_def)
qed (use inv in simp)

lemma credit_later: "t \<le> now \<Longrightarrow> credit k es now \<le> credit k es t + (now - t)"
  by (auto simp: credit_def split: option.split)

lemma credit_bounds: "entries_ok es now \<Longrightarrow> 0 \<le> credit k es now \<and> credit k es now \<le> 250000000"
  by (auto simp: credit_def entries_ok_def find_Some_iff holds_key_def split: option.split)

lemma entries_ok_later: "entries_ok es t \<Longrightarrow> t \<le> now \<Longrightarrow> entries_ok es now"
  by (fastforce simp: entries_ok_def)

lemma rate_limits_kept [simp]:
  "IsUnderLoad now st = (b, st1) \<Longrightarrow> rate_limits st1 = rate_limits st"
  "CreateCookieReply be pf ls packet s now (st, out, w) = (ok, (st2, out', w')) \<Longrightarrow> rate_limits st2 = rate_limits st"
  by (auto simp: IsUnderLoad_def consume_arrival_def CreateCookieReply_def Let_def split: prod.splits if_splits option.splits)

text \<open>The sources of the packets that are accepted while the device is under load.\<close>

definition accepted_under_load :: "ResponderHandshakeAdmission \<Rightarrow> MonotonicTimePoint \<Rightarrow> wg_device \<Rightarrow> bool" where
  "accepted_under_load r now d \<longleftrightarrow> r = RHA_Accepted \<and> fst (IsUnderLoad now (responder_cookie d))"

fun admissions_under_load ::
  "crypto_backend \<Rightarrow> 'w platform \<Rightarrow> (byte list \<times> endpoint \<times> MonotonicTimePoint) list \<Rightarrow> wg_device \<Rightarrow> 'w \<Rightarrow> endpoint list" where
  "admissions_under_load be pf [] d w = []"
| "admissions_under_load be pf ((packet, source, now) # rest) d w =
     (case noise_handshake_admit_responder_packet be pf packet source now (d, zero_cookie_reply, w) of (r, d', _, w') \<Rightarrow>
        (if accepted_under_load r now d then [source] else []) @ admissions_under_load be pf rest d' w')"

lemma admit_cases:
  assumes "noise_handshake_admit_responder_packet be pf packet s now (d, out, w) = (r, d', out', w')"
  obtains (invalid) "d' = d" "r = RHA_Invalid"
  | (plain) st1 where "IsUnderLoad now (responder_cookie d) = (False, st1)" "r = RHA_Accepted" "d' = d\<lparr>responder_cookie := st1\<rparr>"
  | (reply) st1 ls ok st2 where "IsUnderLoad now (responder_cookie d) = (True, st1)"
      "CreateCookieReply be pf ls packet s now (st1, out, w) = (ok, (st2, out', w'))"
      "r \<noteq> RHA_Accepted" "d' = d\<lparr>responder_cookie := st2\<rparr>"
  | (limited) st1 ok st2 where "IsUnderLoad now (responder_cookie d) = (True, st1)"
      "limit_source s now st1 = (ok, st2)" "r = RHA_Accepted \<longleftrightarrow> ok" "d' = d\<lparr>responder_cookie := st2\<rparr>"
proof (cases "wg_device_first_peer d")
  case None
  then show thesis using assms invalid by (simp add: noise_handshake_admit_responder_packet_def)
next
  case (Some p)
  obtain b st1 where u: "IsUnderLoad now (responder_cookie d) = (b, st1)" by (rule prod.exhaust)
  show thesis
  proof (cases "SourceAddressSize s = 0 \<or> \<not> VerifyPacketMac1 be packet (static_public (static_identity p))")
    case True
    then show thesis using assms Some invalid by (auto simp: noise_handshake_admit_responder_packet_def)
  next
    case False
    then show thesis
      using assms Some u plain[of st1] reply[of st1] limited[of st1]
      by (cases b; cases "CheckPacketMac2 be st1 packet s now")
        (auto simp: noise_handshake_admit_responder_packet_def split: prod.splits)
  qed
qed

lemma admit_credit:
  assumes wf: "wf_source s" "wf_source a" and inv: "entries_ok (rate_limits (responder_cookie d)) now"
    and step: "noise_handshake_admit_responder_packet be pf packet s now (d, out, w) = (r, d', out', w')"
  shows "entries_ok (rate_limits (responder_cookie d')) now \<and>
    credit (source_key a) (rate_limits (responder_cookie d')) now +
      (if accepted_under_load r now d \<and> source_key s = source_key a then 50000000 else 0)
      \<le> credit (source_key a) (rate_limits (responder_cookie d)) now"
  using step
proof (cases rule: admit_cases)
  case (limited st1 ok st2)
  then show ?thesis
    using limit_source_credit[OF wf refl _ limited(2)] inv rate_limits_kept(1)[OF limited(1)]
    by (simp add: accepted_under_load_def)
next
  case (reply st1 ls ok st2)
  then show ?thesis
    using inv rate_limits_kept(1)[OF reply(1)] rate_limits_kept(2)[OF reply(2)] by (simp add: accepted_under_load_def)
qed (use inv in \<open>simp_all add: accepted_under_load_def\<close>)

lemma admissions_credit:
  assumes "\<forall>(packet, s, now) \<in> set reqs. wf_source s" "wf_source a"
    and "sorted (t # map (\<lambda>(packet, s, now). now) reqs)"
    and "entries_ok (rate_limits (responder_cookie d)) t"
  shows "50000000 * int (length (filter (\<lambda>s. source_key s = source_key a) (admissions_under_load be pf reqs d w)))
    \<le> credit (source_key a) (rate_limits (responder_cookie d)) t + (last (t # map (\<lambda>(packet, s, now). now) reqs) - t)"
  using assms
proof (induction reqs arbitrary: t d w)
  case Nil
  then show ?case using credit_bounds[of "rate_limits (responder_cookie d)" t] by simp
next
  case (Cons req reqs)
  obtain packet s now where req: "req = (packet, s, now)" by (rule prod_cases3)
  obtain r d' out w' where st: "noise_handshake_admit_responder_packet be pf packet s now (d, zero_cookie_reply, w) = (r, d', out, w')"
    by (rule prod_cases4)
  have now: "t \<le> now" "wf_source s" using Cons.prems by (auto simp: req)
  note A = admit_credit[OF now(2) Cons.prems(2) entries_ok_later[OF Cons.prems(4) now(1)] st]
  have "50000000 * int (length (filter (\<lambda>s. source_key s = source_key a) (admissions_under_load be pf reqs d' w')))
    \<le> credit (source_key a) (rate_limits (responder_cookie d')) now + (last (now # map (\<lambda>(packet, s, now). now) reqs) - now)"
    using Cons.prems A by (intro Cons.IH) (auto simp: req)
  then show ?case
    using A credit_later[OF now(1), of "source_key a" "rate_limits (responder_cookie d)"] by (auto simp: req st split: if_splits)
qed

text \<open>The times of the packets that are accepted without a cookie, and of all packets that reach the load
  detector.\<close>

fun plain_admissions ::
  "crypto_backend \<Rightarrow> 'w platform \<Rightarrow> (byte list \<times> endpoint \<times> MonotonicTimePoint) list \<Rightarrow> wg_device \<Rightarrow> 'w \<Rightarrow>
   MonotonicTimePoint list" where
  "plain_admissions be pf [] d w = []"
| "plain_admissions be pf ((packet, source, now) # rest) d w =
     (case noise_handshake_admit_responder_packet be pf packet source now (d, zero_cookie_reply, w) of (r, d', _, w') \<Rightarrow>
        (if r = RHA_Accepted \<and> \<not> fst (IsUnderLoad now (responder_cookie d)) then [now] else []) @
        plain_admissions be pf rest d' w')"

definition arrival_state :: "ResponderCookieState \<Rightarrow> int \<times> MonotonicTimePoint \<times> bool" where
  "arrival_state st = (arrival_tokens st, arrival_last_update st, arrival_initialized st)"

lemma arrival_view_cong: "arrival_state a = arrival_state b \<Longrightarrow> arrival_view a = arrival_view b"
  by (simp add: arrival_state_def arrival_view_def)

lemma FindRateLimitEntry_state: "\<exists>es. snd (FindRateLimitEntry s now st) = st\<lparr>rate_limits := es\<rparr>"
proof -
  have "\<exists>es. st = st\<lparr>rate_limits := es\<rparr>" by (rule exI[of _ "rate_limits st"]) simp
  then show ?thesis
    by (auto simp: FindRateLimitEntry_def Let_def split: sum.split option.split)
qed

lemma arrival_kept:
  "CreateCookieReply be pf ls packet s now (st, out, w) = (ok, (st2, out', w')) \<Longrightarrow> arrival_state st2 = arrival_state st"
  "limit_source s now st = (ok, st3) \<Longrightarrow> arrival_state st3 = arrival_state st"
proof -
  show "arrival_state st2 = arrival_state st"
    if "CreateCookieReply be pf ls packet s now (st, out, w) = (ok, (st2, out', w'))"
    using that by (auto simp: CreateCookieReply_def Let_def arrival_state_def split: prod.splits if_splits option.splits)
  show "arrival_state st3 = arrival_state st" if "limit_source s now st = (ok, st3)"
  proof -
    obtain i st1 where f: "FindRateLimitEntry s now st = (i, st1)" by (rule prod.exhaust)
    then obtain es where "st1 = st\<lparr>rate_limits := es\<rparr>" using FindRateLimitEntry_state[of s now st] by auto
    then show ?thesis using that f by (cases i) (auto simp: limit_source_def arrival_state_def split: prod.splits)
  qed
qed

lemma load_view:
  assumes "IsUnderLoad now st = (b, st1)" "consume_arrival now st = (ok, st2)"
  shows "arrival_view st1 = arrival_view st2" "\<not> b \<longrightarrow> ok"
  using assms by (cases ok; simp add: IsUnderLoad_def Let_def; auto simp: arrival_view_def)+

lemma admit_arrival:
  assumes step: "noise_handshake_admit_responder_packet be pf packet s now (d, out, w) = (r, d', out', w')"
    and bucket: "consume_arrival now (responder_cookie d) = (ok, st)"
  shows "(arrival_view (responder_cookie d') = arrival_view (responder_cookie d) \<and> r = RHA_Invalid) \<or>
    (arrival_view (responder_cookie d') = arrival_view st \<and>
     (r = RHA_Accepted \<and> \<not> fst (IsUnderLoad now (responder_cookie d)) \<longrightarrow> ok))"
  using step
proof (cases rule: admit_cases)
  case (plain st1)
  then show ?thesis using load_view[OF plain(1) bucket] by simp
next
  case (reply st1 ls ok' st2)
  then show ?thesis using arrival_view_cong[OF arrival_kept(1)[OF reply(2)]] load_view[OF reply(1) bucket] by simp
next
  case (limited st1 ok' st2)
  then show ?thesis using arrival_view_cong[OF arrival_kept(2)[OF limited(2)]] load_view[OF limited(1) bucket] by simp
qed simp

lemma plain_bound:
  assumes "sorted (l # map (\<lambda>(packet, s, now). now) reqs)"
    and "case arrival_view (responder_cookie d) of None \<Rightarrow> t = 250000000 | Some (t', l') \<Rightarrow> t' = t \<and> l' = l" "0 \<le> t"
  shows "50000000 * int (length (plain_admissions be pf reqs d w)) \<le> t + (last (l # map (\<lambda>(packet, s, now). now) reqs) - l)"
  using assms
proof (induction reqs arbitrary: l t d w)
  case (Cons req reqs)
  obtain packet s now where req: "req = (packet, s, now)" by (rule prod_cases3)
  obtain r d' out w' where st: "noise_handshake_admit_responder_packet be pf packet s now (d, zero_cookie_reply, w) = (r, d', out, w')"
    by (rule prod_cases4)
  obtain ok s1 where c: "consume_arrival now (responder_cookie d) = (ok, s1)" by (rule prod.exhaust)
  have now: "l \<le> now" using Cons.prems by (simp add: req)
  obtain t1 l1 where rf: "refill 250000000 now (arrival_view (responder_cookie d)) = (t1, l1)" by (rule prod.exhaust)
  have t1: "l1 = now" "t1 \<le> t + (now - l)" "0 \<le> t1"
    using rf Cons.prems(2,3) now by (auto simp: refill_def min_def split: option.splits if_splits)
  have s1: "ok = (50000000 \<le> t1)" "arrival_view s1 = Some (if ok then t1 - 50000000 else t1, now)"
    using arrivals.consume_step[OF c rf] t1(1) by auto
  let ?n = "\<lambda>d. 50000000 * int (length (plain_admissions be pf reqs d w'))"
  let ?stop = "last (now # map (\<lambda>(packet, s, now). now) reqs)"
  from admit_arrival[OF st c] show ?case
  proof
    assume A: "arrival_view (responder_cookie d') = arrival_view (responder_cookie d) \<and> r = RHA_Invalid"
    have "?n d' \<le> t + (last (l # map (\<lambda>(packet, s, now). now) reqs) - l)"
    proof (rule Cons.IH)
      show "sorted (l # map (\<lambda>(packet, s, now). now) reqs)" using Cons.prems(1) by (simp add: req)
    qed (use Cons.prems(2,3) A in simp_all)
    moreover have "last (l # map (\<lambda>(packet, s, now). now) reqs) \<le> ?stop" using now by simp
    ultimately show ?thesis using A by (simp add: req st)
  next
    assume A: "arrival_view (responder_cookie d') = arrival_view s1 \<and>
      (r = RHA_Accepted \<and> \<not> fst (IsUnderLoad now (responder_cookie d)) \<longrightarrow> ok)"
    have "?n d' \<le> (if ok then t1 - 50000000 else t1) + (?stop - now)"
    proof (rule Cons.IH)
      show "sorted (now # map (\<lambda>(packet, s, now). now) reqs)" using Cons.prems(1) by (simp add: req)
    qed (use A s1 t1 in simp_all)
    then show ?thesis using A t1 by (auto simp: req st split: if_splits)
  qed
qed simp

subsection \<open>Properties\<close>

text \<open>Cookies under load. A device that has seen no handshake packet yet accepts, over any sequence of
  packets, at most five plus twenty per second without asking for a cookie.\<close>

theorem plain_admissions_bounded:
  assumes "reqs \<noteq> []" "sorted (map (\<lambda>(packet, s, now). now) reqs)" "\<not> arrival_initialized (responder_cookie d)"
  shows "HandshakeRateTokenCost * int (length (plain_admissions be pf reqs d w)) \<le> HandshakeRateMaximumTokens +
      (last (map (\<lambda>(packet, s, now). now) reqs) - hd (map (\<lambda>(packet, s, now). now) reqs))"
proof -
  let ?t = "hd (map (\<lambda>(packet, s, now). now) reqs)"
  have "sorted (?t # map (\<lambda>(packet, s, now). now) reqs)" using assms(1,2) by (cases reqs) auto
  from plain_bound[OF this, of _ d be pf w] show ?thesis
    using assms(1,3) by (simp add: arrival_view_def)
qed

theorem plain_admissions_bounded_witness:
  "HandshakeRateTokenCost * int (length (plain_admissions example_backend example_platform
      [([], \<lparr>ep_family = AF_inet, ep_port = 1, ep_address = zeros 16\<rparr>, 5)] wg_device_zero 0)) \<le> HandshakeRateMaximumTokens"
  using plain_admissions_bounded[of "[([], \<lparr>ep_family = AF_inet, ep_port = 1, ep_address = zeros 16\<rparr>, 5)]" wg_device_zero
      example_backend example_platform 0]
  by (simp add: wg_device_zero_def ResponderCookieState_init_def)

text \<open>C20: Rate limit. Whatever packets arrive, from whatever sources and in whatever number, a device that
  starts with an empty table accepts from one source address, while it is under load, at most a burst of
  five handshake packets plus twenty per second: fifty milliseconds per accepted packet fit into a quarter
  of a second plus the time that passes. Reusing the entry of an idle source never gives it more.\<close>

theorem source_rate_bounded:
  assumes "\<forall>(packet, s, now) \<in> set reqs. length (ep_address s) = 16" "length (ep_address a) = 16"
    and "reqs \<noteq> []" "sorted (map (\<lambda>(packet, s, now). now) reqs)"
    and "rate_limits (responder_cookie d) = rate_limits ResponderCookieState_init"
  shows "HandshakeRateTokenCost *
      int (length (filter (\<lambda>s. source_key s = source_key a) (admissions_under_load be pf reqs d w)))
    \<le> HandshakeRateMaximumTokens +
      (last (map (\<lambda>(packet, s, now). now) reqs) - hd (map (\<lambda>(packet, s, now). now) reqs))"
proof -
  let ?t = "hd (map (\<lambda>(packet, s, now). now) reqs)"
  have ok: "entries_ok (rate_limits (responder_cookie d)) ?t"
    by (simp add: assms(5) entries_ok_def ResponderCookieState_init_def HandshakeRateLimitEntry_init_def)
  have "sorted (?t # map (\<lambda>(packet, s, now). now) reqs)" using assms(3,4) by (cases reqs) auto
  from admissions_credit[OF _ _ this ok, of a be pf w] show ?thesis
    using assms(1-3) credit_bounds[OF ok, of "source_key a"] by (auto simp: wf_source_def split: if_splits)
qed

theorem source_rate_bounded_witness:
  "let s = \<lparr>ep_family = AF_inet, ep_port = 51820, ep_address = zeros 16\<rparr> in
   HandshakeRateTokenCost * int (length (filter (\<lambda>x. source_key x = source_key s)
      (admissions_under_load example_backend example_platform [([], s, 5), ([], s, 7)] wg_device_zero 0)))
    \<le> HandshakeRateMaximumTokens + 2"
  using source_rate_bounded[of "[([], \<lparr>ep_family = AF_inet, ep_port = 51820, ep_address = zeros 16\<rparr>, 5),
      ([], \<lparr>ep_family = AF_inet, ep_port = 51820, ep_address = zeros 16\<rparr>, 7)]"
      "\<lparr>ep_family = AF_inet, ep_port = 51820, ep_address = zeros 16\<rparr>" wg_device_zero example_backend example_platform 0]
  by (simp add: wg_device_zero_def Let_def)

end
