(* ===== verification/WG_Handshake.thy ===== *)
theory WG_Handshake
  imports WG_Cookie
begin

text \<open>
  The handshake of \<open>wireguard/handshake.cpp\<close>: creating and consuming initiations, responses and cookie
  replies, deriving a session, and the routing of an incoming handshake packet. In the source the
  functions that take a device and a peer are called with the device's own peer, so the model takes
  the device. Statements of the form \<open>if (!f(...)) return false;\<close> are steps over a record of the
  variables they change (\<open>hs_run\<close> while a message is created, where the peer itself is changed in
  place; \<open>consume_run\<close> while one is consumed, where local buffers are changed and the peer only after
  every check has passed).
\<close>

subsection \<open>Outgoing codes\<close>

text \<open>The template \<open>ApplyOutgoingMacs\<close>: \<open>macs\<close> and \<open>set_macs\<close> access the codes of the message type, \<open>compute\<close>
  is its \<open>ComputeMac1\<close>, \<open>Size\<close> and \<open>serialize\<close> belong to its \<open>ComputeMac2\<close>.\<close>

definition ApplyOutgoingMacs ::
  "crypto_backend \<Rightarrow> 'w platform \<Rightarrow> ('m \<Rightarrow> message_macs) \<Rightarrow> (message_macs \<Rightarrow> 'm \<Rightarrow> 'm) \<Rightarrow>
   (noise_public_key \<Rightarrow> 'm step) \<Rightarrow> nat \<Rightarrow> (byte list \<Rightarrow> 'm \<Rightarrow> ParseError \<times> byte list) \<Rightarrow> noise_public_key \<Rightarrow>
   ('m \<times> wg_peer \<times> 'w) step" where
  "ApplyOutgoingMacs be pf macs set_macs compute Size serialize rstatic = (\<lambda>(message, p, w).
     let message = set_macs zero_macs message in
     case compute rstatic message of (ok, message) \<Rightarrow>
       if \<not> ok then (False, (message, p, w))
       else
         let p = p\<lparr>cookie := noise_cookie_record_last_mac1 (mac1 (macs message)) (cookie p)\<rparr> in
         case noise_cookie_is_valid pf (cookie p) w of (valid, w) \<Rightarrow>
           if valid then
             (case ComputeMac2 be Size serialize message (cookie p) (mac2 (macs message)) of
                (ok, mac) \<Rightarrow> (ok, (set_macs ((macs message)\<lparr>mac2 := mac\<rparr>) message, p, w)))
           else (True, (message, p, w)))"

definition ApplyOutgoingMacs_initiation ::
  "crypto_backend \<Rightarrow> 'w platform \<Rightarrow> noise_public_key \<Rightarrow> (message_handshake_initiation \<times> wg_peer \<times> 'w) step" where
  "ApplyOutgoingMacs_initiation be pf =
     ApplyOutgoingMacs be pf hi_macs (\<lambda>x m. m\<lparr>hi_macs := x\<rparr>) (ComputeMac1_initiation be)
       HandshakeInitiationSize SerializeHandshakeInitiation"

definition ApplyOutgoingMacs_response ::
  "crypto_backend \<Rightarrow> 'w platform \<Rightarrow> noise_public_key \<Rightarrow> (message_handshake_response \<times> wg_peer \<times> 'w) step" where
  "ApplyOutgoingMacs_response be pf =
     ApplyOutgoingMacs be pf hr_macs (\<lambda>x m. m\<lparr>hr_macs := x\<rparr>) (ComputeMac1_response be)
       HandshakeResponseSize SerializeHandshakeResponse"

subsection \<open>Running state\<close>

record ('m, 'w) hs_run =
  run_dst :: 'm
  run_peer :: wg_peer
  run_key :: "byte list"
  run_world :: 'w

definition peer_ck :: "wg_peer \<Rightarrow> byte list" where
  "peer_ck p = key_bytes (chaining_key (handshake_material p))"

definition peer_hash :: "wg_peer \<Rightarrow> byte list" where
  "peer_hash p = key_bytes (hash (handshake_material p))"

definition set_peer_ck :: "byte list \<Rightarrow> wg_peer \<Rightarrow> wg_peer" where
  "set_peer_ck b p = p\<lparr>handshake_material := (handshake_material p)\<lparr>chaining_key :=
     (chaining_key (handshake_material p))\<lparr>key_bytes := b\<rparr>\<rparr>\<rparr>"

definition set_peer_hash :: "byte list \<Rightarrow> wg_peer \<Rightarrow> wg_peer" where
  "set_peer_hash b p = p\<lparr>handshake_material := (handshake_material p)\<lparr>hash :=
     (hash (handshake_material p))\<lparr>key_bytes := b\<rparr>\<rparr>\<rparr>"

text \<open>Random bytes clamped as a private key, stored as the ephemeral private key of the peer.\<close>

definition draw_ephemeral :: "'w platform \<Rightarrow> ('m, 'w) hs_run \<Rightarrow> ('m, 'w) hs_run" where
  "draw_ephemeral pf s =
     (case get_random_bytes pf NoisePublicKeySize (run_world s) of (bytes, w) \<Rightarrow>
        let p = run_peer s in
        s\<lparr>run_world := w,
          run_peer := p\<lparr>handshake_material := (handshake_material p)\<lparr>ephemeral_private :=
            \<lparr>key_bytes = ClampX25519PrivateKey bytes, key_valid = True\<rparr>\<rparr>\<rparr>\<rparr>)"

definition derive_ephemeral :: "crypto_backend \<Rightarrow> ('m, 'w) hs_run step" where
  "derive_ephemeral be s =
     (let p = run_peer s; m = handshake_material p in
      case x25519_public_key be (key_bytes (ephemeral_private m)) of (ok, bytes) \<Rightarrow>
        (ok, s\<lparr>run_peer := p\<lparr>handshake_material := m\<lparr>ephemeral_public :=
                 \<lparr>key_bytes = bytes, key_valid = (ok \<or> key_valid (ephemeral_public m))\<rparr>\<rparr>\<rparr>\<rparr>))"

definition step_transition :: "'w platform \<Rightarrow> HandshakeState \<Rightarrow> ('m, 'w) hs_run \<Rightarrow> ('m, 'w) hs_run" where
  "step_transition pf new_state s =
     (case noise_handshake_transition pf new_state (handshake (run_peer s)) (run_world s) of
        (_, h, w) \<Rightarrow> s\<lparr>run_peer := (run_peer s)\<lparr>handshake := h\<rparr>, run_world := w\<rparr>)"

text \<open>Mixing into the chaining key of the peer, with and without a derived key.\<close>

definition step_mix_dh ::
  "crypto_backend \<Rightarrow> (wg_peer \<Rightarrow> byte list) \<Rightarrow> (wg_peer \<Rightarrow> byte list) \<Rightarrow> ('m, 'w) hs_run step" where
  "step_mix_dh be priv pub s =
     (let p = run_peer s in
      case MixDh be (priv p) (pub p) (peer_ck p, run_key s) of
        (ok, (ck, key)) \<Rightarrow> (ok, s\<lparr>run_peer := set_peer_ck ck p, run_key := key\<rparr>))"

definition step_mix_dh_discard ::
  "crypto_backend \<Rightarrow> (wg_peer \<Rightarrow> byte list) \<Rightarrow> (wg_peer \<Rightarrow> byte list) \<Rightarrow> ('m, 'w) hs_run step" where
  "step_mix_dh_discard be priv pub s =
     (let p = run_peer s in
      case MixDh_discard be (priv p) (pub p) (peer_ck p) of
        (ok, ck) \<Rightarrow> (ok, s\<lparr>run_peer := set_peer_ck ck p\<rparr>))"

definition step_encrypt ::
  "crypto_backend \<Rightarrow> ('m \<Rightarrow> byte list) \<Rightarrow> (byte list \<Rightarrow> 'm \<Rightarrow> 'm) \<Rightarrow> byte list \<Rightarrow> ('m, 'w) hs_run step" where
  "step_encrypt be get put plain s =
     (let p = run_peer s in
      case MessageEncrypt be plain (run_key s) (get (run_dst s), peer_hash p) of
        (ok, (dst, h)) \<Rightarrow> (ok, s\<lparr>run_dst := put dst (run_dst s), run_peer := set_peer_hash h p\<rparr>))"

definition step_ephemeral ::
  "crypto_backend \<Rightarrow> ('m \<Rightarrow> byte list) \<Rightarrow> (byte list \<Rightarrow> 'm \<Rightarrow> 'm) \<Rightarrow> ('m, 'w) hs_run step" where
  "step_ephemeral be get put s =
     (let p = run_peer s in
      case MessageEphemeral be (key_bytes (ephemeral_public (handshake_material p)))
             (get (run_dst s), peer_ck p, peer_hash p) of
        (ok, (dst, ck, h)) \<Rightarrow>
          (ok, s\<lparr>run_dst := put dst (run_dst s), run_peer := set_peer_hash h (set_peer_ck ck p)\<rparr>))"

subsection \<open>Initiation\<close>

text \<open>The statements up to the encrypted timestamp.\<close>

definition initiation_noise_steps ::
  "crypto_backend \<Rightarrow> 'w platform \<Rightarrow> noise_static_identity \<Rightarrow> (message_handshake_initiation, 'w) hs_run step list" where
  "initiation_noise_steps be pf i =
      [\<lambda>s. (let p = run_peer s in
            case HandshakeInit be (remote_static (static_identity p)) (peer_ck p, peer_hash p) of
              (ok, (ck, h)) \<Rightarrow> (ok, s\<lparr>run_peer := set_peer_hash h (set_peer_ck ck p)\<rparr>)),
       do_step (\<lambda>s. let p = run_peer s; m = handshake_material p in
         s\<lparr>run_peer := p\<lparr>handshake_material := m\<lparr>chaining_key := (chaining_key m)\<lparr>key_valid := True\<rparr>,
                                                  hash := (hash m)\<lparr>key_valid := True\<rparr>\<rparr>\<rparr>\<rparr>),
       do_step (draw_ephemeral pf),
       derive_ephemeral be,
       step_ephemeral be hi_unencrypted_ephemeral (\<lambda>b m. m\<lparr>hi_unencrypted_ephemeral := b\<rparr>),
       step_mix_dh be (\<lambda>p. key_bytes (ephemeral_private (handshake_material p)))
         (\<lambda>p. key_bytes (remote_static (static_identity p))),
       step_encrypt be hi_encrypted_static (\<lambda>b m. m\<lparr>hi_encrypted_static := b\<rparr>)
         (key_bytes (static_public i)),
       \<lambda>s. (let p = run_peer s in
            case MixPrecomputedDh be (precomputed_static_static (handshake_material p)) (peer_ck p, run_key s) of
              (ok, (ck, key)) \<Rightarrow> (ok, s\<lparr>run_peer := set_peer_ck ck p, run_key := key\<rparr>)),
       \<lambda>s. (case Tai64nNow pf (run_world s) of (timestamp, w) \<Rightarrow>
              step_encrypt be hi_encrypted_timestamp (\<lambda>b m. m\<lparr>hi_encrypted_timestamp := b\<rparr>) timestamp
                (s\<lparr>run_world := w\<rparr>))]"

definition noise_handshake_create_initiation ::
  "crypto_backend \<Rightarrow> 'w platform \<Rightarrow> wg_peer \<Rightarrow> 'w \<Rightarrow> message_handshake_initiation \<Rightarrow>
   bool \<times> message_handshake_initiation \<times> wg_peer \<times> 'w" where
  "noise_handshake_create_initiation be pf p w dst =
     (let i = static_identity p in
      if \<not> key_valid (static_private i) \<or> \<not> key_valid (static_public i) \<or> \<not> key_valid (remote_static i)
         \<or> \<not> key_valid (precomputed_static_static (handshake_material p)) \<or> h_local_index (handshake p) = 0
      then (False, dst, p, w)
      else
        (case all_steps
           (initiation_noise_steps be pf (static_identity p) @
           [\<lambda>s. (case ApplyOutgoingMacs_initiation be pf (remote_static (static_identity (run_peer s)))
                        (run_dst s, run_peer s, run_world s) of
                   (ok, (m, p, w)) \<Rightarrow> (ok, s\<lparr>run_dst := m, run_peer := p, run_world := w\<rparr>)),
            do_step (\<lambda>s. s\<lparr>run_peer := (run_peer s)\<lparr>last_initiation := run_dst s, has_last_initiation := True\<rparr>\<rparr>),
            do_step (step_transition pf HS_InitiationCreated)])
           \<lparr>run_dst = zero_initiation\<lparr>hi_type := SetMessageType MT_HandshakeInitiation,
                                      hi_sender_index := h_local_index (handshake p)\<rparr>,
            run_peer = p, run_key = zeros 32, run_world = w\<rparr> of
         (ok, s) \<Rightarrow> (ok, run_dst s, run_peer s, run_world s)))"

record consume_run =
  cr_ck :: "byte list"
  cr_hash :: "byte list"
  cr_key :: "byte list"
  cr_ephemeral :: "byte list"
  cr_static :: "byte list"
  cr_timestamp :: "byte list"

definition consume_run_init :: consume_run where
  "consume_run_init = \<lparr>cr_ck = zeros 32, cr_hash = zeros 32, cr_key = zeros 32, cr_ephemeral = zeros 32,
     cr_static = zeros 32, cr_timestamp = zeros 12\<rparr>"

text \<open>\<open>std::lexicographical_compare\<close>\<close>

fun lex_less :: "byte list \<Rightarrow> byte list \<Rightarrow> bool" where
  "lex_less [] [] = False"
| "lex_less [] (y # ys) = True"
| "lex_less (x # xs) [] = False"
| "lex_less (x # xs) (y # ys) = (if x < y then True else if y < x then False else lex_less xs ys)"

definition consume_ephemeral :: "crypto_backend \<Rightarrow> byte list \<Rightarrow> consume_run step" where
  "consume_ephemeral be src r =
     (case MessageEphemeral be src (cr_ephemeral r, cr_ck r, cr_hash r) of
        (ok, (e, ck, h)) \<Rightarrow> (ok, r\<lparr>cr_ephemeral := e, cr_ck := ck, cr_hash := h\<rparr>))"

definition consume_dh_discard :: "crypto_backend \<Rightarrow> byte list \<Rightarrow> consume_run step" where
  "consume_dh_discard be priv r =
     (case MixDh_discard be priv (cr_ephemeral r) (cr_ck r) of (ok, ck) \<Rightarrow> (ok, r\<lparr>cr_ck := ck\<rparr>))"

definition consume_initiation_steps ::
  "crypto_backend \<Rightarrow> message_handshake_initiation \<Rightarrow> wg_peer \<Rightarrow> consume_run step list" where
  "consume_initiation_steps be src p =
     (let i = static_identity p in
      [guard_step (\<lambda>_. GetMessageType (hi_type src) = MT_HandshakeInitiation),
       guard_step (\<lambda>_. hi_sender_index src \<noteq> 0),
       guard_step (\<lambda>_. VerifyMac1 hi_macs (ComputeMac1_initiation be) src (static_public i)),
       \<lambda>r. (case HandshakeInit be (static_public i) (cr_ck r, cr_hash r) of
              (ok, (ck, h)) \<Rightarrow> (ok, r\<lparr>cr_ck := ck, cr_hash := h\<rparr>)),
       consume_ephemeral be (hi_unencrypted_ephemeral src),
       \<lambda>r. (case MixDh be (key_bytes (static_private i)) (cr_ephemeral r) (cr_ck r, cr_key r) of
              (ok, (ck, key)) \<Rightarrow> (ok, r\<lparr>cr_ck := ck, cr_key := key\<rparr>)),
       \<lambda>r. (case MessageDecrypt be (hi_encrypted_static src) (cr_key r) (cr_static r, cr_hash r) of
              (ok, (dst, h)) \<Rightarrow> (ok, r\<lparr>cr_static := dst, cr_hash := h\<rparr>)),
       guard_step (\<lambda>r. secure_equal (cr_static r) (key_bytes (remote_static i))),
       \<lambda>r. (case MixPrecomputedDh be (precomputed_static_static (handshake_material p)) (cr_ck r, cr_key r) of
              (ok, (ck, key)) \<Rightarrow> (ok, r\<lparr>cr_ck := ck, cr_key := key\<rparr>)),
       \<lambda>r. (case MessageDecrypt be (hi_encrypted_timestamp src) (cr_key r) (cr_timestamp r, cr_hash r) of
              (ok, (dst, h)) \<Rightarrow> (ok, r\<lparr>cr_timestamp := dst, cr_hash := h\<rparr>)),
       guard_step (\<lambda>r. \<not> (has_last_initiation_timestamp (handshake p) \<and>
                         \<not> lex_less (last_initiation_timestamp (handshake p)) (cr_timestamp r)))])"

abbreviation (input) HandshakeInitiationRate :: MonotonicDuration where
  "HandshakeInitiationRate \<equiv> milliseconds 20"

definition noise_handshake_consume_initiation ::
  "crypto_backend \<Rightarrow> 'w platform \<Rightarrow> message_handshake_initiation \<Rightarrow> wg_peer \<Rightarrow> 'w \<Rightarrow> bool \<times> wg_peer \<times> 'w" where
  "noise_handshake_consume_initiation be pf src p w =
     (let i = static_identity p in
      if \<not> key_valid (static_private i) \<or> \<not> key_valid (static_public i) \<or> \<not> key_valid (remote_static i)
         \<or> \<not> key_valid (precomputed_static_static (handshake_material p))
      then (False, p, w)
      else case all_steps (consume_initiation_steps be src p) consume_run_init of (ok, r) \<Rightarrow>
        if \<not> ok then (False, p, w)
        else case GetMonotonicTime pf w of (now, w) \<Rightarrow>
          let h = handshake p in
          if last_initiation_consumption h > 0 \<and>
             (now < last_initiation_consumption h \<or> now - last_initiation_consumption h \<le> HandshakeInitiationRate)
          then (False, p, w)
          else
            let m = (handshake_material p)
                  \<lparr>remote_ephemeral := \<lparr>key_bytes = cr_ephemeral r, key_valid = True\<rparr>,
                   hash := \<lparr>key_bytes = cr_hash r, key_valid = True\<rparr>,
                   chaining_key := \<lparr>key_bytes = cr_ck r, key_valid = True\<rparr>\<rparr>;
                h = h\<lparr>h_remote_index := hi_sender_index src, last_initiation_timestamp := cr_timestamp r,
                      has_last_initiation_timestamp := True, last_initiation_consumption := now\<rparr>
            in case noise_handshake_transition pf HS_InitiationReceived h w of
                 (_, h, w) \<Rightarrow> (True, p\<lparr>handshake_material := m, handshake := h\<rparr>, w))"

subsection \<open>Response\<close>

definition step_mix_psk :: "crypto_backend \<Rightarrow> ('m, 'w) hs_run step" where
  "step_mix_psk be s =
     (let p = run_peer s in
      case MixPsk be (key_bytes (preshared_key (static_identity p))) (peer_ck p, peer_hash p, run_key s) of
        (ok, (ck, h, key)) \<Rightarrow> (ok, s\<lparr>run_peer := set_peer_hash h (set_peer_ck ck p), run_key := key\<rparr>))"

text \<open>The statements up to the encrypted empty payload.\<close>

definition response_noise_steps ::
  "crypto_backend \<Rightarrow> 'w platform \<Rightarrow> (message_handshake_response, 'w) hs_run step list" where
  "response_noise_steps be pf =
      [do_step (draw_ephemeral pf),
       derive_ephemeral be,
       step_ephemeral be hr_unencrypted_ephemeral (\<lambda>b m. m\<lparr>hr_unencrypted_ephemeral := b\<rparr>),
       step_mix_dh_discard be (\<lambda>p. key_bytes (ephemeral_private (handshake_material p)))
         (\<lambda>p. key_bytes (remote_ephemeral (handshake_material p))),
       step_mix_dh_discard be (\<lambda>p. key_bytes (ephemeral_private (handshake_material p)))
         (\<lambda>p. key_bytes (remote_static (static_identity p))),
       step_mix_psk be,
       step_encrypt be hr_encrypted_nothing (\<lambda>b m. m\<lparr>hr_encrypted_nothing := b\<rparr>) []]"

definition noise_handshake_create_response ::
  "crypto_backend \<Rightarrow> 'w platform \<Rightarrow> wg_peer \<Rightarrow> 'w \<Rightarrow> message_handshake_response \<Rightarrow>
   bool \<times> message_handshake_response \<times> wg_peer \<times> 'w" where
  "noise_handshake_create_response be pf p w dst =
     (if \<not> key_valid (remote_static (static_identity p)) \<or> \<not> key_valid (remote_ephemeral (handshake_material p))
         \<or> h_local_index (handshake p) = 0 \<or> h_remote_index (handshake p) = 0
         \<or> h_state (handshake p) \<noteq> HS_InitiationReceived
      then (False, dst, p, w)
      else
        (case all_steps
           (response_noise_steps be pf @
           [do_step (\<lambda>s. s\<lparr>run_dst := (run_dst s)\<lparr>hr_sender_index := h_local_index (handshake (run_peer s))\<rparr>\<rparr>),
            \<lambda>s. (case ApplyOutgoingMacs_response be pf (remote_static (static_identity (run_peer s)))
                        (run_dst s, run_peer s, run_world s) of
                   (ok, (m, p, w)) \<Rightarrow> (ok, s\<lparr>run_dst := m, run_peer := p, run_world := w\<rparr>)),
            do_step (step_transition pf HS_ResponseCreated)])
           \<lparr>run_dst = zero_response\<lparr>hr_type := SetMessageType MT_HandshakeResponse,
                                    hr_receiver_index := h_remote_index (handshake p)\<rparr>,
            run_peer = p, run_key = zeros 32, run_world = w\<rparr> of
         (ok, s) \<Rightarrow> (ok, run_dst s, run_peer s, run_world s)))"

definition consume_response_steps ::
  "crypto_backend \<Rightarrow> message_handshake_response \<Rightarrow> wg_device \<Rightarrow> consume_run step list" where
  "consume_response_steps be src d =
     (let p = dev_peer d; i = static_identity p in
      [guard_step (\<lambda>_. GetMessageType (hr_type src) = MT_HandshakeResponse),
       guard_step (\<lambda>_. hr_sender_index src \<noteq> 0),
       guard_step (\<lambda>_. VerifyMac1 hr_macs (ComputeMac1_response be) src (static_public i)),
       guard_step (\<lambda>_. hr_sender_index src \<noteq> h_local_index (handshake p)),
       guard_step (\<lambda>_. wg_device_index_matches_slot d IS_Handshake (hr_receiver_index src)),
       guard_step (\<lambda>_. \<not> (keypair_IsValid (current_keypair p) \<and>
                         hr_sender_index src = m_remote_index (current_keypair p))),
       do_step (\<lambda>r. r\<lparr>cr_hash := peer_hash p, cr_ck := peer_ck p\<rparr>),
       consume_ephemeral be (hr_unencrypted_ephemeral src),
       consume_dh_discard be (key_bytes (ephemeral_private (handshake_material p))),
       consume_dh_discard be (key_bytes (static_private i)),
       \<lambda>r. (case MixPsk be (key_bytes (preshared_key i)) (cr_ck r, cr_hash r, cr_key r) of
              (ok, (ck, h, key)) \<Rightarrow> (ok, r\<lparr>cr_ck := ck, cr_hash := h, cr_key := key\<rparr>)),
       \<lambda>r. (case MessageDecrypt be (hr_encrypted_nothing src) (cr_key r) ([], cr_hash r) of
              (ok, (_, h)) \<Rightarrow> (ok, r\<lparr>cr_hash := h\<rparr>))])"

definition noise_handshake_consume_response ::
  "crypto_backend \<Rightarrow> 'w platform \<Rightarrow> message_handshake_response \<Rightarrow> wg_device \<Rightarrow> 'w \<Rightarrow> bool \<times> wg_device \<times> 'w" where
  "noise_handshake_consume_response be pf src d w =
     (let p = dev_peer d in
      if \<not> key_valid (static_private (static_identity p)) \<or> \<not> key_valid (ephemeral_private (handshake_material p))
         \<or> h_state (handshake p) \<noteq> HS_InitiationCreated
      then (False, d, w)
      else case all_steps (consume_response_steps be src d) consume_run_init of (ok, r) \<Rightarrow>
        if \<not> ok then (False, d, w)
        else
          let m = (handshake_material p)
                \<lparr>remote_ephemeral := \<lparr>key_bytes = cr_ephemeral r, key_valid = True\<rparr>,
                 hash := \<lparr>key_bytes = cr_hash r, key_valid = True\<rparr>,
                 chaining_key := \<lparr>key_bytes = cr_ck r, key_valid = True\<rparr>\<rparr>
          in case noise_handshake_transition pf HS_ResponseReceived
                    ((handshake p)\<lparr>h_remote_index := hr_sender_index src\<rparr>) w of
               (_, h, w) \<Rightarrow> (True, d\<lparr>dev_peer := p\<lparr>handshake_material := m, handshake := h\<rparr>\<rparr>, w))"

subsection \<open>Cookie reply\<close>

definition noise_handshake_consume_cookie_reply ::
  "crypto_backend \<Rightarrow> 'w platform \<Rightarrow> message_handshake_cookie \<Rightarrow> wg_device \<Rightarrow> 'w \<Rightarrow> bool \<times> wg_device \<times> 'w" where
  "noise_handshake_consume_cookie_reply be pf src d w =
     (let p = dev_peer d in
      if \<not> key_valid (remote_static (static_identity p)) then (False, d, w)
      else if GetMessageType (hc_type src) \<noteq> MT_CookieReply then (False, d, w)
      else if \<not> MatchesCookieReceiverIndex d (hc_receiver_index src) then (False, d, w)
      else if \<not> has_last_mac1 (cookie p) then (False, d, w)
      else case ComputeCookieKey be (remote_static (static_identity p)) (zeros 32) of (ok, cookie_key) \<Rightarrow>
        if \<not> ok then (False, d, w)
        else case xchacha20poly1305_decrypt be (zeros CookieValueSize)
                    (take CookieValueSize (hc_encrypted_cookie src))
                    (drop (length (hc_encrypted_cookie src) - NoiseTagSize) (hc_encrypted_cookie src))
                    (last_mac1 (cookie p)) cookie_key (hc_nonce src) of (ok, value) \<Rightarrow>
          if \<not> ok then (False, d, w)
          else case GetMonotonicTime pf w of (now, w) \<Rightarrow>
            let p = p\<lparr>cookie := (cookie p)\<lparr>cookie_value := value, cookie_valid := True, cookie_birth_time := now\<rparr>\<rparr>
            in if has_last_initiation p then
                 (case ApplyOutgoingMacs_initiation be pf (remote_static (static_identity p))
                         (last_initiation p, p, w) of
                    (ok, (m, p, w)) \<Rightarrow> (ok, d\<lparr>dev_peer := p\<lparr>last_initiation := m\<rparr>\<rparr>, w))
               else (True, d\<lparr>dev_peer := p\<rparr>, w))"

subsection \<open>Session\<close>

definition noise_handshake_begin_session ::
  "crypto_backend \<Rightarrow> 'w platform \<Rightarrow> wg_device \<Rightarrow> 'w \<Rightarrow> bool \<times> wg_device \<times> 'w" where
  "noise_handshake_begin_session be pf d w =
     (let p = dev_peer d; state = h_state (handshake p) in
      if state \<noteq> HS_ResponseCreated \<and> state \<noteq> HS_ResponseReceived then (False, d, w)
      else if \<not> key_valid (chaining_key (handshake_material p)) then (False, d, w)
      else case DeriveSessionKeys be (peer_ck p) (noise_key_init, noise_key_init) of (ok, (first, second)) \<Rightarrow>
        if \<not> ok then (False, d, w)
        else
          let (sending, receiving) = (if state = HS_ResponseReceived then (first, second) else (second, first))
          in case GetMonotonicTime pf w of (now, w) \<Rightarrow>
            let kp = Establish (h_local_index (handshake p)) (h_remote_index (handshake p)) now sending receiving 0
                       (state = HS_ResponseReceived) noise_keypair_init
            in if \<not> keypair_IsValid kp then (False, d, w)
               else
                 let p = (if state = HS_ResponseReceived then
                            let p = p\<lparr>previous_keypair := keypair_Reset (previous_keypair p)\<rparr>;
                                p = (if keypair_IsValid (next_keypair p) then
                                       (case keypair_move_assign (previous_keypair p) (next_keypair p) of
                                          (prev, nxt) \<Rightarrow>
                                            p\<lparr>previous_keypair := prev, next_keypair := keypair_Reset nxt,
                                              current_keypair := keypair_Reset (current_keypair p)\<rparr>)
                                     else
                                       (case keypair_move_assign (previous_keypair p) (current_keypair p) of
                                          (prev, cur) \<Rightarrow>
                                            p\<lparr>previous_keypair := prev, current_keypair := keypair_Reset cur\<rparr>))
                            in p\<lparr>current_keypair := fst (keypair_move_assign (current_keypair p) kp)\<rparr>
                          else
                            let p = p\<lparr>next_keypair := keypair_Reset (next_keypair p)\<rparr>;
                                p = p\<lparr>next_keypair := fst (keypair_move_assign (next_keypair p) kp)\<rparr>
                            in p\<lparr>previous_keypair := keypair_Reset (previous_keypair p)\<rparr>);
                     d = wg_device_refresh_keypair_indices (Some p) (d\<lparr>dev_peer := p\<rparr>)
                 in case noise_handshake_transition pf HS_SessionDerived (handshake p) w of
                      (_, h, w) \<Rightarrow>
                        (True, d\<lparr>dev_peer := noise_handshake_clear_transcript (p\<lparr>handshake := h\<rparr>)\<rparr>, w))"


subsection \<open>Incoming packets\<close>

datatype HandshakePacketOutcome = HPO_Invalid | HPO_InitiationConsumed | HPO_ResponseConsumed | HPO_CookieReplyConsumed

text \<open>\<open>gw\<close> is the static counter of the index allocator and the world.\<close>

definition noise_handshake_consume_incoming_packet ::
  "crypto_backend \<Rightarrow> 'w platform \<Rightarrow> byte list \<Rightarrow> wg_device \<Rightarrow> u32 \<times> 'w \<Rightarrow>
   HandshakePacketOutcome \<times> wg_device \<times> u32 \<times> 'w" where
  "noise_handshake_consume_incoming_packet be pf packet d = (\<lambda>(g, w).
     let type_result = InspectMessageType packet in
     if \<not> pr_success type_result then (HPO_Invalid, d, g, w)
     else case pr_type type_result of
       MT_HandshakeInitiation \<Rightarrow>
         (case ParseHandshakeInitiation packet zero_initiation of (parse_result, initiation) \<Rightarrow>
            if \<not> pr_success parse_result then (HPO_Invalid, d, g, w)
            else case noise_handshake_consume_initiation be pf initiation (dev_peer d) w of (ok, p, w) \<Rightarrow>
              let d = d\<lparr>dev_peer := p\<rparr> in
              if \<not> ok then (HPO_Invalid, d, g, w)
              else case wg_device_allocate_index pf d (g, w) of (local_index, d, g, w) \<Rightarrow>
                if local_index = 0 then
                  (HPO_Invalid, d\<lparr>dev_peer := noise_handshake_clear_transcript (dev_peer d)\<rparr>, g, w)
                else
                  let p = dev_peer d;
                      d = d\<lparr>dev_peer := p\<lparr>handshake := noise_handshake_set_local_index local_index (handshake p)\<rparr>\<rparr>
                  in (HPO_InitiationConsumed, wg_device_register_handshake_index local_index d, g, w))
     | MT_HandshakeResponse \<Rightarrow>
         (case ParseHandshakeResponse packet zero_response of (parse_result, response) \<Rightarrow>
            if \<not> pr_success parse_result then (HPO_Invalid, d, g, w)
            else case noise_handshake_consume_response be pf response d w of (ok, d, w) \<Rightarrow>
              (if ok then HPO_ResponseConsumed else HPO_Invalid, d, g, w))
     | MT_CookieReply \<Rightarrow>
         (case ParseHandshakeCookie packet zero_cookie_reply of (parse_result, reply) \<Rightarrow>
            if \<not> pr_success parse_result then (HPO_Invalid, d, g, w)
            else case noise_handshake_consume_cookie_reply be pf reply d w of (ok, d, w) \<Rightarrow>
              (if ok then HPO_CookieReplyConsumed else HPO_Invalid, d, g, w))
     | _ \<Rightarrow> (HPO_Invalid, d, g, w))"

text \<open>\<open>wg_device_create_handshake_initiation\<close> of \<open>wireguard/device.cpp\<close>.\<close>

definition wg_device_create_handshake_initiation ::
  "crypto_backend \<Rightarrow> 'w platform \<Rightarrow> wg_device \<Rightarrow> u32 \<times> 'w \<Rightarrow> message_handshake_initiation \<Rightarrow>
   bool \<times> message_handshake_initiation \<times> wg_device \<times> u32 \<times> 'w" where
  "wg_device_create_handshake_initiation be pf d gw out_message =
     (case wg_device_first_peer d of
        None \<Rightarrow> (False, out_message, d, gw)
      | Some _ \<Rightarrow>
          (case wg_device_allocate_index pf d gw of (local_index, d, g, w) \<Rightarrow>
             if local_index = 0 then (False, out_message, d, g, w)
             else
               let p = dev_peer d;
                   h = noise_handshake_set_remote_index 0 (noise_handshake_set_local_index local_index (handshake p));
                   d = wg_device_register_handshake_index local_index (d\<lparr>dev_peer := p\<lparr>handshake := h\<rparr>\<rparr>)
               in case noise_handshake_create_initiation be pf (dev_peer d) w out_message of
                    (ok, m, p, w) \<Rightarrow> (ok, m, d\<lparr>dev_peer := p\<rparr>, g, w)))"

end
