(* ===== verification/WG_Agreement.thy ===== *)
theory WG_Agreement
  imports WG_Handshake
begin

text \<open>
  What a handshake run establishes. The transcripts of the two messages are given as values of the
  Noise pattern IKpsk2; each operation of \<open>wireguard/handshake.cpp\<close> is shown to compute them, and the
  composition of the operations of both sides gives sessions with matching keys.
\<close>

subsection \<open>Transcripts\<close>

text \<open>Chaining key, hash, encrypted static key and encrypted timestamp after an initiation.\<close>

definition initiation_transcript ::
  "crypto_backend \<Rightarrow> byte list \<Rightarrow> byte list \<Rightarrow> byte list \<Rightarrow> byte list \<Rightarrow> byte list \<Rightarrow> byte list \<Rightarrow>
   byte list \<times> byte list \<times> byte list \<times> byte list" where
  "initiation_transcript be responder_static epub es initiator_static ss ts =
     (let h = mix_hash be (init_hash be responder_static) epub;
          (ck, k) = kdf2 be es (kdf1 be epub (init_ck be));
          c1 = seal be k h initiator_static;
          h = mix_hash be h c1;
          (ck, k) = kdf2 be ss ck;
          c2 = seal be k h ts
      in (ck, mix_hash be h c2, c1, c2))"

text \<open>Chaining key, hash and encrypted empty payload after a response.\<close>

definition response_transcript ::
  "crypto_backend \<Rightarrow> byte list \<Rightarrow> byte list \<Rightarrow> byte list \<Rightarrow> byte list \<Rightarrow> byte list \<Rightarrow> byte list \<Rightarrow>
   byte list \<times> byte list \<times> byte list" where
  "response_transcript be ck h epub ee se psk =
     (let h = mix_hash be h epub;
          ck = fst (kdf2 be se (fst (kdf2 be ee (kdf1 be epub ck))));
          (ck, t, k) = kdf3 be psk ck;
          h = mix_hash be h t;
          c = seal be k h []
      in (ck, mix_hash be h c, c))"

subsection \<open>Codes\<close>

definition mac1_initiation :: "crypto_backend \<Rightarrow> byte list \<Rightarrow> message_handshake_initiation \<Rightarrow> byte list" where
  "mac1_initiation be pub m = be_blake2s be 16 (mac1_key be pub) (take 116 (wire_initiation m))"

definition mac1_response :: "crypto_backend \<Rightarrow> byte list \<Rightarrow> message_handshake_response \<Rightarrow> byte list" where
  "mac1_response be pub m = be_blake2s be 16 (mac1_key be pub) (take 60 (wire_response m))"

lemma VerifyMac1_iff:
  assumes "crypto_laws be"
  shows "wf_initiation m1 \<Longrightarrow> VerifyMac1 hi_macs (ComputeMac1_initiation be) m1 k \<longleftrightarrow>
      key_valid k \<and> mac1 (hi_macs m1) = mac1_initiation be (key_bytes k) m1"
    and "wf_response m2 \<Longrightarrow> VerifyMac1 hr_macs (ComputeMac1_response be) m2 k \<longleftrightarrow>
      key_valid k \<and> mac1 (hr_macs m2) = mac1_response be (key_bytes k) m2"
proof -
  show "wf_initiation m1 \<Longrightarrow> VerifyMac1 hi_macs (ComputeMac1_initiation be) m1 k \<longleftrightarrow>
      key_valid k \<and> mac1 (hi_macs m1) = mac1_initiation be (key_bytes k) m1"
    using ComputeMac1_initiation_eq[OF assms, of k m1]
    by (cases "key_valid k") (simp_all add: VerifyMac1_def mac1_initiation_def eq_commute)
  show "wf_response m2 \<Longrightarrow> VerifyMac1 hr_macs (ComputeMac1_response be) m2 k \<longleftrightarrow>
      key_valid k \<and> mac1 (hr_macs m2) = mac1_response be (key_bytes k) m2"
    using ComputeMac1_response_eq[OF assms, of k m2]
    by (cases "key_valid k") (simp_all add: VerifyMac1_def mac1_response_def eq_commute)
qed

lemma ApplyOutgoingMacs_ok:
  assumes laws: "crypto_laws be"
    and compute: "compute k (put zero_macs m) = (True, put (zero_macs\<lparr>mac1 := mac\<rparr>) m)"
    and wf: "length (cookie_value (cookie p)) = 16"
    and acc: "\<And>x. macs (put x m) = x" "\<And>x y. put x (put y m) = put x m"
    and ser: "\<exists>bytes. serialize (zeros Size) (put (zero_macs\<lparr>mac1 := mac\<rparr>) m) = (PE_None, bytes)"
  shows "\<exists>x w'. ApplyOutgoingMacs be pf macs put compute Size serialize k (m, p, w) =
      (True, (put x m, p\<lparr>cookie := noise_cookie_record_last_mac1 mac (cookie p)\<rparr>, w')) \<and>
      mac1 x = mac \<and> length (mac2 x) = 16"
proof -
  define c where "c = noise_cookie_record_last_mac1 mac (cookie p)"
  obtain bytes where b: "serialize (zeros Size) (put (zero_macs\<lparr>mac1 := mac\<rparr>) m) = (PE_None, bytes)" using ser by blast
  obtain valid w' where v: "noise_cookie_is_valid pf c w = (valid, w')" by (rule prod.exhaust)
  have run: "ApplyOutgoingMacs be pf macs put compute Size serialize k (m, p, w) =
    (if valid then
       (case ComputeMac2 be Size serialize (put (zero_macs\<lparr>mac1 := mac\<rparr>) m) c (mac2 zero_macs) of
          (ok, y) \<Rightarrow> (ok, (put (zero_macs\<lparr>mac1 := mac, mac2 := y\<rparr>) m, p\<lparr>cookie := c\<rparr>, w')))
     else (True, (put (zero_macs\<lparr>mac1 := mac\<rparr>) m, p\<lparr>cookie := c\<rparr>, w')))"
    by (simp add: ApplyOutgoingMacs_def Let_def compute acc v flip: c_def split: prod.split)
  have "ComputeMac2 be Size serialize (put (zero_macs\<lparr>mac1 := mac\<rparr>) m) c (mac2 zero_macs) =
    (True, be_blake2s be 16 (cookie_value c) (take (Size - 16) bytes))"
    using wf by (simp add: ComputeMac2_def b Blake2sHash_eq c_def noise_cookie_record_last_mac1_def)
  then show ?thesis
    unfolding run c_def[symmetric] using crypto_lawsD(1)[OF laws]
    by (cases valid) (auto simp: zero_macs_def intro!: exI)
qed

lemma ApplyOutgoingMacs_initiation_ok:
  assumes "crypto_laws be" "key_valid k" "wf_initiation (m\<lparr>hi_macs := zero_macs\<rparr>)" "wf_cookie_state (cookie p)"
  obtains x w' where
    "ApplyOutgoingMacs_initiation be pf k (m, p, w) =
       (True, (m\<lparr>hi_macs := x\<rparr>, p\<lparr>cookie := noise_cookie_record_last_mac1 (mac1 x) (cookie p)\<rparr>, w'))"
    "wf_initiation (m\<lparr>hi_macs := x\<rparr>)" "mac1 x = mac1_initiation be (key_bytes k) (m\<lparr>hi_macs := x\<rparr>)"
proof -
  define mac where "mac = mac1_initiation be (key_bytes k) (m\<lparr>hi_macs := zero_macs\<rparr>)"
  have len: "length mac = 16" by (simp add: mac_def mac1_initiation_def crypto_lawsD(1)[OF assms(1)])
  have wf: "wf_initiation (m\<lparr>hi_macs := x\<rparr>)" if "length (mac1 x) = 16" "length (mac2 x) = 16" for x
    using assms(3) that by (simp add: wf_initiation_def)
  have wf1: "wf_initiation (m\<lparr>hi_macs := zero_macs\<lparr>mac1 := mac\<rparr>\<rparr>)" using len by (intro wf) (simp_all add: zero_macs_def)
  have same: "mac1_initiation be (key_bytes k) (m\<lparr>hi_macs := x\<rparr>) = mac" for x
    using take_wire_macs(1)[OF assms(3), of x] by (simp add: mac_def mac1_initiation_def)
  have "\<exists>x w'. ApplyOutgoingMacs_initiation be pf k (m, p, w) =
      (True, (m\<lparr>hi_macs := x\<rparr>, p\<lparr>cookie := noise_cookie_record_last_mac1 mac (cookie p)\<rparr>, w')) \<and>
      mac1 x = mac \<and> length (mac2 x) = 16"
    unfolding ApplyOutgoingMacs_initiation_def
    using ComputeMac1_initiation_eq[OF assms(1-3)] SerializeHandshakeInitiation_wf[OF wf1, of "zeros 148"] assms(4)
    by (intro ApplyOutgoingMacs_ok assms(1)) (simp_all add: mac_def mac1_initiation_def wf_cookie_state_def)
  then show thesis using that wf len same by metis
qed

lemma ApplyOutgoingMacs_response_ok:
  assumes "crypto_laws be" "key_valid k" "wf_response (m\<lparr>hr_macs := zero_macs\<rparr>)" "wf_cookie_state (cookie p)"
  obtains x w' where
    "ApplyOutgoingMacs_response be pf k (m, p, w) =
       (True, (m\<lparr>hr_macs := x\<rparr>, p\<lparr>cookie := noise_cookie_record_last_mac1 (mac1 x) (cookie p)\<rparr>, w'))"
    "wf_response (m\<lparr>hr_macs := x\<rparr>)" "mac1 x = mac1_response be (key_bytes k) (m\<lparr>hr_macs := x\<rparr>)"
proof -
  define mac where "mac = mac1_response be (key_bytes k) (m\<lparr>hr_macs := zero_macs\<rparr>)"
  have len: "length mac = 16" by (simp add: mac_def mac1_response_def crypto_lawsD(1)[OF assms(1)])
  have wf: "wf_response (m\<lparr>hr_macs := x\<rparr>)" if "length (mac1 x) = 16" "length (mac2 x) = 16" for x
    using assms(3) that by (simp add: wf_response_def)
  have wf1: "wf_response (m\<lparr>hr_macs := zero_macs\<lparr>mac1 := mac\<rparr>\<rparr>)" using len by (intro wf) (simp_all add: zero_macs_def)
  have same: "mac1_response be (key_bytes k) (m\<lparr>hr_macs := x\<rparr>) = mac" for x
    using take_wire_macs(2)[OF assms(3), of x] by (simp add: mac_def mac1_response_def)
  have "\<exists>x w'. ApplyOutgoingMacs_response be pf k (m, p, w) =
      (True, (m\<lparr>hr_macs := x\<rparr>, p\<lparr>cookie := noise_cookie_record_last_mac1 mac (cookie p)\<rparr>, w')) \<and>
      mac1 x = mac \<and> length (mac2 x) = 16"
    unfolding ApplyOutgoingMacs_response_def
    using ComputeMac1_response_eq[OF assms(1-3)] SerializeHandshakeResponse_wf[OF wf1, of "zeros 92"] assms(4)
    by (intro ApplyOutgoingMacs_ok assms(1)) (simp_all add: mac_def mac1_response_def wf_cookie_state_def)
  then show thesis using that wf len same by metis
qed

subsection \<open>Creating an initiation\<close>

lemmas run_defs = peer_ck_def peer_hash_def set_peer_ck_def set_peer_hash_def
lemmas step_defs = draw_ephemeral_def derive_ephemeral_def step_ephemeral_def step_mix_dh_def step_mix_dh_discard_def
  step_encrypt_def step_mix_psk_def do_step_def guard_step_def x25519_public_key_def

lemma initiation_noise_run:
  fixes m :: message_handshake_initiation
  assumes laws: "crypto_laws be"
    and p: "peer_ready p" "wf_peer p"
    and ss: "key_bytes (precomputed_static_static (handshake_material p)) = ss" "ss \<noteq> zeros 32"
    and rnd: "get_random_bytes pf 32 w = (rb, w1)" "ClampX25519PrivateKey rb = e" "be_x25519_public_key be e = epub"
    and rs: "key_bytes (remote_static (static_identity p)) = rs" "be_x25519 be e rs \<noteq> zeros 32"
    and ts: "Tai64nNow pf w1 = (ts, w2)"
    and m: "length (hi_encrypted_static m) = 48" "length (hi_encrypted_timestamp m) = 28"
    and tr: "initiation_transcript be rs epub (be_x25519 be e rs) (key_bytes (static_public (static_identity p))) ss ts
        = (ck, h, c1, c2)"
  shows "\<exists>k. all_steps (initiation_noise_steps be pf (static_identity p))
      \<lparr>run_dst = m, run_peer = p, run_key = key, run_world = w\<rparr> =
    (True, \<lparr>run_dst = m\<lparr>hi_unencrypted_ephemeral := epub, hi_encrypted_static := c1, hi_encrypted_timestamp := c2\<rparr>,
      run_peer = p\<lparr>handshake_material := (handshake_material p)
           \<lparr>ephemeral_private := \<lparr>key_bytes = e, key_valid = True\<rparr>,
            ephemeral_public := \<lparr>key_bytes = epub, key_valid = True\<rparr>,
            chaining_key := \<lparr>key_bytes = ck, key_valid = True\<rparr>, hash := \<lparr>key_bytes = h, key_valid = True\<rparr>\<rparr>\<rparr>,
      run_key = k, run_world = w2\<rparr>)"
proof -
  define si where "si = key_bytes (static_public (static_identity p))"
  define h1 where "h1 = mix_hash be (init_hash be rs) epub"
  obtain ck2 k2 where k2: "kdf2 be (be_x25519 be e rs) (kdf1 be epub (init_ck be)) = (ck2, k2)" by (rule prod.exhaust)
  obtain ck3 k3 where k3: "kdf2 be ss ck2 = (ck3, k3)" by (rule prod.exhaust)
  have v: "c1 = seal be k2 h1 si" "ck = ck3" "c2 = seal be k3 (mix_hash be h1 c1) ts" "h = mix_hash be (mix_hash be h1 c1) c2"
    using tr by (auto simp: initiation_transcript_def Let_def k2 k3 h1_def si_def)
  have len: "length si = 32" "length ts = 12"
    using p(2) length_Tai64nNow[OF ts] by (simp_all add: si_def wf_peer_def wf_identity_def wf_key_def)
  have pre: "MixPrecomputedDh be (precomputed_static_static (handshake_material p)) (a, b) = (True, kdf2 be ss a)" for a b
    using MixPrecomputedDh_eq[OF laws, of "precomputed_static_static (handshake_material p)"] p ss
    by (simp add: peer_ready_def wf_peer_def wf_material_def)
  have enc: "MessageEncrypt be si key (hi_encrypted_static m, h') = (True, (seal be key h' si, mix_hash be h' (seal be key h' si)))"
    "MessageEncrypt be ts key (hi_encrypted_timestamp m, h') = (True, (seal be key h' ts, mix_hash be h' (seal be key h' ts)))" for key h'
    using MessageEncrypt_eq[OF laws] len m by simp_all
  show ?thesis
    by (simp add: initiation_noise_steps_def step_defs run_defs Let_def HandshakeInit_eq rnd rs MessageEphemeral_eq[OF laws]
        MixDh_eq[OF laws rs(2)] k2 k3 pre enc ts v(2) flip: si_def h1_def v(1) v(3) v(4))
qed

lemma create_initiation_ok:
  assumes laws: "crypto_laws be"
    and p: "peer_ready p" "wf_peer p" "h_local_index (handshake p) \<noteq> 0"
    and ss: "key_bytes (precomputed_static_static (handshake_material p)) = ss" "ss \<noteq> zeros 32"
    and rnd: "get_random_bytes pf 32 w = (rb, w1)" "ClampX25519PrivateKey rb = e" "be_x25519_public_key be e = epub"
    and rs: "key_bytes (remote_static (static_identity p)) = rs" "be_x25519 be e rs \<noteq> zeros 32"
    and ts: "Tai64nNow pf w1 = (ts, w2)"
    and tr: "initiation_transcript be rs epub (be_x25519 be e rs) (key_bytes (static_public (static_identity p))) ss ts
        = (ck, h, c1, c2)"
  obtains m t w' where
    "noise_handshake_create_initiation be pf p w dst = (True, m,
       p\<lparr>handshake_material := (handshake_material p)
           \<lparr>ephemeral_private := \<lparr>key_bytes = e, key_valid = True\<rparr>,
            ephemeral_public := \<lparr>key_bytes = epub, key_valid = True\<rparr>,
            chaining_key := \<lparr>key_bytes = ck, key_valid = True\<rparr>, hash := \<lparr>key_bytes = h, key_valid = True\<rparr>\<rparr>,
         cookie := noise_cookie_record_last_mac1 (mac1 (hi_macs m)) (cookie p),
         last_initiation := m, has_last_initiation := True,
         handshake := (handshake p)\<lparr>h_state := HS_InitiationCreated, last_transition := t,
           transition_count := transition_count (handshake p) + 1\<rparr>\<rparr>, w')"
    "wf_initiation m" "hi_sender_index m = h_local_index (handshake p)"
    "mac1 (hi_macs m) = mac1_initiation be rs m" "hi_unencrypted_ephemeral m = epub"
    "hi_encrypted_static m = c1" "hi_encrypted_timestamp m = c2"
proof -
  define z where "z = zero_initiation\<lparr>hi_type := 1, hi_sender_index := h_local_index (handshake p)\<rparr>"
  define m0 where "m0 = z\<lparr>hi_unencrypted_ephemeral := epub, hi_encrypted_static := c1, hi_encrypted_timestamp := c2\<rparr>"
  define p3 where "p3 = p\<lparr>handshake_material := (handshake_material p)
           \<lparr>ephemeral_private := \<lparr>key_bytes = e, key_valid = True\<rparr>,
            ephemeral_public := \<lparr>key_bytes = epub, key_valid = True\<rparr>,
            chaining_key := \<lparr>key_bytes = ck, key_valid = True\<rparr>, hash := \<lparr>key_bytes = h, key_valid = True\<rparr>\<rparr>\<rparr>"
  have len: "length c1 = 48" "length c2 = 28" "length epub = 32"
    using tr p(2) length_Tai64nNow[OF ts] crypto_lawsD(3)[OF laws] rnd(3)
    by (auto simp: initiation_transcript_def Let_def length_seal[OF laws] wf_peer_def wf_identity_def wf_key_def
        split: prod.splits)
  have wf0: "wf_initiation (m0\<lparr>hi_macs := zero_macs\<rparr>)"
    using len by (simp add: wf_initiation_def m0_def z_def zero_macs_def)
  have p3: "cookie p3 = cookie p" "static_identity p3 = static_identity p" by (simp_all add: p3_def)
  have kv: "key_valid (remote_static (static_identity p))" "wf_cookie_state (cookie p3)"
    using p by (simp_all add: peer_ready_def p3 wf_peer_def)
  obtain x w3 where macs: "ApplyOutgoingMacs_initiation be pf (remote_static (static_identity p)) (m0, p3, w2) =
       (True, (m0\<lparr>hi_macs := x\<rparr>, p3\<lparr>cookie := noise_cookie_record_last_mac1 (mac1 x) (cookie p3)\<rparr>, w3))"
    "wf_initiation (m0\<lparr>hi_macs := x\<rparr>)" "mac1 x = mac1_initiation be rs (m0\<lparr>hi_macs := x\<rparr>)"
    using ApplyOutgoingMacs_initiation_ok[OF laws kv(1) wf0 kv(2)] unfolding rs(1) by metis
  obtain t w4 where t: "GetMonotonicTime pf w3 = (t, w4)" by (rule prod.exhaust)
  obtain k where run: "all_steps (initiation_noise_steps be pf (static_identity p))
      \<lparr>run_dst = z, run_peer = p, run_key = zeros 32, run_world = w\<rparr> =
      (True, \<lparr>run_dst = m0, run_peer = p3, run_key = k, run_world = w2\<rparr>)"
    using initiation_noise_run[OF laws p(1,2) ss rnd rs ts _ _ tr, of z "zeros 32"] unfolding m0_def p3_def
    by (auto simp: z_def zero_initiation_def)
  have "noise_handshake_create_initiation be pf p w dst = (True, m0\<lparr>hi_macs := x\<rparr>,
      p3\<lparr>cookie := noise_cookie_record_last_mac1 (mac1 x) (cookie p), last_initiation := m0\<lparr>hi_macs := x\<rparr>,
         has_last_initiation := True, handshake := (handshake p)\<lparr>h_state := HS_InitiationCreated, last_transition := t,
           transition_count := transition_count (handshake p) + 1\<rparr>\<rparr>, w4)"
    using p run[unfolded z_def] macs(1) t
    by (simp add: noise_handshake_create_initiation_def peer_ready_def all_steps_append do_step_def step_transition_def
        noise_handshake_transition_def p3 p3_def[THEN arg_cong, of handshake])
  moreover have "hi_sender_index (m0\<lparr>hi_macs := x\<rparr>) = h_local_index (handshake p)"
    "hi_unencrypted_ephemeral (m0\<lparr>hi_macs := x\<rparr>) = epub" "hi_encrypted_static (m0\<lparr>hi_macs := x\<rparr>) = c1"
    "hi_encrypted_timestamp (m0\<lparr>hi_macs := x\<rparr>) = c2" "hi_macs (m0\<lparr>hi_macs := x\<rparr>) = x"
    by (simp_all add: m0_def z_def)
  ultimately show thesis
    using macs(2,3) by (intro that[of "m0\<lparr>hi_macs := x\<rparr>" t w4]) (simp_all add: p3_def)
qed

subsection \<open>Consuming an initiation\<close>

lemmas consume_defs = consume_ephemeral_def consume_dh_discard_def guard_step_def do_step_def consume_run_init_def

lemma consume_initiation_run:
  assumes laws: "crypto_laws be"
    and q: "peer_ready q" "wf_peer q"
    and keys: "key_bytes (static_public (static_identity q)) = rs" "key_bytes (remote_static (static_identity q)) = si"
    and ss: "key_bytes (precomputed_static_static (handshake_material q)) = ss" "ss \<noteq> zeros 32"
    and es: "be_x25519 be (key_bytes (static_private (static_identity q))) epub = es" "es \<noteq> zeros 32"
    and src: "wf_initiation src" "hi_sender_index src \<noteq> 0" "mac1 (hi_macs src) = mac1_initiation be rs src"
      "hi_unencrypted_ephemeral src = epub" "hi_encrypted_static src = c1" "hi_encrypted_timestamp src = c2"
    and ts: "length ts = 12"
    and tr: "initiation_transcript be rs epub es si ss ts = (ck, h, c1, c2)"
  shows "\<exists>k. all_steps (consume_initiation_steps be src q) consume_run_init =
    (\<not> (has_last_initiation_timestamp (handshake q) \<and> \<not> lex_less (last_initiation_timestamp (handshake q)) ts),
     \<lparr>cr_ck = ck, cr_hash = h, cr_key = k, cr_ephemeral = epub, cr_static = si, cr_timestamp = ts\<rparr>)"
proof -
  define h1 where "h1 = mix_hash be (init_hash be rs) epub"
  obtain ck2 k2 where k2: "kdf2 be es (kdf1 be epub (init_ck be)) = (ck2, k2)" by (rule prod.exhaust)
  obtain ck3 k3 where k3: "kdf2 be ss ck2 = (ck3, k3)" by (rule prod.exhaust)
  have v: "c1 = seal be k2 h1 si" "ck = ck3" "c2 = seal be k3 (mix_hash be h1 c1) ts" "h = mix_hash be (mix_hash be h1 c1) c2"
    using tr by (auto simp: initiation_transcript_def Let_def k2 k3 h1_def)
  have pre: "MixPrecomputedDh be (precomputed_static_static (handshake_material q)) (a, b) = (True, kdf2 be ss a)" for a b
    using MixPrecomputedDh_eq[OF laws, of "precomputed_static_static (handshake_material q)"] q ss
    by (simp add: peer_ready_def wf_peer_def wf_material_def)
  have dh: "MixDh be (key_bytes (static_private (static_identity q))) epub (a, b) = (True, kdf2 be es a)" for a b
    using MixDh_eq(1)[OF laws] es by simp
  have dec: "MessageDecrypt be c1 k2 (zeros 32, h1) = (True, (si, mix_hash be h1 c1))"
    "MessageDecrypt be c2 k3 (zeros 12, mix_hash be h1 c1) = (True, (ts, h))"
    using q(2) keys(2) ts
    by (auto simp: v MessageDecrypt_seal[OF laws] wf_peer_def wf_identity_def wf_key_def)
  have ok: "GetMessageType (hi_type src) = MT_HandshakeInitiation"
    "VerifyMac1 hi_macs (ComputeMac1_initiation be) src (static_public (static_identity q))"
    using src(1,3) q(1) keys(1)
    by (simp_all add: VerifyMac1_iff(1)[OF laws src(1)] peer_ready_def wf_initiation_def)
  show ?thesis
    by (simp add: consume_initiation_steps_def consume_defs Let_def ok src(2,4,5,6) HandshakeInit_eq keys
        MessageEphemeral_eq[OF laws] dh pre k2 k3 dec v(2) flip: h1_def)
qed

subsection \<open>Creating and consuming a response\<close>

lemma response_noise_run:
  fixes m :: message_handshake_response
  assumes laws: "crypto_laws be"
    and rnd: "get_random_bytes pf 32 w = (rb, w1)" "ClampX25519PrivateKey rb = e" "be_x25519_public_key be e = epub"
    and ee: "be_x25519 be e (key_bytes (remote_ephemeral (handshake_material q))) = ee" "ee \<noteq> zeros 32"
    and se: "be_x25519 be e (key_bytes (remote_static (static_identity q))) = se" "se \<noteq> zeros 32"
    and m: "length (hr_encrypted_nothing m) = 16"
    and tr: "response_transcript be (peer_ck q) (peer_hash q) epub ee se (key_bytes (preshared_key (static_identity q)))
        = (ck, h, c)"
  shows "\<exists>k. all_steps (response_noise_steps be pf) \<lparr>run_dst = m, run_peer = q, run_key = key, run_world = w\<rparr> =
    (True, \<lparr>run_dst = m\<lparr>hr_unencrypted_ephemeral := epub, hr_encrypted_nothing := c\<rparr>,
      run_peer = q\<lparr>handshake_material := (handshake_material q)
           \<lparr>ephemeral_private := \<lparr>key_bytes = e, key_valid = True\<rparr>,
            ephemeral_public := \<lparr>key_bytes = epub, key_valid = True\<rparr>,
            chaining_key := (chaining_key (handshake_material q))\<lparr>key_bytes := ck\<rparr>,
            hash := (hash (handshake_material q))\<lparr>key_bytes := h\<rparr>\<rparr>\<rparr>,
      run_key = k, run_world = w1\<rparr>)"
proof -
  obtain ck4 t k where k4: "kdf3 be (key_bytes (preshared_key (static_identity q)))
      (fst (kdf2 be se (fst (kdf2 be ee (kdf1 be epub (peer_ck q)))))) = (ck4, t, k)" by (rule prod_cases3)
  define h2 where "h2 = mix_hash be (mix_hash be (peer_hash q) epub) t"
  have v: "ck = ck4" "c = seal be k h2 []" "h = mix_hash be h2 c"
    using tr by (auto simp: response_transcript_def Let_def k4 h2_def)
  have enc: "MessageEncrypt be [] key (hr_encrypted_nothing m, h') = (True, (seal be key h' [], mix_hash be h' (seal be key h' [])))" for key h'
    using MessageEncrypt_eq[OF laws] m by simp
  have dh: "MixDh_discard be e (key_bytes (remote_ephemeral (handshake_material q))) a = (True, fst (kdf2 be ee a))"
    "MixDh_discard be e (key_bytes (remote_static (static_identity q))) a = (True, fst (kdf2 be se a))" for a
    using MixDh_eq(2)[OF laws] ee se by simp_all
  show ?thesis
    using k4 unfolding v h2_def run_defs
    by (simp add: response_noise_steps_def step_defs run_defs Let_def rnd MessageEphemeral_eq[OF laws] dh
        MixPsk_eq[OF laws] enc)
qed

lemma create_response_ok:
  assumes laws: "crypto_laws be"
    and q: "key_valid (remote_static (static_identity q))" "key_valid (remote_ephemeral (handshake_material q))"
      "wf_cookie_state (cookie q)" "h_local_index (handshake q) \<noteq> 0" "h_remote_index (handshake q) \<noteq> 0"
      "h_state (handshake q) = HS_InitiationReceived"
    and rnd: "get_random_bytes pf 32 w = (rb, w1)" "ClampX25519PrivateKey rb = e" "be_x25519_public_key be e = epub"
    and ee: "be_x25519 be e (key_bytes (remote_ephemeral (handshake_material q))) = ee" "ee \<noteq> zeros 32"
    and se: "be_x25519 be e (key_bytes (remote_static (static_identity q))) = se" "se \<noteq> zeros 32"
    and tr: "response_transcript be (peer_ck q) (peer_hash q) epub ee se (key_bytes (preshared_key (static_identity q)))
        = (ck, h, c)"
  obtains m t w' where
    "noise_handshake_create_response be pf q w dst = (True, m,
       q\<lparr>handshake_material := (handshake_material q)
           \<lparr>ephemeral_private := \<lparr>key_bytes = e, key_valid = True\<rparr>,
            ephemeral_public := \<lparr>key_bytes = epub, key_valid = True\<rparr>,
            chaining_key := (chaining_key (handshake_material q))\<lparr>key_bytes := ck\<rparr>,
            hash := (hash (handshake_material q))\<lparr>key_bytes := h\<rparr>\<rparr>,
         cookie := noise_cookie_record_last_mac1 (mac1 (hr_macs m)) (cookie q),
         handshake := (handshake q)\<lparr>h_state := HS_ResponseCreated, last_transition := t,
           transition_count := transition_count (handshake q) + 1\<rparr>\<rparr>, w')"
    "wf_response m" "hr_sender_index m = h_local_index (handshake q)" "hr_receiver_index m = h_remote_index (handshake q)"
    "mac1 (hr_macs m) = mac1_response be (key_bytes (remote_static (static_identity q))) m"
    "hr_unencrypted_ephemeral m = epub" "hr_encrypted_nothing m = c"
proof -
  define z where "z = zero_response\<lparr>hr_type := 2, hr_receiver_index := h_remote_index (handshake q)\<rparr>"
  define z1 where "z1 = z\<lparr>hr_unencrypted_ephemeral := epub, hr_encrypted_nothing := c\<rparr>"
  define m0 where "m0 = z1\<lparr>hr_sender_index := h_local_index (handshake q)\<rparr>"
  define p3 where "p3 = q\<lparr>handshake_material := (handshake_material q)
           \<lparr>ephemeral_private := \<lparr>key_bytes = e, key_valid = True\<rparr>,
            ephemeral_public := \<lparr>key_bytes = epub, key_valid = True\<rparr>,
            chaining_key := (chaining_key (handshake_material q))\<lparr>key_bytes := ck\<rparr>,
            hash := (hash (handshake_material q))\<lparr>key_bytes := h\<rparr>\<rparr>\<rparr>"
  have len: "length c = 16" "length epub = 32"
    using tr crypto_lawsD(3)[OF laws] rnd(3)
    by (auto simp: response_transcript_def Let_def length_seal[OF laws] split: prod.splits)
  have wf0: "wf_response (m0\<lparr>hr_macs := zero_macs\<rparr>)"
    using len by (simp add: wf_response_def m0_def z1_def z_def zero_macs_def)
  have p3: "cookie p3 = cookie q" "static_identity p3 = static_identity q" "handshake p3 = handshake q" by (simp_all add: p3_def)
  obtain x w3 where macs: "ApplyOutgoingMacs_response be pf (remote_static (static_identity q)) (m0, p3, w1) =
       (True, (m0\<lparr>hr_macs := x\<rparr>, p3\<lparr>cookie := noise_cookie_record_last_mac1 (mac1 x) (cookie p3)\<rparr>, w3))"
    "wf_response (m0\<lparr>hr_macs := x\<rparr>)"
    "mac1 x = mac1_response be (key_bytes (remote_static (static_identity q))) (m0\<lparr>hr_macs := x\<rparr>)"
    using ApplyOutgoingMacs_response_ok[OF laws q(1) wf0, of p3] q(3) p3 by metis
  obtain t w4 where t: "GetMonotonicTime pf w3 = (t, w4)" by (rule prod.exhaust)
  obtain k where run: "all_steps (response_noise_steps be pf)
      \<lparr>run_dst = z, run_peer = q, run_key = zeros 32, run_world = w\<rparr> =
      (True, \<lparr>run_dst = z1, run_peer = p3, run_key = k, run_world = w1\<rparr>)"
    using response_noise_run[OF laws rnd ee se _ tr, of z "zeros 32"] unfolding z1_def p3_def
    by (auto simp: z_def zero_response_def)
  have "noise_handshake_create_response be pf q w dst = (True, m0\<lparr>hr_macs := x\<rparr>,
      p3\<lparr>cookie := noise_cookie_record_last_mac1 (mac1 x) (cookie q),
         handshake := (handshake q)\<lparr>h_state := HS_ResponseCreated, last_transition := t,
           transition_count := transition_count (handshake q) + 1\<rparr>\<rparr>, w4)"
    using q run[unfolded z_def] macs(1) t
    by (simp add: noise_handshake_create_response_def all_steps_append do_step_def step_transition_def
        noise_handshake_transition_def p3 flip: m0_def)
  moreover have "hr_sender_index (m0\<lparr>hr_macs := x\<rparr>) = h_local_index (handshake q)"
    "hr_receiver_index (m0\<lparr>hr_macs := x\<rparr>) = h_remote_index (handshake q)"
    "hr_unencrypted_ephemeral (m0\<lparr>hr_macs := x\<rparr>) = epub" "hr_encrypted_nothing (m0\<lparr>hr_macs := x\<rparr>) = c"
    "hr_macs (m0\<lparr>hr_macs := x\<rparr>) = x"
    by (simp_all add: m0_def z1_def z_def)
  ultimately show thesis
    using macs(2,3) by (intro that[of "m0\<lparr>hr_macs := x\<rparr>" t w4]) (simp_all add: p3_def)
qed

lemma consume_response_eq:
  fixes d :: wg_device and be :: crypto_backend
  defines "p \<equiv> dev_peer d"
  assumes laws: "crypto_laws be"
    and p: "peer_ready p" "key_valid (ephemeral_private (handshake_material p))" "h_state (handshake p) = HS_InitiationCreated"
    and ee: "be_x25519 be (key_bytes (ephemeral_private (handshake_material p))) epub = ee" "ee \<noteq> zeros 32"
    and se: "be_x25519 be (key_bytes (static_private (static_identity p))) epub = se" "se \<noteq> zeros 32"
    and src: "wf_response src" "hr_sender_index src \<noteq> 0"
      "mac1 (hr_macs src) = mac1_response be (key_bytes (static_public (static_identity p))) src"
      "hr_unencrypted_ephemeral src = epub" "hr_encrypted_nothing src = c"
    and index: "hr_sender_index src \<noteq> h_local_index (handshake p)"
      "wg_device_index_matches_slot d IS_Handshake (hr_receiver_index src)"
      "\<not> (keypair_IsValid (current_keypair p) \<and> hr_sender_index src = m_remote_index (current_keypair p))"
    and tr: "response_transcript be (peer_ck p) (peer_hash p) epub ee se (key_bytes (preshared_key (static_identity p)))
        = (ck, h, c)"
  obtains t w' where "noise_handshake_consume_response be pf src d w =
    (True, d\<lparr>dev_peer := p\<lparr>handshake_material := (handshake_material p)
         \<lparr>remote_ephemeral := \<lparr>key_bytes = epub, key_valid = True\<rparr>, hash := \<lparr>key_bytes = h, key_valid = True\<rparr>,
          chaining_key := \<lparr>key_bytes = ck, key_valid = True\<rparr>\<rparr>,
       handshake := (handshake p)\<lparr>h_state := HS_ResponseReceived, h_remote_index := hr_sender_index src,
         last_transition := t, transition_count := transition_count (handshake p) + 1\<rparr>\<rparr>\<rparr>, w')"
proof -
  obtain ck4 t k where k4: "kdf3 be (key_bytes (preshared_key (static_identity p)))
      (fst (kdf2 be se (fst (kdf2 be ee (kdf1 be epub (peer_ck p)))))) = (ck4, t, k)" by (rule prod_cases3)
  define h2 where "h2 = mix_hash be (mix_hash be (peer_hash p) epub) t"
  have v: "ck = ck4" "c = seal be k h2 []" "h = mix_hash be h2 c"
    using tr by (auto simp: response_transcript_def Let_def k4 h2_def)
  have dec: "MessageDecrypt be c k ([], h2) = (True, ([], h))"
    by (simp add: v MessageDecrypt_seal[OF laws])
  have dh: "MixDh_discard be (key_bytes (ephemeral_private (handshake_material p))) epub a = (True, fst (kdf2 be ee a))"
    "MixDh_discard be (key_bytes (static_private (static_identity p))) epub a = (True, fst (kdf2 be se a))" for a
    using MixDh_eq(2)[OF laws] ee se by simp_all
  have ok: "GetMessageType (hr_type src) = MT_HandshakeResponse"
    "VerifyMac1 hr_macs (ComputeMac1_response be) src (static_public (static_identity p))"
    using src(1,3) p(1) by (simp_all add: VerifyMac1_iff(2)[OF laws src(1)] peer_ready_def wf_response_def)
  have run: "all_steps (consume_response_steps be src d) consume_run_init =
     (True, \<lparr>cr_ck = ck, cr_hash = h, cr_key = k, cr_ephemeral = epub, cr_static = zeros 32, cr_timestamp = zeros 12\<rparr>)"
    using index(1,3) dec[unfolded h2_def]
    by (auto simp: consume_response_steps_def consume_defs Let_def ok src(2,4,5) index(2) MessageEphemeral_eq[OF laws]
        MixPsk_eq[OF laws] dh k4 v(1) simp flip: p_def)
  obtain t1 w1 where t: "GetMonotonicTime pf w = (t1, w1)" by (rule prod.exhaust)
  show thesis
    using p t by (intro that[of t1 w1])
      (simp add: noise_handshake_consume_response_def peer_ready_def run Let_def noise_handshake_transition_def flip: p_def)
qed

subsection \<open>Deriving a session\<close>

definition derived_keypair :: "crypto_backend \<Rightarrow> wg_peer \<Rightarrow> MonotonicTimePoint \<Rightarrow> noise_keypair" where
  "derived_keypair be p now =
     (let (a, b) = kdf2 be [] (peer_ck p); ini = (h_state (handshake p) = HS_ResponseReceived) in
      Establish (h_local_index (handshake p)) (h_remote_index (handshake p)) now
        \<lparr>key_bytes = (if ini then a else b), key_valid = True\<rparr>
        \<lparr>key_bytes = (if ini then b else a), key_valid = True\<rparr> 0 ini noise_keypair_init)"

definition rotate_keypairs :: "bool \<Rightarrow> noise_keypair \<Rightarrow> wg_peer \<Rightarrow> wg_peer" where
  "rotate_keypairs ini kp p =
     (if ini then
        p\<lparr>previous_keypair := (if keypair_IsValid (next_keypair p) then next_keypair p else current_keypair p),
          next_keypair := (if keypair_IsValid (next_keypair p) then noise_keypair_init else next_keypair p),
          current_keypair := kp\<rparr>
      else p\<lparr>next_keypair := kp, previous_keypair := noise_keypair_init\<rparr>)"

definition session_ready :: "wg_peer \<Rightarrow> MonotonicTimePoint \<Rightarrow> bool" where
  "session_ready p now \<longleftrightarrow> h_state (handshake p) \<in> {HS_ResponseCreated, HS_ResponseReceived} \<and>
     key_valid (chaining_key (handshake_material p)) \<and>
     h_local_index (handshake p) \<noteq> 0 \<and> h_remote_index (handshake p) \<noteq> 0 \<and> 0 \<le> now"

lemma derived_keypair_IsValid:
  "keypair_IsValid (derived_keypair be p now) \<longleftrightarrow>
     h_local_index (handshake p) \<noteq> 0 \<and> h_remote_index (handshake p) \<noteq> 0 \<and> 0 \<le> now"
  by (simp add: derived_keypair_def Let_def Establish_IsValid split: prod.split)

lemma begin_session_eq:
  assumes laws: "crypto_laws be" and wf: "wf_peer (dev_peer d)" and now: "GetMonotonicTime pf w = (now, w1)"
  shows "\<exists>w'. noise_handshake_begin_session be pf d w =
    (let p = dev_peer d; ini = (h_state (handshake p) = HS_ResponseReceived);
         p1 = rotate_keypairs ini (derived_keypair be p now) p;
         h = fst (snd (noise_handshake_transition pf HS_SessionDerived (handshake p) w1))
     in if session_ready p now
        then (True, (wg_device_refresh_keypair_indices (Some p1) (d\<lparr>dev_peer := p1\<rparr>))
                \<lparr>dev_peer := noise_handshake_clear_transcript (p1\<lparr>handshake := h\<rparr>)\<rparr>, w')
        else (False, d, w'))"
proof -
  define p where "p = dev_peer d"
  define ini where "ini = (h_state (handshake p) = HS_ResponseReceived)"
  obtain a b where ab: "kdf2 be [] (peer_ck p) = (a, b)" by (rule prod.exhaust)
  have der: "derived_keypair be p now = Establish (h_local_index (handshake p)) (h_remote_index (handshake p)) now
        \<lparr>key_bytes = (if ini then a else b), key_valid = True\<rparr>
        \<lparr>key_bytes = (if ini then b else a), key_valid = True\<rparr> 0 ini noise_keypair_init"
    by (simp add: derived_keypair_def ab ini_def Let_def)
  have wfk: "keypair_Reset (next_keypair p) = noise_keypair_init" "keypair_Reset (previous_keypair p) = noise_keypair_init"
    "keypair_Reset noise_keypair_init = noise_keypair_init"
    using wf by (simp_all add: wf_peer_def keypair_Reset_eq flip: p_def)
  obtain x h w2 where t: "noise_handshake_transition pf HS_SessionDerived (handshake p) w1 = (x, h, w2)" by (rule prod_cases3)
  show ?thesis
  proof (cases "h_state (handshake p) \<in> {HS_ResponseCreated, HS_ResponseReceived} \<and> key_valid (chaining_key (handshake_material p))")
    case False
    then show ?thesis
      by (auto simp: noise_handshake_begin_session_def session_ready_def Let_def simp flip: p_def)
  next
    case True
    then show ?thesis
      using now t wfk derived_keypair_IsValid[of be p now]
      by (cases ini) (auto simp: noise_handshake_begin_session_def session_ready_def Let_def DeriveSessionKeys_eq[OF laws] ab
          der ini_def rotate_keypairs_def keypair_move_eq simp flip: p_def)
  qed
qed

subsection \<open>Runs between two devices\<close>

text \<open>Clamped private keys never agree on the all-zero secret with a public key derived from a clamped
  private key, and the monotonic clock is not negative.\<close>

definition dh_nonzero :: "crypto_backend \<Rightarrow> bool" where
  "dh_nonzero be \<longleftrightarrow> (\<forall>a b. length a = 32 \<and> length b = 32 \<longrightarrow>
     be_x25519 be (ClampX25519PrivateKey a) (be_x25519_public_key be (ClampX25519PrivateKey b)) \<noteq> zeros 32)"

definition clock_nonneg :: "'w platform \<Rightarrow> bool" where
  "clock_nonneg pf \<longleftrightarrow> (\<forall>w. 0 \<le> fst (ktime_get_coarse_boottime_ns pf w))"

text \<open>An identity as configuration makes it, with the shared secret it precomputes.\<close>

definition configured :: "crypto_backend \<Rightarrow> wg_peer \<Rightarrow> bool" where
  "configured be p \<longleftrightarrow> wf_peer p \<and> peer_ready p \<and>
     (\<exists>k. length k = 32 \<and> key_bytes (static_private (static_identity p)) = ClampX25519PrivateKey k) \<and>
     key_bytes (static_public (static_identity p)) =
       be_x25519_public_key be (key_bytes (static_private (static_identity p))) \<and>
     key_bytes (precomputed_static_static (handshake_material p)) =
       be_x25519 be (key_bytes (static_private (static_identity p))) (key_bytes (remote_static (static_identity p)))"

definition paired :: "crypto_backend \<Rightarrow> wg_peer \<Rightarrow> wg_peer \<Rightarrow> bool" where
  "paired be p q \<longleftrightarrow> configured be p \<and> configured be q \<and>
     key_bytes (remote_static (static_identity p)) = key_bytes (static_public (static_identity q)) \<and>
     key_bytes (remote_static (static_identity q)) = key_bytes (static_public (static_identity p)) \<and>
     key_bytes (preshared_key (static_identity p)) = key_bytes (preshared_key (static_identity q))"

definition sessions_match :: "noise_keypair \<Rightarrow> noise_keypair \<Rightarrow> bool" where
  "sessions_match a b \<longleftrightarrow> keypair_IsValid a \<and> keypair_IsValid b \<and>
     m_sending_key a = m_receiving_key b \<and> m_receiving_key a = m_sending_key b \<and>
     m_local_index a = m_remote_index b \<and> m_remote_index a = m_local_index b \<and>
     m_is_initiator a \<and> \<not> m_is_initiator b"

lemma paired_secrets:
  assumes "crypto_laws be" "dh_nonzero be" "paired be p q"
  shows "key_bytes (precomputed_static_static (handshake_material p)) =
      key_bytes (precomputed_static_static (handshake_material q))"
    and "key_bytes (precomputed_static_static (handshake_material p)) \<noteq> zeros 32"
  using assms crypto_laws_dh[OF assms(1)] by (auto simp: paired_def configured_def dh_nonzero_def)

lemma inspect_wire:
  "wf_initiation m1 \<Longrightarrow> InspectMessageType (wire_initiation m1) = MakeSuccess MT_HandshakeInitiation"
  "wf_response m2 \<Longrightarrow> InspectMessageType (wire_response m2) = MakeSuccess MT_HandshakeResponse"
  using LoadLe32_wire(1)[of m1 "[]"] LoadLe32_wire(2)[of m2 "[]"]
  by (simp_all add: InspectMessageType_def encode_lengths wf_defs MessageType_of_u32_def)

lemma serialized_wire:
  "wf_initiation m1 \<Longrightarrow> snd (SerializeHandshakeInitiation (zeros 148) m1) = wire_initiation m1"
  "wf_response m2 \<Longrightarrow> snd (SerializeHandshakeResponse (zeros 92) m2) = wire_response m2"
  by (simp_all add: SerializeHandshakeInitiation_wf SerializeHandshakeResponse_wf)

lemma incoming_initiation:
  assumes "wf_initiation m"
  shows "noise_handshake_consume_incoming_packet be pf (wire_initiation m) d (g, w) =
    (case noise_handshake_consume_initiation be pf m (dev_peer d) w of (ok, p, w) \<Rightarrow>
       if \<not> ok then (HPO_Invalid, d\<lparr>dev_peer := p\<rparr>, g, w)
       else case wg_device_allocate_index pf (d\<lparr>dev_peer := p\<rparr>) (g, w) of (i, d', g, w) \<Rightarrow>
         (HPO_InitiationConsumed, wg_device_register_handshake_index i
            (d\<lparr>index_allocator := \<lparr>last_index = i\<rparr>, dev_peer := p\<lparr>handshake := (handshake p)\<lparr>h_local_index := i\<rparr>\<rparr>\<rparr>), g, w))"
  using allocate_index_fresh_aux initiation.parse_encode[OF assms, of "[]" zero_initiation]
  by (fastforce simp: noise_handshake_consume_incoming_packet_def inspect_wire(1)[OF assms] MakeSuccess_def Let_def
      noise_handshake_set_local_index_def split: prod.splits)

lemma incoming_response:
  assumes "wf_response m"
  shows "noise_handshake_consume_incoming_packet be pf (wire_response m) d (g, w) =
    (case noise_handshake_consume_response be pf m d w of (ok, d, w) \<Rightarrow>
       (if ok then HPO_ResponseConsumed else HPO_Invalid, d, g, w))"
  using response.parse_encode[OF assms, of "[]" zero_response]
  by (simp add: noise_handshake_consume_incoming_packet_def inspect_wire(2)[OF assms] MakeSuccess_def Let_def)

lemma device_initiation:
  assumes "has_peer d"
  obtains i g w where "i \<noteq> 0" "i = fst (wg_device_allocate_index pf d gw)" "wg_device_create_handshake_initiation be pf d gw out =
    (case noise_handshake_create_initiation be pf
        ((dev_peer d)\<lparr>handshake := (handshake (dev_peer d))\<lparr>h_local_index := i, h_remote_index := 0\<rparr>\<rparr>) w out of
       (ok, m, p, w) \<Rightarrow> (ok, m, wg_device_register_handshake_index i
          (d\<lparr>index_allocator := \<lparr>last_index = i\<rparr>, dev_peer := p\<rparr>), g, w))"
proof -
  obtain i d' g w where a: "wg_device_allocate_index pf d gw = (i, d', g, w)" by (rule prod_cases4)
  then have "i \<noteq> 0" "d' = d\<lparr>index_allocator := \<lparr>last_index = i\<rparr>\<rparr>" using allocate_index_fresh_aux by blast+
  then show thesis
    using assms a by (intro that[of i g w])
      (auto simp: wg_device_create_handshake_initiation_def wg_device_first_peer_def Let_def
        noise_handshake_set_local_index_def noise_handshake_set_remote_index_def
        wg_device_register_handshake_index_def SetRegistryEntry_def split: prod.split)
qed

text \<open>The states of two peers after an initiation was accepted, and after its response was.\<close>

definition half_open :: "crypto_backend \<Rightarrow> wg_peer \<Rightarrow> wg_peer \<Rightarrow> bool" where
  "half_open be p q \<longleftrightarrow> paired be p q \<and>
     h_state (handshake p) = HS_InitiationCreated \<and> h_state (handshake q) = HS_InitiationReceived \<and>
     peer_ck p = peer_ck q \<and> peer_hash p = peer_hash q \<and> key_valid (chaining_key (handshake_material q)) \<and>
     (\<exists>k. length k = 32 \<and> ephemeral_private (handshake_material p) = \<lparr>key_bytes = ClampX25519PrivateKey k, key_valid = True\<rparr>) \<and>
     remote_ephemeral (handshake_material q) =
       \<lparr>key_bytes = be_x25519_public_key be (key_bytes (ephemeral_private (handshake_material p))), key_valid = True\<rparr> \<and>
     h_local_index (handshake p) \<noteq> 0 \<and> h_local_index (handshake q) \<noteq> 0 \<and>
     h_remote_index (handshake q) = h_local_index (handshake p)"

definition completed :: "wg_peer \<Rightarrow> wg_peer \<Rightarrow> bool" where
  "completed p q \<longleftrightarrow> wf_peer p \<and> wf_peer q \<and>
     h_state (handshake p) = HS_ResponseReceived \<and> h_state (handshake q) = HS_ResponseCreated \<and>
     peer_ck p = peer_ck q \<and> key_valid (chaining_key (handshake_material p)) \<and>
     key_valid (chaining_key (handshake_material q)) \<and>
     h_local_index (handshake p) \<noteq> 0 \<and> h_local_index (handshake q) \<noteq> 0 \<and>
     h_remote_index (handshake q) = h_local_index (handshake p) \<and> h_remote_index (handshake p) = h_local_index (handshake q)"

lemma initiation_transcript_lengths:
  assumes "crypto_laws be" "initiation_transcript be rs epub es si ss ts = (ck, h, c1, c2)"
  shows "length ck = 32" "length h = 32"
  using assms kdf_lengths(2)[OF assms(1)] length_mix_hash[OF assms(1)]
  by (auto simp: initiation_transcript_def Let_def split: prod.splits) (metis fst_conv)

lemma response_transcript_lengths:
  assumes "crypto_laws be" "response_transcript be ck0 h0 epub ee se psk = (ck, h, c)"
  shows "length ck = 32" "length h = 32"
  using assms kdf_lengths(4)[OF assms(1)] length_mix_hash[OF assms(1)]
  by (auto simp: response_transcript_def Let_def split: prod.splits) (metis fst_conv)

lemmas wf_peer_parts = wf_peer_def wf_material_def wf_key_def wf_cookie_state_def noise_cookie_record_last_mac1_def

lemma paired_update:
  assumes "paired be p q" "wf_peer p'" "wf_peer q'"
    and "static_identity p' = static_identity p" "static_identity q' = static_identity q"
    and "precomputed_static_static (handshake_material p') = precomputed_static_static (handshake_material p)"
    and "precomputed_static_static (handshake_material q') = precomputed_static_static (handshake_material q)"
  shows "paired be p' q'"
  using assms by (simp add: paired_def configured_def peer_ready_def)

text \<open>What an honest initiation with ephemeral key \<open>e\<close> and timestamp \<open>ts\<close> is, and what it leaves in the peer;
  the same for a response.\<close>

definition initiation_sent ::
  "crypto_backend \<Rightarrow> wg_peer \<Rightarrow> byte list \<Rightarrow> byte list \<Rightarrow> message_handshake_initiation \<Rightarrow> wg_peer \<Rightarrow> bool" where
  "initiation_sent be p e ts m p1 \<longleftrightarrow>
     (let rs = key_bytes (remote_static (static_identity p)); epub = be_x25519_public_key be e in
      wf_initiation m \<and> hi_sender_index m = h_local_index (handshake p) \<and> mac1 (hi_macs m) = mac1_initiation be rs m \<and>
      hi_unencrypted_ephemeral m = epub \<and>
      (case initiation_transcript be rs epub (be_x25519 be e rs) (key_bytes (static_public (static_identity p)))
              (key_bytes (precomputed_static_static (handshake_material p))) ts of (ck, h, c1, c2) \<Rightarrow>
         hi_encrypted_static m = c1 \<and> hi_encrypted_timestamp m = c2 \<and>
         (\<exists>t. p1 = p\<lparr>handshake_material := (handshake_material p)
             \<lparr>ephemeral_private := \<lparr>key_bytes = e, key_valid = True\<rparr>,
              ephemeral_public := \<lparr>key_bytes = epub, key_valid = True\<rparr>,
              chaining_key := \<lparr>key_bytes = ck, key_valid = True\<rparr>, hash := \<lparr>key_bytes = h, key_valid = True\<rparr>\<rparr>,
           cookie := noise_cookie_record_last_mac1 (mac1 (hi_macs m)) (cookie p),
           last_initiation := m, has_last_initiation := True,
           handshake := (handshake p)\<lparr>h_state := HS_InitiationCreated, last_transition := t,
             transition_count := transition_count (handshake p) + 1\<rparr>\<rparr>)))"

definition response_sent ::
  "crypto_backend \<Rightarrow> wg_peer \<Rightarrow> byte list \<Rightarrow> message_handshake_response \<Rightarrow> wg_peer \<Rightarrow> bool" where
  "response_sent be q e m q1 \<longleftrightarrow>
     (let rs = key_bytes (remote_static (static_identity q)); epub = be_x25519_public_key be e in
      wf_response m \<and> hr_sender_index m = h_local_index (handshake q) \<and> hr_receiver_index m = h_remote_index (handshake q) \<and>
      mac1 (hr_macs m) = mac1_response be rs m \<and> hr_unencrypted_ephemeral m = epub \<and>
      (case response_transcript be (peer_ck q) (peer_hash q) epub
              (be_x25519 be e (key_bytes (remote_ephemeral (handshake_material q)))) (be_x25519 be e rs)
              (key_bytes (preshared_key (static_identity q))) of (ck, h, c) \<Rightarrow>
         hr_encrypted_nothing m = c \<and>
         (\<exists>t. q1 = q\<lparr>handshake_material := (handshake_material q)
             \<lparr>ephemeral_private := \<lparr>key_bytes = e, key_valid = True\<rparr>,
              ephemeral_public := \<lparr>key_bytes = epub, key_valid = True\<rparr>,
              chaining_key := (chaining_key (handshake_material q))\<lparr>key_bytes := ck\<rparr>,
              hash := (hash (handshake_material q))\<lparr>key_bytes := h\<rparr>\<rparr>,
           cookie := noise_cookie_record_last_mac1 (mac1 (hr_macs m)) (cookie q),
           handshake := (handshake q)\<lparr>h_state := HS_ResponseCreated, last_transition := t,
             transition_count := transition_count (handshake q) + 1\<rparr>\<rparr>)))"

lemma random_ephemeral:
  assumes "platform_laws pf" "get_random_bytes pf 32 w = (rb, w')"
  shows "length rb = 32"
  using assms unfolding platform_laws_def by (metis fst_conv)

lemma initiation_created:
  assumes laws: "crypto_laws be" "platform_laws pf" "dh_nonzero be"
    and pq: "paired be p q" and i: "h_local_index (handshake p) \<noteq> 0"
    and create: "noise_handshake_create_initiation be pf p w out = (ok, m, p1, w1)"
  obtains k ts where "ok" "length k = 32" "length ts = 12" "initiation_sent be p (ClampX25519PrivateKey k) ts m p1"
proof -
  obtain rb w0 where rnd: "get_random_bytes pf 32 w = (rb, w0)" by (rule prod.exhaust)
  note rb = random_ephemeral[OF laws(2) rnd]
  obtain ts w2 where ts: "Tai64nNow pf w0 = (ts, w2)" by (rule prod.exhaust)
  define e where "e = ClampX25519PrivateKey rb"
  define rs where "rs = key_bytes (remote_static (static_identity p))"
  obtain ck h c1 c2 where tr: "initiation_transcript be rs (be_x25519_public_key be e) (be_x25519 be e rs)
    (key_bytes (static_public (static_identity p))) (key_bytes (precomputed_static_static (handshake_material p))) ts
    = (ck, h, c1, c2)" by (rule prod_cases4)
  have P: "peer_ready p" "wf_peer p" using pq by (simp_all add: paired_def configured_def)
  have es: "be_x25519 be e rs \<noteq> zeros 32"
    using pq laws(3) rb by (auto simp: paired_def configured_def e_def rs_def dh_nonzero_def)
  have "ok \<and> initiation_sent be p e ts m p1"
    by (rule create_initiation_ok[OF laws(1) P i refl paired_secrets(2)[OF laws(1,3) pq] rnd e_def[symmetric] refl
        rs_def[symmetric] es ts tr, of out])
      (use create tr in \<open>auto simp: initiation_sent_def Let_def simp flip: rs_def\<close>)
  then show thesis using that rb length_Tai64nNow[OF ts] unfolding e_def by blast
qed

lemma honest_initiation_run:
  assumes laws: "crypto_laws be" "dh_nonzero be"
    and pq: "paired be p q" and i: "h_local_index (handshake p) \<noteq> 0"
    and sent: "initiation_sent be p e ts m p1" "e = ClampX25519PrivateKey k" "length k = 32" "length ts = 12"
  obtains ck h key t where
    "all_steps (consume_initiation_steps be m q) consume_run_init =
      (\<not> (has_last_initiation_timestamp (handshake q) \<and> \<not> lex_less (last_initiation_timestamp (handshake q)) ts),
       \<lparr>cr_ck = ck, cr_hash = h, cr_key = key, cr_ephemeral = be_x25519_public_key be e,
        cr_static = key_bytes (remote_static (static_identity q)), cr_timestamp = ts\<rparr>)"
    "p1 = p\<lparr>handshake_material := (handshake_material p)
             \<lparr>ephemeral_private := \<lparr>key_bytes = e, key_valid = True\<rparr>,
              ephemeral_public := \<lparr>key_bytes = be_x25519_public_key be e, key_valid = True\<rparr>,
              chaining_key := \<lparr>key_bytes = ck, key_valid = True\<rparr>, hash := \<lparr>key_bytes = h, key_valid = True\<rparr>\<rparr>,
           cookie := noise_cookie_record_last_mac1 (mac1 (hi_macs m)) (cookie p),
           last_initiation := m, has_last_initiation := True,
           handshake := (handshake p)\<lparr>h_state := HS_InitiationCreated, last_transition := t,
             transition_count := transition_count (handshake p) + 1\<rparr>\<rparr>"
    "length ck = 32" "length h = 32" "length (mac1 (hi_macs m)) = 16" "hi_sender_index m = h_local_index (handshake p)"
proof -
  define epub where "epub = be_x25519_public_key be e"
  define rs where "rs = key_bytes (remote_static (static_identity p))"
  define si where "si = key_bytes (static_public (static_identity p))"
  define ss where "ss = key_bytes (precomputed_static_static (handshake_material p))"
  define es where "es = be_x25519 be e rs"
  obtain ck h c1 c2 where tr: "initiation_transcript be rs epub es si ss ts = (ck, h, c1, c2)" by (rule prod_cases4)
  have P: "peer_ready q" "wf_peer q" using pq by (simp_all add: paired_def configured_def)
  have es: "be_x25519 be (key_bytes (static_private (static_identity q))) epub = es" "es \<noteq> zeros 32"
    using pq laws(2) sent(2,3) crypto_laws_dh[OF laws(1)]
    by (auto simp: paired_def configured_def es_def epub_def rs_def dh_nonzero_def)
  have ss: "key_bytes (precomputed_static_static (handshake_material q)) = ss" "ss \<noteq> zeros 32"
    using paired_secrets[OF laws pq] by (simp_all add: ss_def)
  have keys: "key_bytes (static_public (static_identity q)) = rs" "key_bytes (remote_static (static_identity q)) = si"
    using pq by (simp_all add: paired_def rs_def si_def)
  note S = sent(1)[unfolded initiation_sent_def Let_def, folded rs_def epub_def si_def ss_def es_def, unfolded tr prod.case]
  have m: "wf_initiation m" "hi_sender_index m \<noteq> 0" "mac1 (hi_macs m) = mac1_initiation be rs m"
    "hi_unencrypted_ephemeral m = epub" "hi_encrypted_static m = c1" "hi_encrypted_timestamp m = c2"
    using S i by simp_all
  obtain key where "all_steps (consume_initiation_steps be m q) consume_run_init =
      (\<not> (has_last_initiation_timestamp (handshake q) \<and> \<not> lex_less (last_initiation_timestamp (handshake q)) ts),
       \<lparr>cr_ck = ck, cr_hash = h, cr_key = key, cr_ephemeral = epub, cr_static = si, cr_timestamp = ts\<rparr>)"
    using consume_initiation_run[OF laws(1) P keys ss es m sent(4) tr] by blast
  moreover have "length (mac1 (hi_macs m)) = 16" using m(1) by (simp add: wf_initiation_def)
  ultimately show thesis
    using that S initiation_transcript_lengths[OF laws(1) tr] unfolding epub_def keys(2)[symmetric] by blast
qed

lemma initiation_phase:
  assumes laws: "crypto_laws be" "dh_nonzero be"
    and pq: "paired be p q" and i: "h_local_index (handshake p) \<noteq> 0"
    and sent: "initiation_sent be p e ts m p1" "e = ClampX25519PrivateKey k" "length k = 32" "length ts = 12"
    and consume: "noise_handshake_consume_initiation be pf m q v = (True, q1, v1)"
    and j: "j \<noteq> 0"
  shows "half_open be p1 (q1\<lparr>handshake := (handshake q1)\<lparr>h_local_index := j\<rparr>\<rparr>)"
proof (rule honest_initiation_run[OF laws pq i sent])
  fix ck h key t
  let ?r = "\<lparr>cr_ck = ck, cr_hash = h, cr_key = key, cr_ephemeral = be_x25519_public_key be e,
        cr_static = key_bytes (remote_static (static_identity q)), cr_timestamp = ts\<rparr>"
  assume run: "all_steps (consume_initiation_steps be m q) consume_run_init =
      (\<not> (has_last_initiation_timestamp (handshake q) \<and> \<not> lex_less (last_initiation_timestamp (handshake q)) ts), ?r)"
    and p1: "p1 = p\<lparr>handshake_material := (handshake_material p)
             \<lparr>ephemeral_private := \<lparr>key_bytes = e, key_valid = True\<rparr>,
              ephemeral_public := \<lparr>key_bytes = be_x25519_public_key be e, key_valid = True\<rparr>,
              chaining_key := \<lparr>key_bytes = ck, key_valid = True\<rparr>, hash := \<lparr>key_bytes = h, key_valid = True\<rparr>\<rparr>,
           cookie := noise_cookie_record_last_mac1 (mac1 (hi_macs m)) (cookie p),
           last_initiation := m, has_last_initiation := True,
           handshake := (handshake p)\<lparr>h_state := HS_InitiationCreated, last_transition := t,
             transition_count := transition_count (handshake p) + 1\<rparr>\<rparr>"
    and len: "length ck = 32" "length h = 32" "length (mac1 (hi_macs m)) = 16"
    and idx: "hi_sender_index m = h_local_index (handshake p)"
  obtain now v0 where now: "GetMonotonicTime pf v = (now, v0)" by (rule prod.exhaust)
  obtain t' v2 where t': "GetMonotonicTime pf v0 = (t', v2)" by (rule prod.exhaust)
  have P: "peer_ready q" "wf_peer q" "wf_peer p" using pq by (simp_all add: paired_def configured_def)
  have q1: "q1 = q\<lparr>handshake_material := (handshake_material q)
         \<lparr>remote_ephemeral := \<lparr>key_bytes = be_x25519_public_key be e, key_valid = True\<rparr>, hash := \<lparr>key_bytes = h, key_valid = True\<rparr>,
          chaining_key := \<lparr>key_bytes = ck, key_valid = True\<rparr>\<rparr>,
       handshake := (handshake q)\<lparr>h_remote_index := hi_sender_index m,
         last_initiation_timestamp := ts, has_last_initiation_timestamp := True, last_initiation_consumption := now,
         h_state := HS_InitiationReceived, last_transition := t', transition_count := transition_count (handshake q) + 1\<rparr>\<rparr>"
    using consume P(1)
    by (auto simp: noise_handshake_consume_initiation_def peer_ready_def run Let_def noise_handshake_transition_def now t'
        split: if_splits)
  have "paired be p1 (q1\<lparr>handshake := (handshake q1)\<lparr>h_local_index := j\<rparr>\<rparr>)"
    using P(2,3) len sent(2-4) crypto_lawsD(3)[OF laws(1)] unfolding p1 q1
    by (intro paired_update[OF pq]) (simp_all add: wf_peer_parts)
  then show ?thesis
    using i j sent(2,3) idx unfolding p1 q1
    by (simp add: half_open_def peer_ck_def peer_hash_def) blast
qed

lemma half_open_agreements:
  assumes laws: "crypto_laws be" "dh_nonzero be" and ho: "half_open be p q" and k: "length k = 32"
  defines "e \<equiv> ClampX25519PrivateKey k"
  shows "be_x25519 be (key_bytes (ephemeral_private (handshake_material p))) (be_x25519_public_key be e) =
      be_x25519 be e (key_bytes (remote_ephemeral (handshake_material q)))"
    and "be_x25519 be e (key_bytes (remote_ephemeral (handshake_material q))) \<noteq> zeros 32"
    and "be_x25519 be (key_bytes (static_private (static_identity p))) (be_x25519_public_key be e) =
      be_x25519 be e (key_bytes (remote_static (static_identity q)))"
    and "be_x25519 be e (key_bytes (remote_static (static_identity q))) \<noteq> zeros 32"
  using ho laws(2) k crypto_laws_dh[OF laws(1)]
  by (auto simp: half_open_def paired_def configured_def e_def dh_nonzero_def)

lemma response_created:
  assumes laws: "crypto_laws be" "platform_laws pf" "dh_nonzero be" and ho: "half_open be p q"
    and create: "noise_handshake_create_response be pf q v out = (ok, m, q1, v1)"
  obtains k where "ok" "length k = 32" "response_sent be q (ClampX25519PrivateKey k) m q1"
proof -
  obtain rb v0 where rnd: "get_random_bytes pf 32 v = (rb, v0)" by (rule prod.exhaust)
  note rb = random_ephemeral[OF laws(2) rnd]
  define e where "e = ClampX25519PrivateKey rb"
  obtain ck h c where tr: "response_transcript be (peer_ck q) (peer_hash q) (be_x25519_public_key be e)
      (be_x25519 be e (key_bytes (remote_ephemeral (handshake_material q))))
      (be_x25519 be e (key_bytes (remote_static (static_identity q)))) (key_bytes (preshared_key (static_identity q)))
        = (ck, h, c)" by (rule prod_cases3)
  note dh = half_open_agreements[OF laws(1,3) ho rb, folded e_def]
  have Q: "key_valid (remote_static (static_identity q))" "key_valid (remote_ephemeral (handshake_material q))"
      "wf_cookie_state (cookie q)" "h_local_index (handshake q) \<noteq> 0" "h_remote_index (handshake q) \<noteq> 0"
      "h_state (handshake q) = HS_InitiationReceived"
    using ho by (simp_all add: half_open_def paired_def configured_def peer_ready_def wf_peer_def)
  have "ok \<and> response_sent be q e m q1"
    by (rule create_response_ok[OF laws(1) Q rnd e_def[symmetric] refl refl dh(2) refl dh(4) tr, of out])
      (use create tr in \<open>auto simp: response_sent_def Let_def\<close>)
  then show thesis using that rb unfolding e_def by blast
qed

lemma response_phase:
  fixes d :: wg_device
  defines "p \<equiv> dev_peer d"
  assumes laws: "crypto_laws be" "dh_nonzero be" and ho: "half_open be p q"
    and sent: "response_sent be q (ClampX25519PrivateKey k) m q1" "length k = 32"
    and slot: "wg_device_index_matches_slot d IS_Handshake (h_local_index (handshake p))"
    and new: "hr_sender_index m \<noteq> h_local_index (handshake p)"
      "\<not> (keypair_IsValid (current_keypair p) \<and> hr_sender_index m = m_remote_index (current_keypair p))"
    and consume: "noise_handshake_consume_response be pf m d w = (ok, d1, w1)"
  shows "ok \<and> completed (dev_peer d1) q1"
proof -
  define e where "e = ClampX25519PrivateKey k"
  define epub where "epub = be_x25519_public_key be e"
  define ee where "ee = be_x25519 be e (key_bytes (remote_ephemeral (handshake_material q)))"
  define se where "se = be_x25519 be e (key_bytes (remote_static (static_identity q)))"
  obtain ck h c where tr: "response_transcript be (peer_ck q) (peer_hash q) epub ee se (key_bytes (preshared_key (static_identity q)))
        = (ck, h, c)" by (rule prod_cases3)
  note dh = half_open_agreements[OF laws ho sent(2), folded e_def, folded epub_def ee_def se_def]
  note S = sent(1)[folded e_def, unfolded response_sent_def Let_def, folded epub_def ee_def se_def, unfolded tr prod.case]
  then obtain t where q1: "q1 = q\<lparr>handshake_material := (handshake_material q)
             \<lparr>ephemeral_private := \<lparr>key_bytes = e, key_valid = True\<rparr>,
              ephemeral_public := \<lparr>key_bytes = epub, key_valid = True\<rparr>,
              chaining_key := (chaining_key (handshake_material q))\<lparr>key_bytes := ck\<rparr>,
              hash := (hash (handshake_material q))\<lparr>key_bytes := h\<rparr>\<rparr>,
           cookie := noise_cookie_record_last_mac1 (mac1 (hr_macs m)) (cookie q),
           handshake := (handshake q)\<lparr>h_state := HS_ResponseCreated, last_transition := t,
             transition_count := transition_count (handshake q) + 1\<rparr>\<rparr>" by blast
  have P: "peer_ready p" "wf_peer p" "wf_peer q" using ho by (simp_all add: half_open_def paired_def configured_def)
  have I: "key_valid (ephemeral_private (handshake_material p))" "h_state (handshake p) = HS_InitiationCreated"
    "peer_ck q = peer_ck p" "peer_hash q = peer_hash p" "key_bytes (preshared_key (static_identity q)) = key_bytes (preshared_key (static_identity p))"
    using ho by (auto simp: half_open_def paired_def)
  have m: "wf_response m" "hr_sender_index m \<noteq> 0"
    "mac1 (hr_macs m) = mac1_response be (key_bytes (static_public (static_identity p))) m"
    "hr_unencrypted_ephemeral m = epub" "hr_encrypted_nothing m = c"
    "wg_device_index_matches_slot d IS_Handshake (hr_receiver_index m)"
    using S ho slot by (simp_all add: half_open_def paired_def)
  have len: "length e = 32" "length epub = 32" "length ck = 32" "length h = 32" "length (mac1 (hr_macs m)) = 16"
    using sent(2) m(1) crypto_lawsD(3)[OF laws(1)] response_transcript_lengths[OF laws(1) tr]
    by (simp_all add: e_def epub_def wf_response_def)
  show ?thesis
  proof (rule consume_response_eq[where d = d and pf = pf and w = w, folded p_def, OF laws(1) P(1) I(1,2) dh m(1-5) new(1) m(6) new(2)
        tr[unfolded I(3-5)]])
    fix t' w'
    assume d1: "noise_handshake_consume_response be pf m d w =
    (True, d\<lparr>dev_peer := p\<lparr>handshake_material := (handshake_material p)
         \<lparr>remote_ephemeral := \<lparr>key_bytes = epub, key_valid = True\<rparr>, hash := \<lparr>key_bytes = h, key_valid = True\<rparr>,
          chaining_key := \<lparr>key_bytes = ck, key_valid = True\<rparr>\<rparr>,
       handshake := (handshake p)\<lparr>h_state := HS_ResponseReceived, h_remote_index := hr_sender_index m,
         last_transition := t', transition_count := transition_count (handshake p) + 1\<rparr>\<rparr>\<rparr>, w')"
    have "wf_peer (dev_peer d1)" "wf_peer q1"
      using P(2,3) len consume[unfolded d1] unfolding q1 by (auto simp: wf_peer_parts)
    then show ?thesis
      using ho S consume[unfolded d1] unfolding q1 by (auto simp: completed_def half_open_def peer_ck_def)
  qed
qed

lemma clear_transcript_keypairs [simp]:
  "current_keypair (noise_handshake_clear_transcript p) = current_keypair p"
  "next_keypair (noise_handshake_clear_transcript p) = next_keypair p"
  "previous_keypair (noise_handshake_clear_transcript p) = previous_keypair p"
  "h_state (handshake (noise_handshake_clear_transcript p)) = h_state (handshake p)"
  "h_local_index (handshake (noise_handshake_clear_transcript p)) = 0"
  "h_remote_index (handshake (noise_handshake_clear_transcript p)) = 0"
  by (simp_all add: noise_handshake_clear_transcript_def ClearHandshakeTranscript_def Let_def)

lemma completed_sessions:
  assumes "completed p q" "0 \<le> now" "0 \<le> now'"
  shows "sessions_match (derived_keypair be p now) (derived_keypair be q now')"
  using assms derived_keypair_IsValid[of be p now] derived_keypair_IsValid[of be q now']
  by (auto simp: sessions_match_def completed_def derived_keypair_def Establish_def Let_def split: prod.splits)

lemma begin_session_completed:
  assumes "crypto_laws be" "clock_nonneg pf" "wf_peer (dev_peer d)" "key_valid (chaining_key (handshake_material (dev_peer d)))"
    and "h_state (handshake (dev_peer d)) \<in> {HS_ResponseCreated, HS_ResponseReceived}"
    and "h_local_index (handshake (dev_peer d)) \<noteq> 0" "h_remote_index (handshake (dev_peer d)) \<noteq> 0"
    and "noise_handshake_begin_session be pf d w = (ok, d', w')"
  obtains now where "ok" "0 \<le> now"
    "(if h_state (handshake (dev_peer d)) = HS_ResponseReceived then current_keypair (dev_peer d') else next_keypair (dev_peer d'))
      = derived_keypair be (dev_peer d) now"
proof -
  obtain now w1 where now: "GetMonotonicTime pf w = (now, w1)" by (rule prod.exhaust)
  have "0 \<le> now" using assms(2) now unfolding clock_nonneg_def GetMonotonicTime_def by (metis fst_conv)
  moreover have "session_ready (dev_peer d) now" using assms(4-7) calculation by (simp add: session_ready_def)
  ultimately show thesis
    using begin_session_eq[OF assms(1,3) now] assms(8) by (intro that[of now]) (auto simp: Let_def rotate_keypairs_def)
qed

lemma honest_initiation_result:
  assumes laws: "crypto_laws be" "dh_nonzero be"
    and pq: "paired be p q" and i: "h_local_index (handshake p) \<noteq> 0"
    and sent: "initiation_sent be p e ts m p1" "e = ClampX25519PrivateKey k" "length k = 32" "length ts = 12"
    and now: "GetMonotonicTime pf v = (now, v1)"
  shows "fst (noise_handshake_consume_initiation be pf m q v) \<longleftrightarrow>
    (has_last_initiation_timestamp (handshake q) \<longrightarrow> lex_less (last_initiation_timestamp (handshake q)) ts) \<and>
    (0 < last_initiation_consumption (handshake q) \<longrightarrow> last_initiation_consumption (handshake q) + 20000000 < now)"
proof -
  have "peer_ready q" using pq by (simp add: paired_def configured_def)
  then show ?thesis
    by (rule_tac honest_initiation_run[OF laws pq i sent])
      (auto simp: noise_handshake_consume_initiation_def peer_ready_def Let_def noise_handshake_transition_def now
        split: prod.split)
qed

lemma allocate_first:
  "g \<noteq> 0 \<Longrightarrow> \<not> IsRegisteredIndex d g \<Longrightarrow> fst (wg_device_allocate_index pf d (g, w)) = g"
  by (simp add: wg_device_allocate_index_def numeral_eq_Suc wg_index_allocator_next_def Let_def)

lemma initiator_device:
  assumes laws: "crypto_laws be" "platform_laws pf" "dh_nonzero be"
    and di: "paired be (dev_peer di) q" "has_peer di"
    and s1: "wg_device_create_handshake_initiation be pf di gw out = (ok, m, di1, g, w)"
  obtains p0 k ts where "ok" "paired be p0 q" "h_local_index (handshake p0) = fst (wg_device_allocate_index pf di gw)"
    "h_local_index (handshake p0) \<noteq> 0" "initiation_sent be p0 (ClampX25519PrivateKey k) ts m (dev_peer di1)"
    "length k = 32" "length ts = 12" "wf_initiation m" "hi_sender_index m = h_local_index (handshake p0)"
    "wg_device_index_matches_slot di1 IS_Handshake (hi_sender_index m)"
    "h_local_index (handshake (dev_peer di1)) = hi_sender_index m"
    "current_keypair (dev_peer di1) = current_keypair (dev_peer di)"
proof -
  define p where "p = dev_peer di"
  obtain i g0 w0 where i: "i \<noteq> 0" "i = fst (wg_device_allocate_index pf di gw)"
    and c: "wg_device_create_handshake_initiation be pf di gw out =
    (case noise_handshake_create_initiation be pf (p\<lparr>handshake := (handshake p)\<lparr>h_local_index := i, h_remote_index := 0\<rparr>\<rparr>) w0 out of
       (ok, m, p, w) \<Rightarrow> (ok, m, wg_device_register_handshake_index i
          (di\<lparr>index_allocator := \<lparr>last_index = i\<rparr>, dev_peer := p\<rparr>), g0, w))"
    unfolding p_def by (rule device_initiation[OF di(2)])
  define p0 where "p0 = p\<lparr>handshake := (handshake p)\<lparr>h_local_index := i, h_remote_index := 0\<rparr>\<rparr>"
  have wf: "wf_peer p" "wf_peer q" using di(1) by (simp_all add: paired_def configured_def p_def)
  have pq: "paired be p0 q"
    using wf by (intro paired_update[OF di(1)]) (simp_all add: p0_def p_def wf_peer_def)
  obtain ok' m' p1 w1 where cr: "noise_handshake_create_initiation be pf p0 w0 out = (ok', m', p1, w1)" by (rule prod_cases4)
  have i0: "h_local_index (handshake p0) = i" by (simp add: p0_def)
  obtain k ts where k: "ok'" "length k = 32" "length ts = 12" "initiation_sent be p0 (ClampX25519PrivateKey k) ts m' p1"
    by (rule initiation_created[OF laws pq _ cr]) (use i(1) i0 in simp_all)
  have di1: "ok" "m' = m" "di1 = wg_device_register_handshake_index i (di\<lparr>index_allocator := \<lparr>last_index = i\<rparr>, dev_peer := p1\<rparr>)"
    using s1 k(1) by (auto simp: c cr simp flip: p0_def)
  have m: "wf_initiation m" "hi_sender_index m = i" "h_local_index (handshake p1) = i" "current_keypair p1 = current_keypair p"
    using k(4) by (auto simp: initiation_sent_def Let_def p0_def di1(2) split: prod.splits)
  show thesis
    using i i0 k di1 m pq
    by (intro that[of p0 k ts]) (simp_all add: wg_device_register_handshake_index_def SetRegistryEntry_def
        wg_device_index_matches_slot_def GetRegistryEntry_def p_def)
qed

lemma responder_device:
  assumes "wf_initiation m" "noise_handshake_consume_initiation be pf m (dev_peer dr) v = (ok, q, v0)"
    and "noise_handshake_consume_incoming_packet be pf (snd (SerializeHandshakeInitiation (zeros 148) m)) dr (g, v) =
      (out, dr1, g1, v1)"
  shows "out = HPO_InitiationConsumed \<longleftrightarrow> ok"
    and "ok \<Longrightarrow> \<exists>j. j \<noteq> 0 \<and> j = fst (wg_device_allocate_index pf (dr\<lparr>dev_peer := q\<rparr>) (g, v0)) \<and>
      dev_peer dr1 = q\<lparr>handshake := (handshake q)\<lparr>h_local_index := j\<rparr>\<rparr>"
  using assms(3) allocate_index_fresh_aux[of pf "dr\<lparr>dev_peer := q\<rparr>" "(g, v0)"]
  by (auto simp: serialized_wire(1)[OF assms(1)] incoming_initiation[OF assms(1)] assms(2)
      wg_device_register_handshake_index_def split: prod.splits if_splits)

lemma consume_initiation_keypairs:
  "noise_handshake_consume_initiation be pf src p w = (ok, p', w') \<Longrightarrow> current_keypair p' = current_keypair p"
  by (auto simp: noise_handshake_consume_initiation_def Let_def split: prod.splits if_splits)

text \<open>A whole handshake: what the two sides have derived, and that the index of the responder is fresh.\<close>

lemma agreement_run:
  assumes "crypto_laws be" "dh_nonzero be" "platform_laws pf1" "platform_laws pf2" "clock_nonneg pf1" "clock_nonneg pf2"
    and "paired be (dev_peer di) (dev_peer dr)" "has_peer di"
    and s1: "wg_device_create_handshake_initiation be pf1 di gw out1 = (ok1, m1, di1, gi, wi)"
    and s2: "noise_handshake_consume_incoming_packet be pf2 (snd (SerializeHandshakeInitiation (zeros 148) m1)) dr (g, v) =
      (HPO_InitiationConsumed, dr1, gr, v1)"
    and s3: "noise_handshake_create_response be pf2 (dev_peer dr1) v2 out2 = (ok2, m2, q, v3)"
    and s4: "noise_handshake_begin_session be pf2 (dr1\<lparr>dev_peer := q\<rparr>) v4 = (ok3, dr2, v5)"
    and new: "hr_sender_index m2 \<noteq> hi_sender_index m1"
      "keypair_IsValid (current_keypair (dev_peer di)) \<Longrightarrow> hr_sender_index m2 \<noteq> m_remote_index (current_keypair (dev_peer di))"
    and s5: "noise_handshake_consume_incoming_packet be pf1 (snd (SerializeHandshakeResponse (zeros 92) m2)) di1 (gi', wi') =
      (outcome, di2, gi2, wi2)"
    and s6: "noise_handshake_begin_session be pf1 di2 wi3 = (ok4, di3, wi4)"
  obtains t1 t2 where "ok1" "ok2" "ok3" "outcome = HPO_ResponseConsumed" "ok4" "0 \<le> t1" "0 \<le> t2"
    "completed (dev_peer di2) q" "current_keypair (dev_peer di3) = derived_keypair be (dev_peer di2) t2"
    "next_keypair (dev_peer dr2) = derived_keypair be q t1" "h_local_index (handshake q) \<notin> registered dr"
    "current_keypair q = current_keypair (dev_peer dr)"
proof -
  obtain p0 k ts where I: "ok1" "paired be p0 (dev_peer dr)" "h_local_index (handshake p0) \<noteq> 0"
    "initiation_sent be p0 (ClampX25519PrivateKey k) ts m1 (dev_peer di1)"
    "length k = 32" "length ts = 12" "wf_initiation m1" "hi_sender_index m1 = h_local_index (handshake p0)"
    "wg_device_index_matches_slot di1 IS_Handshake (hi_sender_index m1)"
    "h_local_index (handshake (dev_peer di1)) = hi_sender_index m1"
    "current_keypair (dev_peer di1) = current_keypair (dev_peer di)"
    by (rule initiator_device[OF assms(1,3,2,7,8) s1])
  obtain okc q0 v0 where con: "noise_handshake_consume_initiation be pf2 m1 (dev_peer dr) v = (okc, q0, v0)" by (rule prod_cases3)
  then obtain j where j: "okc" "j \<noteq> 0" "dev_peer dr1 = q0\<lparr>handshake := (handshake q0)\<lparr>h_local_index := j\<rparr>\<rparr>"
    "j = fst (wg_device_allocate_index pf2 (dr\<lparr>dev_peer := q0\<rparr>) (g, v0))"
    using responder_device[OF I(7) con s2] by blast
  have "registered (dr\<lparr>dev_peer := q0\<rparr>) = registered dr"
    by (simp add: registered_def IsRegisteredIndex_def wg_device_lookup_index_slot_def)
  then have fresh: "j \<notin> registered dr"
    using allocate_index_fresh_aux[of pf2 "dr\<lparr>dev_peer := q0\<rparr>" "(g, v0)"] j(4)
    by (cases "wg_device_allocate_index pf2 (dr\<lparr>dev_peer := q0\<rparr>) (g, v0)") simp
  have ho: "half_open be (dev_peer di1) (dev_peer dr1)"
    using initiation_phase[OF assms(1,2) I(2-4) refl I(5,6) _ j(2)] con j(1,3) by simp
  obtain k' where k': "ok2" "length k' = 32" "response_sent be (dev_peer dr1) (ClampX25519PrivateKey k') m2 q"
    by (rule response_created[OF assms(1,4,2) ho s3])
  have wf2: "wf_response m2" using k'(3) by (simp add: response_sent_def Let_def)
  obtain okr d w where r: "noise_handshake_consume_response be pf1 m2 di1 wi' = (okr, d, w)" by (rule prod_cases3)
  have fin: "okr" "completed (dev_peer d) q"
    using response_phase[OF assms(1,2) ho k'(3,2) _ _ _ r] I(9-11) new by auto
  have out: "outcome = HPO_ResponseConsumed" "di2 = d"
    using s5 fin(1) by (simp_all add: serialized_wire(2)[OF wf2] incoming_response[OF wf2] r)
  obtain t1 where t1: "ok3" "0 \<le> t1" "next_keypair (dev_peer dr2) = derived_keypair be q t1"
    by (rule begin_session_completed[OF assms(1,6) _ _ _ _ _ s4]) (use fin(2) in \<open>auto simp: completed_def\<close>)
  obtain t2 where t2: "ok4" "0 \<le> t2" "current_keypair (dev_peer di3) = derived_keypair be (dev_peer d) t2"
    by (rule begin_session_completed[OF assms(1,5) _ _ _ _ _ s6[unfolded out(2)]]) (use fin(2) in \<open>auto simp: completed_def\<close>)
  have "h_local_index (handshake q) = j" "current_keypair q = current_keypair (dev_peer dr1)"
    using k'(3) j(3) by (auto simp: response_sent_def Let_def split: prod.splits)
  then show thesis
    using I(1) k'(1) t1 t2 out fin(2) fresh consume_initiation_keypairs[OF con] j(3) by (intro that[of t1 t2]) simp_all
qed

subsection \<open>Example devices\<close>

text \<open>Two devices of the example backend, configured with each other, and a clock that is not negative.\<close>

definition steady_platform :: "int platform" where
  "steady_platform = example_platform\<lparr>ktime_get_coarse_boottime_ns := (\<lambda>w. (max 0 w, w + 1000000000))\<rparr>"

definition example_peer :: wg_peer where
  "example_peer = wg_peer_init
     \<lparr>static_identity := \<lparr>static_private = \<lparr>key_bytes = ClampX25519PrivateKey (replicate 32 7), key_valid = True\<rparr>,
        static_public = \<lparr>key_bytes = replicate 32 2, key_valid = True\<rparr>,
        remote_static = \<lparr>key_bytes = replicate 32 2, key_valid = True\<rparr>, preshared_key = noise_key_init\<rparr>,
      handshake_material := noise_handshake_material_zero
        \<lparr>precomputed_static_static := \<lparr>key_bytes = replicate 32 1, key_valid = True\<rparr>\<rparr>\<rparr>"

definition example_device :: wg_device where
  "example_device = wg_device_zero\<lparr>dev_peer := example_peer, has_peer := True\<rparr>"

lemma example_laws:
  "dh_nonzero example_backend" "platform_laws steady_platform" "clock_nonneg steady_platform"
  by (simp_all add: dh_nonzero_def example_backend_def platform_laws_def clock_nonneg_def steady_platform_def example_platform_def)

lemma example_paired: "paired example_backend example_peer example_peer"
proof -
  have "wf_peer example_peer"
    using wf_zero
    by (simp add: example_peer_def wf_peer_def wf_identity_def wf_material_def wf_key_def noise_key_init_def
        noise_handshake_material_zero_def)
  moreover have "\<exists>k. length k = 32 \<and> key_bytes (static_private (static_identity example_peer)) = ClampX25519PrivateKey k"
    by (rule exI[of _ "replicate 32 7"]) (simp add: example_peer_def)
  ultimately show ?thesis
    by (simp add: paired_def configured_def) (simp add: example_peer_def peer_ready_def example_backend_def)
qed

lemma example_run:
  obtains ok1 m1 di1 g1 w1 dr1 g2 w2 ok2 m2 q w3 ok3 dr2 w4 oc di2 g3 w5 ok4 di3 w6 where
    "wg_device_create_handshake_initiation example_backend steady_platform example_device (7, 1) zero_initiation
       = (ok1, m1, di1, g1, w1)"
    "noise_handshake_consume_incoming_packet example_backend steady_platform
       (snd (SerializeHandshakeInitiation (zeros 148) m1)) example_device (9, 1) = (HPO_InitiationConsumed, dr1, g2, w2)"
    "noise_handshake_create_response example_backend steady_platform (dev_peer dr1) w2 zero_response = (ok2, m2, q, w3)"
    "noise_handshake_begin_session example_backend steady_platform (dr1\<lparr>dev_peer := q\<rparr>) w3 = (ok3, dr2, w4)"
    "noise_handshake_consume_incoming_packet example_backend steady_platform
       (snd (SerializeHandshakeResponse (zeros 92) m2)) di1 (g1, w1) = (oc, di2, g3, w5)"
    "noise_handshake_begin_session example_backend steady_platform di2 w5 = (ok4, di3, w6)"
    "hr_sender_index m2 \<noteq> hi_sender_index m1" "\<not> keypair_IsValid (current_keypair (dev_peer example_device))"
proof -
  note laws = crypto_laws_example example_laws(1)
  have dev: "paired example_backend (dev_peer example_device) (dev_peer example_device)" "has_peer example_device"
    using example_paired by (simp_all add: example_device_def)
  obtain ok1 m1 di1 g1 w1 where s1: "wg_device_create_handshake_initiation example_backend steady_platform example_device
      (7, 1) zero_initiation = (ok1, m1, di1, g1, w1)" by (rule prod_cases5)
  obtain p0 k ts where I: "paired example_backend p0 (dev_peer example_device)"
    "h_local_index (handshake p0) = fst (wg_device_allocate_index steady_platform example_device (7, 1))"
    "h_local_index (handshake p0) \<noteq> 0" "initiation_sent example_backend p0 (ClampX25519PrivateKey k) ts m1 (dev_peer di1)"
    "length k = 32" "length ts = 12" "wf_initiation m1" "hi_sender_index m1 = h_local_index (handshake p0)"
    by (rule initiator_device[OF laws(1) example_laws(2,1) dev s1])
  obtain okc q0 v0 where con: "noise_handshake_consume_initiation example_backend steady_platform m1 (dev_peer example_device) 1
      = (okc, q0, v0)" by (rule prod_cases3)
  have reg: "\<not> IsRegisteredIndex example_device i" "\<not> IsRegisteredIndex (example_device\<lparr>dev_peer := p\<rparr>) i" for p i
    by (simp_all add: IsRegisteredIndex_def example_device_def wg_device_zero_def wg_index_registry_init_def
        wg_index_registry_entry_init_def wg_device_lookup_index_slot_def GetRegistryEntry_def)
  have okc: "okc"
    using honest_initiation_result[OF laws I(1,3,4) refl I(5,6), of steady_platform 1] con
    by (simp add: example_device_def example_peer_def wg_peer_init_def noise_handshake_zero_def GetMonotonicTime_def steady_platform_def)
  obtain out dr1 g2 w2 where s2: "noise_handshake_consume_incoming_packet example_backend steady_platform
       (snd (SerializeHandshakeInitiation (zeros 148) m1)) example_device (9, 1) = (out, dr1, g2, w2)" by (rule prod_cases4)
  have R: "out = HPO_InitiationConsumed" "h_local_index (handshake (dev_peer dr1)) = 9"
    using responder_device[OF I(7) con s2] okc allocate_first[of 9 "example_device\<lparr>dev_peer := q0\<rparr>" steady_platform v0] reg
    by auto
  obtain ok2 m2 q w3 where s3: "noise_handshake_create_response example_backend steady_platform (dev_peer dr1) w2 zero_response
      = (ok2, m2, q, w3)" by (rule prod_cases4)
  obtain ok3 dr2 w4 where s4: "noise_handshake_begin_session example_backend steady_platform (dr1\<lparr>dev_peer := q\<rparr>) w3
      = (ok3, dr2, w4)" by (rule prod_cases3)
  obtain oc di2 g3 w5 where s5: "noise_handshake_consume_incoming_packet example_backend steady_platform
       (snd (SerializeHandshakeResponse (zeros 92) m2)) di1 (g1, w1) = (oc, di2, g3, w5)" by (rule prod_cases4)
  obtain ok4 di3 w6 where s6: "noise_handshake_begin_session example_backend steady_platform di2 w5 = (ok4, di3, w6)"
    by (rule prod_cases3)
  have "hi_sender_index m1 = 7" using I(2,8) allocate_first[of 7 example_device steady_platform 1] reg by simp
  moreover have "hr_sender_index m2 = 9"
  proof (rule response_created[OF laws(1) example_laws(2,1) _ s3, of "dev_peer di1"])
    show "half_open example_backend (dev_peer di1) (dev_peer dr1)"
      using initiation_phase[OF laws I(1,3,4) refl I(5,6)] responder_device(2)[OF I(7) con s2 okc] con okc by fastforce
  qed (simp add: response_sent_def Let_def R(2))
  moreover have "\<not> keypair_IsValid (current_keypair (dev_peer example_device))"
    by (simp add: example_device_def example_peer_def wg_peer_init_def)
  ultimately show thesis using R(1) by (intro that[OF s1 s2[unfolded R(1)] s3 s4 s5 s6]) simp_all
qed

lemma example_device_paired:
  "paired example_backend (dev_peer example_device) (dev_peer example_device)" "has_peer example_device"
  using example_paired by (simp_all add: example_device_def)

subsection \<open>Properties\<close>

text \<open>C1: Agreement. Two devices configured with each other's public key and the same preshared key run a
  handshake: the initiator creates an initiation, the responder accepts the packet, creates a response
  and derives its session, the initiator consumes the response packet and derives its session. Then
  every further call succeeds, and the current session of the initiator and the next session of the
  responder fit: each side sends with the key the other receives with, and each addresses the other's
  index. The random bytes, the worlds of the two sides and the earlier states of the devices are
  arbitrary; the responder's index only has to differ from the initiator's own and from that of the
  initiator's current session, as the initiator checks.\<close>

theorem handshake_agreement:
  assumes "crypto_laws be" "dh_nonzero be" "platform_laws pf1" "platform_laws pf2" "clock_nonneg pf1" "clock_nonneg pf2"
    and "paired be (dev_peer di) (dev_peer dr)" "has_peer di"
    and s1: "wg_device_create_handshake_initiation be pf1 di gw out1 = (ok1, m1, di1, gi, wi)"
    and s2: "noise_handshake_consume_incoming_packet be pf2 (snd (SerializeHandshakeInitiation (zeros 148) m1)) dr (g, v) =
      (HPO_InitiationConsumed, dr1, gr, v1)"
    and s3: "noise_handshake_create_response be pf2 (dev_peer dr1) v2 out2 = (ok2, m2, q, v3)"
    and s4: "noise_handshake_begin_session be pf2 (dr1\<lparr>dev_peer := q\<rparr>) v4 = (ok3, dr2, v5)"
    and new: "hr_sender_index m2 \<noteq> hi_sender_index m1"
      "keypair_IsValid (current_keypair (dev_peer di)) \<Longrightarrow> hr_sender_index m2 \<noteq> m_remote_index (current_keypair (dev_peer di))"
    and s5: "noise_handshake_consume_incoming_packet be pf1 (snd (SerializeHandshakeResponse (zeros 92) m2)) di1 (gi', wi') =
      (outcome, di2, gi2, wi2)"
    and s6: "noise_handshake_begin_session be pf1 di2 wi3 = (ok4, di3, wi4)"
  shows "ok1 \<and> ok2 \<and> ok3 \<and> outcome = HPO_ResponseConsumed \<and> ok4 \<and>
    sessions_match (current_keypair (dev_peer di3)) (next_keypair (dev_peer dr2))"
  using completed_sessions by (rule_tac agreement_run[OF assms]) simp_all

theorem handshake_agreement_witness:
  "\<exists>m1 di1 g1 w1 dr1 g2 w2 m2 q w3 dr2 w4 di2 g3 w5 di3 w6.
     wg_device_create_handshake_initiation example_backend steady_platform example_device (7, 1) zero_initiation
       = (True, m1, di1, g1, w1) \<and>
     noise_handshake_consume_incoming_packet example_backend steady_platform
       (snd (SerializeHandshakeInitiation (zeros 148) m1)) example_device (9, 1) = (HPO_InitiationConsumed, dr1, g2, w2) \<and>
     noise_handshake_create_response example_backend steady_platform (dev_peer dr1) w2 zero_response = (True, m2, q, w3) \<and>
     noise_handshake_begin_session example_backend steady_platform (dr1\<lparr>dev_peer := q\<rparr>) w3 = (True, dr2, w4) \<and>
     noise_handshake_consume_incoming_packet example_backend steady_platform
       (snd (SerializeHandshakeResponse (zeros 92) m2)) di1 (g1, w1) = (HPO_ResponseConsumed, di2, g3, w5) \<and>
     noise_handshake_begin_session example_backend steady_platform di2 w5 = (True, di3, w6) \<and>
     sessions_match (current_keypair (dev_peer di3)) (next_keypair (dev_peer dr2))"
proof (rule example_run)
  fix ok1 m1 di1 g1 w1 dr1 g2 w2 ok2 m2 q w3 ok3 dr2 w4 oc di2 g3 w5 ok4 di3 w6
  assume s: "wg_device_create_handshake_initiation example_backend steady_platform example_device (7, 1) zero_initiation
       = (ok1, m1, di1, g1, w1)"
    "noise_handshake_consume_incoming_packet example_backend steady_platform
       (snd (SerializeHandshakeInitiation (zeros 148) m1)) example_device (9, 1) = (HPO_InitiationConsumed, dr1, g2, w2)"
    "noise_handshake_create_response example_backend steady_platform (dev_peer dr1) w2 zero_response = (ok2, m2, q, w3)"
    "noise_handshake_begin_session example_backend steady_platform (dr1\<lparr>dev_peer := q\<rparr>) w3 = (ok3, dr2, w4)"
    "noise_handshake_consume_incoming_packet example_backend steady_platform
       (snd (SerializeHandshakeResponse (zeros 92) m2)) di1 (g1, w1) = (oc, di2, g3, w5)"
    "noise_handshake_begin_session example_backend steady_platform di2 w5 = (ok4, di3, w6)"
    "hr_sender_index m2 \<noteq> hi_sender_index m1" "\<not> keypair_IsValid (current_keypair (dev_peer example_device))"
  note handshake_agreement[OF crypto_laws_example example_laws(1,2,2,3,3) example_device_paired s(1-4,7) _ s(5,6)]
  with s show ?thesis by auto
qed

end
