(* ===== verification/WG_Freshness.thy ===== *)
theory WG_Freshness
  imports WG_Agreement
begin

text \<open>
  Which handshake packets a peer accepts: honest initiations exactly when they are newer than the last
  one and not too frequent, no initiation twice, and nothing changes when a packet is rejected. Also
  the exact effect of deriving a session.
\<close>

subsection \<open>Timestamps\<close>

lemma lex_less_irrefl [simp]: "\<not> lex_less xs xs"
  by (induction xs) simp_all

lemma lex_less_trans: "lex_less xs ys \<Longrightarrow> lex_less ys zs \<Longrightarrow> lex_less xs zs"
proof (induction xs ys arbitrary: zs rule: lex_less.induct)
  case (4 x xs y ys)
  then show ?case by (cases zs) (auto split: if_splits)
qed (auto elim: lex_less.elims)

text \<open>The timestamp a message decrypts to depends on the identity and the precomputed secret only.\<close>

definition initiation_checks :: "crypto_backend \<Rightarrow> message_handshake_initiation \<Rightarrow> wg_peer \<Rightarrow> bool \<times> consume_run" where
  "initiation_checks be src p = all_steps (butlast (consume_initiation_steps be src p)) consume_run_init"

definition carried_timestamp :: "crypto_backend \<Rightarrow> message_handshake_initiation \<Rightarrow> wg_peer \<Rightarrow> byte list" where
  "carried_timestamp be src p = cr_timestamp (snd (initiation_checks be src p))"

lemma initiation_steps_split:
  "all_steps (consume_initiation_steps be src p) consume_run_init =
     (case initiation_checks be src p of (ok, r) \<Rightarrow>
        (ok \<and> (has_last_initiation_timestamp (handshake p) \<longrightarrow>
           lex_less (last_initiation_timestamp (handshake p)) (cr_timestamp r)), r))"
proof -
  let ?steps = "consume_initiation_steps be src p"
  have "?steps = butlast ?steps @ [last ?steps]" by (simp add: consume_initiation_steps_def Let_def)
  then have "all_steps ?steps consume_run_init = all_steps (butlast ?steps @ [last ?steps]) consume_run_init" by simp
  also have "\<dots> = (case initiation_checks be src p of (ok, r) \<Rightarrow> if ok then all_steps [last ?steps] r else (False, r))"
    by (simp only: all_steps_append initiation_checks_def)
  finally show ?thesis
    by (auto simp: consume_initiation_steps_def Let_def guard_step_def split: prod.split)
qed

lemma carried_timestamp_cong:
  assumes "static_identity p' = static_identity p"
    and "precomputed_static_static (handshake_material p') = precomputed_static_static (handshake_material p)"
  shows "carried_timestamp be src p' = carried_timestamp be src p"
  using assms by (simp add: carried_timestamp_def initiation_checks_def consume_initiation_steps_def Let_def)

lemma consume_initiation_result:
  assumes "noise_handshake_consume_initiation be pf src p w = (ok, p', w')"
  shows "if ok then
      static_identity p' = static_identity p \<and>
      precomputed_static_static (handshake_material p') = precomputed_static_static (handshake_material p) \<and>
      has_last_initiation_timestamp (handshake p') \<and>
      last_initiation_timestamp (handshake p') = carried_timestamp be src p \<and>
      (has_last_initiation_timestamp (handshake p) \<longrightarrow>
         lex_less (last_initiation_timestamp (handshake p)) (carried_timestamp be src p))
    else p' = p"
  using assms
  by (auto simp: noise_handshake_consume_initiation_def initiation_steps_split carried_timestamp_def Let_def
      noise_handshake_transition_def split: prod.splits if_splits)

subsection \<open>Properties\<close>

text \<open>The messages that are accepted when a peer is given one after the other; between two of them the
  clock may have any value.\<close>

fun accepted_initiations ::
  "crypto_backend \<Rightarrow> 'w platform \<Rightarrow> (message_handshake_initiation \<times> 'w) list \<Rightarrow> wg_peer \<Rightarrow> message_handshake_initiation list" where
  "accepted_initiations be pf [] p = []"
| "accepted_initiations be pf ((src, w) # rest) p =
     (case noise_handshake_consume_initiation be pf src p w of (ok, p', _) \<Rightarrow>
        if ok then src # accepted_initiations be pf rest p' else accepted_initiations be pf rest p')"

lemma accepted_increase:
  "sorted_wrt lex_less (map (\<lambda>src. carried_timestamp be src p) (accepted_initiations be pf srcs p)) \<and>
   (has_last_initiation_timestamp (handshake p) \<longrightarrow>
     (\<forall>src \<in> set (accepted_initiations be pf srcs p).
        lex_less (last_initiation_timestamp (handshake p)) (carried_timestamp be src p)))"
proof (induction srcs arbitrary: p)
  case (Cons a srcs)
  obtain src w where a: "a = (src, w)" by (rule prod.exhaust)
  obtain ok p' w' where c: "noise_handshake_consume_initiation be pf src p w = (ok, p', w')" by (rule prod_cases3)
  note r = consume_initiation_result[OF c]
  show ?case
  proof (cases ok)
    case True
    then have eq: "carried_timestamp be s p' = carried_timestamp be s p" for s
      using r by (intro carried_timestamp_cong) simp_all
    show ?thesis
      using Cons.IH[of p'] r True lex_less_trans by (auto simp: a c eq)
  next
    case False
    then show ?thesis using Cons.IH[of p'] r by (simp add: a c)
  qed
qed simp

text \<open>C18: Replayed initiations. Whatever initiations a peer is given, in whatever order, as often as the
  sender likes and at whatever times, the ones it accepts are pairwise different, and their timestamps
  strictly increase. This holds for every crypto backend.\<close>

theorem no_initiation_accepted_twice:
  "distinct (accepted_initiations be pf srcs p) \<and>
   sorted_wrt lex_less (map (\<lambda>src. carried_timestamp be src p) (accepted_initiations be pf srcs p))"
proof -
  have "distinct xs" if "sorted_wrt lex_less (map f xs)" for f :: "message_handshake_initiation \<Rightarrow> byte list" and xs
    using that by (induction xs) auto
  then show ?thesis using accepted_increase[of be p pf srcs] by blast
qed

text \<open>C21: Accepted initiations. The initiation that a configured peer creates is accepted by the peer it is
  meant for exactly when its timestamp is newer than the last one accepted there and more than 20 ms
  have passed since then.\<close>

theorem honest_initiation_accepted_exactly:
  assumes "crypto_laws be" "dh_nonzero be" "platform_laws pf" "paired be p q" "h_local_index (handshake p) \<noteq> 0"
    and "noise_handshake_create_initiation be pf p w out = (ok, m, p1, w1)"
    and "GetMonotonicTime pf' v = (now, v1)"
  shows "ok \<and> (fst (noise_handshake_consume_initiation be pf' m q v) \<longleftrightarrow>
    (has_last_initiation_timestamp (handshake q) \<longrightarrow>
       lex_less (last_initiation_timestamp (handshake q)) (carried_timestamp be m q)) \<and>
    (0 < last_initiation_consumption (handshake q) \<longrightarrow> last_initiation_consumption (handshake q) + 20000000 < now))"
proof (rule initiation_created[OF assms(1,3,2,4,5,6)])
  fix k ts
  assume k: "ok" "length k = 32" "length ts = 12" "initiation_sent be p (ClampX25519PrivateKey k) ts m p1"
  have "carried_timestamp be m q = ts"
    by (rule honest_initiation_run[OF assms(1,2,4,5) k(4) refl k(2,3)])
      (auto simp: carried_timestamp_def initiation_steps_split split: prod.splits)
  then show ?thesis
    using k(1) honest_initiation_result[OF assms(1,2,4,5) k(4) refl k(2,3) assms(7)] by simp
qed

theorem honest_initiation_accepted_exactly_witness:
  "\<exists>m p1 w1. noise_handshake_create_initiation example_backend steady_platform
      (example_peer\<lparr>handshake := noise_handshake_zero\<lparr>h_local_index := 5\<rparr>\<rparr>) 1 zero_initiation = (True, m, p1, w1) \<and>
    fst (noise_handshake_consume_initiation example_backend steady_platform m example_peer 3)"
proof -
  let ?p = "example_peer\<lparr>handshake := noise_handshake_zero\<lparr>h_local_index := 5\<rparr>\<rparr>"
  have "wf_peer example_peer" using example_paired by (simp add: paired_def configured_def)
  then have "paired example_backend ?p example_peer"
    by (intro paired_update[OF example_paired]) (simp_all add: wf_peer_def noise_handshake_zero_def)
  moreover obtain ok m p1 w1 where c: "noise_handshake_create_initiation example_backend steady_platform ?p 1 zero_initiation
      = (ok, m, p1, w1)" by (rule prod_cases4)
  ultimately show ?thesis
    using honest_initiation_accepted_exactly[OF crypto_laws_example example_laws(1,2) _ _ c, of example_peer steady_platform 3 3 1000000003]
    by (auto simp: c example_peer_def wg_peer_init_def noise_handshake_zero_def GetMonotonicTime_def steady_platform_def)
qed

lemma consume_response_rejected:
  assumes "noise_handshake_consume_response be pf src d w = (ok, d', w')" "\<not> ok"
  shows "d' = d \<and> w' = w"
  using assms by (auto simp: noise_handshake_consume_response_def Let_def split: prod.splits if_splits)

text \<open>C22: Rejected packets. When a packet is rejected as a handshake packet, the device keeps its state: peer,
  transcript, sessions, cookie and indices. The only exception are cookie replies whose recomputation of
  the stored initiation's codes fails after the cookie was taken over.\<close>

theorem rejected_packet_changes_nothing:
  "case noise_handshake_consume_incoming_packet be pf packet d (g, w) of (outcome, d', g', w') \<Rightarrow>
     if outcome = HPO_Invalid \<and> pr_type (InspectMessageType packet) \<noteq> MT_CookieReply then d' = d \<and> g' = g
     else True"
proof -
  have init: "p' = p" if "noise_handshake_consume_initiation be pf m p w = (False, p', w')" for m p p' w'
    using consume_initiation_result[OF that] by simp
  have alloc: "i \<noteq> 0" if "wg_device_allocate_index pf d0 gw = (i, d1, gw')" for d0 gw i d1 gw'
    using allocate_index_fresh_aux[OF that] by simp
  show ?thesis
  proof (cases "pr_type (InspectMessageType packet)")
    case MT_HandshakeInitiation
    obtain r m where m: "ParseHandshakeInitiation packet zero_initiation = (r, m)" by (rule prod.exhaust)
    obtain ok p' w' where c: "noise_handshake_consume_initiation be pf m (dev_peer d) w = (ok, p', w')" by (rule prod_cases3)
    obtain i d1 g1 w1 where a: "wg_device_allocate_index pf (d\<lparr>dev_peer := p'\<rparr>) (g, w') = (i, d1, g1, w1)" by (rule prod_cases4)
    show ?thesis
      using init[of m "dev_peer d" p' w'] c alloc[OF a]
      by (cases ok) (simp_all add: noise_handshake_consume_incoming_packet_def MT_HandshakeInitiation Let_def m a)
  next
    case MT_HandshakeResponse
    obtain r m where m: "ParseHandshakeResponse packet zero_response = (r, m)" by (rule prod.exhaust)
    obtain ok d' w' where c: "noise_handshake_consume_response be pf m d w = (ok, d', w')" by (rule prod_cases3)
    show ?thesis
      using consume_response_rejected[OF c]
      by (cases ok) (simp_all add: noise_handshake_consume_incoming_packet_def MT_HandshakeResponse Let_def m c)
  qed (simp_all add: noise_handshake_consume_incoming_packet_def Let_def split: prod.splits)
qed

text \<open>C23: Deriving a session. It succeeds exactly when a response was created or received, the transcript key
  is there, both indices are set and the clock is not negative. An initiator then uses the new session at
  once and keeps the newest session it replaces as the previous one; a responder puts the new session
  next to its current one and gives up the previous one. The registry names exactly the sessions of the
  peer, the transcript is erased and the indices of the handshake are free. Otherwise nothing changes.\<close>

theorem begin_session_spec:
  assumes "crypto_laws be" "wf_peer (dev_peer d)"
  shows "case noise_handshake_begin_session be pf d w of (ok, d', w') \<Rightarrow>
    (let p = dev_peer d; p' = dev_peer d'; now = fst (GetMonotonicTime pf w); kp = derived_keypair be p now in
     ok = session_ready p now \<and>
     (if ok then
        keypair_IsValid kp \<and> registry_inv d' \<and> h_state (handshake p') = HS_SessionDerived \<and>
        h_local_index (handshake p') = 0 \<and> h_remote_index (handshake p') = 0 \<and>
        handshake_material p' = noise_handshake_material_zero
          \<lparr>precomputed_static_static := precomputed_static_static (handshake_material p)\<rparr> \<and>
        (if h_state (handshake p) = HS_ResponseReceived then
           current_keypair p' = kp \<and> \<not> keypair_IsValid (next_keypair p') \<and>
           previous_keypair p' = (if keypair_IsValid (next_keypair p) then next_keypair p else current_keypair p)
         else next_keypair p' = kp \<and> current_keypair p' = current_keypair p \<and> \<not> keypair_IsValid (previous_keypair p'))
      else d' = d))"
proof -
  define p where "p = dev_peer d"
  obtain now w1 where now: "GetMonotonicTime pf w = (now, w1)" by (rule prod.exhaust)
  have mat: "handshake_material (noise_handshake_clear_transcript (x\<lparr>handshake := h\<rparr>)) =
      noise_handshake_material_zero\<lparr>precomputed_static_static := precomputed_static_static (handshake_material p)\<rparr>"
    if "handshake_material x = handshake_material p" for x h
    using assms(2) that by (subst clear_transcript_material) (simp_all add: wf_peer_def p_def)
  have reg: "registry_inv ((wg_device_refresh_keypair_indices (Some x) (d\<lparr>dev_peer := x\<rparr>))
      \<lparr>dev_peer := noise_handshake_clear_transcript (x\<lparr>handshake := h\<rparr>)\<rparr>)" for x h
    using registry_inv_refresh[of "d\<lparr>dev_peer := x\<rparr>"] by (simp add: registry_inv_def)
  have rot: "handshake_material (rotate_keypairs b kp p) = handshake_material p" for b kp by (simp add: rotate_keypairs_def)
  obtain w' where "noise_handshake_begin_session be pf d w =
    (let p1 = rotate_keypairs (h_state (handshake p) = HS_ResponseReceived) (derived_keypair be p now) p;
         h = fst (snd (noise_handshake_transition pf HS_SessionDerived (handshake p) w1))
     in if session_ready p now
        then (True, (wg_device_refresh_keypair_indices (Some p1) (d\<lparr>dev_peer := p1\<rparr>))
                \<lparr>dev_peer := noise_handshake_clear_transcript (p1\<lparr>handshake := h\<rparr>)\<rparr>, w')
        else (False, d, w'))"
    using begin_session_eq[OF assms now] unfolding p_def by (metis (no_types, lifting))
  then show ?thesis
    using reg mat[OF rot] derived_keypair_IsValid[of be p now]
    by (auto simp: Let_def now session_ready_def rotate_keypairs_def noise_handshake_transition_def simp flip: p_def split: prod.splits)
qed

theorem begin_session_spec_witness:
  "case noise_handshake_begin_session example_backend steady_platform
      (example_device\<lparr>dev_peer := example_peer
         \<lparr>handshake := noise_handshake_zero\<lparr>h_state := HS_ResponseCreated, h_local_index := 3, h_remote_index := 4\<rparr>,
          handshake_material := noise_handshake_material_zero\<lparr>chaining_key := \<lparr>key_bytes = replicate 32 9, key_valid = True\<rparr>\<rparr>\<rparr>\<rparr>) 1 of
     (ok, d', w') \<Rightarrow> ok \<and> m_local_index (next_keypair (dev_peer d')) = 3"
proof -
  define d where "d = example_device\<lparr>dev_peer := example_peer
         \<lparr>handshake := noise_handshake_zero\<lparr>h_state := HS_ResponseCreated, h_local_index := 3, h_remote_index := 4\<rparr>,
          handshake_material := noise_handshake_material_zero\<lparr>chaining_key := \<lparr>key_bytes = replicate 32 9, key_valid = True\<rparr>\<rparr>\<rparr>\<rparr>"
  have "wf_peer example_peer" using example_paired by (simp add: paired_def configured_def)
  then have wf: "wf_peer (dev_peer d)"
    by (simp add: d_def wf_peer_def wf_material_def wf_key_def noise_handshake_material_zero_def noise_handshake_zero_def noise_key_init_def)
  have "session_ready (dev_peer d) 1" by (simp add: d_def session_ready_def)
  then show ?thesis
    using begin_session_spec[OF crypto_laws_example wf, of steady_platform 1] unfolding d_def[symmetric]
    by (auto simp: Let_def GetMonotonicTime_def steady_platform_def)
       (auto simp: d_def derived_keypair_def Establish_def Let_def split: prod.splits)
qed

end
