(* ===== verification/WG_Data.thy ===== *)
theory WG_Data
  imports WG_Agreement
begin

text \<open>
  Transport data packets: \<open>wireguard/data.hpp\<close> and \<open>wireguard/data.cpp\<close>. Creating a packet pads the
  payload, reserves a counter of the keypair and encrypts in place; consuming one checks keypair,
  header, counter and replay window before it decrypts, and commits the replay window only when the
  packet is authentic. \<open>std::size_t\<close> is 64 bits wide; the sum that may wrap is written with its
  modulus. The lemmas show the round trip over any network that delays, drops, repeats and reorders
  packets, and the exchange of data after a handshake.
\<close>

subsection \<open>Padding\<close>

abbreviation (input) TransportDataPaddingBlockSize :: nat where "TransportDataPaddingBlockSize \<equiv> 16"

abbreviation (input) SIZE_MAX :: nat where "SIZE_MAX \<equiv> 2 ^ 64 - 1"

definition GetPaddedTransportPayloadSize :: "nat \<Rightarrow> nat" where
  "GetPaddedTransportPayloadSize payload_size =
     (if payload_size = 0 then 0
      else ((payload_size + TransportDataPaddingBlockSize - 1) div TransportDataPaddingBlockSize)
             * TransportDataPaddingBlockSize)"

definition GetPaddedTransportPayloadSize_mtu :: "nat \<Rightarrow> nat \<Rightarrow> nat" where
  "GetPaddedTransportPayloadSize_mtu payload_size mtu =
     (if mtu = 0 \<or> payload_size = 0 then GetPaddedTransportPayloadSize payload_size
      else
        (let last_unit = (if payload_size > mtu then payload_size mod mtu else payload_size);
             padded_last_unit = ((last_unit + TransportDataPaddingBlockSize - 1) div TransportDataPaddingBlockSize)
                                  * TransportDataPaddingBlockSize
         in payload_size + (if padded_last_unit > mtu then mtu else padded_last_unit) - last_unit))"

subsection \<open>Results\<close>

datatype TransportDataError =
    TDE_None
  | TDE_InvalidArgument
  | TDE_InvalidKeypair
  | TDE_KeyExpired
  | TDE_InsufficientCapacity
  | TDE_InvalidPacket
  | TDE_ReceiverIndexMismatch
  | TDE_CounterExhausted
  | TDE_ReplayRejected
  | TDE_AuthenticationFailed

record TransportDataDecryptResult =
  dec_header :: message_transport_data
  dec_payload_size :: nat

definition TransportDataDecryptResult_init :: TransportDataDecryptResult where
  "TransportDataDecryptResult_init = \<lparr>dec_header = zero_transport_data, dec_payload_size = 0\<rparr>"

record TransportDataCreateResult =
  tdc_error :: TransportDataError
  tdc_packet_size :: nat
  tdc_counter :: u64

record IncomingTransportDataResult =
  itd_slot :: wg_index_slot
  itd_decrypt :: TransportDataDecryptResult
  promoted_next_keypair :: bool

definition IncomingTransportDataResult_init :: IncomingTransportDataResult where
  "IncomingTransportDataResult_init =
     \<lparr>itd_slot = IS_None, itd_decrypt = TransportDataDecryptResult_init, promoted_next_keypair = False\<rparr>"

definition GetTransportDataErrorName :: "TransportDataError \<Rightarrow> string" where
  "GetTransportDataErrorName e =
     (case e of
        TDE_None \<Rightarrow> ''none''
      | TDE_InvalidArgument \<Rightarrow> ''invalid_argument''
      | TDE_InvalidKeypair \<Rightarrow> ''invalid_keypair''
      | TDE_KeyExpired \<Rightarrow> ''key_expired''
      | TDE_InsufficientCapacity \<Rightarrow> ''insufficient_capacity''
      | TDE_InvalidPacket \<Rightarrow> ''invalid_packet''
      | TDE_ReceiverIndexMismatch \<Rightarrow> ''receiver_index_mismatch''
      | TDE_CounterExhausted \<Rightarrow> ''counter_exhausted''
      | TDE_ReplayRejected \<Rightarrow> ''replay_rejected''
      | TDE_AuthenticationFailed \<Rightarrow> ''authentication_failed'')"

definition BuildTransportNonce :: "u64 \<Rightarrow> byte list" where
  "BuildTransportNonce counter = put_bytes 4 (StoreLe64 counter) (zeros 12)"

definition CreateFailure :: "TransportDataError \<Rightarrow> TransportDataCreateResult" where
  "CreateFailure e = \<lparr>tdc_error = e, tdc_packet_size = 0, tdc_counter = 0\<rparr>"

subsection \<open>Creating packets\<close>

definition noise_create_transport_data_packet ::
  "crypto_backend \<Rightarrow> 'w platform \<Rightarrow> byte list \<Rightarrow> nat \<Rightarrow> byte list \<Rightarrow> noise_keypair \<Rightarrow> 'w \<Rightarrow>
   TransportDataCreateResult \<times> byte list \<times> noise_keypair \<times> 'w" where
  "noise_create_transport_data_packet be pf payload mtu output keypair w =
     (if length payload > SIZE_MAX - (TransportDataPaddingBlockSize - 1)
      then (CreateFailure TDE_InsufficientCapacity, output, keypair, w)
      else
        let padded_payload_size = GetPaddedTransportPayloadSize_mtu (length payload) mtu;
            required_size = (TransportDataHeaderSize + padded_payload_size + NoiseTagSize) mod 2 ^ 64 in
        if required_size < padded_payload_size \<or> length output < required_size
        then (CreateFailure TDE_InsufficientCapacity, output, keypair, w)
        else case GetMonotonicTime pf w of (now, w) \<Rightarrow>
          (case ReserveSendCounterAt now keypair 0 of (state, keypair, counter) \<Rightarrow>
            (case state of
               KSS_Invalid \<Rightarrow> (CreateFailure TDE_InvalidKeypair, output, keypair, w)
             | KSS_Expired \<Rightarrow> (CreateFailure TDE_KeyExpired, output, keypair, w)
             | KSS_CounterExhausted \<Rightarrow> (CreateFailure TDE_CounterExhausted, output, keypair, w)
             | KSS_Ready \<Rightarrow>
                 let header = \<lparr>td_type = SetMessageType MT_TransportData,
                               td_receiver_index = m_remote_index keypair, td_counter = counter\<rparr> in
                 case SerializeTransportDataHeader (take TransportDataHeaderSize output) header of (e, head) \<Rightarrow>
                   let output = put_bytes 0 head output in
                   if e \<noteq> PE_None then (CreateFailure TDE_InvalidPacket, output, keypair, w)
                   else
                     let plain = payload @ zeros (padded_payload_size - length payload);
                         output = put_bytes TransportDataHeaderSize plain output in
                     case chacha20poly1305_encrypt be padded_payload_size plain []
                            (key_bytes (m_sending_key keypair)) (BuildTransportNonce counter) of
                       None \<Rightarrow> (CreateFailure TDE_AuthenticationFailed, output, keypair, w)
                     | Some (ciphertext, tag) \<Rightarrow>
                         (\<lparr>tdc_error = TDE_None, tdc_packet_size = required_size, tdc_counter = counter\<rparr>,
                          put_bytes (TransportDataHeaderSize + padded_payload_size) tag
                            (put_bytes TransportDataHeaderSize ciphertext output),
                          keypair, w))))"

definition noise_create_keepalive_packet ::
  "crypto_backend \<Rightarrow> 'w platform \<Rightarrow> byte list \<Rightarrow> noise_keypair \<Rightarrow> 'w \<Rightarrow>
   TransportDataCreateResult \<times> byte list \<times> noise_keypair \<times> 'w" where
  "noise_create_keepalive_packet be pf output keypair w =
     noise_create_transport_data_packet be pf [] 0 output keypair w"

subsection \<open>Consuming packets\<close>

definition noise_consume_transport_data_packet ::
  "crypto_backend \<Rightarrow> 'w platform \<Rightarrow> byte list \<Rightarrow> noise_keypair \<Rightarrow> byte list \<Rightarrow> 'w \<Rightarrow>
   TransportDataError \<times> noise_keypair \<times> byte list \<times> TransportDataDecryptResult \<times> 'w" where
  "noise_consume_transport_data_packet be pf packet keypair out_payload w =
     (let fail = (\<lambda>e out w. (e, keypair, out, TransportDataDecryptResult_init, w)) in
      if \<not> keypair_IsValid keypair then fail TDE_InvalidKeypair out_payload w
      else case GetMonotonicTime pf w of (now, w) \<Rightarrow>
        if \<not> CanReceiveAt keypair now then fail TDE_KeyExpired out_payload w
        else case ParseTransportDataHeader packet zero_transport_data of (parsed, header) \<Rightarrow>
          if \<not> pr_success parsed \<or> length packet < TransportDataHeaderSize + NoiseTagSize
          then fail TDE_InvalidPacket out_payload w
          else if td_receiver_index header \<noteq> m_local_index keypair then fail TDE_ReceiverIndexMismatch out_payload w
          else if td_counter header \<ge> RejectAfterMessages then fail TDE_CounterExhausted out_payload w
          else
            let payload_size = length packet - TransportDataHeaderSize - NoiseTagSize in
            if payload_size > length out_payload then fail TDE_InsufficientCapacity out_payload w
            else case TryAdvance (td_counter header) (m_receive_replay_window keypair) of (advanced, candidate) \<Rightarrow>
              if \<not> advanced then fail TDE_ReplayRejected out_payload w
              else
                case chacha20poly1305_decrypt be (take payload_size out_payload)
                       (subspan TransportDataHeaderSize payload_size packet)
                       (subspan (TransportDataHeaderSize + payload_size) NoiseTagSize packet) []
                       (key_bytes (m_receiving_key keypair)) (BuildTransportNonce (td_counter header)) of
                  (authenticated, plain) \<Rightarrow>
                    let out_payload = put_bytes 0 plain out_payload in
                    if \<not> authenticated then fail TDE_AuthenticationFailed out_payload w
                    else (TDE_None, keypair\<lparr>m_receive_replay_window := candidate\<rparr>, out_payload,
                          \<lparr>dec_header = header, dec_payload_size = payload_size\<rparr>, w))"

text \<open>Writing through the pointer that \<open>wg_peer_keypair_for_slot\<close> returns.\<close>

definition set_keypair_for_slot :: "wg_index_slot \<Rightarrow> noise_keypair \<Rightarrow> wg_peer \<Rightarrow> wg_peer" where
  "set_keypair_for_slot slot kp p =
     (case slot of
        IS_CurrentKeypair \<Rightarrow> p\<lparr>current_keypair := kp\<rparr>
      | IS_NextKeypair \<Rightarrow> p\<lparr>next_keypair := kp\<rparr>
      | IS_PreviousKeypair \<Rightarrow> p\<lparr>previous_keypair := kp\<rparr>
      | IS_Handshake \<Rightarrow> p
      | IS_None \<Rightarrow> p)"

definition noise_consume_incoming_transport_data_packet ::
  "crypto_backend \<Rightarrow> 'w platform \<Rightarrow> byte list \<Rightarrow> wg_device \<Rightarrow> byte list \<Rightarrow> 'w \<Rightarrow>
   TransportDataError \<times> wg_device \<times> byte list \<times> IncomingTransportDataResult \<times> 'w" where
  "noise_consume_incoming_transport_data_packet be pf packet device out_payload w =
     (case ParseTransportDataHeader packet zero_transport_data of (parsed, header) \<Rightarrow>
        if \<not> pr_success parsed then (TDE_InvalidPacket, device, out_payload, IncomingTransportDataResult_init, w)
        else
          let slot = wg_device_lookup_index_slot device (td_receiver_index header) in
          case wg_peer_keypair_for_slot (dev_peer device) slot of
            None \<Rightarrow> (TDE_ReceiverIndexMismatch, device, out_payload, IncomingTransportDataResult_init, w)
          | Some keypair \<Rightarrow>
              case noise_consume_transport_data_packet be pf packet keypair out_payload w of
                (e, keypair, out_payload, decrypt, w) \<Rightarrow>
                  let device = device\<lparr>dev_peer := set_keypair_for_slot slot keypair (dev_peer device)\<rparr> in
                  if e \<noteq> TDE_None then (e, device, out_payload, IncomingTransportDataResult_init, w)
                  else
                    let (promoted, device) =
                          (if slot = IS_NextKeypair then wg_device_promote_next_keypair device else (False, device))
                    in (TDE_None, device, out_payload,
                        \<lparr>itd_slot = slot, itd_decrypt = decrypt, promoted_next_keypair = promoted\<rparr>, w))"


subsection \<open>Padding lemmas\<close>

lemma round_up_16: "n \<le> (n + 15) div 16 * 16" "(n + 15) div 16 * 16 \<le> n + (15 :: nat)"
  by simp_all

lemma padded_size_bounds:
  "n \<le> GetPaddedTransportPayloadSize_mtu n mtu" "GetPaddedTransportPayloadSize_mtu n mtu \<le> n + 15"
proof -
  have "n \<le> n + mtu - n mod mtu" if "0 < mtu" using mod_less_divisor[OF that, of n] by linarith
  then show "n \<le> GetPaddedTransportPayloadSize_mtu n mtu" "GetPaddedTransportPayloadSize_mtu n mtu \<le> n + 15"
    using round_up_16[of n] round_up_16[of "n mod mtu"]
    by (auto simp: GetPaddedTransportPayloadSize_mtu_def GetPaddedTransportPayloadSize_def Let_def)
qed

subsection \<open>The packet that is sent\<close>

definition padded_payload :: "nat \<Rightarrow> byte list \<Rightarrow> byte list" where
  "padded_payload mtu payload =
     payload @ zeros (GetPaddedTransportPayloadSize_mtu (length payload) mtu - length payload)"

definition sealed_packet :: "crypto_backend \<Rightarrow> noise_keypair \<Rightarrow> nat \<Rightarrow> u64 \<Rightarrow> byte list \<Rightarrow> byte list" where
  "sealed_packet be kp mtu c payload =
     wire_transport \<lparr>td_type = 4, td_receiver_index = m_remote_index kp, td_counter = c\<rparr> @
     (case be_aead_write_ietf be (key_bytes (m_sending_key kp)) (BuildTransportNonce c) [] (padded_payload mtu payload) of
        (ct, tag) \<Rightarrow> ct @ tag)"

lemma length_padded_payload [simp]:
  "length (padded_payload mtu payload) = GetPaddedTransportPayloadSize_mtu (length payload) mtu"
  using padded_size_bounds(1)[of "length payload" mtu] by (simp add: padded_payload_def)

lemma length_sealed_packet:
  "crypto_laws be \<Longrightarrow> length (sealed_packet be kp mtu c payload) = 32 + GetPaddedTransportPayloadSize_mtu (length payload) mtu"
  using ietf_laws(1)[of be "key_bytes (m_sending_key kp)" "BuildTransportNonce c" "[]" "padded_payload mtu payload"]
  by (auto simp: sealed_packet_def encode_lengths(4) wf_transport_def split: prod.splits)

definition send_error :: "KeypairSendState \<Rightarrow> TransportDataError" where
  "send_error s = (case s of KSS_Ready \<Rightarrow> TDE_None | KSS_Invalid \<Rightarrow> TDE_InvalidKeypair | KSS_Expired \<Rightarrow> TDE_KeyExpired
     | KSS_CounterExhausted \<Rightarrow> TDE_CounterExhausted)"

definition enough_room :: "byte list \<Rightarrow> nat \<Rightarrow> byte list \<Rightarrow> bool" where
  "enough_room payload mtu output \<longleftrightarrow>
     32 + GetPaddedTransportPayloadSize_mtu (length payload) mtu < 2 ^ 64 \<and>
     32 + GetPaddedTransportPayloadSize_mtu (length payload) mtu \<le> length output"

lemma required_size_room:
  fixes n out :: nat
  assumes "n < 2 ^ 64"
  shows "(16 + n + 16) mod 2 ^ 64 < n \<or> out < (16 + n + 16) mod 2 ^ 64 \<longleftrightarrow> \<not> (32 + n < 2 ^ 64 \<and> 32 + n \<le> out)"
proof (cases "32 + n < 2 ^ 64")
  case True
  then show ?thesis by (auto simp: add.commute)
next
  case False
  then have "(16 + n + 16) mod 2 ^ 64 = n + 32 - 2 ^ 64" using assms by (subst mod_if) auto
  then show ?thesis using False assms by auto
qed

lemma create_packet_eq:
  assumes "crypto_laws be" "GetMonotonicTime pf w = (now, w1)"
  shows "noise_create_transport_data_packet be pf payload mtu output kp w =
    (if \<not> enough_room payload mtu output then (CreateFailure TDE_InsufficientCapacity, output, kp, w)
     else if SendStateAt kp now \<noteq> KSS_Ready then (CreateFailure (send_error (SendStateAt kp now)), output, kp, w1)
     else (\<lparr>tdc_error = TDE_None, tdc_packet_size = 32 + GetPaddedTransportPayloadSize_mtu (length payload) mtu,
            tdc_counter = m_send_counter kp\<rparr>,
           sealed_packet be kp mtu (m_send_counter kp) payload @
             drop (32 + GetPaddedTransportPayloadSize_mtu (length payload) mtu) output,
           kp\<lparr>m_send_counter := m_send_counter kp + 1\<rparr>, w1))"
proof -
  let ?n = "GetPaddedTransportPayloadSize_mtu (length payload) mtu"
  let ?plain = "padded_payload mtu payload"
  obtain ct tag where aead: "be_aead_write_ietf be (key_bytes (m_sending_key kp)) (BuildTransportNonce (m_send_counter kp)) []
      ?plain = (ct, tag)" by (rule prod.exhaust)
  have len: "length ct = ?n" "length tag = 16" using ietf_laws(1)[OF assms(1) aead] by simp_all
  show ?thesis
  proof (cases "length payload > 2 ^ 64 - 1 - (16 - 1)")
    case True
    then have "\<not> enough_room payload mtu output"
      using padded_size_bounds(1)[of "length payload" mtu] by (simp add: enough_room_def)
    then show ?thesis using True by (simp add: noise_create_transport_data_packet_def)
  next
    case False
    then have "?n < 2 ^ 64" using padded_size_bounds(2)[of "length payload" mtu] by simp
    note room = required_size_room[OF this, of "length output", folded enough_room_def]
    show ?thesis
    proof (cases "enough_room payload mtu output \<and> SendStateAt kp now = KSS_Ready")
      case True
      let ?h = "\<lparr>td_type = 4, td_receiver_index = m_remote_index kp, td_counter = m_send_counter kp\<rparr>"
      have r: "32 + ?n < 2 ^ 64" "32 + ?n \<le> length output" using True by (simp_all add: enough_room_def)
      have "SerializeTransportDataHeader (take 16 output) ?h = (PE_None, wire_transport ?h)"
        using r by (subst SerializeTransportDataHeader_wf) (simp_all add: wf_transport_def)
      then show ?thesis
        using True False room r len
        by (simp add: noise_create_transport_data_packet_def assms(2) ReserveSendCounterAt_def
            chacha20poly1305_encrypt_def aead sealed_packet_def put_bytes_def encode_lengths(4) wf_transport_def
            min_absorb2 Let_def flip: padded_payload_def)
    next
      case no: False
      then show ?thesis
        using False room
        by (auto simp: noise_create_transport_data_packet_def assms(2) ReserveSendCounterAt_def send_error_def
            split: KeypairSendState.split)
    qed
  qed
qed


subsection \<open>Receiving\<close>

text \<open>The cases of a packet that is consumed, as a receiver with a valid keypair decides them.\<close>

definition opened_payload :: "crypto_backend \<Rightarrow> noise_keypair \<Rightarrow> byte list \<Rightarrow> u64 \<Rightarrow> byte list option" where
  "opened_payload be kp packet c =
     be_aead_read_ietf be (key_bytes (m_receiving_key kp)) (BuildTransportNonce c)
       (drop (length packet - 16) packet) [] (subspan 16 (length packet - 32) packet)"

lemma consume_packet_cases:
  assumes "noise_consume_transport_data_packet be pf packet kp out w = (e, kp', out', r, w')"
  shows "if e = TDE_None then
      keypair_IsValid kp \<and> CanReceiveAt kp (fst (GetMonotonicTime pf w)) \<and>
      ParseTransportDataHeader packet zero_transport_data = (MakeSuccess MT_TransportData, dec_header r) \<and>
      32 \<le> length packet \<and> td_receiver_index (dec_header r) = m_local_index kp \<and>
      td_counter (dec_header r) < RejectAfterMessages \<and>
      dec_payload_size r = length packet - 32 \<and> dec_payload_size r \<le> length out \<and>
      (\<exists>win. TryAdvance (td_counter (dec_header r)) (m_receive_replay_window kp) = (True, win) \<and>
        kp' = kp\<lparr>m_receive_replay_window := win\<rparr>) \<and>
      (\<exists>plain. opened_payload be kp packet (td_counter (dec_header r)) = Some plain \<and> out' = put_bytes 0 plain out)
    else kp' = kp \<and> r = TransportDataDecryptResult_init"
proof -
  obtain now w1 where now: "GetMonotonicTime pf w = (now, w1)" by (rule prod.exhaust)
  obtain pr h where h: "ParseTransportDataHeader packet zero_transport_data = (pr, h)" by (rule prod.exhaust)
  obtain adv cand where adv: "TryAdvance (td_counter h) (m_receive_replay_window kp) = (adv, cand)" by (rule prod.exhaust)
  have pr: "pr_success pr \<Longrightarrow> pr = MakeSuccess MT_TransportData" using transport.parse_sound[OF h] by blast
  have sub: "\<not> length packet < 32 \<Longrightarrow> subspan (length packet - 16) 16 packet = drop (length packet - 16) packet"
    by (simp add: subspan_def)
  show ?thesis
    using assms
    by (auto simp: noise_consume_transport_data_packet_def now h adv Let_def sub opened_payload_def
        chacha20poly1305_decrypt_def not_le dest: pr split: if_splits option.splits)
qed


text \<open>A keypair that receives what another one sends.\<close>

definition linked :: "noise_keypair \<Rightarrow> noise_keypair \<Rightarrow> bool" where
  "linked a b \<longleftrightarrow> keypair_IsValid b \<and> key_bytes (m_sending_key a) = key_bytes (m_receiving_key b) \<and>
     m_remote_index a = m_local_index b"

lemma sessions_linked: "sessions_match a b \<Longrightarrow> linked a b \<and> linked b a"
  by (simp add: sessions_match_def linked_def)

lemma consume_sealed:
  assumes laws: "crypto_laws be" and ab: "linked a b"
    and now: "GetMonotonicTime pf w = (now, w1)" "CanReceiveAt b now"
    and c: "c < RejectAfterMessages" and room: "length (sealed_packet be a mtu c payload) \<le> 32 + length out"
    and adv: "TryAdvance c (m_receive_replay_window b) = (ok, win)"
  shows "noise_consume_transport_data_packet be pf (sealed_packet be a mtu c payload) b out w =
    (if ok then (TDE_None, b\<lparr>m_receive_replay_window := win\<rparr>, put_bytes 0 (padded_payload mtu payload) out,
        \<lparr>dec_header = \<lparr>td_type = 4, td_receiver_index = m_local_index b, td_counter = c\<rparr>,
         dec_payload_size = length (padded_payload mtu payload)\<rparr>, w1)
     else (TDE_ReplayRejected, b, out, TransportDataDecryptResult_init, w1))"
proof -
  let ?h = "\<lparr>td_type = 4, td_receiver_index = m_local_index b, td_counter = c\<rparr>"
  let ?n = "length (padded_payload mtu payload)"
  let ?p = "sealed_packet be a mtu c payload"
  obtain ct tag where aead: "be_aead_write_ietf be (key_bytes (m_sending_key a)) (BuildTransportNonce c) []
      (padded_payload mtu payload) = (ct, tag)" by (rule prod.exhaust)
  have ab': "keypair_IsValid b" "m_remote_index a = m_local_index b" "key_bytes (m_receiving_key b) = key_bytes (m_sending_key a)"
    using ab by (simp_all add: linked_def)
  note A = ietf_laws(1)[OF laws aead]
  have p: "?p = wire_transport ?h @ ct @ tag" by (simp add: sealed_packet_def aead ab'(2))
  have wh: "length (wire_transport ?h) = 16" by (simp add: encode_lengths(4) wf_transport_def)
  have len: "length ?p - 16 - 16 = ?n" "\<not> length ?p < 32" using length_sealed_packet[OF laws] by simp_all
  have parse: "ParseTransportDataHeader ?p zero_transport_data = (MakeSuccess MT_TransportData, ?h)"
    unfolding p by (rule transport.parse_encode) (simp_all add: wf_transport_def)
  have parts: "subspan 16 ?n ?p = ct" "subspan (16 + ?n) 16 ?p = tag"
    using A wh by (simp_all add: p subspan_def)
  show ?thesis
    using ab' A c room len now(2)
    by (simp add: noise_consume_transport_data_packet_def now(1) parse adv parts chacha20poly1305_decrypt_def
        length_sealed_packet[OF laws] del: length_padded_payload)
qed


subsection \<open>Streams of packets\<close>

text \<open>Sending a list of payloads, each with the output buffer and the world of its call: counter, payload
  and bytes of the packets that are made.\<close>

fun transmitted ::
  "crypto_backend \<Rightarrow> 'w platform \<Rightarrow> nat \<Rightarrow> (byte list \<times> byte list \<times> 'w) list \<Rightarrow> noise_keypair \<Rightarrow>
   (u64 \<times> byte list \<times> byte list) list" where
  "transmitted be pf mtu [] kp = []"
| "transmitted be pf mtu ((payload, output, w) # es) kp =
     (case noise_create_transport_data_packet be pf payload mtu output kp w of (r, out, kp, w) \<Rightarrow>
        (if tdc_error r = TDE_None then [(tdc_counter r, payload, take (tdc_packet_size r) out)] else []) @
        transmitted be pf mtu es kp)"

text \<open>Receiving a list of packets, each with the payload buffer and the world of its call: the answers,
  with the payload delivered.\<close>

fun received ::
  "crypto_backend \<Rightarrow> 'w platform \<Rightarrow> (byte list \<times> byte list \<times> 'w) list \<Rightarrow> noise_keypair \<Rightarrow>
   (TransportDataError \<times> byte list) list" where
  "received be pf [] kp = []"
| "received be pf ((packet, out, w) # es) kp =
     (case noise_consume_transport_data_packet be pf packet kp out w of (e, kp, out, r, w) \<Rightarrow>
        (e, take (dec_payload_size r) out) # received be pf es kp)"

lemma sealed_packet_counter [simp]: "sealed_packet be (kp\<lparr>m_send_counter := c'\<rparr>) mtu c payload = sealed_packet be kp mtu c payload"
  by (simp add: sealed_packet_def)

lemma transmitted_sealed:
  assumes "crypto_laws be" "(c, payload, packet) \<in> set (transmitted be pf mtu es kp)"
  shows "packet = sealed_packet be kp mtu c payload \<and> c < RejectAfterMessages"
  using assms(2)
proof (induction es arbitrary: kp)
  case (Cons e es)
  obtain pl out w where e: "e = (pl, out, w)" by (rule prod_cases3)
  obtain now w1 where now: "GetMonotonicTime pf w = (now, w1)" by (rule prod.exhaust)
  have "SendStateAt kp now = KSS_Ready \<Longrightarrow> m_send_counter kp < RejectAfterMessages" by (simp add: SendStateAt_Ready)
  moreover have "send_error s = TDE_None \<longleftrightarrow> s = KSS_Ready" for s by (cases s) (simp_all add: send_error_def)
  ultimately show ?case
    using Cons.prems Cons.IH[of kp] Cons.IH[of "kp\<lparr>m_send_counter := m_send_counter kp + 1\<rparr>"]
    by (auto simp: e create_packet_eq[OF assms(1) now] CreateFailure_def length_sealed_packet[OF assms(1)]
        split: if_splits)
qed simp

text \<open>The answer to a packet the replay filter accepts or refuses.\<close>

definition filter_answer :: "nat \<Rightarrow> bool \<Rightarrow> byte list \<Rightarrow> TransportDataError \<times> byte list" where
  "filter_answer mtu ok payload = (if ok then (TDE_None, padded_payload mtu payload) else (TDE_ReplayRejected, []))"

lemma received_decisions:
  assumes laws: "crypto_laws be" and rel: "window_rel (m_receive_replay_window b) hS" and ab: "linked a b"
    and pkts: "\<And>x. x \<in> set arrivals \<Longrightarrow> cnt x < RejectAfterMessages \<and>
      CanReceiveAt b (fst (GetMonotonicTime pf (snd (buf x)))) \<and> length (padded_payload mtu (pay x)) \<le> length (fst (buf x))"
  shows "received be pf (map (\<lambda>x. (sealed_packet be a mtu (cnt x) (pay x), buf x)) arrivals) b =
    map2 (filter_answer mtu) (decisions window_spec hS (map (\<lambda>x. unat (cnt x)) arrivals)) (map pay arrivals)"
  using rel ab pkts
proof (induction arrivals arbitrary: b hS)
  case (Cons x arrivals)
  obtain out w where x: "buf x = (out, w)" by (rule prod.exhaust)
  obtain now w1 where now: "GetMonotonicTime pf w = (now, w1)" by (rule prod.exhaust)
  obtain ok win where adv: "TryAdvance (cnt x) (m_receive_replay_window b) = (ok, win)" by (rule prod.exhaust)
  obtain hS' where spec: "window_spec (unat (cnt x)) hS = (ok, hS')" and rel': "window_rel win hS'"
    using ring.advance_refines[OF Cons.prems(1) adv] by blast
  define b' where "b' = (if ok then b\<lparr>m_receive_replay_window := win\<rparr> else b)"
  have "\<not> ok \<Longrightarrow> hS' = hS" using spec by (cases hS) (auto simp: window_spec_def split: if_splits)
  then have rel2: "window_rel (m_receive_replay_window b') hS'" using rel' Cons.prems(1) by (simp add: b'_def)
  have link: "linked a b'" using Cons.prems(2) by (simp add: b'_def linked_def keypair_IsValid_def)
  have recv: "CanReceiveAt b' = CanReceiveAt b"
    by (rule ext) (auto simp: b'_def CanReceiveAt_def AgeAt_def keypair_IsValid_def Let_def)
  have ok: "cnt x < RejectAfterMessages" "CanReceiveAt b now" "length (padded_payload mtu (pay x)) \<le> length out"
    using Cons.prems(3)[of x] now by (simp_all add: x)
  have "length (sealed_packet be a mtu (cnt x) (pay x)) \<le> 32 + length out"
    using ok(3) by (simp add: length_sealed_packet[OF laws])
  note this_packet = consume_sealed[OF laws Cons.prems(2) now ok(2,1) this adv]
  have "received be pf (map (\<lambda>x. (sealed_packet be a mtu (cnt x) (pay x), buf x)) arrivals) b' =
    map2 (filter_answer mtu) (decisions window_spec hS' (map (\<lambda>x. unat (cnt x)) arrivals)) (map pay arrivals)"
    by (rule Cons.IH[OF rel2 link]) (use Cons.prems(3) recv in auto)
  then show ?case
    using ok(3) by (cases ok)
      (simp_all add: x this_packet spec b'_def put_bytes_def filter_answer_def TransportDataDecryptResult_init_def)
qed simp

lemma transmitted_counters:
  assumes "crypto_laws be"
  shows "sorted_wrt (<) (map fst (transmitted be pf mtu es kp)) \<and>
    (\<forall>x \<in> set (transmitted be pf mtu es kp). m_send_counter kp \<le> fst x)"
proof (induction es arbitrary: kp)
  case (Cons e es)
  obtain pl out w where e: "e = (pl, out, w)" by (rule prod_cases3)
  obtain now w1 where now: "GetMonotonicTime pf w = (now, w1)" by (rule prod.exhaust)
  let ?kp = "kp\<lparr>m_send_counter := m_send_counter kp + 1\<rparr>"
  have "m_send_counter kp < m_send_counter ?kp" if "SendStateAt kp now = KSS_Ready"
    using reject_no_wrap[of "m_send_counter kp"] that by (simp add: SendStateAt_Ready word_less_nat_alt)
  moreover have "send_error s = TDE_None \<longleftrightarrow> s = KSS_Ready" for s by (cases s) (simp_all add: send_error_def)
  ultimately show ?case
    using Cons.IH[of kp] Cons.IH[of ?kp]
    by (auto simp: e create_packet_eq[OF assms now] CreateFailure_def split: if_splits)
qed simp

lemma increasing_accepted:
  assumes "sorted_wrt (<) cs" "\<forall>c \<in> set cs. h < c"
  shows "decisions window_spec (h, S) cs = replicate (length cs) True"
  using assms by (induction cs arbitrary: h S) (simp_all add: window_spec_def)

lemma increasing_accepted_first:
  "sorted_wrt (<) cs \<Longrightarrow> decisions window_spec (0, {}) cs = replicate (length cs) True"
  by (cases cs) (auto simp: window_spec_def increasing_accepted)

text \<open>The counters of the packets a keypair accepts.\<close>

fun accepted_packets ::
  "crypto_backend \<Rightarrow> 'w platform \<Rightarrow> (byte list \<times> byte list \<times> 'w) list \<Rightarrow> noise_keypair \<Rightarrow> u64 list" where
  "accepted_packets be pf [] kp = []"
| "accepted_packets be pf ((packet, out, w) # es) kp =
     (case noise_consume_transport_data_packet be pf packet kp out w of (e, kp, out, r, w) \<Rightarrow>
        (if e = TDE_None then [td_counter (dec_header r)] else []) @ accepted_packets be pf es kp)"

lemma accepted_packets_fresh:
  assumes "window_rel (m_receive_replay_window kp) (h, S)"
  shows "distinct (accepted_packets be pf es kp) \<and> S \<inter> unat ` set (accepted_packets be pf es kp) = {} \<and>
    (\<forall>c \<in> set (accepted_packets be pf es kp). c < RejectAfterMessages)"
  using assms
proof (induction es arbitrary: kp h S)
  case (Cons x es)
  obtain packet out w where x: "x = (packet, out, w)" by (rule prod_cases3)
  obtain e kp' out' r w' where c: "noise_consume_transport_data_packet be pf packet kp out w = (e, kp', out', r, w')"
    by (rule prod_cases5)
  show ?case
  proof (cases "e = TDE_None")
    case True
    let ?c = "td_counter (dec_header r)"
    have C: "TryAdvance ?c (m_receive_replay_window kp) = (True, m_receive_replay_window kp')" "?c < RejectAfterMessages"
      using consume_packet_cases[OF c] True by auto
    then obtain h' S' where s: "window_spec (unat ?c) (h, S) = (True, (h', S'))"
      and rel: "window_rel (m_receive_replay_window kp') (h', S')"
      using ring.advance_refines[OF Cons.prems] by (metis prod.exhaust)
    have "S \<subseteq> S'" "unat ?c \<notin> S" "unat ?c \<in> S'"
      using s ring.rel_below[OF Cons.prems] by (auto simp: window_spec_def split: if_splits)
    then show ?thesis using Cons.IH[OF rel] C(2) True by (auto simp: x c)
  next
    case False
    then have "kp' = kp" using consume_packet_cases[OF c] by simp
    then show ?thesis using Cons.IH[OF Cons.prems] False by (simp add: x c)
  qed
qed simp

lemma Establish_window: "m_receive_replay_window (Establish l r t sk rk c ini noise_keypair_init) = ReplayWindow_init"
  by (simp add: Establish_def Let_def keypair_Reset_eq) (simp add: noise_keypair_init_def)

subsection \<open>Properties\<close>

text \<open>C2: A channel over an unreliable network. One side sends payloads; the packets made are delivered to
  the other side in any order, any number of times or not at all, each with a large enough buffer and
  within the lifetime of the keypair. Then the receiver takes exactly the decisions of the reference
  replay filter on the counters, each packet it accepts gives back the payload it was made of, with the
  zero padding, and each packet it refuses is refused as a replay. The counters of the packets made are
  strictly increasing, and packets that are delivered once and in order are all accepted.\<close>

theorem transport_channel:
  fixes arrivals :: "(nat \<times> byte list \<times> 'v) list"
  assumes laws: "crypto_laws be" and ab: "linked a b" and win: "m_receive_replay_window b = ReplayWindow_init"
    and arr: "\<forall>(i, out, w) \<in> set arrivals. i < length (transmitted be pf mtu es a) \<and>
      CanReceiveAt b (fst (GetMonotonicTime pf' w)) \<and>
      length (snd (snd (transmitted be pf mtu es a ! i))) \<le> 32 + length out"
  shows "let sent = transmitted be pf mtu es a;
      accept = decisions window_spec (0, {}) (map (\<lambda>x. unat (fst (sent ! fst x))) arrivals) in
    received be pf' (map (\<lambda>x. (snd (snd (sent ! fst x)), snd x)) arrivals) b =
      map2 (filter_answer mtu) accept (map (\<lambda>x. fst (snd (sent ! fst x))) arrivals) \<and>
    sorted_wrt (<) (map fst sent) \<and>
    (map fst arrivals = [0..<length sent] \<longrightarrow> accept = replicate (length sent) True)"
proof -
  define sent where "sent = transmitted be pf mtu es a"
  have at: "snd (snd (sent ! i)) = sealed_packet be a mtu (fst (sent ! i)) (fst (snd (sent ! i)))"
    "fst (sent ! i) < RejectAfterMessages" if "i < length sent" for i
    using transmitted_sealed[OF laws, of "fst (sent ! i)" "fst (snd (sent ! i))" "snd (snd (sent ! i))" pf mtu es a] that
    by (simp_all add: sent_def)
  have arr': "fst x < length sent" "CanReceiveAt b (fst (GetMonotonicTime pf' (snd (snd x))))"
    "length (snd (snd (sent ! fst x))) \<le> 32 + length (fst (snd x))" if "x \<in> set arrivals" for x
    using arr that by (auto simp: sent_def)
  have eq: "map (\<lambda>x. (snd (snd (sent ! fst x)), snd x)) arrivals =
      map (\<lambda>x. (sealed_packet be a mtu (fst (sent ! fst x)) (fst (snd (sent ! fst x))), snd x)) arrivals"
    using arr'(1) at(1) by simp
  have recv: "received be pf' (map (\<lambda>x. (snd (snd (sent ! fst x)), snd x)) arrivals) b =
    map2 (filter_answer mtu) (decisions window_spec (0, {}) (map (\<lambda>x. unat (fst (sent ! fst x))) arrivals))
      (map (\<lambda>x. fst (snd (sent ! fst x))) arrivals)"
    unfolding eq
  proof (rule received_decisions[OF laws _ ab])
    show "window_rel (m_receive_replay_window b) (0, {})" by (simp add: win window_rel_init)
    show "fst (sent ! fst x) < RejectAfterMessages \<and> CanReceiveAt b (fst (GetMonotonicTime pf' (snd (snd x)))) \<and>
        length (padded_payload mtu (fst (snd (sent ! fst x)))) \<le> length (fst (snd x))" if "x \<in> set arrivals" for x
      using arr'[OF that] at[of "fst x"] by (simp add: length_sealed_packet[OF laws])
  qed
  have inc: "sorted_wrt (<) (map fst sent)" using transmitted_counters[OF laws, of pf mtu es a] by (simp add: sent_def)
  have all: "decisions window_spec (0, {}) (map (\<lambda>x. unat (fst (sent ! fst x))) arrivals) = replicate (length sent) True"
    if order: "map fst arrivals = [0..<length sent]"
  proof -
    have "map (\<lambda>x. unat (fst (sent ! fst x))) arrivals = map (\<lambda>i. unat (fst (sent ! i))) (map fst arrivals)" by simp
    also have "\<dots> = map (\<lambda>x. unat (fst x)) sent" unfolding order by (rule nth_equalityI) simp_all
    finally have "map (\<lambda>x. unat (fst (sent ! fst x))) arrivals = map (\<lambda>x. unat (fst x)) sent" .
    moreover have "sorted_wrt (<) (map (\<lambda>x. unat (fst x)) sent)"
      using inc by (simp add: sorted_wrt_map word_less_nat_alt)
    ultimately show ?thesis using increasing_accepted_first[of "map (\<lambda>x. unat (fst x)) sent"] by simp
  qed
  show ?thesis unfolding Let_def sent_def[symmetric] by (intro conjI impI recv inc all)
qed


definition example_sender :: noise_keypair where
  "example_sender = Establish 3 4 0 \<lparr>key_bytes = replicate 32 9, key_valid = True\<rparr>
     \<lparr>key_bytes = replicate 32 8, key_valid = True\<rparr> 0 True noise_keypair_init"

definition example_receiver :: noise_keypair where
  "example_receiver = Establish 4 3 0 \<lparr>key_bytes = replicate 32 8, key_valid = True\<rparr>
     \<lparr>key_bytes = replicate 32 9, key_valid = True\<rparr> 0 False noise_keypair_init"

theorem transport_channel_witness:
  "received example_backend example_platform
     (map (\<lambda>i. (snd (snd (transmitted example_backend example_platform 0 [([1, 2], zeros 64, 5), ([3], zeros 64, 6)]
        example_sender ! i)), zeros 32, 7)) [1, 0, 1]) example_receiver =
   [(TDE_None, 3 # zeros 15), (TDE_None, [1, 2] @ zeros 14), (TDE_ReplayRejected, [])]"
proof -
  let ?es = "[([1, 2], zeros 64, 5), ([3], zeros 64, 6)] :: (byte list \<times> byte list \<times> int) list"
  let ?arr = "[(1, zeros 32, 7), (0, zeros 32, 7), (1, zeros 32, 7)] :: (nat \<times> byte list \<times> int) list"
  have link: "linked example_sender example_receiver"
    by (simp add: linked_def example_sender_def example_receiver_def Establish_def keypair_IsValid_def)
  have win: "m_receive_replay_window example_receiver = ReplayWindow_init"
    by (simp add: example_receiver_def Establish_window)
  have ready: "SendStateAt (example_sender\<lparr>m_send_counter := 1\<rparr>) 6 = KSS_Ready" "SendStateAt example_sender 5 = KSS_Ready"
    by (auto simp: SendStateAt_Ready example_sender_def Establish_def keypair_IsValid_def RejectAfterMessages_eq)
  have cnt: "m_send_counter example_sender = 0" by (simp add: example_sender_def Establish_def)
  have sent: "transmitted example_backend example_platform 0 ?es example_sender =
    [(0, [1, 2], sealed_packet example_backend example_sender 0 0 [1, 2]), (1, [3], sealed_packet example_backend example_sender 0 1 [3])]"
    by (simp add: create_packet_eq[OF crypto_laws_example] enough_room_def GetPaddedTransportPayloadSize_mtu_def
        GetPaddedTransportPayloadSize_def GetMonotonicTime_def ready length_sealed_packet[OF crypto_laws_example]
        example_platform_def cnt)
  have recv: "CanReceiveAt example_receiver (fst (GetMonotonicTime example_platform 7))"
    by (simp add: CanReceiveAt_def AgeAt_def example_receiver_def Establish_def keypair_IsValid_def GetMonotonicTime_def example_platform_def)
  have "\<forall>(i, out, w) \<in> set ?arr. i < length (transmitted example_backend example_platform 0 ?es example_sender) \<and>
      CanReceiveAt example_receiver (fst (GetMonotonicTime example_platform w)) \<and>
      length (snd (snd (transmitted example_backend example_platform 0 ?es example_sender ! i))) \<le> 32 + length out"
    unfolding sent using recv
    by (simp add: length_sealed_packet[OF crypto_laws_example] GetPaddedTransportPayloadSize_mtu_def GetPaddedTransportPayloadSize_def)
  note T = transport_channel[OF crypto_laws_example link win this, unfolded Let_def, THEN conjunct1]
  have pad: "padded_payload 0 [3] = 3 # zeros 15" "padded_payload 0 [1, 2] = [1, 2] @ zeros 14"
    by (simp_all add: padded_payload_def GetPaddedTransportPayloadSize_mtu_def GetPaddedTransportPayloadSize_def)
  show ?thesis
    unfolding sent using T[unfolded sent] by (simp add: filter_answer_def window_spec_def pad del: received.simps)
qed

text \<open>C3: No replay of transport packets. Whatever datagrams arrive, forged or recorded, and whenever they
  arrive, the packets a fresh keypair accepts have pairwise different counters below
  \<open>RejectAfterMessages\<close>. A datagram that is refused, for whatever reason, leaves the keypair with its
  replay window unchanged, so forged packets cannot move the window.\<close>

theorem transport_no_replay:
  "let kp = Establish l r t sk rk c ini noise_keypair_init in
   distinct (accepted_packets be pf es kp) \<and> list_all (\<lambda>c. c < RejectAfterMessages) (accepted_packets be pf es kp) \<and>
   (case noise_consume_transport_data_packet be pf packet kp' out w of (e, kp'', out', res, w') \<Rightarrow>
      if e = TDE_None then m_receive_replay_window kp'' = snd (TryAdvance (td_counter (dec_header res)) (m_receive_replay_window kp'))
      else kp'' = kp')"
proof -
  obtain e kp2 out' res w' where c: "noise_consume_transport_data_packet be pf packet kp' out w = (e, kp2, out', res, w')"
    by (rule prod_cases5)
  have "if e = TDE_None then m_receive_replay_window kp2 = snd (TryAdvance (td_counter (dec_header res)) (m_receive_replay_window kp'))
      else kp2 = kp'"
    using consume_packet_cases[OF c] by (cases "e = TDE_None") auto
  moreover have "distinct (accepted_packets be pf es (Establish l r t sk rk c ini noise_keypair_init)) \<and>
      (\<forall>c \<in> set (accepted_packets be pf es (Establish l r t sk rk c ini noise_keypair_init)). c < RejectAfterMessages)"
    using accepted_packets_fresh[of "Establish l r t sk rk c ini noise_keypair_init" 0 "{}" be pf es]
    by (simp add: Establish_window window_rel_init)
  ultimately show ?thesis unfolding c Let_def list_all_iff prod.case by blast
qed

end
