(* ===== verification/WG_Session.thy ===== *)
theory WG_Session
  imports WG_Freshness WG_Data
begin

text \<open>
  Handshake and transport together: the first data packets after a handshake, one in each direction. The
  responder finds the new keypair through the index registry, decrypts the packet and promotes the keypair;
  its answer is sent with the promoted keypair and found by the initiator under its current one.
\<close>

subsection \<open>A run of the handshake\<close>

text \<open>The six calls of a handshake between two devices, with arbitrary worlds in between. The index of the
  responder differs from the indices the initiator compares it with.\<close>

definition handshake_run ::
  "crypto_backend \<Rightarrow> 'v platform \<Rightarrow> 'w platform \<Rightarrow> wg_device \<Rightarrow> wg_device \<Rightarrow> wg_device \<Rightarrow> wg_device \<Rightarrow> bool" where
  "handshake_run be pf1 pf2 di dr di3 dr2 \<longleftrightarrow>
     (\<exists>gw out1 ok1 m1 di1 gi wi g v dr1 gr v1 v2 out2 ok2 m2 q v3 v4 ok3 v5 gi' wi' outcome di2 gi2 wi2 wi3 ok4 wi4.
        wg_device_create_handshake_initiation be pf1 di gw out1 = (ok1, m1, di1, gi, wi) \<and>
        noise_handshake_consume_incoming_packet be pf2 (snd (SerializeHandshakeInitiation (zeros 148) m1)) dr (g, v) =
          (HPO_InitiationConsumed, dr1, gr, v1) \<and>
        noise_handshake_create_response be pf2 (dev_peer dr1) v2 out2 = (ok2, m2, q, v3) \<and>
        noise_handshake_begin_session be pf2 (dr1\<lparr>dev_peer := q\<rparr>) v4 = (ok3, dr2, v5) \<and>
        hr_sender_index m2 \<noteq> hi_sender_index m1 \<and>
        (keypair_IsValid (current_keypair (dev_peer di)) \<longrightarrow> hr_sender_index m2 \<noteq> m_remote_index (current_keypair (dev_peer di))) \<and>
        noise_handshake_consume_incoming_packet be pf1 (snd (SerializeHandshakeResponse (zeros 92) m2)) di1 (gi', wi') =
          (outcome, di2, gi2, wi2) \<and>
        noise_handshake_begin_session be pf1 di2 wi3 = (ok4, di3, wi4))"

lemma responder_session:
  assumes "crypto_laws be" "wf_peer (dev_peer d)" "h_state (handshake (dev_peer d)) = HS_ResponseCreated"
    and "noise_handshake_begin_session be pf d w = (True, d', w')"
  obtains t kp where "kp = derived_keypair be (dev_peer d) t" "next_keypair (dev_peer d') = kp"
    "current_keypair (dev_peer d') = current_keypair (dev_peer d)"
    "index_registry d' = index_registry (wg_device_refresh_keypair_indices (Some ((dev_peer d)\<lparr>next_keypair := kp, previous_keypair := noise_keypair_init\<rparr>)) d)"
proof -
  obtain t w1 where t: "GetMonotonicTime pf w = (t, w1)" by (rule prod.exhaust)
  show thesis
    using begin_session_eq[OF assms(1,2) t] assms(3,4)
    by (intro that[OF refl, of t]) (auto simp: Let_def rotate_keypairs_def refresh_registry split: if_splits)
qed

lemma initiator_session:
  assumes "crypto_laws be" "wf_peer (dev_peer d)" "h_state (handshake (dev_peer d)) = HS_ResponseReceived"
    and "noise_handshake_begin_session be pf d w = (True, d', w')"
  obtains p where "current_keypair (dev_peer d') = current_keypair p"
    "index_registry d' = index_registry (wg_device_refresh_keypair_indices (Some p) d)"
proof -
  obtain t w1 where t: "GetMonotonicTime pf w = (t, w1)" by (rule prod.exhaust)
  let ?p = "rotate_keypairs True (derived_keypair be (dev_peer d) t) (dev_peer d)"
  show thesis
    using begin_session_eq[OF assms(1,2) t] assms(3,4)
    by (intro that[of ?p]) (auto simp: Let_def rotate_keypairs_def refresh_registry split: if_splits)
qed

lemma current_slot_found:
  assumes "index_registry d = index_registry (wg_device_refresh_keypair_indices (Some p) d0)" "keypair_IsValid (current_keypair p)"
  shows "wg_device_lookup_index_slot d (m_local_index (current_keypair p)) = IS_CurrentKeypair"
  using assms
  by (auto simp: wg_device_lookup_index_slot_def GetRegistryEntry_def refresh_registry Let_def wg_index_registry_entry_init_def
      keypair_IsValid_def)

lemma next_slot_found:
  assumes "index_registry d = index_registry (wg_device_refresh_keypair_indices (Some (p\<lparr>next_keypair := kp, previous_keypair := noise_keypair_init\<rparr>)) d0)"
    and "keypair_IsValid kp" "keypair_IsValid (current_keypair p) \<Longrightarrow> m_local_index (current_keypair p) \<noteq> m_local_index kp"
  shows "wg_device_lookup_index_slot d (m_local_index kp) = IS_NextKeypair"
  using assms
  by (auto simp: wg_device_lookup_index_slot_def GetRegistryEntry_def refresh_registry Let_def wg_index_registry_entry_init_def
      keypair_IsValid_def)

lemma incoming_sealed:
  assumes laws: "crypto_laws be" and ab: "linked a b"
    and slot: "wg_device_lookup_index_slot d (m_local_index b) = slot" "wg_peer_keypair_for_slot (dev_peer d) slot = Some b"
    and now: "GetMonotonicTime pf w = (now, w1)" "CanReceiveAt b now"
    and c: "c < RejectAfterMessages" and room: "length (sealed_packet be a mtu c payload) \<le> 32 + length out"
    and adv: "TryAdvance c (m_receive_replay_window b) = (True, win)"
  shows "noise_consume_incoming_transport_data_packet be pf (sealed_packet be a mtu c payload) d out w =
    (let d1 = d\<lparr>dev_peer := set_keypair_for_slot slot (b\<lparr>m_receive_replay_window := win\<rparr>) (dev_peer d)\<rparr>;
         (promoted, d2) = (if slot = IS_NextKeypair then wg_device_promote_next_keypair d1 else (False, d1))
     in (TDE_None, d2, put_bytes 0 (padded_payload mtu payload) out,
         \<lparr>itd_slot = slot, itd_decrypt =
           \<lparr>dec_header = \<lparr>td_type = 4, td_receiver_index = m_local_index b, td_counter = c\<rparr>,
            dec_payload_size = length (padded_payload mtu payload)\<rparr>, promoted_next_keypair = promoted\<rparr>, w1))"
proof -
  have "m_remote_index a = m_local_index b" using ab by (simp add: linked_def)
  then have "ParseTransportDataHeader (sealed_packet be a mtu c payload) zero_transport_data =
    (MakeSuccess MT_TransportData, \<lparr>td_type = 4, td_receiver_index = m_local_index b, td_counter = c\<rparr>)"
    unfolding sealed_packet_def by (simp add: transport.parse_encode wf_transport_def)
  then show ?thesis
    by (simp add: noise_consume_incoming_transport_data_packet_def slot consume_sealed[OF laws ab now c room adv] Let_def)
qed


lemma derived_fresh:
  "m_send_counter (derived_keypair be p t) = 0" "m_receive_replay_window (derived_keypair be p t) = ReplayWindow_init"
  "m_local_index (derived_keypair be p t) \<in> {0, h_local_index (handshake p)}" "0 \<le> t \<Longrightarrow> 0 \<le> m_birth_time (derived_keypair be p t)"
proof -
  have z: "m_send_counter noise_keypair_init = 0" "m_local_index noise_keypair_init = 0" "m_birth_time noise_keypair_init = 0"
    by (simp_all add: noise_keypair_init_def)
  show "m_send_counter (derived_keypair be p t) = 0" "m_receive_replay_window (derived_keypair be p t) = ReplayWindow_init"
    "m_local_index (derived_keypair be p t) \<in> {0, h_local_index (handshake p)}" "0 \<le> t \<Longrightarrow> 0 \<le> m_birth_time (derived_keypair be p t)"
    by (simp_all add: derived_keypair_def Let_def Establish_window split: prod.split)
       (auto simp: Establish_def Let_def keypair_Reset_eq z)
qed

text \<open>Everything about the two sessions that the first packet needs.\<close>

lemma handshake_run_sessions:
  assumes laws: "crypto_laws be" "dh_nonzero be" "platform_laws pf1" "platform_laws pf2" "clock_nonneg pf1" "clock_nonneg pf2"
    and dev: "paired be (dev_peer di) (dev_peer dr)" "has_peer di" and run: "handshake_run be pf1 pf2 di dr di3 dr2"
    and reg: "keypair_IsValid (current_keypair (dev_peer dr)) \<longrightarrow> IsRegisteredIndex dr (m_local_index (current_keypair (dev_peer dr)))"
  shows "sessions_match (current_keypair (dev_peer di3)) (next_keypair (dev_peer dr2))"
    and "m_send_counter (current_keypair (dev_peer di3)) = 0"
    and "m_receive_replay_window (next_keypair (dev_peer dr2)) = ReplayWindow_init"
    and "wg_device_lookup_index_slot dr2 (m_local_index (next_keypair (dev_peer dr2))) = IS_NextKeypair"
    and "current_keypair (dev_peer dr2) = current_keypair (dev_peer dr)"
    and "0 \<le> m_birth_time (current_keypair (dev_peer di3))" "0 \<le> m_birth_time (next_keypair (dev_peer dr2))"
    and "m_send_counter (next_keypair (dev_peer dr2)) = 0"
    and "m_receive_replay_window (current_keypair (dev_peer di3)) = ReplayWindow_init"
    and "wg_device_lookup_index_slot di3 (m_local_index (current_keypair (dev_peer di3))) = IS_CurrentKeypair"
proof -
  obtain gw out1 ok1 m1 di1 gi wi g v dr1 gr v1 v2 out2 ok2 m2 q v3 v4 ok3 v5 gi' wi' outcome di2 gi2 wi2 wi3 ok4 wi4 where
    s1: "wg_device_create_handshake_initiation be pf1 di gw out1 = (ok1, m1, di1, gi, wi)"
    and s2: "noise_handshake_consume_incoming_packet be pf2 (snd (SerializeHandshakeInitiation (zeros 148) m1)) dr (g, v) =
      (HPO_InitiationConsumed, dr1, gr, v1)"
    and s3: "noise_handshake_create_response be pf2 (dev_peer dr1) v2 out2 = (ok2, m2, q, v3)"
    and s4: "noise_handshake_begin_session be pf2 (dr1\<lparr>dev_peer := q\<rparr>) v4 = (ok3, dr2, v5)"
    and new: "hr_sender_index m2 \<noteq> hi_sender_index m1"
      "keypair_IsValid (current_keypair (dev_peer di)) \<Longrightarrow> hr_sender_index m2 \<noteq> m_remote_index (current_keypair (dev_peer di))"
    and s5: "noise_handshake_consume_incoming_packet be pf1 (snd (SerializeHandshakeResponse (zeros 92) m2)) di1 (gi', wi') =
      (outcome, di2, gi2, wi2)"
    and s6: "noise_handshake_begin_session be pf1 di2 wi3 = (ok4, di3, wi4)"
    using run unfolding handshake_run_def
    by (elim exE conjE) (rule that; (assumption | (drule (1) mp, assumption)))
  obtain t1 t2 where t: "0 \<le> t1" "0 \<le> t2" and fin: "ok3" "completed (dev_peer di2) q" "ok4"
    and kps: "current_keypair (dev_peer di3) = derived_keypair be (dev_peer di2) t2" "next_keypair (dev_peer dr2) = derived_keypair be q t1"
    and fresh: "h_local_index (handshake q) \<notin> registered dr" "current_keypair q = current_keypair (dev_peer dr)"
    by (rule agreement_run[OF laws dev s1 s2 s3 s4 new s5 s6])
  show match: "sessions_match (current_keypair (dev_peer di3)) (next_keypair (dev_peer dr2))"
    unfolding kps by (rule completed_sessions[OF fin(2) t(2,1)])
  show "m_send_counter (current_keypair (dev_peer di3)) = 0" "m_receive_replay_window (next_keypair (dev_peer dr2)) = ReplayWindow_init"
    "0 \<le> m_birth_time (current_keypair (dev_peer di3))" "0 \<le> m_birth_time (next_keypair (dev_peer dr2))"
    "m_send_counter (next_keypair (dev_peer dr2)) = 0" "m_receive_replay_window (current_keypair (dev_peer di3)) = ReplayWindow_init"
    using t by (simp_all only: kps derived_fresh)
  obtain p where "current_keypair (dev_peer di3) = current_keypair p"
    "index_registry di3 = index_registry (wg_device_refresh_keypair_indices (Some p) di2)"
    by (rule initiator_session[OF laws(1) _ _ s6[simplified fin(3)]]) (use fin in \<open>simp_all add: completed_def\<close>)
  then show "wg_device_lookup_index_slot di3 (m_local_index (current_keypair (dev_peer di3))) = IS_CurrentKeypair"
    using match current_slot_found[of di3 p di2] by (simp add: sessions_match_def)
  obtain t3 kp where kp: "next_keypair (dev_peer dr2) = kp" "current_keypair (dev_peer dr2) = current_keypair q"
    "index_registry dr2 = index_registry (wg_device_refresh_keypair_indices
       (Some (q\<lparr>next_keypair := kp, previous_keypair := noise_keypair_init\<rparr>)) (dr1\<lparr>dev_peer := q\<rparr>))"
    by (rule responder_session[OF laws(1) _ _ s4[simplified fin(1)]]) (use fin in \<open>auto simp: completed_def\<close>)
  show "current_keypair (dev_peer dr2) = current_keypair (dev_peer dr)" using kp(2) fresh(2) by simp
  have valid: "keypair_IsValid kp" using match kp(1) by (simp add: sessions_match_def)
  moreover have "m_local_index kp = h_local_index (handshake q)"
    using derived_fresh(3)[of be q t1] valid by (auto simp: keypair_IsValid_def simp flip: kp(1) kps(2))
  ultimately show "wg_device_lookup_index_slot dr2 (m_local_index (next_keypair (dev_peer dr2))) = IS_NextKeypair"
    unfolding kp(1) using reg fresh by (intro next_slot_found[OF kp(3)]) (auto simp: registered_def)
qed

text \<open>A fresh session that is alive can send, and the other side receives what it sends.\<close>

lemma fresh_send:
  assumes "crypto_laws be" "GetMonotonicTime pf w = (now, w1)" "CanReceiveAt kp now" "m_send_counter kp = 0" "enough_room payload mtu buf"
    and "noise_create_transport_data_packet be pf payload mtu buf kp w = (r, buf', kp', w')"
  shows "tdc_error r = TDE_None" "take (tdc_packet_size r) buf' = sealed_packet be kp mtu 0 payload" "kp' = kp\<lparr>m_send_counter := 1\<rparr>"
proof -
  have "SendStateAt kp now = KSS_Ready"
    using assms(3,4) by (simp add: CanReceiveAt_def SendStateAt_def Let_def RejectAfterMessages_eq)
  then show "tdc_error r = TDE_None" "take (tdc_packet_size r) buf' = sealed_packet be kp mtu 0 payload" "kp' = kp\<lparr>m_send_counter := 1\<rparr>"
    using assms(4-6) by (auto simp: create_packet_eq[OF assms(1,2)] length_sealed_packet[OF assms(1)])
qed

lemma fresh_receive:
  assumes "crypto_laws be" "linked a b" "wg_device_lookup_index_slot d (m_local_index b) = slot" "wg_peer_keypair_for_slot (dev_peer d) slot = Some b"
    and "CanReceiveAt b (fst (GetMonotonicTime pf v))" "m_receive_replay_window b = ReplayWindow_init" "length payload + 15 \<le> length out"
    and "noise_consume_incoming_transport_data_packet be pf (sealed_packet be a mtu 0 payload) d out v = (e, d', out', res, v')"
  obtains win where "e = TDE_None" "take (dec_payload_size (itd_decrypt res)) out' = padded_payload mtu payload" "itd_slot res = slot"
    "(promoted_next_keypair res, d') =
      (let d1 = d\<lparr>dev_peer := set_keypair_for_slot slot (b\<lparr>m_receive_replay_window := win\<rparr>) (dev_peer d)\<rparr>
       in if slot = IS_NextKeypair then wg_device_promote_next_keypair d1 else (False, d1))"
proof -
  obtain now v1 where now: "GetMonotonicTime pf v = (now, v1)" by (rule prod.exhaust)
  obtain ok win where adv: "TryAdvance 0 (m_receive_replay_window b) = (ok, win)" by (rule prod.exhaust)
  have ok: "ok" using ring.advance_refines[OF window_rel_init, of 0 ok win] adv assms(6) by (auto simp: window_spec_def)
  have room: "length (sealed_packet be a mtu 0 payload) \<le> 32 + length out"
    using assms(7) padded_size_bounds(2)[of "length payload" mtu] by (simp add: length_sealed_packet[OF assms(1)])
  have can: "CanReceiveAt b now" using assms(5) now by simp
  have zero: "(0 :: u64) < RejectAfterMessages" by (simp add: RejectAfterMessages_eq)
  have "n \<le> length out \<Longrightarrow> length xs = n \<Longrightarrow> take n (put_bytes 0 xs out) = xs" for n and xs :: "byte list"
    by (simp add: put_bytes_def)
  then show thesis
    using assms(8) incoming_sealed[OF assms(1-4) now can zero room adv[unfolded eqTrueI[OF ok]]] room
    by (intro that[of win]) (auto simp: Let_def length_sealed_packet[OF assms(1)] split: prod.splits if_splits)
qed

lemma lookup_of_registry: "wg_device_lookup_index_slot (d\<lparr>dev_peer := p\<rparr>) i = wg_device_lookup_index_slot d i"
  unfolding wg_device_lookup_index_slot_def by simp

text \<open>After the first packet: the sender has counted it, and the receiver has promoted the session.\<close>

lemma session_after_request:
  assumes laws: "crypto_laws be" "dh_nonzero be" "platform_laws pf1" "platform_laws pf2" "clock_nonneg pf1" "clock_nonneg pf2"
    and dev: "paired be (dev_peer di) (dev_peer dr)" "has_peer di" and run: "handshake_run be pf1 pf2 di dr di3 dr2"
    and reg: "keypair_IsValid (current_keypair (dev_peer dr)) \<longrightarrow> IsRegisteredIndex dr (m_local_index (current_keypair (dev_peer dr)))"
    and send: "CanReceiveAt (current_keypair (dev_peer di3)) (fst (GetMonotonicTime pf1 w))" "enough_room payload mtu buf"
      "noise_create_transport_data_packet be pf1 payload mtu buf (current_keypair (dev_peer di3)) w = (r, buf', a', w')"
    and recv: "CanReceiveAt (next_keypair (dev_peer dr2)) (fst (GetMonotonicTime pf2 v))" "length payload + 15 \<le> length out"
      "noise_consume_incoming_transport_data_packet be pf2 (take (tdc_packet_size r) buf') dr2 out v = (e, dr3, out', res, v')"
  shows "tdc_error r = TDE_None \<and> e = TDE_None \<and> take (dec_payload_size (itd_decrypt res)) out' = padded_payload mtu payload \<and>
    itd_slot res = IS_NextKeypair \<and> promoted_next_keypair res \<and> previous_keypair (dev_peer dr3) = current_keypair (dev_peer dr) \<and>
    a' = (current_keypair (dev_peer di3))\<lparr>m_send_counter := 1\<rparr> \<and>
    (\<exists>win. current_keypair (dev_peer dr3) = (next_keypair (dev_peer dr2))\<lparr>m_receive_replay_window := win\<rparr>)"
proof -
  define a b where "a = current_keypair (dev_peer di3)" and "b = next_keypair (dev_peer dr2)"
  note S = handshake_run_sessions[OF laws dev run reg, folded a_def b_def]
  obtain now w1 where now: "GetMonotonicTime pf1 w = (now, w1)" by (rule prod.exhaust)
  note sent = fresh_send[OF laws(1) now send(1)[unfolded now fst_conv] S(2)[unfolded a_def] send(2,3), folded a_def]
  have kb: "wg_peer_keypair_for_slot (dev_peer dr2) IS_NextKeypair = Some b" by (simp add: wg_peer_keypair_for_slot_def b_def)
  obtain win where got: "e = TDE_None" "take (dec_payload_size (itd_decrypt res)) out' = padded_payload mtu payload"
    "itd_slot res = IS_NextKeypair" "(promoted_next_keypair res, dr3) =
      (let d1 = dr2\<lparr>dev_peer := set_keypair_for_slot IS_NextKeypair (b\<lparr>m_receive_replay_window := win\<rparr>) (dev_peer dr2)\<rparr>
       in if IS_NextKeypair = IS_NextKeypair then wg_device_promote_next_keypair d1 else (False, d1))"
    by (rule fresh_receive[OF laws(1) conjunct1[OF sessions_linked[OF S(1)]] S(4) kb recv(1)[folded b_def] S(3) recv(2) recv(3)[unfolded sent(2)]])
  have "promoted_next_keypair res" "current_keypair (dev_peer dr3) = b\<lparr>m_receive_replay_window := win\<rparr>"
    "previous_keypair (dev_peer dr3) = current_keypair (dev_peer dr)"
    using got(4) S(1,5) by (auto simp: promote_eq set_keypair_for_slot_def sessions_match_def keypair_IsValid_def Let_def)
  then show ?thesis using sent(1,3) got(1-3) unfolding a_def b_def by blast
qed

subsection \<open>Properties\<close>

text \<open>C4: A request and its answer after a handshake. Two paired devices have run a handshake; whatever current session
  the responder had is registered. While the new sessions are alive and the buffers are large enough, the
  initiator's first packet is made; the responder finds its new keypair through the registry, delivers the payload
  with its padding and promotes the keypair, so that the session it had before becomes the previous one. The answer
  that the responder then makes with its current session is made too, and the initiator finds the session by its
  index and delivers the answer; the two current sessions fit at the end.\<close>

theorem data_after_handshake:
  assumes laws: "crypto_laws be" "dh_nonzero be" "platform_laws pf1" "platform_laws pf2" "clock_nonneg pf1" "clock_nonneg pf2"
    and dev: "paired be (dev_peer di) (dev_peer dr)" "has_peer di" and run: "handshake_run be pf1 pf2 di dr di3 dr2"
    and reg: "keypair_IsValid (current_keypair (dev_peer dr)) \<Longrightarrow> IsRegisteredIndex dr (m_local_index (current_keypair (dev_peer dr)))"
    and send: "CanReceiveAt (current_keypair (dev_peer di3)) (fst (GetMonotonicTime pf1 w))" "enough_room payload mtu buf"
      "noise_create_transport_data_packet be pf1 payload mtu buf (current_keypair (dev_peer di3)) w = (r, buf', a', w')"
    and recv: "CanReceiveAt (next_keypair (dev_peer dr2)) (fst (GetMonotonicTime pf2 v))" "length payload + 15 \<le> length out"
      "noise_consume_incoming_transport_data_packet be pf2 (take (tdc_packet_size r) buf') dr2 out v = (e, dr3, out', res, v')"
    and answer: "CanReceiveAt (current_keypair (dev_peer dr3)) (fst (GetMonotonicTime pf2 x))" "enough_room reply mtu2 buf2"
      "noise_create_transport_data_packet be pf2 reply mtu2 buf2 (current_keypair (dev_peer dr3)) x = (r2, buf2', b', x')"
    and recv2: "CanReceiveAt a' (fst (GetMonotonicTime pf1 y))" "length reply + 15 \<le> length out2"
      "noise_consume_incoming_transport_data_packet be pf1 (take (tdc_packet_size r2) buf2')
         (di3\<lparr>dev_peer := (dev_peer di3)\<lparr>current_keypair := a'\<rparr>\<rparr>) out2 y = (e2, di4, out2', res2, y')"
  shows "tdc_error r = TDE_None \<and> e = TDE_None \<and> take (dec_payload_size (itd_decrypt res)) out' = padded_payload mtu payload \<and>
    itd_slot res = IS_NextKeypair \<and> promoted_next_keypair res \<and> previous_keypair (dev_peer dr3) = current_keypair (dev_peer dr) \<and>
    tdc_error r2 = TDE_None \<and> e2 = TDE_None \<and> take (dec_payload_size (itd_decrypt res2)) out2' = padded_payload mtu2 reply \<and>
    itd_slot res2 = IS_CurrentKeypair \<and> \<not> promoted_next_keypair res2 \<and>
    sessions_match (current_keypair (dev_peer di4)) b'"
proof -
  define a b where "a = current_keypair (dev_peer di3)" and "b = next_keypair (dev_peer dr2)"
  have reg': "keypair_IsValid (current_keypair (dev_peer dr)) \<longrightarrow> IsRegisteredIndex dr (m_local_index (current_keypair (dev_peer dr)))"
    using reg by blast
  note S = handshake_run_sessions[OF laws dev run reg', folded a_def b_def]
  note first = session_after_request[OF laws dev run reg' send recv, folded a_def b_def]
  then obtain win where sent: "a' = a\<lparr>m_send_counter := 1\<rparr>" and pro: "current_keypair (dev_peer dr3) = b\<lparr>m_receive_replay_window := win\<rparr>"
    by blast
  obtain now2 x1 where now2: "GetMonotonicTime pf2 x = (now2, x1)" by (rule prod.exhaust)
  have b0: "m_send_counter (current_keypair (dev_peer dr3)) = 0" unfolding pro using S(8) by simp
  note replied = fresh_send[OF laws(1) now2 answer(1)[unfolded now2 fst_conv] b0 answer(2,3), unfolded pro]
  have link: "linked (b\<lparr>m_receive_replay_window := win\<rparr>) a'"
    using conjunct2[OF sessions_linked[OF S(1)]] unfolding sent by (simp add: linked_def keypair_IsValid_def)
  let ?d = "di3\<lparr>dev_peer := (dev_peer di3)\<lparr>current_keypair := a'\<rparr>\<rparr>"
  have slot: "wg_device_lookup_index_slot ?d (m_local_index a') = IS_CurrentKeypair"
    "wg_peer_keypair_for_slot (dev_peer ?d) IS_CurrentKeypair = Some a'" "m_receive_replay_window a' = ReplayWindow_init"
    using S(9,10) unfolding sent by (simp_all add: lookup_of_registry wg_peer_keypair_for_slot_def)
  obtain win2 where got: "e2 = TDE_None" "take (dec_payload_size (itd_decrypt res2)) out2' = padded_payload mtu2 reply"
    "itd_slot res2 = IS_CurrentKeypair" "(promoted_next_keypair res2, di4) =
      (let d1 = ?d\<lparr>dev_peer := set_keypair_for_slot IS_CurrentKeypair (a'\<lparr>m_receive_replay_window := win2\<rparr>) (dev_peer ?d)\<rparr>
       in if IS_CurrentKeypair = IS_NextKeypair then wg_device_promote_next_keypair d1 else (False, d1))"
    by (rule fresh_receive[OF laws(1) link slot(1,2) recv2(1) slot(3) recv2(2) recv2(3)[unfolded replied(2)]])
  have "sessions_match (current_keypair (dev_peer di4)) b'" "\<not> promoted_next_keypair res2"
    using got(4) S(1) unfolding sent replied(3)
    by (auto simp: set_keypair_for_slot_def sessions_match_def keypair_IsValid_def Let_def)
  then show ?thesis using first replied(1) got(1-3) by simp
qed

theorem data_after_handshake_witness:
  "\<exists>di3 dr2 r buf' a' w w' v e dr3 out' res v' r2 buf2' b' x x' e2 di4 out2' res2 y y'.
     handshake_run example_backend steady_platform steady_platform example_device example_device di3 dr2 \<and>
     noise_create_transport_data_packet example_backend steady_platform [1, 2] 0 (zeros 64) (current_keypair (dev_peer di3)) w
       = (r, buf', a', w') \<and>
     noise_consume_incoming_transport_data_packet example_backend steady_platform (take (tdc_packet_size r) buf') dr2 (zeros 32) v
       = (e, dr3, out', res, v') \<and>
     noise_create_transport_data_packet example_backend steady_platform [3] 0 (zeros 64) (current_keypair (dev_peer dr3)) x
       = (r2, buf2', b', x') \<and>
     noise_consume_incoming_transport_data_packet example_backend steady_platform (take (tdc_packet_size r2) buf2')
       (di3\<lparr>dev_peer := (dev_peer di3)\<lparr>current_keypair := a'\<rparr>\<rparr>) (zeros 32) y = (e2, di4, out2', res2, y') \<and>
     tdc_error r = TDE_None \<and> e = TDE_None \<and> take (dec_payload_size (itd_decrypt res)) out' = [1, 2] @ zeros 14 \<and>
     tdc_error r2 = TDE_None \<and> e2 = TDE_None \<and> take (dec_payload_size (itd_decrypt res2)) out2' = [3] @ zeros 15 \<and>
     sessions_match (current_keypair (dev_peer di4)) b'"
proof (rule example_run)
  fix ok1 m1 di1 g1 w1 dr1 g2 w2 ok2 m2 q w3 ok3 dr2 w4 oc di2 g3 w5 ok4 di3 w6
  assume s: "wg_device_create_handshake_initiation example_backend steady_platform example_device (7, 1) zero_initiation
       = (ok1, m1, di1, g1, w1)"
    "noise_handshake_consume_incoming_packet example_backend steady_platform
       (snd (SerializeHandshakeInitiation (zeros 148) m1)) example_device (9, 1) = (HPO_InitiationConsumed, dr1, g2, w2)"
    "noise_handshake_create_response example_backend steady_platform (dev_peer dr1) w2 zero_response = (ok2, m2, q, w3)"
    "noise_handshake_begin_session example_backend steady_platform (dr1\<lparr>dev_peer := q\<rparr>) w3 = (ok3, dr2, w4)"
    "noise_handshake_consume_incoming_packet example_backend steady_platform
       (snd (SerializeHandshakeResponse (zeros 92) m2)) di1 (g1, w1) = (oc, di2, g3, w5)"
    "noise_handshake_begin_session example_backend steady_platform di2 w5 = (ok4, di3, w6)"
    "hr_sender_index m2 \<noteq> hi_sender_index m1" "\<not> keypair_IsValid (current_keypair (dev_peer example_device))"
  note laws = crypto_laws_example example_laws(1,2,2,3,3) example_device_paired
  have run: "handshake_run example_backend steady_platform steady_platform example_device example_device di3 dr2"
    unfolding handshake_run_def using s by (intro exI conjI) (assumption | blast)+
  have reg: "keypair_IsValid (current_keypair (dev_peer example_device)) \<longrightarrow>
      IsRegisteredIndex example_device (m_local_index (current_keypair (dev_peer example_device)))" using s(8) by simp
  note S = handshake_run_sessions[OF laws run reg]
  let ?a = "current_keypair (dev_peer di3)" and ?b = "next_keypair (dev_peer dr2)"
  have clock: "fst (GetMonotonicTime steady_platform t) = t" if "0 \<le> t" for t
    using that by (simp add: GetMonotonicTime_def steady_platform_def)
  have alive: "CanReceiveAt kp (fst (GetMonotonicTime steady_platform (m_birth_time kp)))" if "keypair_IsValid kp" "0 \<le> m_birth_time kp" for kp
    using that by (simp add: clock CanReceiveAt_def AgeAt_def)
  have v: "keypair_IsValid ?a" "keypair_IsValid ?b" using S(1) by (simp_all add: sessions_match_def)
  have room: "enough_room [1, 2] 0 (zeros 64)" "enough_room [3] 0 (zeros 64)"
    by (simp_all add: enough_room_def GetPaddedTransportPayloadSize_mtu_def GetPaddedTransportPayloadSize_def)
  obtain r buf' a' w' where c: "noise_create_transport_data_packet example_backend steady_platform [1, 2] 0 (zeros 64) ?a
      (m_birth_time ?a) = (r, buf', a', w')" by (rule prod_cases4)
  obtain e dr3 out' res v' where d: "noise_consume_incoming_transport_data_packet example_backend steady_platform
      (take (tdc_packet_size r) buf') dr2 (zeros 32) (m_birth_time ?b) = (e, dr3, out', res, v')" by (rule prod_cases5)
  let ?c = "current_keypair (dev_peer dr3)"
  obtain r2 buf2' b' x' where c2: "noise_create_transport_data_packet example_backend steady_platform [3] 0 (zeros 64) ?c
      (m_birth_time ?c) = (r2, buf2', b', x')" by (rule prod_cases4)
  obtain e2 di4 out2' res2 y' where d2: "noise_consume_incoming_transport_data_packet example_backend steady_platform
      (take (tdc_packet_size r2) buf2') (di3\<lparr>dev_peer := (dev_peer di3)\<lparr>current_keypair := a'\<rparr>\<rparr>) (zeros 32) (m_birth_time a')
      = (e2, di4, out2', res2, y')" by (rule prod_cases5)
  note sent = session_after_request[OF laws run reg alive[OF v(1) S(6)] room(1) c alive[OF v(2) S(7)] _ d]
  have "CanReceiveAt ?c (fst (GetMonotonicTime steady_platform (m_birth_time ?c)))"
    "CanReceiveAt a' (fst (GetMonotonicTime steady_platform (m_birth_time a')))"
    using sent S(6,7) v alive[of a'] alive[of ?c] by (auto simp: keypair_IsValid_def)
  note T = data_after_handshake[OF laws run s(8)[THEN notE] alive[OF v(1) S(6)] room(1) c alive[OF v(2) S(7)] _ d this(1) room(2) c2 this(2) _ d2]
  have pad: "padded_payload 0 [1, 2] = [1, 2] @ zeros 14" "padded_payload 0 [3] = [3] @ zeros 15"
    by (simp_all add: padded_payload_def GetPaddedTransportPayloadSize_mtu_def GetPaddedTransportPayloadSize_def)
  show ?thesis
    by (intro exI conjI, rule run, rule c, rule d, rule c2, rule d2) (use T pad in simp_all)
qed

end
