(* ===== verification/WG_Controller.thy ===== *)
theory WG_Controller
  imports WG_Session
begin

text \<open>
  The peer controller, \<open>wireguard/peer_controller.hpp\<close> and \<open>peer_controller.cpp\<close>: what happens to the
  packet at the head of the staging queue after an attempt to send it, when a handshake is started or
  retried, and when a session is complete. Its one data member is the timer coordinator of
  \<open>WG_Timers\<close>. Every caller passes the peer that the device owns, so an operation takes the device
  alone; the pair \<open>gw\<close> is the global index counter with the world.
\<close>

subsection \<open>Outcomes\<close>

datatype OutboundSendOutcomeKind = OSK_Sent | OSK_KeyUnavailable | OSK_BuildFatal | OSK_TransportDropped | OSK_TransportFatal

record OutboundSendOutcome =
  oso_kind :: OutboundSendOutcomeKind
  oso_build_error :: TransportDataError

definition Outcome_Sent :: OutboundSendOutcome where
  "Outcome_Sent = \<lparr>oso_kind = OSK_Sent, oso_build_error = TDE_None\<rparr>"

definition Outcome_BuildFailed :: "TransportDataError \<Rightarrow> OutboundSendOutcome" where
  "Outcome_BuildFailed e =
     (let key_unavailable = (e = TDE_InvalidKeypair \<or> e = TDE_KeyExpired \<or> e = TDE_CounterExhausted)
      in \<lparr>oso_kind = (if key_unavailable then OSK_KeyUnavailable else OSK_BuildFatal), oso_build_error = e\<rparr>)"

definition Outcome_TransportDropped :: OutboundSendOutcome where
  "Outcome_TransportDropped = \<lparr>oso_kind = OSK_TransportDropped, oso_build_error = TDE_None\<rparr>"

definition Outcome_TransportFatal :: OutboundSendOutcome where
  "Outcome_TransportFatal = \<lparr>oso_kind = OSK_TransportFatal, oso_build_error = TDE_None\<rparr>"

datatype StagedPacketAction = SPA_Continue | SPA_InitiateHandshake | SPA_StopOnTerminalFailure

record StagedPacketTransition =
  spt_action :: StagedPacketAction
  spt_retired :: bool
  spt_disposition :: QueueDisposition
  spt_remaining :: nat

datatype HandshakeTransitionAction = HTA_Ignore | HTA_SendInitiation | HTA_Exhausted | HTA_Fatal

record HandshakeTransition =
  ht_action :: HandshakeTransitionAction
  ht_dropped_staged_packets :: nat

definition HandshakeTransition_of :: "HandshakeTransitionAction \<Rightarrow> HandshakeTransition" where
  "HandshakeTransition_of a = \<lparr>ht_action = a, ht_dropped_staged_packets = 0\<rparr>"

subsection \<open>Operations\<close>

definition ApplyStagedSendOutcome :: "OutboundSendOutcome \<Rightarrow> wg_peer \<Rightarrow> StagedPacketTransition \<times> wg_peer" where
  "ApplyStagedSendOutcome outcome p =
     (let (action, retire, disposition) =
            (case oso_kind outcome of
               OSK_Sent \<Rightarrow> (SPA_Continue, True, QD_Sent)
             | OSK_KeyUnavailable \<Rightarrow> (SPA_InitiateHandshake, False, QD_Sent)
             | OSK_TransportDropped \<Rightarrow> (SPA_Continue, True, QD_SendFailed)
             | OSK_BuildFatal \<Rightarrow> (SPA_StopOnTerminalFailure, False, QD_Sent)
             | OSK_TransportFatal \<Rightarrow> (SPA_StopOnTerminalFailure, False, QD_Sent));
          p = (if retire
               then p\<lparr>staged_outbound_packets := snd (Queue_Pop disposition (staged_outbound_packets p))\<rparr>
               else p)
      in (\<lparr>spt_action = action, spt_retired = retire, spt_disposition = disposition,
           spt_remaining = Queue_Size (staged_outbound_packets p)\<rparr>, p))"

text \<open>The message is written straight into \<open>peer.last_initiation\<close>: the old value goes in, and what the
  device made of it is stored back, also when it stopped half-way.\<close>

definition PrepareFreshInitiation ::
  "crypto_backend \<Rightarrow> 'w platform \<Rightarrow> bool \<Rightarrow> wg_device \<Rightarrow> u32 \<times> 'w \<Rightarrow> HandshakeTransition \<times> wg_device \<times> u32 \<times> 'w" where
  "PrepareFreshInitiation be pf begin_sequence d gw =
     (case wg_device_create_handshake_initiation be pf d gw (last_initiation (dev_peer d)) of (ok, m, d, gw) \<Rightarrow>
        let d = d\<lparr>dev_peer := (dev_peer d)\<lparr>last_initiation := m\<rparr>\<rparr> in
        if \<not> ok then (HandshakeTransition_of HTA_Fatal, d, gw)
        else (HandshakeTransition_of HTA_SendInitiation,
              (if begin_sequence then d\<lparr>dev_peer := wg_peer_begin_handshake_retry_sequence (dev_peer d)\<rparr> else d), gw))"

definition Controller_StartHandshake ::
  "crypto_backend \<Rightarrow> 'w platform \<Rightarrow> wg_device \<Rightarrow> u32 \<times> 'w \<Rightarrow> HandshakeTransition \<times> wg_device \<times> u32 \<times> 'w" where
  "Controller_StartHandshake be pf d gw =
     (let p = dev_peer d in
      if hr_active (handshake_retry p) \<and> pending (retransmit_handshake (timers p))
      then (HandshakeTransition_of HTA_Ignore, d, gw)
      else PrepareFreshInitiation be pf True d gw)"

definition HandleHandshakeRetryTimer ::
  "crypto_backend \<Rightarrow> 'w platform \<Rightarrow> wg_device \<Rightarrow> u32 \<times> 'w \<Rightarrow> HandshakeTransition \<times> wg_device \<times> u32 \<times> 'w" where
  "HandleHandshakeRetryTimer be pf d gw =
     (case wg_peer_handle_handshake_retry_timeout (dev_peer d) of (timeout, p) \<Rightarrow>
        let d = d\<lparr>dev_peer := p\<rparr> in
        (case hrt_action timeout of
           HRT_Ignore \<Rightarrow> (HandshakeTransition_of HTA_Ignore, d, gw)
         | HRT_Exhausted \<Rightarrow>
             (\<lparr>ht_action = HTA_Exhausted, ht_dropped_staged_packets = hrt_dropped_staged_packets timeout\<rparr>, d, gw)
         | HRT_Retry \<Rightarrow> PrepareFreshInitiation be pf False d gw))"

definition CompleteSession :: "crypto_backend \<Rightarrow> 'w platform \<Rightarrow> wg_device \<Rightarrow> 'w \<Rightarrow> bool \<times> wg_device \<times> 'w" where
  "CompleteSession be pf d w =
     (case noise_handshake_begin_session be pf d w of (ok, d, w) \<Rightarrow>
        if \<not> ok then (False, d, w)
        else (True, d\<lparr>dev_peer := wg_peer_complete_handshake_retry_sequence (dev_peer d)\<rparr>, w))"

definition DeriveResponderSession :: "crypto_backend \<Rightarrow> 'w platform \<Rightarrow> wg_device \<Rightarrow> 'w \<Rightarrow> bool \<times> wg_device \<times> 'w" where
  "DeriveResponderSession be pf d w = noise_handshake_begin_session be pf d w"

definition ConfirmResponderSession :: "wg_peer \<Rightarrow> wg_peer" where
  "ConfirmResponderSession p = wg_peer_complete_handshake_retry_sequence p"

end
