(* ===== verification/WG_InnerPacket.thy ===== *)
theory WG_InnerPacket
  imports WG_Endian
begin

text \<open>
  Inner IP packets: \<open>wireguard/inner_packet.cpp\<close>. Validation of IPv4 and IPv6 packets with and without
  transport padding, the Internet checksum, and the cryptokey routing check of a received packet's
  source address against the configured list of allowed networks, from its text. An out-parameter
  that receives a result is a component of the result; \<open>std::string_view\<close> searches are \<open>sv_find\<close>,
  \<open>sv_rfind\<close> and \<open>sv_substr\<close>, with \<open>None\<close> for \<open>npos\<close>.
\<close>

subsection \<open>Versions and errors\<close>

abbreviation (input) MaxInnerIpPacketSize :: nat where "MaxInnerIpPacketSize \<equiv> 1500"
abbreviation (input) MinimumIpv4HeaderSize :: nat where "MinimumIpv4HeaderSize \<equiv> 20"
abbreviation (input) Ipv6HeaderSize :: nat where "Ipv6HeaderSize \<equiv> 40"
abbreviation (input) MaximumPaddingSize :: nat where "MaximumPaddingSize \<equiv> 15"

text \<open>\<open>IPV_Unnamed\<close> is a value of the enum's underlying type that no enumerator names.\<close>

datatype InnerIpVersion = IPV_Unknown | IPV_Ipv4 | IPV_Ipv6 | IPV_Unnamed byte

definition InnerIpVersion_of :: "byte \<Rightarrow> InnerIpVersion" where
  "InnerIpVersion_of b =
     (if b = 0 then IPV_Unknown else if b = 4 then IPV_Ipv4 else if b = 6 then IPV_Ipv6 else IPV_Unnamed b)"

datatype InnerIpValidationError =
  IVE_None | IVE_TooShort | IVE_TooLarge | IVE_InvalidVersion | IVE_InvalidHeaderLength
  | IVE_LengthMismatch | IVE_InvalidHeaderChecksum | IVE_InvalidPadding

definition GetInnerIpValidationErrorName :: "InnerIpValidationError \<Rightarrow> string" where
  "GetInnerIpValidationErrorName e =
     (case e of IVE_None \<Rightarrow> ''none'' | IVE_TooShort \<Rightarrow> ''too_short'' | IVE_TooLarge \<Rightarrow> ''too_large''
      | IVE_InvalidVersion \<Rightarrow> ''invalid_version'' | IVE_InvalidHeaderLength \<Rightarrow> ''invalid_header_length''
      | IVE_LengthMismatch \<Rightarrow> ''length_mismatch''
      | IVE_InvalidHeaderChecksum \<Rightarrow> ''invalid_header_checksum'' | IVE_InvalidPadding \<Rightarrow> ''invalid_padding'')"

subsection \<open>Checksum\<close>

fun checksum_words :: "byte list \<Rightarrow> u32 \<Rightarrow> u32" where
  "checksum_words (a # b # rest) acc = checksum_words rest (acc + ucast (LoadBigEndian16 [a, b]))"
| "checksum_words [a] acc = acc + push_bit 8 (ucast a)"
| "checksum_words [] acc = acc"

text \<open>\<open>while ((sum >> 16U) != 0) sum = (sum & 0xFFFFU) + (sum >> 16U);\<close>\<close>

lemma drop_bit16_unat: "unat (drop_bit 16 (s :: u32)) = unat s div 65536"
  by (simp add: unat_drop_bit_div)

lemma and_FFFF_unat: "unat (s AND 0xFFFF :: u32) = unat s mod 65536"
proof -
  have "(0xFFFF :: u32) = mask 16" by (simp add: mask_eq_exp_minus_1)
  then have "s AND 0xFFFF = take_bit 16 s" by (simp add: take_bit_eq_mask)
  then show ?thesis by (simp add: unat_take_bit_mod)
qed

lemma fold_carry_unat: "unat ((s AND 0xFFFF) + drop_bit 16 s :: u32) = unat s mod 65536 + unat s div 65536"
proof -
  have "unat s < 4294967296" using unsigned_less[of s] by simp
  then have "unat s mod 65536 + unat s div 65536 < 4294967296" by simp
  then show ?thesis by (simp add: unat_plus_if' drop_bit16_unat and_FFFF_unat)
qed

function fold_carry :: "u32 \<Rightarrow> u32" where
  "fold_carry acc = (if drop_bit 16 acc \<noteq> 0 then fold_carry ((acc AND 0xFFFF) + drop_bit 16 acc) else acc)"
  by auto
termination
proof (relation "measure unat")
  fix acc :: u32
  assume "drop_bit 16 acc \<noteq> 0"
  then have "unat acc div 65536 \<noteq> 0" by (metis drop_bit16_unat unat_eq_zero)
  then show "((acc AND 0xFFFF) + drop_bit 16 acc, acc) \<in> measure unat"
    using div_mult_mod_eq[of "unat acc" 65536] by (simp only: in_measure fold_carry_unat)
qed simp

definition HasValidInternetChecksum :: "byte list \<Rightarrow> bool" where
  "HasValidInternetChecksum bytes = ((ucast (fold_carry (checksum_words bytes 0)) :: u16) = 0xFFFF)"

subsection \<open>Packet validation\<close>

definition ValidateInnerIpv4Packet :: "byte list \<Rightarrow> InnerIpValidationError" where
  "ValidateInnerIpv4Packet packet =
     (if length packet < MinimumIpv4HeaderSize then IVE_TooShort
      else if length packet > MaxInnerIpPacketSize then IVE_TooLarge
      else if drop_bit 4 (packet ! 0) \<noteq> 4 then IVE_InvalidVersion
      else
        (let header_size = unat (packet ! 0 AND 0x0F) * 4 in
         if header_size < MinimumIpv4HeaderSize \<or> header_size > length packet then IVE_InvalidHeaderLength
         else if unat (LoadBigEndian16 (drop 2 packet)) \<noteq> length packet then IVE_LengthMismatch
         else if \<not> HasValidInternetChecksum (take header_size packet) then IVE_InvalidHeaderChecksum
         else IVE_None))"

definition ValidateInnerIpv6Packet :: "byte list \<Rightarrow> InnerIpValidationError" where
  "ValidateInnerIpv6Packet packet =
     (if length packet < Ipv6HeaderSize then IVE_TooShort
      else if length packet > MaxInnerIpPacketSize then IVE_TooLarge
      else if drop_bit 4 (packet ! 0) \<noteq> 6 then IVE_InvalidVersion
      else
        (let payload_size = unat (LoadBigEndian16 (drop 4 packet)) in
         if Ipv6HeaderSize + payload_size \<noteq> length packet then IVE_LengthMismatch else IVE_None))"

definition ValidateInnerIpPacket :: "byte list \<Rightarrow> InnerIpValidationError \<times> InnerIpVersion" where
  "ValidateInnerIpPacket packet =
     (if packet = [] then (IVE_TooShort, IPV_Unknown)
      else
        (let version = InnerIpVersion_of (drop_bit 4 (packet ! 0));
             result = (case version of
                         IPV_Ipv4 \<Rightarrow> ValidateInnerIpv4Packet packet
                       | IPV_Ipv6 \<Rightarrow> ValidateInnerIpv6Packet packet
                       | _ \<Rightarrow> IVE_InvalidVersion)
         in (result, if result = IVE_None then version else IPV_Unknown)))"

definition GetUnpaddedPacketSize :: "byte list \<Rightarrow> nat" where
  "GetUnpaddedPacketSize payload =
     (if payload = [] then 0
      else case InnerIpVersion_of (drop_bit 4 (payload ! 0)) of
             IPV_Ipv4 \<Rightarrow> if length payload \<ge> 4 then unat (LoadBigEndian16 (drop 2 payload)) else 0
           | IPV_Ipv6 \<Rightarrow> if length payload \<ge> Ipv6HeaderSize
                         then Ipv6HeaderSize + unat (LoadBigEndian16 (drop 4 payload)) else 0
           | _ \<Rightarrow> 0)"

definition ValidatePaddedInnerIpv4Packet :: "byte list \<Rightarrow> InnerIpValidationError \<times> nat" where
  "ValidatePaddedInnerIpv4Packet payload =
     (if length payload < MinimumIpv4HeaderSize then (IVE_TooShort, 0)
      else
        (let packet_size = unat (LoadBigEndian16 (drop 2 payload)) in
         if packet_size < MinimumIpv4HeaderSize then (IVE_LengthMismatch, 0)
         else if packet_size > MaxInnerIpPacketSize then (IVE_TooLarge, 0)
         else if packet_size > length payload then (IVE_LengthMismatch, 0)
         else if length payload - packet_size > MaximumPaddingSize then (IVE_InvalidPadding, 0)
         else if \<not> list_all (\<lambda>b. b = 0) (drop packet_size payload) then (IVE_InvalidPadding, 0)
         else
           (let validation = ValidateInnerIpv4Packet (take packet_size payload) in
            if validation \<noteq> IVE_None then (validation, 0) else (IVE_None, packet_size))))"

definition ValidatePaddedInnerIpPacket ::
  "byte list \<Rightarrow> InnerIpValidationError \<times> nat \<times> InnerIpVersion" where
  "ValidatePaddedInnerIpPacket payload =
     (if payload = [] then (IVE_TooShort, 0, IPV_Unknown)
      else
        (let early = (case InnerIpVersion_of (drop_bit 4 (payload ! 0)) of
                IPV_Ipv4 \<Rightarrow> if length payload < MinimumIpv4HeaderSize then Some IVE_TooShort else None
              | IPV_Ipv6 \<Rightarrow> if length payload < Ipv6HeaderSize then Some IVE_TooShort else None
              | _ \<Rightarrow> Some IVE_InvalidVersion)
         in case early of
              Some e \<Rightarrow> (e, 0, IPV_Unknown)
            | None \<Rightarrow>
                (let packet_size = GetUnpaddedPacketSize payload in
                 if packet_size = 0 then (IVE_LengthMismatch, 0, IPV_Unknown)
                 else if packet_size > MaxInnerIpPacketSize then (IVE_TooLarge, 0, IPV_Unknown)
                 else if packet_size > length payload then (IVE_LengthMismatch, 0, IPV_Unknown)
                 else if length payload - packet_size > MaximumPaddingSize
                 then (IVE_InvalidPadding, 0, IPV_Unknown)
                 else if \<not> list_all (\<lambda>b. b = 0) (drop packet_size payload)
                 then (IVE_InvalidPadding, 0, IPV_Unknown)
                 else case ValidateInnerIpPacket (take packet_size payload) of
                        (validation, version) \<Rightarrow>
                          if validation \<noteq> IVE_None then (validation, 0, version)
                          else (IVE_None, packet_size, version))))"

subsection \<open>Allowed networks\<close>

definition sv_find :: "char \<Rightarrow> string \<Rightarrow> nat \<Rightarrow> nat option" where
  "sv_find ch s off =
     (let i = off + length (takeWhile (\<lambda>c. c \<noteq> ch) (drop off s)) in if i < length s then Some i else None)"

definition sv_rfind :: "char \<Rightarrow> string \<Rightarrow> nat option" where
  "sv_rfind ch s =
     (let k = length (takeWhile (\<lambda>c. c \<noteq> ch) (rev s)) in if k < length s then Some (length s - 1 - k) else None)"

definition sv_substr :: "string \<Rightarrow> nat \<Rightarrow> nat option \<Rightarrow> string" where
  "sv_substr s off count = (case count of None \<Rightarrow> drop off s | Some n \<Rightarrow> take n (drop off s))"

record AllowedIp =
  ai_address :: "byte list"
  ai_size :: byte
  ai_prefix :: byte

definition AllowedIp_init :: AllowedIp where
  "AllowedIp_init = \<lparr>ai_address = zeros 16, ai_size = 0, ai_prefix = 0\<rparr>"

definition is_blank :: "char \<Rightarrow> bool" where
  "is_blank ch = (ch = CHR '' '' \<or> ch = CHR 0x09)"

definition Trim :: "string \<Rightarrow> string" where
  "Trim value = (let value = dropWhile is_blank value in rev (dropWhile is_blank (rev value)))"

fun ParseDecimal_digits :: "string \<Rightarrow> u32 \<Rightarrow> u32 \<Rightarrow> u32 option" where
  "ParseDecimal_digits [] maximum parsed = Some parsed"
| "ParseDecimal_digits (ch # chs) maximum parsed =
     (if of_char ch < (48 :: int) \<or> of_char ch > (57 :: int) then None
      else
        (let parsed = parsed * 10 + (of_char ch - 48) in
         if parsed > maximum then None else ParseDecimal_digits chs maximum parsed))"

definition ParseDecimal :: "string \<Rightarrow> u32 \<Rightarrow> u32 option" where
  "ParseDecimal value maximum = (if value = [] then None else ParseDecimal_digits value maximum 0)"

text \<open>The component of \<open>value\<close> from \<open>offset\<close> up to the delimiter, if there is one.\<close>

definition component_at :: "string \<Rightarrow> nat \<Rightarrow> nat option \<Rightarrow> string" where
  "component_at value offset delimiter =
     sv_substr value offset (case delimiter of None \<Rightarrow> None | Some d \<Rightarrow> Some (d - offset))"

text \<open>The loop over \<open>index = 0 .. 3\<close>, with \<open>left = 4 - index\<close> passes left.\<close>

fun ParseIpv4_loop :: "nat \<Rightarrow> nat \<Rightarrow> string \<Rightarrow> byte list \<Rightarrow> bool \<times> byte list" where
  "ParseIpv4_loop 0 offset value out = (False, out)"
| "ParseIpv4_loop (Suc left) offset value out =
     (let index = 3 - left;
          delimiter = sv_find (CHR ''.'') value offset
      in case ParseDecimal (component_at value offset delimiter) 255 of
           None \<Rightarrow> (False, out)
         | Some parsed \<Rightarrow>
             (let out = out[index := ucast parsed] in
              if index = 3 then (delimiter = None, out)
              else case delimiter of
                     None \<Rightarrow> (False, out)
                   | Some d \<Rightarrow> ParseIpv4_loop left (d + 1) value out))"

definition ParseIpv4Address :: "string \<Rightarrow> byte list \<Rightarrow> bool \<times> byte list" where
  "ParseIpv4Address value out = ParseIpv4_loop 4 0 value out"

definition hex_digit :: "char \<Rightarrow> u32" where
  "hex_digit ch =
     (let n = (of_char ch :: int) in
      if 48 \<le> n \<and> n \<le> 57 then of_char ch - 48
      else if 97 \<le> n \<and> n \<le> 102 then of_char ch - 97 + 10
      else if 65 \<le> n \<and> n \<le> 70 then of_char ch - 65 + 10
      else 16)"

fun ParseHex :: "string \<Rightarrow> u32 \<Rightarrow> u32 option" where
  "ParseHex [] parsed = Some parsed"
| "ParseHex (ch # chs) parsed =
     (let digit = hex_digit ch in
      if digit = 16 then None else ParseHex chs (push_bit 4 parsed OR digit))"

lemma sv_find_ge: "sv_find ch s off = Some d \<Longrightarrow> off \<le> d \<and> d < length s"
  by (auto simp: sv_find_def Let_def split: if_splits)

text \<open>The loop over the groups of an IPv6 text: the words read so far and the position of \<open>::\<close>
  (8 when there is none). \<open>None\<close> is \<open>return false\<close>.\<close>

function ParseIpv6_loop ::
  "string \<Rightarrow> nat \<Rightarrow> u16 list \<Rightarrow> nat \<Rightarrow> nat \<Rightarrow> (u16 list \<times> nat \<times> nat) option" where
  "ParseIpv6_loop value offset words word_count compressed_at =
     (if \<not> offset < length value then Some (words, word_count, compressed_at)
      else if word_count = 8 then None
      else
        (let delimiter = sv_find (CHR '':'') value offset;
             component = component_at value offset delimiter
         in if component = [] \<or> length component > 4 then None
            else case ParseHex component 0 of
                   None \<Rightarrow> None
                 | Some parsed \<Rightarrow>
                     (let words = words[word_count := ucast parsed];
                          word_count = word_count + 1
                      in case delimiter of
                           None \<Rightarrow> Some (words, word_count, compressed_at)
                         | Some d \<Rightarrow>
                             if d + 1 < length value \<and> value ! (d + 1) = CHR '':'' then
                               (if compressed_at \<noteq> 8 then None
                                else ParseIpv6_loop value (d + 2) words word_count word_count)
                             else ParseIpv6_loop value (d + 1) words word_count compressed_at)))"
  by pat_completeness auto
termination
  by (relation "measure (\<lambda>(value, offset, _). length value - offset)") (auto dest: sv_find_ge sv_find_ge[OF sym])

text \<open>The words after \<open>::\<close> is expanded (\<open>std::move_backward\<close> and \<open>std::fill\<close>), and the loop that stores them.\<close>

definition expand_words :: "u16 list \<Rightarrow> nat \<Rightarrow> nat \<Rightarrow> u16 list option" where
  "expand_words words word_count compressed_at =
     (if compressed_at = 8 then (if word_count \<noteq> 8 then None else Some words)
      else if word_count \<ge> 8 then None
      else Some (take compressed_at words @ replicate (8 - word_count) 0
                 @ drop compressed_at (take word_count words)))"

definition word_bytes :: "u16 list \<Rightarrow> byte list" where
  "word_bytes words = concat (map (\<lambda>w. [ucast (drop_bit 8 w), ucast (w AND 0xFF)]) words)"

definition ParseIpv6Address :: "string \<Rightarrow> byte list \<Rightarrow> bool \<times> byte list" where
  "ParseIpv6Address value out =
     (if value = [] then (False, out)
      else
        (let start = (if value ! 0 = CHR '':'' then
                        (if length value < 2 \<or> value ! 1 \<noteq> CHR '':'' then None else Some (0, 2))
                      else Some (8, 0))
         in case start of
              None \<Rightarrow> (False, out)
            | Some (compressed_at, offset) \<Rightarrow>
                (case ParseIpv6_loop value offset (replicate 8 0) 0 compressed_at of
                   None \<Rightarrow> (False, out)
                 | Some (words, word_count, compressed_at) \<Rightarrow>
                     (case expand_words words word_count compressed_at of
                        None \<Rightarrow> (False, out)
                      | Some words \<Rightarrow> (True, put_bytes 0 (word_bytes words) out)))))"

definition ParseAllowedIp :: "string \<Rightarrow> AllowedIp step" where
  "ParseAllowedIp value out =
     (case sv_rfind (CHR ''/'') value of
        None \<Rightarrow> (False, out)
      | Some slash \<Rightarrow>
          if slash = 0 \<or> slash + 1 = length value then (False, out)
          else
            (let address = Trim (sv_substr value 0 (Some slash));
                 ipv6 = (sv_find (CHR '':'') address 0 \<noteq> None)
             in case ParseDecimal (Trim (sv_substr value (slash + 1) None)) (if ipv6 then 128 else 32) of
                  None \<Rightarrow> (False, out)
                | Some prefix \<Rightarrow>
                    (let out = AllowedIp_init\<lparr>ai_size := (if ipv6 then 16 else 4), ai_prefix := ucast prefix\<rparr>
                     in case (if ipv6 then ParseIpv6Address address (ai_address out)
                              else ParseIpv4Address address (ai_address out)) of
                          (ok, bytes) \<Rightarrow> (ok, out\<lparr>ai_address := bytes\<rparr>))))"

definition PrefixMatches :: "AllowedIp \<Rightarrow> byte list \<Rightarrow> nat \<Rightarrow> bool" where
  "PrefixMatches allowed source source_len =
     (if unat (ai_size allowed) \<noteq> source_len then False
      else
        (let full_bytes = unat (ai_prefix allowed) div 8 in
         if take full_bytes (ai_address allowed) \<noteq> take full_bytes source then False
         else
           (let remaining_bits = unat (ai_prefix allowed) mod 8 in
            if remaining_bits = 0 then True
            else
              (let mask = ucast (push_bit (8 - remaining_bits) (0xFF :: u32)) :: byte
               in ai_address allowed ! full_bytes AND mask = source ! full_bytes AND mask))))"

function allowed_ips_loop :: "byte list \<Rightarrow> nat \<Rightarrow> string \<Rightarrow> bool" where
  "allowed_ips_loop source source_len allowed_ips =
     (if allowed_ips = [] then False
      else
        (let delimiter = sv_find (CHR '','') allowed_ips 0;
             item = Trim (sv_substr allowed_ips 0 delimiter)
         in if (case ParseAllowedIp item AllowedIp_init of
                  (ok, allowed) \<Rightarrow> ok \<and> PrefixMatches allowed source source_len) then True
            else case delimiter of
                   None \<Rightarrow> False
                 | Some d \<Rightarrow> allowed_ips_loop source source_len (drop (d + 1) allowed_ips)))"
  by pat_completeness auto
termination
  by (relation "measure (\<lambda>(_, _, s). length s)") (auto dest: sv_find_ge sv_find_ge[OF sym])

definition AllowedIpsContainSource :: "byte list \<Rightarrow> string \<Rightarrow> bool" where
  "AllowedIpsContainSource packet allowed_ips =
     (case ValidateInnerIpPacket packet of (e, version) \<Rightarrow>
        if e \<noteq> IVE_None then False
        else
          (let source = (if version = IPV_Ipv4 then drop 12 packet else drop 8 packet);
               source_len = (if version = IPV_Ipv4 then 4 else 16)
           in allowed_ips_loop source source_len allowed_ips))"

declare fold_carry.simps [simp del] ParseIpv6_loop.simps [simp del] allowed_ips_loop.simps [simp del]

subsection \<open>The Internet checksum\<close>

text \<open>The sum of the 16-bit big-endian words of a byte sequence, the last one padded with zero.\<close>

fun word_sum :: "byte list \<Rightarrow> nat" where
  "word_sum (a # b # rest) = 256 * unat a + unat b + word_sum rest"
| "word_sum [a] = 256 * unat a"
| "word_sum [] = 0"

lemma unat_byte_bound: "unat (a :: byte) < 256"
  using unsigned_less[of a] by simp

lemma unat_ucast_mod: "unat (ucast (x :: 'a :: len word) :: 'b :: len word) = unat x mod 2 ^ LENGTH('b)"
  by (simp add: unsigned_ucast_eq take_bit_eq_mod)

lemma unat_u16_bound: "unat (a :: u16) < 65536"
  using unsigned_less[of a] by simp

lemma unat_ucast_up [simp]:
  "unat (ucast (b :: byte) :: u16) = unat b" "unat (ucast (b :: byte) :: u32) = unat b"
  "unat (ucast (h :: u16) :: u32) = unat h"
  using unat_byte_bound[of b] unat_u16_bound[of h] by (simp_all add: unat_ucast_mod)

lemma unat_LoadBigEndian16: "unat (LoadBigEndian16 (a # b # xs)) = 256 * unat a + unat b"
proof -
  have "push_bit 8 (ucast a) OR ucast b = (push_bit 8 (ucast a) + ucast b :: u16)"
    by (rule disjunctive_add[symmetric]) (auto simp: bit_simps dest: bit_imp_le_length)
  moreover have "unat (push_bit 8 (ucast a) + ucast b :: u16) = 256 * unat a + unat b"
  proof -
    have "unat (push_bit 8 (ucast a) :: u16) = 256 * unat a"
      using unat_byte_bound[of a]
      by (simp add: push_bit_eq_mult unat_word_ariths(2))
    then show ?thesis using unat_byte_bound[of a] unat_byte_bound[of b]
      by (simp add: unat_plus_if')
  qed
  ultimately show ?thesis by (simp add: LoadBigEndian16_def)
qed

lemma word_sum_le: "word_sum bs \<le> 65535 * ((length bs + 1) div 2)"
proof (induction bs rule: word_sum.induct)
  case (1 a b rest)
  then show ?case using unat_byte_bound[of a] unat_byte_bound[of b] by simp
next
  case (2 a)
  then show ?case using unat_byte_bound[of a] by simp
qed simp

lemma checksum_words_unat:
  "unat acc + word_sum bs < 4294967296 \<Longrightarrow> unat (checksum_words bs acc) = unat acc + word_sum bs"
proof (induction bs acc rule: checksum_words.induct)
  case (1 a b rest acc)
  have "unat (ucast (LoadBigEndian16 [a, b]) :: u32) = 256 * unat a + unat b"
    by (simp add: unat_LoadBigEndian16)
  with 1 show ?case by (simp add: unat_plus_if')
next
  case (2 a acc)
  have "unat (push_bit 8 (ucast a) :: u32) = 256 * unat a"
    using unat_byte_bound[of a] by (simp add: push_bit_eq_mult unat_word_ariths(2))
  with 2 show ?case by (simp add: unat_plus_if')
qed simp

lemma fold_carry_spec:
  "unat (fold_carry s) < 65536 \<and> unat (fold_carry s) mod 65535 = unat s mod 65535 \<and> (fold_carry s = 0 \<longleftrightarrow> s = 0)"
proof (induction s rule: fold_carry.induct)
  case (1 s)
  show ?case
  proof (cases "drop_bit 16 s = 0")
    case True
    then have "unat s div 65536 = 0" by (metis drop_bit16_unat unat_0)
    then have "unat s < 65536" by (simp add: div_eq_0_iff)
    then show ?thesis using True by (simp add: fold_carry.simps[of s])
  next
    case False
    let ?t = "(s AND 0xFFFF) + drop_bit 16 s"
    have u: "unat ?t = unat s mod 65536 + unat s div 65536" by (rule fold_carry_unat)
    have s: "unat s = 65536 * (unat s div 65536) + unat s mod 65536" by simp
    then have "unat s = unat ?t + 65535 * (unat s div 65536)" using u by linarith
    then have m: "unat s mod 65535 = unat ?t mod 65535" by (metis mod_mult_self2)
    have "unat s div 65536 \<noteq> 0" using False by (metis drop_bit16_unat unat_eq_zero)
    then have "?t \<noteq> 0" "s \<noteq> 0" using u by (auto simp: unat_eq_zero[symmetric] simp del: unat_eq_zero)
    then show ?thesis using 1[OF False] m False by (simp add: fold_carry.simps[of s])
  qed
qed

lemma HasValidInternetChecksum_iff:
  assumes "length bs \<le> 131072"
  shows "HasValidInternetChecksum bs \<longleftrightarrow> 0 < word_sum bs \<and> 65535 dvd word_sum bs"
proof -
  have "(length bs + 1) div 2 \<le> 65536" using assms by simp
  then have "word_sum bs < 4294967296" using word_sum_le[of bs] by linarith
  then have u: "unat (checksum_words bs 0) = word_sum bs" by (simp add: checksum_words_unat)
  let ?r = "fold_carry (checksum_words bs 0)"
  have r: "unat ?r < 65536" "unat ?r mod 65535 = word_sum bs mod 65535" "unat ?r = 0 \<longleftrightarrow> word_sum bs = 0"
    using fold_carry_spec[of "checksum_words bs 0"] u by (auto simp: unat_eq_zero)
  have "unat (ucast ?r :: u16) = unat ?r" using r(1) by (simp add: unat_ucast_mod)
  then have "HasValidInternetChecksum bs \<longleftrightarrow> unat ?r = 65535"
    by (simp add: HasValidInternetChecksum_def word_unat_eq_iff)
  also have "\<dots> \<longleftrightarrow> unat ?r \<noteq> 0 \<and> unat ?r mod 65535 = 0"
  proof -
    have "k = 65535" if k: "k < 65536" "k \<noteq> 0" "k mod 65535 = 0" for k :: nat
    proof -
      obtain c where c: "k = 65535 * c" using k(3) by (auto simp: mod_eq_0_iff_dvd elim: dvdE)
      then have "c = 1" using k(1,2) by (cases c) simp_all
      then show ?thesis using c by simp
    qed
    then show ?thesis using r(1) by auto
  qed
  finally show ?thesis using r by (auto simp: mod_eq_0_iff_dvd)
qed

subsection \<open>Prefix matching\<close>

text \<open>Bit \<open>i\<close> of an address, counted from the most significant bit of its first byte.\<close>

definition addr_bit :: "byte list \<Rightarrow> nat \<Rightarrow> bool" where
  "addr_bit a i = bit (a ! (i div 8)) (7 - i mod 8)"

lemma byte_eq_bits: "(x :: byte) = y \<longleftrightarrow> (\<forall>j < 8. bit x (7 - j) = bit y (7 - j))"
proof
  assume *: "\<forall>j < 8. bit x (7 - j) = bit y (7 - j)"
  show "x = y"
  proof (rule bit_word_eqI)
    fix n assume "n < LENGTH(8)"
    then show "bit x n = bit y n" using *[rule_format, of "7 - n"] by simp
  qed
qed simp

lemma masked_eq_bits:
  assumes "0 < r" "r < 8"
  shows "(x :: byte) AND ucast (push_bit (8 - r) (0xFF :: u32)) = y AND ucast (push_bit (8 - r) (0xFF :: u32))
    \<longleftrightarrow> (\<forall>j < r. bit x (7 - j) = bit y (7 - j))"
proof -
  have F: "(0xFF :: u32) = mask 8" by (simp add: mask_eq_exp_minus_1)
  have m: "bit (ucast (push_bit (8 - r) (0xFF :: u32)) :: byte) (7 - j) \<longleftrightarrow> j < r" if "j < 8" for j
    using assms that unfolding F by (auto simp: bit_ucast_iff bit_push_bit_iff bit_mask_iff)
  have "(x AND ucast (push_bit (8 - r) (0xFF :: u32)) = y AND ucast (push_bit (8 - r) (0xFF :: u32))) \<longleftrightarrow>
      (\<forall>j < 8. (bit x (7 - j) \<and> j < r) = (bit y (7 - j) \<and> j < r))"
    unfolding byte_eq_bits[of "x AND _"] by (simp only: bit_and_iff m cong: imp_cong)
  also have "\<dots> \<longleftrightarrow> (\<forall>j < r. bit x (7 - j) = bit y (7 - j))"
    using assms(2) less_trans[of _ r 8] by blast
  finally show ?thesis .
qed

lemma bytes_eq_bits:
  assumes "n \<le> length a" "n \<le> length b"
  shows "take n a = take n b \<longleftrightarrow> (\<forall>i < 8 * n. addr_bit a i = addr_bit b i)"
proof -
  have "take n a = take n b \<longleftrightarrow> (\<forall>k < n. a ! k = b ! k)"
    using assms by (auto simp: list_eq_iff_nth_eq)
  also have "\<dots> \<longleftrightarrow> (\<forall>k < n. \<forall>j < 8. addr_bit a (8 * k + j) = addr_bit b (8 * k + j))"
    by (simp add: byte_eq_bits addr_bit_def)
  also have "\<dots> \<longleftrightarrow> (\<forall>i < 8 * n. addr_bit a i = addr_bit b i)"
  proof (rule iffI; intro allI impI)
    fix i assume *: "\<forall>k<n. \<forall>j<8. addr_bit a (8 * k + j) = addr_bit b (8 * k + j)" and "i < 8 * n"
    then have "i div 8 < n" by (simp add: less_mult_imp_div_less mult.commute)
    then show "addr_bit a i = addr_bit b i"
      using *[rule_format, of "i div 8" "i mod 8"] by simp
  next
    fix k j :: nat
    assume *: "\<forall>i < 8 * n. addr_bit a i = addr_bit b i" and "k < n" "j < 8"
    then have "8 * k + j < 8 * n" by linarith
    then show "addr_bit a (8 * k + j) = addr_bit b (8 * k + j)" using * by blast
  qed
  finally show ?thesis .
qed

lemma PrefixMatches_bits:
  assumes "unat (ai_size al) \<le> length src" "unat (ai_size al) \<le> length (ai_address al)"
    "unat (ai_prefix al) \<le> 8 * unat (ai_size al)"
  shows "PrefixMatches al src (unat (ai_size al)) \<longleftrightarrow>
    (\<forall>i < unat (ai_prefix al). addr_bit (ai_address al) i = addr_bit src i)"
proof -
  define p where "p = unat (ai_prefix al)"
  define q where "q = p div 8"
  define r where "r = p mod 8"
  have p: "p = 8 * q + r" "r < 8" by (simp_all add: q_def r_def)
  have len: "q \<le> length src" "q \<le> length (ai_address al)" using assms p by (auto simp: p_def)
  have split: "(\<forall>i < p. P i) \<longleftrightarrow> (\<forall>i < 8 * q. P i) \<and> (\<forall>j < r. P (8 * q + j))" for P
  proof (intro iffI conjI allI impI)
    fix i assume *: "(\<forall>i < 8 * q. P i) \<and> (\<forall>j < r. P (8 * q + j))" and "i < p"
    show "P i"
    proof (cases "i < 8 * q")
      case False
      then have "i = 8 * q + (i - 8 * q)" "i - 8 * q < r" using \<open>i < p\<close> p(1) by linarith+
      then show ?thesis using * by metis
    qed (use * in blast)
  qed (use p(1) in simp_all)
  have tail: "(if r = 0 then True
       else (let m = ucast (push_bit (8 - r) (0xFF :: u32)) in ai_address al ! q AND m = src ! q AND m))
     \<longleftrightarrow> (\<forall>j < r. addr_bit (ai_address al) (8 * q + j) = addr_bit src (8 * q + j))"
    using masked_eq_bits[of r "ai_address al ! q" "src ! q"] p(2)
    by (auto simp: addr_bit_def Let_def)
  show ?thesis
    unfolding p_def[symmetric] split bytes_eq_bits[OF len(2,1), symmetric] tail[symmetric]
    by (simp add: PrefixMatches_def p_def[symmetric] q_def[symmetric] r_def[symmetric] Let_def)
qed

subsection \<open>Padded packets\<close>

lemma drop_bit4_version: "InnerIpVersion_of v = IPV_Ipv4 \<longleftrightarrow> v = 4" "InnerIpVersion_of v = IPV_Ipv6 \<longleftrightarrow> v = 6"
  by (auto simp: InnerIpVersion_of_def)

lemma LoadBigEndian16_prefix:
  "k + 2 \<le> length p \<Longrightarrow> LoadBigEndian16 (drop k (p @ q)) = LoadBigEndian16 (drop k p)"
  by (auto simp: LoadBigEndian16_def nth_append)

lemma valid_packet_cases:
  assumes "ValidateInnerIpPacket p = (IVE_None, v)"
  obtains "v = IPV_Ipv4" "drop_bit 4 (p ! 0) = 4" "20 \<le> length p" "unat (LoadBigEndian16 (drop 2 p)) = length p"
      "length p \<le> 1500" "ValidateInnerIpv4Packet p = IVE_None"
    | "v = IPV_Ipv6" "drop_bit 4 (p ! 0) = 6" "40 \<le> length p" "40 + unat (LoadBigEndian16 (drop 4 p)) = length p"
      "length p \<le> 1500" "ValidateInnerIpv6Packet p = IVE_None"
proof -
  have "v = IPV_Ipv4 \<and> ValidateInnerIpv4Packet p = IVE_None \<or> v = IPV_Ipv6 \<and> ValidateInnerIpv6Packet p = IVE_None"
    using assms by (auto simp: ValidateInnerIpPacket_def Let_def split: if_splits InnerIpVersion.splits)
  then show thesis
  proof
    assume *: "v = IPV_Ipv4 \<and> ValidateInnerIpv4Packet p = IVE_None"
    show thesis by (rule that(1)) (use * in \<open>auto simp: ValidateInnerIpv4Packet_def Let_def split: if_splits\<close>)
  next
    assume *: "v = IPV_Ipv6 \<and> ValidateInnerIpv6Packet p = IVE_None"
    show thesis by (rule that(2)) (use * in \<open>auto simp: ValidateInnerIpv6Packet_def Let_def split: if_splits\<close>)
  qed
qed

lemma all_zero_replicate: "list_all (\<lambda>b. b = 0) xs \<longleftrightarrow> xs = zeros (length xs)"
  by (induction xs) auto

lemma padded_accepts:
  assumes "ValidateInnerIpPacket p = (IVE_None, v)" "k \<le> 15"
  shows "ValidatePaddedInnerIpPacket (p @ zeros k) = (IVE_None, length p, v)"
  using assms(1)
proof (cases rule: valid_packet_cases)
  case 1
  then have "GetUnpaddedPacketSize (p @ zeros k) = length p" "p \<noteq> []"
    by (auto simp: GetUnpaddedPacketSize_def nth_append drop_bit4_version InnerIpVersion_of_def LoadBigEndian16_prefix
        simp del: drop_append)
  then show ?thesis using 1 assms
    by (simp add: ValidatePaddedInnerIpPacket_def nth_append InnerIpVersion_of_def list_all_iff)
next
  case 2
  then have "GetUnpaddedPacketSize (p @ zeros k) = length p" "p \<noteq> []"
    by (auto simp: GetUnpaddedPacketSize_def nth_append drop_bit4_version InnerIpVersion_of_def LoadBigEndian16_prefix
        simp del: drop_append)
  then show ?thesis using 2 assms
    by (simp add: ValidatePaddedInnerIpPacket_def nth_append InnerIpVersion_of_def list_all_iff)
qed

lemma padded_only:
  assumes "ValidatePaddedInnerIpPacket payload = (IVE_None, n, v)"
  shows "n \<le> length payload \<and> length payload - n \<le> 15 \<and> payload = take n payload @ zeros (length payload - n) \<and>
    ValidateInnerIpPacket (take n payload) = (IVE_None, v)"
proof -
  have "n = GetUnpaddedPacketSize payload" "n \<le> length payload" "length payload - n \<le> 15"
    "list_all (\<lambda>b. b = 0) (drop n payload)" "ValidateInnerIpPacket (take n payload) = (IVE_None, v)"
    using assms
    by (auto simp: ValidatePaddedInnerIpPacket_def Let_def split: if_splits option.splits prod.splits InnerIpVersion.splits)
  then show ?thesis by (metis all_zero_replicate append_take_drop_id length_drop)
qed

subsection \<open>Allowed networks\<close>

lemma ParseDecimal_le: "ParseDecimal_digits chs maximum parsed = Some p \<Longrightarrow> parsed \<le> maximum \<Longrightarrow> p \<le> maximum"
  by (induction chs maximum parsed rule: ParseDecimal_digits.induct) (auto simp: Let_def split: if_splits)

lemma length_ParseIpv4_loop: "length (snd (ParseIpv4_loop left offset s out)) = length out"
  by (induction left offset s out rule: ParseIpv4_loop.induct) (auto simp: Let_def split: option.splits)

lemma ParseIpv6_loop_inv:
  "ParseIpv6_loop s offset words n c = Some (words', n', c') \<Longrightarrow> n \<le> 8 \<Longrightarrow> c = 8 \<or> c \<le> n \<Longrightarrow>
   length words' = length words \<and> n' \<le> 8 \<and> (c' = 8 \<or> c' \<le> n')"
proof (induction s offset words n c rule: ParseIpv6_loop.induct)
  case (1 s offset words n c)
  show ?case
    using 1(3-) 1(1)[OF _ _ refl refl] 1(2)[OF _ _ refl refl]
    by (subst (asm) ParseIpv6_loop.simps) (auto simp: Let_def split: if_splits option.splits)
qed

lemma length_word_bytes [simp]: "length (word_bytes ws) = 2 * length ws"
  by (induction ws) (simp_all add: word_bytes_def)

lemma length_expand_words:
  "expand_words ws n c = Some ws' \<Longrightarrow> length ws = 8 \<Longrightarrow> c = 8 \<or> c \<le> n \<Longrightarrow> length ws' = 8"
  by (auto simp: expand_words_def split: if_splits)

lemma length_ParseIpv6Address:
  assumes "ParseIpv6Address s out = (True, out')" "length out = 16"
  shows "length out' = 16"
proof -
  obtain c off ws n c' ws' where
    1: "ParseIpv6_loop s off (replicate 8 0) 0 c = Some (ws, n, c')" "c = 8 \<or> c = 0"
    and 2: "expand_words ws n c' = Some ws'" "out' = put_bytes 0 (word_bytes ws') out"
    using assms(1) by (auto simp: ParseIpv6Address_def Let_def split: if_splits option.splits)
  have "length ws = 8 \<and> (c' = 8 \<or> c' \<le> n)" using ParseIpv6_loop_inv[OF 1(1)] 1(2) by auto
  then show ?thesis using length_expand_words[OF 2(1)] 2(2) assms(2) by simp
qed

lemma ParseAllowedIp_cases:
  assumes "ParseAllowedIp s al0 = (True, al)"
  obtains t p addr bytes where "ParseDecimal t 128 = Some p" "ParseIpv6Address addr (zeros 16) = (True, bytes)"
      "al = \<lparr>ai_address = bytes, ai_size = 16, ai_prefix = ucast p\<rparr>"
    | t p addr bytes where "ParseDecimal t 32 = Some p" "ParseIpv4Address addr (zeros 16) = (True, bytes)"
      "al = \<lparr>ai_address = bytes, ai_size = 4, ai_prefix = ucast p\<rparr>"
  using assms
  by (auto simp: ParseAllowedIp_def AllowedIp_init_def Let_def split: option.splits if_splits prod.splits)

lemma ParseDecimal_byte:
  assumes "ParseDecimal t m = Some p" "m \<le> 255"
  shows "unat (ucast p :: byte) \<le> unat m"
proof -
  have "p \<le> m" using assms(1) by (auto simp: ParseDecimal_def split: if_splits dest: ParseDecimal_le)
  moreover have "unat m \<le> 255" using assms(2) by (simp add: word_le_nat_alt)
  ultimately show ?thesis by (simp add: unat_ucast_mod word_le_nat_alt)
qed

lemma ParseAllowedIp_wf:
  assumes "ParseAllowedIp s al0 = (True, al)"
  shows "length (ai_address al) = 16 \<and> (unat (ai_size al) = 4 \<or> unat (ai_size al) = 16) \<and>
    unat (ai_prefix al) \<le> 8 * unat (ai_size al)"
  using assms
proof (cases rule: ParseAllowedIp_cases)
  case (1 t p addr bytes)
  then show ?thesis using ParseDecimal_byte[OF 1(1)] length_ParseIpv6Address[OF 1(2)] by simp
next
  case (2 t p addr bytes)
  then show ?thesis
    using ParseDecimal_byte[OF 2(1)] length_ParseIpv4_loop[of 4 0 addr "zeros 16"]
    by (simp add: ParseIpv4Address_def)
qed

text \<open>The comma separated items of a text.\<close>

fun comma_fields :: "string \<Rightarrow> string list" where
  "comma_fields [] = [[]]"
| "comma_fields (c # cs) =
     (if c = CHR '','' then [] # comma_fields cs
      else (c # hd (comma_fields cs)) # tl (comma_fields cs))"

lemma comma_fields_find:
  "comma_fields s =
     (case sv_find (CHR '','') s 0 of None \<Rightarrow> [s] | Some d \<Rightarrow> take d s # comma_fields (drop (d + 1) s))"
  by (induction s) (auto simp: sv_find_def Let_def split: option.splits if_splits)

definition item_matches :: "byte list \<Rightarrow> nat \<Rightarrow> string \<Rightarrow> bool" where
  "item_matches src n item =
     (case ParseAllowedIp (Trim item) AllowedIp_init of (ok, al) \<Rightarrow> ok \<and> PrefixMatches al src n)"

lemma item_matches_Nil: "\<not> item_matches src n []"
  by (simp add: item_matches_def Trim_def ParseAllowedIp_def sv_rfind_def)

lemma allowed_ips_loop_fields:
  "allowed_ips_loop src n s = list_ex (item_matches src n) (comma_fields s)"
proof (induction s rule: length_induct)
  case (1 s)
  show ?case
  proof (cases "s = []")
    case True
    then show ?thesis by (simp add: allowed_ips_loop.simps item_matches_Nil)
  next
    case False
    then have "length (drop (d + 1) s) < length s" for d by (cases s) auto
    with 1 have IH: "allowed_ips_loop src n (drop (d + 1) s) = list_ex (item_matches src n) (comma_fields (drop (d + 1) s))"
      for d by blast
    show ?thesis
      by (subst allowed_ips_loop.simps, subst comma_fields_find)
         (use False IH in \<open>auto simp: Let_def sv_substr_def item_matches_def split: option.splits prod.splits\<close>)
  qed
qed

text \<open>The first \<open>p\<close> bits of two addresses agree.\<close>

definition same_prefix :: "nat \<Rightarrow> byte list \<Rightarrow> byte list \<Rightarrow> bool" where
  "same_prefix p a b = (map (addr_bit a) [0..<p] = map (addr_bit b) [0..<p])"

lemma item_matches_bits:
  assumes "n \<le> length src"
  shows "item_matches src n item =
    (case ParseAllowedIp (Trim item) AllowedIp_init of (ok, al) \<Rightarrow>
       ok \<and> unat (ai_size al) = n \<and> same_prefix (unat (ai_prefix al)) (ai_address al) src)"
proof -
  obtain ok al where p: "ParseAllowedIp (Trim item) AllowedIp_init = (ok, al)" by fastforce
  show ?thesis
  proof (cases "ok \<and> unat (ai_size al) = n")
    case True
    then have "ParseAllowedIp (Trim item) AllowedIp_init = (True, al)" using p by simp
    from ParseAllowedIp_wf[OF this] True assms PrefixMatches_bits[of al src] show ?thesis
      by (auto simp: item_matches_def p same_prefix_def)
  next
    case False
    then show ?thesis by (auto simp: item_matches_def p PrefixMatches_def)
  qed
qed

subsection \<open>Properties\<close>

text \<open>C35: Internet checksum. For every byte sequence up to 128 KiB, which covers every IP header, the
  checksum test accepts exactly when the sum of its big-endian 16-bit words (an odd last byte padded
  with zero) is positive and divisible by 65535, that is when its one's complement sum is all ones.
  The folding loop terminates.\<close>

theorem internet_checksum_exact:
  assumes "length bs \<le> 131072"
  shows "HasValidInternetChecksum bs = (0 < word_sum bs \<and> 65535 dvd word_sum bs)"
  using HasValidInternetChecksum_iff[OF assms] by simp

theorem internet_checksum_exact_witness:
  "HasValidInternetChecksum [0x45, 0, 0, 20, 0, 0, 0, 0, 64, 17, 0x7C, 0xD7, 127, 0, 0, 1, 127, 0, 0, 1]"
  using internet_checksum_exact[of "[0x45, 0, 0, 20, 0, 0, 0, 0, 64, 17, 0x7C, 0xD7, 127, 0, 0, 1, 127, 0, 0, 1]"]
  by simp

text \<open>C27: Padding. A decrypted transport payload passes \<open>ValidatePaddedInnerIpPacket\<close> with size \<open>n\<close> and
  version \<open>v\<close> exactly when it is a valid inner IP packet of \<open>n\<close> bytes and version \<open>v\<close> followed by at most
  15 zero bytes; so the packet recovered from a payload is unique.\<close>

theorem padded_validation_exact:
  "ValidatePaddedInnerIpPacket payload = (IVE_None, n, v) \<longleftrightarrow>
     (\<exists>packet k. payload = packet @ zeros k \<and> k \<le> 15 \<and> n = length packet \<and>
        ValidateInnerIpPacket packet = (IVE_None, v))"
proof
  assume "ValidatePaddedInnerIpPacket payload = (IVE_None, n, v)"
  from padded_only[OF this] show "\<exists>packet k. payload = packet @ zeros k \<and> k \<le> 15 \<and> n = length packet \<and>
        ValidateInnerIpPacket packet = (IVE_None, v)"
    by (intro exI[of _ "take n payload"] exI[of _ "length payload - n"]) simp
qed (use padded_accepts in blast)

text \<open>C26: Cryptokey routing. A received packet is accepted for a list of allowed networks exactly when
  it is a valid inner IP packet and some comma separated item of the list, trimmed, parses to a
  network of the packet's address family whose prefix bits are the leading bits of the packet's
  source address.\<close>

theorem allowed_source_exact:
  "AllowedIpsContainSource packet s =
     (case ValidateInnerIpPacket packet of (e, v) \<Rightarrow>
        e = IVE_None \<and>
        (let src = (if v = IPV_Ipv4 then drop 12 packet else drop 8 packet);
             n = (if v = IPV_Ipv4 then 4 else 16)
         in list_ex (\<lambda>item. case ParseAllowedIp (Trim item) AllowedIp_init of (ok, al) \<Rightarrow>
                ok \<and> unat (ai_size al) = n \<and> same_prefix (unat (ai_prefix al)) (ai_address al) src)
              (comma_fields s)))"
proof -
  obtain e v where v: "ValidateInnerIpPacket packet = (e, v)" by fastforce
  show ?thesis
  proof (cases "e = IVE_None")
    case True
    then have "ValidateInnerIpPacket packet = (IVE_None, v)" using v by simp
    then have "(if v = IPV_Ipv4 then 4 else 16)
        \<le> length (if v = IPV_Ipv4 then drop 12 packet else drop 8 packet)"
      by (cases rule: valid_packet_cases) auto
    note f = ext[of "item_matches _ _", OF item_matches_bits[OF this]]
    show ?thesis
      using f by (cases "v = IPV_Ipv4")
        (simp_all add: AllowedIpsContainSource_def v True allowed_ips_loop_fields Let_def)
  qed (simp add: AllowedIpsContainSource_def v)
qed


end
