(* ===== verification/WG_CookieExchange.thy ===== *)
theory WG_CookieExchange
  imports WG_Agreement
begin

text \<open>
  The exchange of cookies between a loaded responder and an initiator: the reply of
  \<open>CreateCookieReply\<close> is understood by \<open>noise_handshake_consume_cookie_reply\<close>, and the initiation that the
  initiator then holds, as well as the one it makes next, passes both checks of the responder for the source
  the cookie was made for.
\<close>

subsection \<open>Positions of the codes\<close>



subsection \<open>The reply\<close>







subsection \<open>Taking the cookie\<close>




subsection \<open>Properties\<close>






end
