(* ===== verification/WG_Events.thy ===== *)
theory WG_Events
  imports WG_Controller WG_InnerPacket WG_CookieExchange
begin

text \<open>
  The vocabulary of the runtime: identities and generations (\<open>runtime/domain_types.hpp\<close>), the UDP binding
  of a peer (\<open>runtime/udp_binding.hpp\<close>, \<open>udp_binding.cpp\<close>), the events a peer handles and the effects it
  asks for (\<open>runtime/runtime_events.hpp\<close>), and the network path states
  (\<open>common/include/wgnx/platform/network_path.hpp\<close>, \<open>udp.hpp\<close>). An identity of \<open>domain_types.hpp\<close> is a
  word of its width: the tags that keep the C++ types apart have no values.

  \<open>std::abort\<close> is \<open>None\<close>: an effect batch under construction is an \<open>EffectBatch option\<close>, and once it is
  \<open>None\<close> every further operation leaves it so.
\<close>

subsection \<open>Identities and generations\<close>

type_synonym PeerIndex = u32
type_synonym ActivationGeneration = u32
type_synonym PathRequestGeneration = u32
type_synonym SocketGeneration = u32
type_synonym DatagramGeneration = u32
type_synonym PacketGeneration = u32
type_synonym PacketId = u64
type_synonym ktime_t = int
type_synonym socket_handle = int

definition AllocateGeneration :: "u32 \<Rightarrow> u32 \<times> u32" where
  "AllocateGeneration next_id =
     (let allocated = next_id; following = next_id + 1
      in (allocated, if following = 0 then 1 else following))"

definition IsCurrentGeneration :: "u32 \<Rightarrow> u32 \<Rightarrow> bool" where
  "IsCurrentGeneration expected observed \<longleftrightarrow> expected \<noteq> 0 \<and> expected = observed"

definition IsValidPeerSelection :: "int \<Rightarrow> u32 \<Rightarrow> bool" where
  "IsValidPeerSelection index peer_count \<longleftrightarrow> index \<ge> - 1 \<and> index < sint peer_count"

record PeerIdentity =
  pid_peer_index :: PeerIndex
  pid_activation_generation :: ActivationGeneration

record TimerFacts =
  tf_now :: TimerDeadline
  tf_random_u32 :: u32

subsection \<open>Enumerations of the protocol and the platform\<close>

datatype PeerRuntimeState = PRS_Inactive | PRS_ResolvingEndpoint | PRS_Handshaking | PRS_Active | PRS_Error

datatype PeerErrorStage = PES_None | PES_Config | PES_ResolveEndpoint | PES_Handshake | PES_Transport | PES_Internal

datatype PeerErrorCode =
    PEC_None | PEC_ConfigInvalid | PEC_EndpointMissing | PEC_EndpointMalformed | PEC_EndpointResolutionFailed
  | PEC_TransportInitFailed | PEC_InternalFailure | PEC_KeyInvalid | PEC_HandshakeInitFailed
  | PEC_TransportOpenFailed | PEC_TransportSendFailed | PEC_TransportReceiveFailed | PEC_HandshakeTimedOut

datatype socket_error =
  SE_none | SE_invalid_endpoint | SE_transport_init_failed | SE_open_failed | SE_send_failed | SE_receive_failed

abbreviation (input) InvalidSocket :: socket_handle where "InvalidSocket \<equiv> - 1"

record endpoint_resolution_result =
  err_success :: bool
  err_error_stage :: PeerErrorStage
  err_error_code :: PeerErrorCode
  err_resolved :: endpoint
  err_text :: string

datatype network_path_availability = NPA_unknown | NPA_unavailable | NPA_available

datatype network_path_raw_state = NPR_invalid | NPR_pending | NPR_on_hold | NPR_available | NPR_unknown4 | NPR_unknown5

record network_path_observation =
  npo_availability :: network_path_availability
  npo_raw_state :: network_path_raw_state
  npo_state_result :: u32
  npo_operation_result :: u32
  npo_request_generation :: u32

definition network_path_observation_init :: network_path_observation where
  "network_path_observation_init =
     \<lparr>npo_availability = NPA_unknown, npo_raw_state = NPR_invalid, npo_state_result = 0,
      npo_operation_result = 0, npo_request_generation = 0\<rparr>"

definition classify_network_path_state :: "network_path_raw_state \<Rightarrow> u32 \<Rightarrow> network_path_availability" where
  "classify_network_path_state state state_result =
     (if state_result \<noteq> 0 then NPA_unknown
      else case state of
        NPR_available \<Rightarrow> NPA_available
      | NPR_pending \<Rightarrow> NPA_unavailable
      | NPR_on_hold \<Rightarrow> NPA_unavailable
      | NPR_invalid \<Rightarrow> NPA_unknown
      | NPR_unknown4 \<Rightarrow> NPA_unknown
      | NPR_unknown5 \<Rightarrow> NPA_unknown)"

subsection \<open>UDP binding\<close>

text \<open>A character array written by \<open>snprintf(array, n, "%s", text)\<close> holds the first \<open>n - 1\<close> characters.\<close>

abbreviation (input) snprintf_s :: "nat \<Rightarrow> string \<Rightarrow> string" where
  "snprintf_s n s \<equiv> take (n - 1) s"

definition endpoint_init :: endpoint where
  "endpoint_init = \<lparr>ep_family = AF_unspecified, ep_port = 0, ep_address = zeros 16\<rparr>"

record UdpBinding =
  b_endpoint :: endpoint
  b_endpoint_text :: string
  b_socket :: socket_handle
  b_generation :: SocketGeneration
  b_has_endpoint :: bool
  b_suspended :: bool

definition UdpBinding_init :: UdpBinding where
  "UdpBinding_init =
     \<lparr>b_endpoint = endpoint_init, b_endpoint_text = [], b_socket = InvalidSocket, b_generation = 0,
      b_has_endpoint = False, b_suspended = False\<rparr>"

definition Binding_SetEndpoint :: "endpoint \<Rightarrow> string \<Rightarrow> UdpBinding \<Rightarrow> UdpBinding" where
  "Binding_SetEndpoint ep text' b =
     b\<lparr>b_endpoint := ep, b_endpoint_text := snprintf_s 64 text', b_has_endpoint := True\<rparr>"

definition Binding_ClearEndpoint :: "UdpBinding \<Rightarrow> UdpBinding" where
  "Binding_ClearEndpoint b = b\<lparr>b_endpoint := endpoint_init, b_endpoint_text := [], b_has_endpoint := False\<rparr>"

definition Binding_IsOpen :: "UdpBinding \<Rightarrow> bool" where
  "Binding_IsOpen b \<longleftrightarrow> b_socket b \<noteq> InvalidSocket"

definition Binding_Matches :: "SocketGeneration \<Rightarrow> socket_handle \<Rightarrow> UdpBinding \<Rightarrow> bool" where
  "Binding_Matches generation socket b \<longleftrightarrow> b_generation b = generation \<and> b_socket b = socket"

definition Binding_AdoptOpenSocket ::
  "endpoint \<Rightarrow> string \<Rightarrow> SocketGeneration \<Rightarrow> socket_handle \<Rightarrow> UdpBinding \<Rightarrow> UdpBinding option" where
  "Binding_AdoptOpenSocket ep text' generation socket b =
     (if b_socket b \<noteq> InvalidSocket then None
      else Some ((Binding_SetEndpoint ep text' b)\<lparr>b_socket := socket, b_generation := generation, b_suspended := False\<rparr>))"

definition Binding_ReleaseSocket :: "UdpBinding \<Rightarrow> socket_handle \<times> UdpBinding" where
  "Binding_ReleaseSocket b = (b_socket b, b\<lparr>b_socket := InvalidSocket, b_generation := 0\<rparr>)"

definition Binding_ReleaseAndSuspend :: "UdpBinding \<Rightarrow> socket_handle \<times> UdpBinding" where
  "Binding_ReleaseAndSuspend b = Binding_ReleaseSocket (b\<lparr>b_suspended := True\<rparr>)"

record SendSnapshot =
  ss_endpoint :: endpoint
  ss_socket :: socket_handle
  ss_generation :: SocketGeneration

definition Binding_SnapshotForSend :: "UdpBinding \<Rightarrow> SendSnapshot step" where
  "Binding_SnapshotForSend b out =
     (if b_suspended b \<or> \<not> b_has_endpoint b \<or> \<not> Binding_IsOpen b then (False, out)
      else (True, \<lparr>ss_endpoint = b_endpoint b, ss_socket = b_socket b, ss_generation = b_generation b\<rparr>))"

subsection \<open>Events\<close>

record ActivationRequestedEvent =
  are_peer_index :: PeerIndex
  are_occurred_at :: ktime_t

record DeactivationRequestedEvent =
  dre_peer :: PeerIdentity
  dre_occurred_at :: ktime_t

record NetworkPathRequestStartedEvent =
  nrs_peer :: PeerIdentity
  nrs_path_generation :: PathRequestGeneration
  nrs_success :: bool
  nrs_occurred_at :: ktime_t

record NetworkPathAvailabilityChangedEvent =
  nac_peer :: PeerIdentity
  nac_path_generation :: PathRequestGeneration
  nac_observation :: network_path_observation
  nac_occurred_at :: ktime_t

datatype TransportIoOperation = TIO_Receive | TIO_Send

record TransportFailureEvent =
  tfe_peer :: PeerIdentity
  tfe_operation :: TransportIoOperation
  tfe_socket :: socket_handle
  tfe_socket_generation :: SocketGeneration
  tfe_error :: socket_error
  tfe_occurred_at :: ktime_t

record EndpointResolvedEvent =
  ere_peer :: PeerIdentity
  ere_path_generation :: PathRequestGeneration
  ere_result :: endpoint_resolution_result
  ere_occurred_at :: ktime_t

datatype UdpBindPurpose = UBP_Activation | UBP_Rebind

record UdpBindOpenedEvent =
  ubo_peer :: PeerIdentity
  ubo_path_generation :: PathRequestGeneration
  ubo_endpoint :: endpoint
  ubo_endpoint_text :: string
  ubo_socket :: socket_handle
  ubo_error :: socket_error
  ubo_socket_generation :: SocketGeneration
  ubo_purpose :: UdpBindPurpose
  ubo_timer_facts :: TimerFacts
  ubo_occurred_at :: ktime_t

record UdpRebindRequestedEvent =
  urr_peer :: PeerIdentity
  urr_occurred_at :: ktime_t

record EncryptedDatagramReceivedEvent =
  edr_peer :: PeerIdentity
  edr_packet :: "byte list"
  edr_source :: endpoint
  edr_source_text :: string
  edr_timer_facts :: TimerFacts
  edr_occurred_at :: ktime_t

record PendingDatagramSentEvent =
  pds_peer :: PeerIdentity
  pds_datagram_generation :: DatagramGeneration
  pds_bytes_sent :: u64
  pds_error :: socket_error
  pds_timer_facts :: TimerFacts
  pds_occurred_at :: ktime_t

record InnerPacketStagedEvent =
  ips_peer :: PeerIdentity
  ips_packet :: "byte list"
  ips_packet_id :: PacketId
  ips_timer_facts :: TimerFacts
  ips_occurred_at :: ktime_t

abbreviation (input) MaximumInnerPacketBatchSize :: nat where "MaximumInnerPacketBatchSize \<equiv> 3"

record InnerPacketBatchStagedEvent =
  ipb_peer :: PeerIdentity
  ipb_packets :: "byte list list"
    \<comment> \<open>an array of \<open>MaximumInnerPacketBatchSize\<close> views\<close>
  ipb_packet_ids :: "PacketId list"
  ipb_count :: byte
  ipb_timer_facts :: TimerFacts
  ipb_occurred_at :: ktime_t

record ProcessOutboundQueueEvent =
  poq_peer :: PeerIdentity
  poq_timer_facts :: TimerFacts
  poq_occurred_at :: ktime_t

record ProtocolTimerExpiredEvent =
  pte_peer :: PeerIdentity
  pte_hook :: TimerHook
  pte_token :: TimerToken
  pte_timer_facts :: TimerFacts
  pte_occurred_at :: ktime_t

datatype PeerEvent =
    ActivationRequested ActivationRequestedEvent
  | DeactivationRequested DeactivationRequestedEvent
  | NetworkPathRequestStarted NetworkPathRequestStartedEvent
  | NetworkPathAvailabilityChanged NetworkPathAvailabilityChangedEvent
  | TransportFailure TransportFailureEvent
  | EndpointResolved EndpointResolvedEvent
  | UdpBindOpened UdpBindOpenedEvent
  | UdpRebindRequested UdpRebindRequestedEvent
  | EncryptedDatagramReceived EncryptedDatagramReceivedEvent
  | PendingDatagramSent PendingDatagramSentEvent
  | InnerPacketStaged InnerPacketStagedEvent
  | InnerPacketBatchStaged InnerPacketBatchStagedEvent
  | ProcessOutboundQueueRequested ProcessOutboundQueueEvent
  | ProtocolTimerExpired ProtocolTimerExpiredEvent

definition GetEventEffectBudget :: "PeerEvent \<Rightarrow> nat" where
  "GetEventEffectBudget event =
     (case event of
        ActivationRequested _ \<Rightarrow> 5
      | NetworkPathRequestStarted _ \<Rightarrow> 5
      | EndpointResolved _ \<Rightarrow> 5
      | PendingDatagramSent _ \<Rightarrow> 5
      | InnerPacketStaged _ \<Rightarrow> 5
      | InnerPacketBatchStaged _ \<Rightarrow> 5
      | ProcessOutboundQueueRequested _ \<Rightarrow> 5
      | TransportFailure _ \<Rightarrow> 6
      | DeactivationRequested _ \<Rightarrow> 7
      | NetworkPathAvailabilityChanged _ \<Rightarrow> 7
      | UdpBindOpened _ \<Rightarrow> 7
      | UdpRebindRequested _ \<Rightarrow> 1
      | EncryptedDatagramReceived _ \<Rightarrow> 6
      | ProtocolTimerExpired _ \<Rightarrow> 6)"

definition GetPeerIdentity :: "PeerEvent \<Rightarrow> PeerIdentity" where
  "GetPeerIdentity event =
     (case event of
        ActivationRequested e \<Rightarrow> \<lparr>pid_peer_index = are_peer_index e, pid_activation_generation = 0\<rparr>
      | DeactivationRequested e \<Rightarrow> dre_peer e
      | NetworkPathRequestStarted e \<Rightarrow> nrs_peer e
      | NetworkPathAvailabilityChanged e \<Rightarrow> nac_peer e
      | TransportFailure e \<Rightarrow> tfe_peer e
      | EndpointResolved e \<Rightarrow> ere_peer e
      | UdpBindOpened e \<Rightarrow> ubo_peer e
      | UdpRebindRequested e \<Rightarrow> urr_peer e
      | EncryptedDatagramReceived e \<Rightarrow> edr_peer e
      | PendingDatagramSent e \<Rightarrow> pds_peer e
      | InnerPacketStaged e \<Rightarrow> ips_peer e
      | InnerPacketBatchStaged e \<Rightarrow> ipb_peer e
      | ProcessOutboundQueueRequested e \<Rightarrow> poq_peer e
      | ProtocolTimerExpired e \<Rightarrow> pte_peer e)"

subsection \<open>Effects\<close>

datatype RuntimeEffect =
    ResolveEndpointEffect PeerIdentity PathRequestGeneration string
  | StartNetworkPathRequestEffect PeerIdentity PathRequestGeneration
  | StopNetworkPathRequestEffect PeerIdentity PathRequestGeneration
  | OpenUdpBindEffect PeerIdentity PathRequestGeneration endpoint string SocketGeneration socket_handle UdpBindPurpose
  | CloseUdpSocketEffect PathRequestGeneration socket_handle
  | SendPendingDatagramEffect PeerIdentity DatagramGeneration
  | SendCookieReplyEffect PeerIdentity endpoint "byte list"
  | QueueReceiveEffect PeerIdentity
  | ArmProtocolTimerEffect PeerIdentity TimerHook TimerToken TimerDeadline
  | CancelProtocolTimerEffect PeerIdentity TimerHook TimerToken
  | QueueInnerPacketSubmissionEffect PeerIdentity
  | PublishDecryptedPacketEffect PeerIdentity PacketGeneration
  | ArmDebugProbeTimeoutEffect PeerIdentity u64
  | CancelDebugProbeTimeoutEffect

type_synonym EffectBatch = "RuntimeEffect list"

abbreviation (input) EffectBatchCapacity :: nat where "EffectBatchCapacity \<equiv> 8"

definition TryAdd :: "RuntimeEffect \<Rightarrow> EffectBatch step" where
  "TryAdd e b = (if length b = EffectBatchCapacity then (False, b) else (True, b @ [e]))"

definition TryAppend :: "EffectBatch \<Rightarrow> EffectBatch step" where
  "TryAppend other b = (if length other > EffectBatchCapacity - length b then (False, b) else (True, b @ other))"

definition Effects_Add :: "RuntimeEffect \<Rightarrow> EffectBatch option \<Rightarrow> EffectBatch option" where
  "Effects_Add e fx =
     (case fx of None \<Rightarrow> None | Some b \<Rightarrow> (case TryAdd e b of (ok, b) \<Rightarrow> if \<not> ok then None else Some b))"

definition Effects_Append :: "EffectBatch option \<Rightarrow> EffectBatch option \<Rightarrow> EffectBatch option" where
  "Effects_Append other fx =
     (case (other, fx) of
        (Some o', Some b) \<Rightarrow> (case TryAppend o' b of (ok, b) \<Rightarrow> if \<not> ok then None else Some b)
      | _ \<Rightarrow> None)"

end
