(* ===== verification/WG_PeerRuntime.thy ===== *)
theory WG_PeerRuntime
  imports WG_Events
begin

text \<open>
  The state of a configured peer at run time and its lifecycle: \<open>runtime/peer/peer_runtime.hpp\<close> and
  \<open>runtime/peer/lifecycle.cpp\<close>. \<open>PeerRuntime\<close> has one field per data member. The operations that only
  change this state are functions on it; the handlers, which also read clocks, draw indices and add
  effects, run on the record \<open>rt_run\<close>: the peer, the global index counter with the world, and the
  effect batch under construction.
\<close>

subsection \<open>State\<close>

record PeerConfigDerivedInfo =
  di_derived_public_key :: string
  di_local_private_key :: noise_private_key
  di_preshared_key :: noise_symmetric_key
  di_has_derived_public_key :: bool
  di_has_preshared_key :: bool
  di_secrets_valid :: bool

definition PeerConfigDerivedInfo_init :: PeerConfigDerivedInfo where
  "PeerConfigDerivedInfo_init =
     \<lparr>di_derived_public_key = [], di_local_private_key = noise_key_init, di_preshared_key = noise_key_init,
      di_has_derived_public_key = False, di_has_preshared_key = False, di_secrets_valid = False\<rparr>"

record PeerRuntimeInfo =
  li_state :: PeerRuntimeState
  li_error_stage :: PeerErrorStage
  li_last_error_code :: PeerErrorCode
  li_persistent_keepalive_interval :: u16
  li_state_ticks :: u32
  li_activation_generation :: ActivationGeneration
  li_state_changed_ns :: ktime_t
  li_last_handshake_ns :: ktime_t
  li_last_rx_ns :: ktime_t
  li_last_tx_ns :: ktime_t
  li_rx_bytes :: u64
  li_tx_bytes :: u64
  li_established :: bool

definition PeerRuntimeInfo_init :: PeerRuntimeInfo where
  "PeerRuntimeInfo_init =
     \<lparr>li_state = PRS_Inactive, li_error_stage = PES_None, li_last_error_code = PEC_None,
      li_persistent_keepalive_interval = 0, li_state_ticks = 0, li_activation_generation = 0,
      li_state_changed_ns = 0, li_last_handshake_ns = 0, li_last_rx_ns = 0, li_last_tx_ns = 0,
      li_rx_bytes = 0, li_tx_bytes = 0, li_established = False\<rparr>"

record PeerProtocolInfo =
  pr_device :: wg_device
  pr_instantiated :: bool

record PeerProtocolSnapshot =
  psn_current_keypair_index :: u32
  psn_previous_keypair_index :: u32
  psn_instantiated :: bool
  psn_current_keypair_valid :: bool
  psn_next_keypair_valid :: bool
  psn_previous_keypair_valid :: bool

abbreviation (input) MaxEncryptedDatagramSize :: nat where
  "MaxEncryptedDatagramSize \<equiv> TransportDataHeaderSize + GetPaddedTransportPayloadSize MaxInnerIpPacketSize + NoiseMacSize"

datatype PendingDatagramKind = PDK_None | PDK_HandshakeInitiation | PDK_HandshakeResponse | PDK_TransportData | PDK_Keepalive

definition GetPendingDatagramKindName :: "PendingDatagramKind \<Rightarrow> string" where
  "GetPendingDatagramKindName kind =
     (case kind of
        PDK_None \<Rightarrow> ''none''
      | PDK_HandshakeInitiation \<Rightarrow> ''handshake_initiation''
      | PDK_HandshakeResponse \<Rightarrow> ''handshake_response''
      | PDK_TransportData \<Rightarrow> ''transport_data''
      | PDK_Keepalive \<Rightarrow> ''keepalive'')"

record PendingDatagram =
  pd_bytes :: "byte list"
  pd_size :: nat
  pd_generation :: DatagramGeneration
  pd_inner_packet_id :: PacketId
  pd_kind :: PendingDatagramKind

definition PendingDatagram_init :: PendingDatagram where
  "PendingDatagram_init =
     \<lparr>pd_bytes = zeros MaxEncryptedDatagramSize, pd_size = 0, pd_generation = 0, pd_inner_packet_id = 0,
      pd_kind = PDK_None\<rparr>"

definition Datagram_IsPending :: "PendingDatagram \<Rightarrow> bool" where
  "Datagram_IsPending d \<longleftrightarrow> pd_kind d \<noteq> PDK_None"

record PendingDatagramSnapshot =
  pdn_bytes :: "byte list"
  pdn_size :: nat
  pdn_inner_packet_id :: PacketId
  pdn_kind :: PendingDatagramKind
  pdn_binding :: SendSnapshot

record DecryptedPacketView =
  dpv_packet :: "byte list"
  dpv_generation :: PacketGeneration

abbreviation (input) MaxDecryptedPayloadSize :: nat where
  "MaxDecryptedPayloadSize \<equiv> GetPaddedTransportPayloadSize MaxInnerIpPacketSize"

record DecryptedPacketSlot =
  dps_bytes :: "byte list"
  dps_size :: nat
  dps_generation :: PacketGeneration

record PeerRuntime =
  m_config :: PeerConfigEntry
  m_derived :: PeerConfigDerivedInfo
  m_binding :: UdpBinding
  m_protocol :: PeerProtocolInfo
  m_controller :: TimerCoordinator
  m_lifecycle :: PeerRuntimeInfo
  m_next_activation_generation :: ActivationGeneration
  m_next_path_request_generation :: PathRequestGeneration
  m_path_request_generation :: PathRequestGeneration
  m_path_availability :: network_path_availability
  m_last_path_observation :: network_path_observation
  m_has_path_observation :: bool
  m_rebind_on_path_confirmation :: bool
  m_waiting_for_local_path :: bool
  m_endpoint_resolution_started :: bool
  m_receive_started :: bool
  m_next_socket_generation :: SocketGeneration
  m_pending_socket_generation :: SocketGeneration
  m_pending_bind_purpose :: UdpBindPurpose
  m_next_datagram_generation :: DatagramGeneration
  m_pending_datagram :: PendingDatagram
  m_staging_record :: InnerPacketRecord
  m_decrypted_packet :: DecryptedPacketSlot
  m_next_decrypted_packet_generation :: PacketGeneration
  m_peer_index :: PeerIndex

definition PeerConfigEntry_init :: PeerConfigEntry where
  "PeerConfigEntry_init =
     \<lparr>cfg_name = [], cfg_address = [], cfg_endpoint = [], cfg_private_key = [], cfg_dns = [], cfg_public_key = [],
      cfg_preshared_key = [], cfg_allowed_ips = [], cfg_listen_port = 0, cfg_persistent_keepalive = 0, cfg_mtu = 0,
      cfg_field_flags = 0, cfg_leak_protection = False\<rparr>"

definition DecryptedPacketSlot_init :: DecryptedPacketSlot where
  "DecryptedPacketSlot_init = \<lparr>dps_bytes = zeros MaxDecryptedPayloadSize, dps_size = 0, dps_generation = 0\<rparr>"

definition PeerRuntime_init :: PeerRuntime where
  "PeerRuntime_init =
     \<lparr>m_config = PeerConfigEntry_init, m_derived = PeerConfigDerivedInfo_init, m_binding = UdpBinding_init,
      m_protocol = \<lparr>pr_device = wg_device_zero, pr_instantiated = False\<rparr>, m_controller = TimerCoordinator_init,
      m_lifecycle = PeerRuntimeInfo_init, m_next_activation_generation = 1, m_next_path_request_generation = 1,
      m_path_request_generation = 0, m_path_availability = NPA_unknown,
      m_last_path_observation = network_path_observation_init, m_has_path_observation = False,
      m_rebind_on_path_confirmation = False, m_waiting_for_local_path = False, m_endpoint_resolution_started = False,
      m_receive_started = False, m_next_socket_generation = 1, m_pending_socket_generation = 0,
      m_pending_bind_purpose = UBP_Activation, m_next_datagram_generation = 1, m_pending_datagram = PendingDatagram_init,
      m_staging_record = InnerPacketRecord_init, m_decrypted_packet = DecryptedPacketSlot_init,
      m_next_decrypted_packet_generation = 1, m_peer_index = 0\<rparr>"

subsection \<open>Lifecycle\<close>

definition IsCurrentActivation :: "ActivationGeneration \<Rightarrow> PeerRuntime \<Rightarrow> bool" where
  "IsCurrentActivation generation s = IsCurrentGeneration (li_activation_generation (m_lifecycle s)) generation"

definition IsCurrentPathRequest :: "ActivationGeneration \<Rightarrow> PathRequestGeneration \<Rightarrow> PeerRuntime \<Rightarrow> bool" where
  "IsCurrentPathRequest generation path_generation s \<longleftrightarrow>
     IsCurrentActivation generation s \<and> path_generation \<noteq> 0 \<and> path_generation = m_path_request_generation s"

definition IsInTransportState :: "PeerRuntime \<Rightarrow> bool" where
  "IsInTransportState s \<longleftrightarrow> li_state (m_lifecycle s) = PRS_Handshaking \<or> li_state (m_lifecycle s) = PRS_Active"

definition AcceptsInnerPacketSubmission :: "PeerRuntime \<Rightarrow> bool" where
  "AcceptsInnerPacketSubmission s \<longleftrightarrow> li_state (m_lifecycle s) = PRS_ResolvingEndpoint \<or> IsInTransportState s"

definition ResetLifecycle :: "PeerRuntimeState \<Rightarrow> ActivationGeneration \<Rightarrow> ktime_t \<Rightarrow> PeerRuntime \<Rightarrow> PeerRuntime" where
  "ResetLifecycle state generation now s =
     s\<lparr>m_lifecycle := PeerRuntimeInfo_init
         \<lparr>li_state := state, li_persistent_keepalive_interval := cfg_persistent_keepalive (m_config s),
          li_activation_generation := generation, li_state_changed_ns := now\<rparr>\<rparr>"

definition ResetProtocol :: "PeerRuntime \<Rightarrow> PeerRuntime" where
  "ResetProtocol s =
     s\<lparr>m_protocol := (m_protocol s)\<lparr>pr_device := wg_device_reset (pr_device (m_protocol s)), pr_instantiated := False\<rparr>\<rparr>"

text \<open>\<open>ProtocolPeer\<close> returns a pointer to the peer inside the device: reading through it, and writing.\<close>

definition ProtocolPeer :: "PeerRuntime \<Rightarrow> wg_peer option" where
  "ProtocolPeer s =
     (if pr_instantiated (m_protocol s) then wg_device_first_peer (pr_device (m_protocol s)) else None)"

definition set_device :: "wg_device \<Rightarrow> PeerRuntime \<Rightarrow> PeerRuntime" where
  "set_device d s = s\<lparr>m_protocol := (m_protocol s)\<lparr>pr_device := d\<rparr>\<rparr>"

definition set_peer :: "wg_peer \<Rightarrow> PeerRuntime \<Rightarrow> PeerRuntime" where
  "set_peer p s = set_device ((pr_device (m_protocol s))\<lparr>dev_peer := p\<rparr>) s"

definition clear_decrypted_packet :: "PeerRuntime \<Rightarrow> PeerRuntime" where
  "clear_decrypted_packet s =
     s\<lparr>m_decrypted_packet :=
         \<lparr>dps_bytes = zeros (length (dps_bytes (m_decrypted_packet s))), dps_size = 0, dps_generation = 0\<rparr>\<rparr>"

definition Deactivate :: "ktime_t \<Rightarrow> PeerRuntime \<Rightarrow> PeerRuntime" where
  "Deactivate now s =
     (let s = s\<lparr>m_pending_datagram := PendingDatagram_init, m_pending_socket_generation := 0\<rparr>;
          s = clear_decrypted_packet s;
          s = s\<lparr>m_controller := CancelAll (m_controller s)\<rparr>;
          s = s\<lparr>m_path_request_generation := 0, m_path_availability := NPA_unknown,
                m_last_path_observation := network_path_observation_init, m_has_path_observation := False,
                m_rebind_on_path_confirmation := False, m_waiting_for_local_path := False,
                m_endpoint_resolution_started := False, m_receive_started := False\<rparr>;
          s = ResetProtocol s
      in ResetLifecycle PRS_Inactive 0 now s)"

definition Peer_Configure ::
  "PeerIndex \<Rightarrow> PeerConfigEntry \<Rightarrow> PeerConfigDerivedInfo \<Rightarrow> ktime_t \<Rightarrow> PeerRuntime \<Rightarrow> PeerRuntime option" where
  "Peer_Configure index config derived now s =
     (if b_socket (m_binding s) \<noteq> InvalidSocket then None
      else
        (let s = s\<lparr>m_binding := Binding_ClearEndpoint (m_binding s)\<rparr>;
             s = Deactivate now s;
             s = s\<lparr>m_peer_index := index, m_config := config, m_derived := derived\<rparr>
         in Some (ResetLifecycle PRS_Inactive 0 now s)))"

definition Peer_ClearConfiguration :: "ktime_t \<Rightarrow> PeerRuntime \<Rightarrow> socket_handle \<times> PeerRuntime" where
  "Peer_ClearConfiguration now s =
     (case Binding_ReleaseSocket (m_binding s) of (socket, b) \<Rightarrow>
        let s = s\<lparr>m_binding := Binding_ClearEndpoint b\<rparr>;
            s = Deactivate now s
        in (socket, s\<lparr>m_config := PeerConfigEntry_init, m_derived := PeerConfigDerivedInfo_init, m_peer_index := 0\<rparr>))"

definition BeginActivation :: "ktime_t \<Rightarrow> PeerRuntime \<Rightarrow> ActivationGeneration \<times> PeerRuntime" where
  "BeginActivation now s =
     (case AllocateGeneration (m_next_activation_generation s) of (generation, following) \<Rightarrow>
        (generation, ResetLifecycle PRS_ResolvingEndpoint generation now (s\<lparr>m_next_activation_generation := following\<rparr>)))"

definition EnterHandshaking :: "ActivationGeneration \<Rightarrow> ktime_t \<Rightarrow> PeerRuntime step" where
  "EnterHandshaking generation now s =
     (if \<not> IsCurrentActivation generation s \<or> li_state (m_lifecycle s) \<noteq> PRS_ResolvingEndpoint then (False, s)
      else (True, s\<lparr>m_lifecycle := (m_lifecycle s)
              \<lparr>li_state := PRS_Handshaking, li_error_stage := PES_None, li_last_error_code := PEC_None,
               li_state_ticks := 0, li_state_changed_ns := now\<rparr>\<rparr>))"

definition EnterActive :: "ActivationGeneration \<Rightarrow> ktime_t \<Rightarrow> PeerRuntime step" where
  "EnterActive generation now s =
     (if \<not> IsCurrentActivation generation s \<or> li_state (m_lifecycle s) \<noteq> PRS_Handshaking then (False, s)
      else (True, s\<lparr>m_lifecycle := (m_lifecycle s)
              \<lparr>li_state := PRS_Active, li_error_stage := PES_None, li_last_error_code := PEC_None,
               li_state_ticks := 0, li_established := True, li_state_changed_ns := now,
               li_last_handshake_ns := now\<rparr>\<rparr>))"

definition EnterError :: "PeerErrorStage \<Rightarrow> PeerErrorCode \<Rightarrow> ktime_t \<Rightarrow> PeerRuntime \<Rightarrow> PeerRuntime" where
  "EnterError stage code now s =
     s\<lparr>m_lifecycle := (m_lifecycle s)
         \<lparr>li_state := PRS_Error, li_error_stage := stage, li_last_error_code := code, li_state_ticks := 0,
          li_established := False, li_state_changed_ns := now\<rparr>\<rparr>"

definition RecordReceivedBytes :: "u64 \<Rightarrow> ktime_t \<Rightarrow> PeerRuntime \<Rightarrow> PeerRuntime" where
  "RecordReceivedBytes n now s =
     s\<lparr>m_lifecycle := (m_lifecycle s)\<lparr>li_rx_bytes := li_rx_bytes (m_lifecycle s) + n, li_last_rx_ns := now\<rparr>\<rparr>"

definition RecordTransmittedBytes :: "u64 \<Rightarrow> ktime_t \<Rightarrow> PeerRuntime \<Rightarrow> PeerRuntime" where
  "RecordTransmittedBytes n now s =
     s\<lparr>m_lifecycle := (m_lifecycle s)\<lparr>li_tx_bytes := li_tx_bytes (m_lifecycle s) + n, li_last_tx_ns := now\<rparr>\<rparr>"

definition ValidateConfiguration :: "PeerRuntime \<Rightarrow> PeerErrorCode" where
  "ValidateConfiguration s =
     (let c = m_config s in
      if cfg_public_key c = [] \<or> cfg_allowed_ips c = [] then PEC_ConfigInvalid
      else if \<not> di_secrets_valid (m_derived s) \<or> \<not> noise_is_valid_encoded_key (cfg_public_key c) False then PEC_KeyInvalid
      else if cfg_endpoint c = [] then PEC_EndpointMissing
      else PEC_None)"

definition InstantiateProtocol :: "crypto_backend \<Rightarrow> 'w platform \<Rightarrow> PeerRuntime \<times> 'w \<Rightarrow> bool \<times> PeerRuntime \<times> 'w" where
  "InstantiateProtocol be pf = (\<lambda>(s, w).
     let s = ResetProtocol s; v = m_derived s in
     if \<not> di_secrets_valid v then (False, s, w)
     else case wg_device_init_from_parsed_config be pf (m_config s) (di_local_private_key v)
                 (if di_has_preshared_key v then Some (di_preshared_key v) else None) (pr_device (m_protocol s)) w of
            (ok, d, w) \<Rightarrow>
              let s = set_device d s in
              if \<not> ok then (False, s, w)
              else (True, s\<lparr>m_protocol := (m_protocol s)\<lparr>pr_instantiated := True\<rparr>\<rparr>, w))"

definition AllocateSocketGeneration :: "PeerRuntime \<Rightarrow> SocketGeneration \<times> PeerRuntime" where
  "AllocateSocketGeneration s =
     (case AllocateGeneration (m_next_socket_generation s) of (g, f) \<Rightarrow> (g, s\<lparr>m_next_socket_generation := f\<rparr>))"

definition AllocateDatagramGeneration :: "PeerRuntime \<Rightarrow> DatagramGeneration \<times> PeerRuntime" where
  "AllocateDatagramGeneration s =
     (case AllocateGeneration (m_next_datagram_generation s) of (g, f) \<Rightarrow> (g, s\<lparr>m_next_datagram_generation := f\<rparr>))"

definition AllocateDecryptedPacketGeneration :: "PeerRuntime \<Rightarrow> PacketGeneration \<times> PeerRuntime" where
  "AllocateDecryptedPacketGeneration s =
     (case AllocateGeneration (m_next_decrypted_packet_generation s) of
        (g, f) \<Rightarrow> (g, s\<lparr>m_next_decrypted_packet_generation := f\<rparr>))"

subsection \<open>Queries\<close>

definition ProtocolSnapshot :: "PeerRuntime \<Rightarrow> PeerProtocolSnapshot" where
  "ProtocolSnapshot s =
     (case ProtocolPeer s of
        None \<Rightarrow>
          \<lparr>psn_current_keypair_index = 0, psn_previous_keypair_index = 0, psn_instantiated = pr_instantiated (m_protocol s),
           psn_current_keypair_valid = False, psn_next_keypair_valid = False, psn_previous_keypair_valid = False\<rparr>
      | Some p \<Rightarrow>
          \<lparr>psn_current_keypair_index = m_local_index (current_keypair p),
           psn_previous_keypair_index = m_local_index (previous_keypair p),
           psn_instantiated = pr_instantiated (m_protocol s),
           psn_current_keypair_valid = keypair_IsValid (current_keypair p),
           psn_next_keypair_valid = keypair_IsValid (next_keypair p),
           psn_previous_keypair_valid = keypair_IsValid (previous_keypair p)\<rparr>)"

definition CanSendTransportNow :: "'w platform \<Rightarrow> PeerRuntime \<Rightarrow> 'w \<Rightarrow> bool \<times> 'w" where
  "CanSendTransportNow pf s w =
     (case ProtocolPeer s of
        None \<Rightarrow> (False, w)
      | Some p \<Rightarrow> (case GetMonotonicTime pf w of (now, w) \<Rightarrow> (CanSendAt (current_keypair p) now, w)))"

definition IsTimerCurrent :: "TimerToken \<Rightarrow> TimerOwner \<Rightarrow> PeerRuntime \<Rightarrow> bool" where
  "IsTimerCurrent token owner s = IsCurrent token owner (m_controller s)"

definition CurrentTimerOwner :: "TimerHook \<Rightarrow> PeerRuntime \<Rightarrow> TimerOwner" where
  "CurrentTimerOwner hook s =
     \<lparr>owner_peer_index = m_peer_index s,
      owner_activation_generation = li_activation_generation (m_lifecycle s),
      owner_protocol_sequence =
        (case ProtocolPeer s of
           Some p \<Rightarrow> if hook = TH_RetransmitHandshake then hr_sequence_count (handshake_retry p) else 0
         | None \<Rightarrow> 0)\<rparr>"

definition HasPendingDatagram :: "ActivationGeneration \<Rightarrow> DatagramGeneration \<Rightarrow> PeerRuntime \<Rightarrow> bool" where
  "HasPendingDatagram generation datagram_generation s \<longleftrightarrow>
     IsCurrentActivation generation s \<and> Datagram_IsPending (m_pending_datagram s) \<and>
     pd_generation (m_pending_datagram s) = datagram_generation"

definition SnapshotPendingDatagram ::
  "ActivationGeneration \<Rightarrow> DatagramGeneration \<Rightarrow> PeerRuntime \<Rightarrow> PendingDatagramSnapshot step" where
  "SnapshotPendingDatagram generation datagram_generation s out =
     (let d = m_pending_datagram s in
      if \<not> IsCurrentActivation generation s \<or> \<not> Datagram_IsPending d \<or> pd_generation d \<noteq> datagram_generation
      then (False, out)
      else case Binding_SnapshotForSend (m_binding s) (pdn_binding out) of (ok, b) \<Rightarrow>
        let out = out\<lparr>pdn_binding := b\<rparr> in
        if \<not> ok then (False, out)
        else (True, out\<lparr>pdn_size := pd_size d, pdn_inner_packet_id := pd_inner_packet_id d, pdn_kind := pd_kind d,
                        pdn_bytes := put_bytes 0 (take (pd_size d) (pd_bytes d)) (pdn_bytes out)\<rparr>))"

definition ViewDecryptedPacket ::
  "ActivationGeneration \<Rightarrow> PacketGeneration \<Rightarrow> PeerRuntime \<Rightarrow> DecryptedPacketView step" where
  "ViewDecryptedPacket generation packet_generation s out =
     (let v = m_decrypted_packet s in
      if \<not> IsCurrentActivation generation s \<or> packet_generation = 0 \<or> dps_generation v \<noteq> packet_generation \<or> dps_size v = 0
      then (False, out)
      else (True, \<lparr>dpv_packet = take (dps_size v) (dps_bytes v), dpv_generation = dps_generation v\<rparr>))"

definition CanStageInnerPackets :: "nat \<Rightarrow> PeerRuntime \<Rightarrow> bool" where
  "CanStageInnerPackets count s =
     (case ProtocolPeer s of
        None \<Rightarrow> False
      | Some p \<Rightarrow> count \<le> CapacityValue (staged_outbound_packets p) - Queue_Size (staged_outbound_packets p))"

definition CanStageInnerPacket :: "PeerRuntime \<Rightarrow> bool" where
  "CanStageInnerPacket s = CanStageInnerPackets 1 s"

definition StagedInnerPacketCount :: "PeerRuntime \<Rightarrow> nat" where
  "StagedInnerPacketCount s =
     (case ProtocolPeer s of None \<Rightarrow> 0 | Some p \<Rightarrow> Queue_Size (staged_outbound_packets p))"

definition ClearStagedInnerPackets :: "PeerRuntime \<Rightarrow> nat \<times> PeerRuntime" where
  "ClearStagedInnerPackets s =
     (case ProtocolPeer s of
        None \<Rightarrow> (0, s)
      | Some p \<Rightarrow> (case wg_peer_clear_staged_outbound_packets QD_Cleared p of (n, p) \<Rightarrow> (n, set_peer p s)))"

abbreviation (input) int32_max :: int where "int32_max \<equiv> 2 ^ 31 - 1"

definition ComputeElapsedSeconds :: "ktime_t \<Rightarrow> ktime_t \<Rightarrow> int" where
  "ComputeElapsedSeconds timestamp_ns now_ns =
     (if timestamp_ns \<le> 0 \<or> now_ns < timestamp_ns then - 1
      else let elapsed_seconds = (now_ns - timestamp_ns) div 1000000000
           in if elapsed_seconds > int32_max then int32_max else elapsed_seconds)"

definition BuildPeerFlags :: "bool \<Rightarrow> bool \<Rightarrow> bool \<Rightarrow> PeerRuntimeState \<Rightarrow> bool \<Rightarrow> byte" where
  "BuildPeerFlags is_active is_auto_start is_established state has_resolved_endpoint =
     (if is_active then 1 else 0) OR (if is_auto_start then 2 else 0) OR (if is_established then 4 else 0) OR
     (if state = PRS_Error then 8 else 0) OR (if has_resolved_endpoint then 16 else 0)"

definition BuildDaemonFlags :: "bool \<Rightarrow> bool \<Rightarrow> u32" where
  "BuildDaemonFlags has_active_peer has_runtime_errors =
     1 OR (if has_active_peer then 2 else 0) OR (if has_runtime_errors then 4 else 0)"

text \<open>The enumerations with the numbers of their representation.\<close>

definition PeerRuntimeState_value :: "PeerRuntimeState \<Rightarrow> byte" where
  "PeerRuntimeState_value s =
     (case s of PRS_Inactive \<Rightarrow> 0 | PRS_ResolvingEndpoint \<Rightarrow> 1 | PRS_Handshaking \<Rightarrow> 2 | PRS_Active \<Rightarrow> 3 | PRS_Error \<Rightarrow> 4)"

definition PeerErrorStage_value :: "PeerErrorStage \<Rightarrow> byte" where
  "PeerErrorStage_value s =
     (case s of PES_None \<Rightarrow> 0 | PES_Config \<Rightarrow> 1 | PES_ResolveEndpoint \<Rightarrow> 2 | PES_Handshake \<Rightarrow> 3 | PES_Transport \<Rightarrow> 4
      | PES_Internal \<Rightarrow> 5)"

definition PeerErrorCode_value :: "PeerErrorCode \<Rightarrow> u32" where
  "PeerErrorCode_value c =
     (case c of
        PEC_None \<Rightarrow> 0 | PEC_ConfigInvalid \<Rightarrow> 1 | PEC_EndpointMissing \<Rightarrow> 2 | PEC_EndpointMalformed \<Rightarrow> 3
      | PEC_EndpointResolutionFailed \<Rightarrow> 4 | PEC_TransportInitFailed \<Rightarrow> 5 | PEC_InternalFailure \<Rightarrow> 6 | PEC_KeyInvalid \<Rightarrow> 7
      | PEC_HandshakeInitFailed \<Rightarrow> 8 | PEC_TransportOpenFailed \<Rightarrow> 9 | PEC_TransportSendFailed \<Rightarrow> 10
      | PEC_TransportReceiveFailed \<Rightarrow> 11 | PEC_HandshakeTimedOut \<Rightarrow> 12)"

definition address_family_value :: "address_family \<Rightarrow> byte" where
  "address_family_value f = (case f of AF_unspecified \<Rightarrow> 0 | AF_inet \<Rightarrow> 1 | AF_inet6 \<Rightarrow> 2)"

record PeerInfo =
  pi_name :: string
  pi_address :: string
  pi_endpoint :: string
  pi_resolved_endpoint :: string
  pi_derived_public_key :: string
  pi_last_handshake_seconds :: int
  pi_last_rx_seconds :: int
  pi_last_tx_seconds :: int
  pi_last_debug_probe_seconds :: int
  pi_last_error_code :: u32
  pi_debug_probe_action :: u32
  pi_debug_probe_status :: u32
  pi_persistent_keepalive_interval :: u16
  pi_runtime_state :: byte
  pi_error_stage :: byte
  pi_resolved_family :: byte
  pi_rx_bytes :: u64
  pi_tx_bytes :: u64
  pi_flags :: byte

definition BuildInfo :: "ktime_t \<Rightarrow> bool \<Rightarrow> bool \<Rightarrow> PeerRuntime \<Rightarrow> PeerInfo" where
  "BuildInfo now is_active is_auto_start s =
     (let c = m_config s; l = m_lifecycle s; b = m_binding s in
      \<lparr>pi_name = snprintf_s 32 (cfg_name c), pi_address = snprintf_s 48 (cfg_address c),
       pi_endpoint = snprintf_s 256 (cfg_endpoint c), pi_resolved_endpoint = snprintf_s 64 (b_endpoint_text b),
       pi_derived_public_key =
         snprintf_s 64 (if di_has_derived_public_key (m_derived s) then di_derived_public_key (m_derived s) else []),
       pi_last_handshake_seconds = ComputeElapsedSeconds (li_last_handshake_ns l) now,
       pi_last_rx_seconds = ComputeElapsedSeconds (li_last_rx_ns l) now,
       pi_last_tx_seconds = ComputeElapsedSeconds (li_last_tx_ns l) now,
       pi_last_debug_probe_seconds = - 1,
       pi_last_error_code = PeerErrorCode_value (li_last_error_code l),
       pi_debug_probe_action = 0, pi_debug_probe_status = 0,
       pi_persistent_keepalive_interval = li_persistent_keepalive_interval l,
       pi_runtime_state = PeerRuntimeState_value (li_state l), pi_error_stage = PeerErrorStage_value (li_error_stage l),
       pi_resolved_family = address_family_value (ep_family (b_endpoint b)),
       pi_rx_bytes = li_rx_bytes l, pi_tx_bytes = li_tx_bytes l,
       pi_flags = BuildPeerFlags is_active is_auto_start (li_established l) (li_state l) (b_has_endpoint b)\<rparr>)"

subsection \<open>Running a handler\<close>

record 'w rt_run =
  rt :: PeerRuntime
  rt_gw :: "u32 \<times> 'w"
  rt_fx :: "EffectBatch option"

definition on_rt :: "(PeerRuntime \<Rightarrow> PeerRuntime) \<Rightarrow> 'w rt_run \<Rightarrow> 'w rt_run" where
  "on_rt f r = r\<lparr>rt := f (rt r)\<rparr>"

definition on_rt_step :: "PeerRuntime step \<Rightarrow> 'w rt_run step" where
  "on_rt_step f r = (case f (rt r) of (ok, s) \<Rightarrow> (ok, r\<lparr>rt := s\<rparr>))"

definition add_fx :: "RuntimeEffect \<Rightarrow> 'w rt_run \<Rightarrow> 'w rt_run" where
  "add_fx e r = r\<lparr>rt_fx := Effects_Add e (rt_fx r)\<rparr>"

text \<open>\<open>effects.Append(HandleEvent(...))\<close>: the inner handler fills a batch of its own.\<close>

definition append_fx :: "('w rt_run \<Rightarrow> 'w rt_run) \<Rightarrow> 'w rt_run \<Rightarrow> 'w rt_run" where
  "append_fx h r = (let r' = h (r\<lparr>rt_fx := Some []\<rparr>) in r'\<lparr>rt_fx := Effects_Append (rt_fx r') (rt_fx r)\<rparr>)"

text \<open>The sample of the monotonic clock in the middle of a handler.\<close>

definition rt_now :: "'w platform \<Rightarrow> 'w rt_run \<Rightarrow> MonotonicTimePoint \<times> 'w rt_run" where
  "rt_now pf r = (case GetMonotonicTime pf (snd (rt_gw r)) of (now, w) \<Rightarrow> (now, r\<lparr>rt_gw := (fst (rt_gw r), w)\<rparr>))"

definition TimerHooks :: "TimerHook list" where
  "TimerHooks = [TH_RetransmitHandshake, TH_SendKeepalive, TH_NewHandshake, TH_ZeroKeyMaterial, TH_PersistentKeepalive]"

definition EnterActivationError :: "PeerErrorStage \<Rightarrow> PeerErrorCode \<Rightarrow> ktime_t \<Rightarrow> 'w rt_run \<Rightarrow> 'w rt_run" where
  "EnterActivationError stage code now r =
     (let s = (rt r)\<lparr>m_pending_datagram := PendingDatagram_init, m_pending_socket_generation := 0\<rparr>;
          s = clear_decrypted_packet s;
          s = snd (ClearStagedInnerPackets s);
          s = (case ProtocolPeer s of
                 None \<Rightarrow> s
               | Some p \<Rightarrow>
                   let s = set_peer (wg_peer_scrub_transient_state p) s
                   in set_device (wg_device_clear_index_registry (pr_device (m_protocol s))) s);
          s = EnterError stage code now s;
          identity = \<lparr>pid_peer_index = m_peer_index s, pid_activation_generation = li_activation_generation (m_lifecycle s)\<rparr>;
          r = r\<lparr>rt := s\<rparr>;
          r = (if Binding_IsOpen (m_binding s) then
                 (case Binding_ReleaseSocket (m_binding s) of (socket, b) \<Rightarrow>
                    add_fx (CloseUdpSocketEffect (m_path_request_generation s) socket) (r\<lparr>rt := s\<lparr>m_binding := b\<rparr>\<rparr>))
               else r)
      in if pid_activation_generation identity = 0 then r
         else fold (\<lambda>hook. add_fx (CancelProtocolTimerEffect identity hook TimerToken_init)) TimerHooks r)"

end
