(* ===== verification/WG_PeerHandlers.thy ===== *)
theory WG_PeerHandlers
  imports WG_PeerRuntime
begin

text \<open>
  The event handlers of a peer: \<open>runtime/peer/outbound.cpp\<close>, \<open>inbound.cpp\<close>, \<open>peer_timers.cpp\<close>,
  \<open>activation.cpp\<close> and \<open>peer_runtime.cpp\<close>. Each member function is a function on \<open>rt_run\<close>; a \<open>bool\<close>
  result makes it a step. \<open>Handle\<close> composes them: the handler of the event, the tokens of the timer
  effects, and the check of the effect budget, which aborts the process.
\<close>

subsection \<open>Deadlines and timer policy\<close>

abbreviation (input) KeepaliveTimeout :: TimerDelay where "KeepaliveTimeout \<equiv> 10000"
abbreviation (input) ZeroKeyMaterialAfterTime :: TimerDelay where "ZeroKeyMaterialAfterTime \<equiv> 540000"

definition HandshakeRetryDeadline :: "TimerFacts \<Rightarrow> TimerDeadline" where
  "HandshakeRetryDeadline facts = tf_now facts + GetHandshakeRetryDelay (tf_random_u32 facts)"

definition KeepaliveDeadline :: "TimerFacts \<Rightarrow> TimerDeadline" where
  "KeepaliveDeadline facts = tf_now facts + KeepaliveTimeout"

definition NewHandshakeDeadline :: "TimerFacts \<Rightarrow> TimerDeadline" where
  "NewHandshakeDeadline facts = tf_now facts + KeepaliveTimeout + GetHandshakeRetryDelay (tf_random_u32 facts)"

definition PersistentKeepaliveDeadline :: "TimerFacts \<Rightarrow> PeerRuntime \<Rightarrow> TimerDeadline" where
  "PersistentKeepaliveDeadline facts s = tf_now facts + 1000 * int (unat (cfg_persistent_keepalive (m_config s)))"

definition ZeroKeyMaterialDeadline :: "TimerFacts \<Rightarrow> TimerDeadline" where
  "ZeroKeyMaterialDeadline facts = tf_now facts + ZeroKeyMaterialAfterTime"

definition arm_fx :: "PeerIdentity \<Rightarrow> TimerHook \<Rightarrow> TimerDeadline \<Rightarrow> 'w rt_run \<Rightarrow> 'w rt_run" where
  "arm_fx identity hook dl = add_fx (ArmProtocolTimerEffect identity hook TimerToken_init dl)"

definition cancel_fx :: "PeerIdentity \<Rightarrow> TimerHook \<Rightarrow> 'w rt_run \<Rightarrow> 'w rt_run" where
  "cancel_fx identity hook = add_fx (CancelProtocolTimerEffect identity hook TimerToken_init)"

text \<open>The effect that sends the pending datagram.\<close>

definition send_pending_fx :: "PeerIdentity \<Rightarrow> 'w rt_run \<Rightarrow> 'w rt_run" where
  "send_pending_fx identity r = add_fx (SendPendingDatagramEffect identity (pd_generation (m_pending_datagram (rt r)))) r"

definition OnAuthenticatedPacketTraversal :: "PeerIdentity \<Rightarrow> TimerFacts \<Rightarrow> 'w rt_run \<Rightarrow> 'w rt_run" where
  "OnAuthenticatedPacketTraversal identity facts r =
     (case ProtocolPeer (rt r) of
        Some p \<Rightarrow>
          if persistent_keepalive_interval p > 0
          then arm_fx identity TH_PersistentKeepalive (PersistentKeepaliveDeadline facts (rt r)) r
          else r
      | None \<Rightarrow> r)"

definition OnAuthenticatedPacketSent :: "PeerIdentity \<Rightarrow> 'w rt_run \<Rightarrow> 'w rt_run" where
  "OnAuthenticatedPacketSent identity = cancel_fx identity TH_SendKeepalive"

definition OnAuthenticatedPacketReceived :: "PeerIdentity \<Rightarrow> 'w rt_run \<Rightarrow> 'w rt_run" where
  "OnAuthenticatedPacketReceived identity = cancel_fx identity TH_NewHandshake"

definition OnDataPacketSent :: "PeerIdentity \<Rightarrow> TimerFacts \<Rightarrow> 'w rt_run \<Rightarrow> 'w rt_run" where
  "OnDataPacketSent identity facts r =
     (case ProtocolPeer (rt r) of
        Some p \<Rightarrow>
          if \<not> pending (new_handshake (timers p)) then arm_fx identity TH_NewHandshake (NewHandshakeDeadline facts) r else r
      | None \<Rightarrow> r)"

definition OnDataPacketReceived :: "PeerIdentity \<Rightarrow> TimerFacts \<Rightarrow> 'w rt_run \<Rightarrow> 'w rt_run" where
  "OnDataPacketReceived identity facts r =
     (case ProtocolPeer (rt r) of
        None \<Rightarrow> r
      | Some p \<Rightarrow>
          if pending (send_keepalive (timers p))
          then on_rt (set_peer (p\<lparr>timers := (timers p)\<lparr>need_another_keepalive := True\<rparr>\<rparr>)) r
          else arm_fx identity TH_SendKeepalive (KeepaliveDeadline facts) r)"

definition OnSessionDerived :: "PeerIdentity \<Rightarrow> TimerFacts \<Rightarrow> 'w rt_run \<Rightarrow> 'w rt_run" where
  "OnSessionDerived identity facts = arm_fx identity TH_ZeroKeyMaterial (ZeroKeyMaterialDeadline facts)"

definition OnHandshakeComplete :: "PeerIdentity \<Rightarrow> 'w rt_run \<Rightarrow> 'w rt_run" where
  "OnHandshakeComplete identity = cancel_fx identity TH_RetransmitHandshake"

text \<open>Tokens. A timer effect of the current activation is carried out on the timer intent of the peer and
  on the coordinator, and gets the token; the range-based loop runs through the batch in order.\<close>

definition timer_effect_current :: "PeerIdentity \<Rightarrow> PeerRuntime \<Rightarrow> bool" where
  "timer_effect_current identity s \<longleftrightarrow>
     IsCurrentActivation (pid_activation_generation identity) s \<and> pid_peer_index identity = m_peer_index s"

definition finalize_effect :: "RuntimeEffect \<Rightarrow> PeerRuntime \<Rightarrow> RuntimeEffect \<times> PeerRuntime" where
  "finalize_effect e s =
     (case e of
        ArmProtocolTimerEffect identity hook token dl \<Rightarrow>
          if \<not> timer_effect_current identity s then (e, s)
          else (case ProtocolPeer s of
             None \<Rightarrow> (e, s)
           | Some p \<Rightarrow>
               let t = wg_timers_schedule hook dl (wg_timers_cancel hook (timers p));
                   owner = \<lparr>owner_peer_index = pid_peer_index identity,
                            owner_activation_generation = pid_activation_generation identity,
                            owner_protocol_sequence =
                              (if hook = TH_RetransmitHandshake then hr_sequence_count (handshake_retry p) else 0)\<rparr>
               in case Arm hook owner (m_controller s) of (token, c) \<Rightarrow>
                    (ArmProtocolTimerEffect identity hook token dl, (set_peer (p\<lparr>timers := t\<rparr>) s)\<lparr>m_controller := c\<rparr>))
      | CancelProtocolTimerEffect identity hook token \<Rightarrow>
          if \<not> timer_effect_current identity s then (e, s)
          else
            let s = (case ProtocolPeer s of
                       None \<Rightarrow> s
                     | Some p \<Rightarrow> set_peer (p\<lparr>timers := wg_timers_cancel hook (timers p)\<rparr>) s)
            in (case Cancel hook (m_controller s) of (token, c) \<Rightarrow>
                  (CancelProtocolTimerEffect identity hook token, s\<lparr>m_controller := c\<rparr>))
      | _ \<Rightarrow> (e, s))"

fun FinalizeTimerEffects :: "EffectBatch \<Rightarrow> PeerRuntime \<Rightarrow> EffectBatch \<times> PeerRuntime" where
  "FinalizeTimerEffects [] s = ([], s)"
| "FinalizeTimerEffects (e # es) s =
     (case finalize_effect e s of (e, s) \<Rightarrow> case FinalizeTimerEffects es s of (es, s) \<Rightarrow> (e # es, s))"

subsection \<open>Preparing datagrams\<close>

definition PrepareHandshakeInitiation :: "PendingDatagramKind \<Rightarrow> PeerRuntime step" where
  "PrepareHandshakeInitiation kind s =
     (case ProtocolPeer s of
        None \<Rightarrow> (False, s)
      | Some p \<Rightarrow>
          if \<not> has_last_initiation p \<or> Datagram_IsPending (m_pending_datagram s) then (False, s)
          else
            let d = PendingDatagram_init in
            case SerializeHandshakeInitiation (take HandshakeInitiationSize (pd_bytes d)) (last_initiation p) of (e, bytes) \<Rightarrow>
              if e \<noteq> PE_None then (False, s)
              else case AllocateDatagramGeneration s of (g, s) \<Rightarrow>
                (True, s\<lparr>m_pending_datagram := d\<lparr>pd_bytes := put_bytes 0 bytes (pd_bytes d),
                   pd_size := HandshakeInitiationSize, pd_generation := g, pd_kind := kind\<rparr>\<rparr>))"

definition PrepareHandshakeResponse :: "crypto_backend \<Rightarrow> 'w platform \<Rightarrow> 'w rt_run step" where
  "PrepareHandshakeResponse be pf r =
     (case ProtocolPeer (rt r) of
        None \<Rightarrow> (False, r)
      | Some p \<Rightarrow>
          if Datagram_IsPending (m_pending_datagram (rt r)) then (False, r)
          else
            let d = PendingDatagram_init; (g, w) = rt_gw r in
            case noise_handshake_create_response be pf p w zero_response of (ok, response, p, w) \<Rightarrow>
              let r = (on_rt (set_peer p) r)\<lparr>rt_gw := (g, w)\<rparr> in
              if \<not> ok then (False, r)
              else case SerializeHandshakeResponse (take HandshakeResponseSize (pd_bytes d)) response of (e, bytes) \<Rightarrow>
                if e \<noteq> PE_None then (False, r)
                else case DeriveResponderSession be pf (pr_device (m_protocol (rt r))) w of (ok, dev, w) \<Rightarrow>
                  let r = (on_rt (set_device dev) r)\<lparr>rt_gw := (g, w)\<rparr> in
                  if \<not> ok then (False, r)
                  else case AllocateDatagramGeneration (rt r) of (gen, s) \<Rightarrow>
                    (True, r\<lparr>rt := s\<lparr>m_pending_datagram := d\<lparr>pd_bytes := put_bytes 0 bytes (pd_bytes d),
                       pd_size := HandshakeResponseSize, pd_generation := gen, pd_kind := PDK_HandshakeResponse\<rparr>\<rparr>\<rparr>))"

definition ResolveEffectiveInnerMtu :: "u16 \<Rightarrow> u16" where
  "ResolveEffectiveInnerMtu configured_mtu = (if configured_mtu = 0 then 1420 else configured_mtu)"

definition PrepareTransportDatagram ::
  "crypto_backend \<Rightarrow> 'w platform \<Rightarrow> byte list \<Rightarrow> PendingDatagramKind \<Rightarrow> PacketId \<Rightarrow> 'w rt_run \<Rightarrow>
   bool \<times> TransportDataError \<times> 'w rt_run" where
  "PrepareTransportDatagram be pf payload kind packet r =
     (case ProtocolPeer (rt r) of
        None \<Rightarrow> (False, TDE_InvalidKeypair, r)
      | Some p \<Rightarrow>
          if Datagram_IsPending (m_pending_datagram (rt r)) then (False, TDE_InvalidKeypair, r)
          else
            let d = PendingDatagram_init; (g, w) = rt_gw r;
                mtu = unat (ResolveEffectiveInnerMtu (cfg_mtu (m_config (rt r)))) in
            case noise_create_transport_data_packet be pf payload mtu (pd_bytes d) (current_keypair p) w of
              (result, bytes, kp, w) \<Rightarrow>
                let r = (on_rt (set_peer (p\<lparr>current_keypair := kp\<rparr>)) r)\<lparr>rt_gw := (g, w)\<rparr> in
                if tdc_error result \<noteq> TDE_None then (False, tdc_error result, r)
                else case AllocateDatagramGeneration (rt r) of (gen, s) \<Rightarrow>
                  (True, tdc_error result,
                   r\<lparr>rt := s\<lparr>m_pending_datagram := d\<lparr>pd_bytes := bytes, pd_size := tdc_packet_size result,
                      pd_generation := gen, pd_inner_packet_id := packet, pd_kind := kind\<rparr>\<rparr>\<rparr>))"

definition StartHandshake ::
  "crypto_backend \<Rightarrow> 'w platform \<Rightarrow> PeerIdentity \<Rightarrow> bool \<Rightarrow> 'w rt_run step" where
  "StartHandshake be pf identity retry r =
     (case ProtocolPeer (rt r) of
        None \<Rightarrow> (False, r)
      | Some _ \<Rightarrow>
          if Datagram_IsPending (m_pending_datagram (rt r)) then (False, r)
          else
            case (if retry then HandleHandshakeRetryTimer be pf (pr_device (m_protocol (rt r))) (rt_gw r)
                  else Controller_StartHandshake be pf (pr_device (m_protocol (rt r))) (rt_gw r)) of
              (transition, dev, gw) \<Rightarrow>
                let r = (on_rt (set_device dev) r)\<lparr>rt_gw := gw\<rparr> in
                if ht_action transition = HTA_Ignore then (True, r)
                else if ht_action transition \<noteq> HTA_SendInitiation then (False, r)
                else case on_rt_step (PrepareHandshakeInitiation PDK_HandshakeInitiation) r of (ok, r) \<Rightarrow>
                  if \<not> ok then (False, r) else (True, send_pending_fx identity r))"

text \<open>\<open>if (!StartHandshake(...)) EnterActivationError(Handshake, HandshakeInitFailed, ...)\<close>, which several
  handlers share.\<close>

definition start_or_fail :: "crypto_backend \<Rightarrow> 'w platform \<Rightarrow> PeerIdentity \<Rightarrow> ktime_t \<Rightarrow> 'w rt_run \<Rightarrow> 'w rt_run" where
  "start_or_fail be pf identity now r =
     (case StartHandshake be pf identity False r of (ok, r) \<Rightarrow>
        if \<not> ok then EnterActivationError PES_Handshake PEC_HandshakeInitFailed now r else r)"

definition RefreshKeyFreshness :: "crypto_backend \<Rightarrow> 'w platform \<Rightarrow> PeerIdentity \<Rightarrow> ktime_t \<Rightarrow> 'w rt_run \<Rightarrow> 'w rt_run" where
  "RefreshKeyFreshness be pf identity now r =
     (case ProtocolPeer (rt r) of
        None \<Rightarrow> r
      | Some p \<Rightarrow>
          (case rt_now pf r of (time, r) \<Rightarrow>
             if \<not> NeedsRekeyAt (current_keypair p) time \<or> Datagram_IsPending (m_pending_datagram (rt r)) \<or>
                hr_active (handshake_retry p)
             then r
             else start_or_fail be pf identity now r))"

subsection \<open>The staging queue\<close>

definition pop_staged :: "QueueDisposition \<Rightarrow> wg_peer \<Rightarrow> wg_peer" where
  "pop_staged disposition p = p\<lparr>staged_outbound_packets := snd (Queue_Pop disposition (staged_outbound_packets p))\<rparr>"

text \<open>The body of the loop for a packet that is to be sent now; every path through it returns. After
  \<open>BuildFailed\<close> the controller never answers \<open>Continue\<close> (\<open>build_failed_action\<close> below).\<close>

definition send_front ::
  "crypto_backend \<Rightarrow> 'w platform \<Rightarrow> PeerIdentity \<Rightarrow> ktime_t \<Rightarrow> InnerPacketRecord \<Rightarrow> 'w rt_run \<Rightarrow> 'w rt_run" where
  "send_front be pf identity now front r =
     (case PrepareTransportDatagram be pf (take (unat (ipr_size front)) (ipr_bytes front)) PDK_TransportData (packet_id front) r of
        (ok, build_error, r) \<Rightarrow>
          if ok then send_pending_fx identity r
          else
            (case ApplyStagedSendOutcome (Outcome_BuildFailed build_error) (dev_peer (pr_device (m_protocol (rt r)))) of
               (transition, p) \<Rightarrow>
                 let r = on_rt (set_peer p) r in
                 (case spt_action transition of
                    SPA_InitiateHandshake \<Rightarrow> start_or_fail be pf identity now r
                  | SPA_StopOnTerminalFailure \<Rightarrow> EnterActivationError PES_Internal PEC_InternalFailure now r
                  | SPA_Continue \<Rightarrow> r)))"

lemma build_failed_action:
  "spt_action (fst (ApplyStagedSendOutcome (Outcome_BuildFailed e) p)) \<noteq> SPA_Continue"
  by (simp add: ApplyStagedSendOutcome_def Outcome_BuildFailed_def Let_def)

lemma ProtocolPeer_set_peer [simp]:
  "ProtocolPeer (set_peer p' s) = map_option (\<lambda>_. p') (ProtocolPeer s)"
  by (simp add: ProtocolPeer_def set_peer_def set_device_def wg_device_first_peer_def)

lemma pop_staged_decreases:
  "Queue_Front (staged_outbound_packets p) = Some f \<Longrightarrow>
   m_count (staged_outbound_packets (pop_staged x p)) < m_count (staged_outbound_packets p)"
  by (auto simp: Queue_Front_def Queue_Pop_def pop_staged_def Let_def split: if_splits)

function process_outbound_loop ::
  "crypto_backend \<Rightarrow> 'w platform \<Rightarrow> PeerIdentity \<Rightarrow> ktime_t \<Rightarrow> 'w rt_run \<Rightarrow> 'w rt_run" where
  "process_outbound_loop be pf identity now r =
     (case ProtocolPeer (rt r) of
        None \<Rightarrow> r
      | Some p \<Rightarrow>
          (case Queue_Front (staged_outbound_packets p) of
             None \<Rightarrow> r
           | Some front \<Rightarrow>
               if peer_index front \<noteq> pid_peer_index identity \<or> activation_generation front \<noteq> pid_activation_generation identity
               then process_outbound_loop be pf identity now (on_rt (set_peer (pop_staged QD_Stale p)) r)
               else if li_state (m_lifecycle (rt r)) = PRS_ResolvingEndpoint then r
               else if \<not> Binding_IsOpen (m_binding (rt r)) \<or> b_suspended (m_binding (rt r)) then r
               else if \<not> IsInTransportState (rt r)
               then process_outbound_loop be pf identity now (on_rt (set_peer (pop_staged QD_Unavailable p)) r)
               else
                 case rt_now pf r of (time, r) \<Rightarrow>
                   (case wg_peer_get_outbound_staging_action p time of
                      OSA_InitiateHandshake \<Rightarrow> start_or_fail be pf identity now r
                    | OSA_Send \<Rightarrow> send_front be pf identity now front r
                    | OSA_Idle \<Rightarrow> r)))"
  by pat_completeness auto
termination
  by (relation "measure (\<lambda>(be, pf, identity, now, r).
        case ProtocolPeer (rt r) of None \<Rightarrow> 0 | Some p \<Rightarrow> m_count (staged_outbound_packets p))")
    (simp_all add: on_rt_def pop_staged_decreases)

declare process_outbound_loop.simps [simp del]

definition ProcessOutboundQueue ::
  "crypto_backend \<Rightarrow> 'w platform \<Rightarrow> PeerIdentity \<Rightarrow> ktime_t \<Rightarrow> 'w rt_run \<Rightarrow> 'w rt_run" where
  "ProcessOutboundQueue be pf identity now r =
     (if ProtocolPeer (rt r) = None \<or> Datagram_IsPending (m_pending_datagram (rt r)) then r
      else process_outbound_loop be pf identity now r)"

subsection \<open>Transport\<close>

definition MapSocketError :: "socket_error \<Rightarrow> PeerErrorCode" where
  "MapSocketError e =
     (case e of
        SE_none \<Rightarrow> PEC_None
      | SE_transport_init_failed \<Rightarrow> PEC_TransportInitFailed
      | SE_open_failed \<Rightarrow> PEC_TransportOpenFailed
      | SE_send_failed \<Rightarrow> PEC_TransportSendFailed
      | SE_receive_failed \<Rightarrow> PEC_TransportReceiveFailed
      | SE_invalid_endpoint \<Rightarrow> PEC_InternalFailure)"

definition handle_transport_failure :: "TransportFailureEvent \<Rightarrow> 'w rt_run \<Rightarrow> 'w rt_run" where
  "handle_transport_failure event r =
     (let s = rt r in
      if \<not> IsCurrentActivation (pid_activation_generation (tfe_peer event)) s \<or> \<not> IsInTransportState s \<or>
         \<not> Binding_Matches (tfe_socket_generation event) (tfe_socket event) (m_binding s)
      then r
      else
        let code = MapSocketError (tfe_error event) in
        if code = PEC_None then r
        else if code = PEC_TransportSendFailed \<or> code = PEC_TransportReceiveFailed then r
        else EnterActivationError PES_Transport code (tfe_occurred_at event) r)"

definition SuspendTransport :: "PeerIdentity \<Rightarrow> 'w rt_run \<Rightarrow> 'w rt_run" where
  "SuspendTransport identity r =
     (if b_suspended (m_binding (rt r)) then r
      else
        let r = fold (cancel_fx identity)
                  [TH_RetransmitHandshake, TH_SendKeepalive, TH_NewHandshake, TH_PersistentKeepalive] r in
        case Binding_ReleaseAndSuspend (m_binding (rt r)) of (socket, b) \<Rightarrow>
          let r = on_rt (\<lambda>s. s\<lparr>m_binding := b\<rparr>) r in
          if socket \<noteq> InvalidSocket then add_fx (CloseUdpSocketEffect (m_path_request_generation (rt r)) socket) r else r)"

definition RecoverTransport ::
  "crypto_backend \<Rightarrow> 'w platform \<Rightarrow> PeerIdentity \<Rightarrow> ktime_t \<Rightarrow> 'w rt_run \<Rightarrow> 'w rt_run" where
  "RecoverTransport be pf identity now r =
     (if Datagram_IsPending (m_pending_datagram (rt r)) then r
      else case ProtocolPeer (rt r) of
        None \<Rightarrow> r
      | Some p \<Rightarrow>
          (case rt_now pf r of (time, r) \<Rightarrow>
             if li_state (m_lifecycle (rt r)) = PRS_Active \<and> CanSendAt (current_keypair p) time then
               (let (sending, r) =
                      (if StagedInnerPacketCount (rt r) \<noteq> 0
                       then (let r = ProcessOutboundQueue be pf identity now r in (Datagram_IsPending (m_pending_datagram (rt r)), r))
                       else (False, r))
                in if sending then r
                   else case PrepareTransportDatagram be pf [] PDK_Keepalive 0 r of (ok, build_error, r) \<Rightarrow>
                     if \<not> ok then EnterActivationError PES_Internal PEC_InternalFailure now r
                     else send_pending_fx identity r)
             else start_or_fail be pf identity now r))"

subsection \<open>Completion of a send\<close>

definition HandlePendingDatagramCompletion ::
  "crypto_backend \<Rightarrow> 'w platform \<Rightarrow> PendingDatagramSentEvent \<Rightarrow> 'w rt_run \<Rightarrow> 'w rt_run" where
  "HandlePendingDatagramCompletion be pf event r =
     (let s = rt r; peer = pds_peer event; facts = pds_timer_facts event; now = pds_occurred_at event in
      if \<not> IsCurrentActivation (pid_activation_generation peer) s \<or> \<not> Datagram_IsPending (m_pending_datagram s) \<or>
         pd_generation (m_pending_datagram s) \<noteq> pds_datagram_generation event
      then r
      else
        let kind = pd_kind (m_pending_datagram s);
            r = on_rt (\<lambda>s. s\<lparr>m_pending_datagram := PendingDatagram_init\<rparr>) r in
        if pds_error event = SE_none then
          (let r = on_rt (RecordTransmittedBytes (pds_bytes_sent event) now) r;
               r = OnAuthenticatedPacketTraversal peer facts r;
               r = OnAuthenticatedPacketSent peer r;
               r = (if kind = PDK_HandshakeInitiation then
                      (let r = arm_fx peer TH_RetransmitHandshake (HandshakeRetryDeadline facts) r
                       in if \<not> m_receive_started (rt r)
                          then add_fx (QueueReceiveEffect peer) (on_rt (\<lambda>s. s\<lparr>m_receive_started := True\<rparr>) r)
                          else r)
                    else r);
               r = (if kind = PDK_TransportData then
                      (case ProtocolPeer (rt r) of
                         None \<Rightarrow> r
                       | Some p \<Rightarrow>
                           let r = on_rt (set_peer (snd (ApplyStagedSendOutcome Outcome_Sent p))) r;
                               r = OnDataPacketSent peer facts r;
                               r = add_fx (QueueInnerPacketSubmissionEffect peer) r
                           in RefreshKeyFreshness be pf peer now r)
                    else r)
           in if kind = PDK_Keepalive then RefreshKeyFreshness be pf peer now r else r)
        else
          (let r = (if kind = PDK_TransportData then
                      (case ProtocolPeer (rt r) of
                         None \<Rightarrow> r
                       | Some p \<Rightarrow> on_rt (set_peer (snd (ApplyStagedSendOutcome Outcome_TransportDropped p))) r)
                    else r)
           in if pds_error event = SE_send_failed then
                (let b = m_binding (rt r);
                     r = append_fx (handle_transport_failure
                           \<lparr>tfe_peer = peer, tfe_operation = TIO_Send, tfe_socket = b_socket b,
                            tfe_socket_generation = b_generation b, tfe_error = pds_error event, tfe_occurred_at = now\<rparr>) r
                 in if kind = PDK_HandshakeInitiation
                    then arm_fx peer TH_RetransmitHandshake (HandshakeRetryDeadline facts) r
                    else r)
              else EnterActivationError PES_Transport PEC_TransportSendFailed now r))"

subsection \<open>Staging of inner packets\<close>

definition staging_record :: "PeerIdentity \<Rightarrow> PacketId \<Rightarrow> byte list \<Rightarrow> InnerPacketRecord" where
  "staging_record identity packet bytes =
     InnerPacketRecord_init\<lparr>packet_id := packet, activation_generation := pid_activation_generation identity,
       peer_index := pid_peer_index identity, ipr_size := of_nat (length bytes),
       ipr_bytes := put_bytes 0 bytes (ipr_bytes InnerPacketRecord_init)\<rparr>"

definition packet_fits :: "byte list \<Rightarrow> PeerRuntime \<Rightarrow> bool" where
  "packet_fits bytes s \<longleftrightarrow> bytes \<noteq> [] \<and> length bytes \<le> length (ipr_bytes (m_staging_record s))"

definition push_staged :: "PeerIdentity \<Rightarrow> PacketId \<Rightarrow> byte list \<Rightarrow> wg_peer \<Rightarrow> 'w rt_run \<Rightarrow> QueuePushResult \<times> 'w rt_run" where
  "push_staged identity packet bytes p r =
     (let rec = staging_record identity packet bytes in
      case Queue_Push rec (staged_outbound_packets p) of (result, q) \<Rightarrow>
        (result, on_rt (\<lambda>s. set_peer (p\<lparr>staged_outbound_packets := q\<rparr>) (s\<lparr>m_staging_record := rec\<rparr>)) r))"

definition handle_inner_packet_staged ::
  "crypto_backend \<Rightarrow> 'w platform \<Rightarrow> InnerPacketStagedEvent \<Rightarrow> 'w rt_run \<Rightarrow> 'w rt_run" where
  "handle_inner_packet_staged be pf event r =
     (let s = rt r; peer = ips_peer event in
      case ProtocolPeer s of
        None \<Rightarrow> r
      | Some p \<Rightarrow>
          if \<not> IsCurrentActivation (pid_activation_generation peer) s \<or> \<not> AcceptsInnerPacketSubmission s \<or>
             \<not> packet_fits (ips_packet event) s
          then r
          else case push_staged peer (ips_packet_id event) (ips_packet event) p r of (result, r) \<Rightarrow>
            if result = QP_Full then r
            else if IsInTransportState (rt r) then ProcessOutboundQueue be pf peer (ips_occurred_at event) r
            else r)"

text \<open>The second loop of the batch handler; a full queue there aborts.\<close>

fun push_batch :: "PeerIdentity \<Rightarrow> (PacketId \<times> byte list) list \<Rightarrow> 'w rt_run \<Rightarrow> 'w rt_run" where
  "push_batch identity [] r = r"
| "push_batch identity ((packet, bytes) # rest) r =
     (case ProtocolPeer (rt r) of
        None \<Rightarrow> r
      | Some p \<Rightarrow>
          (case push_staged identity packet bytes p r of (result, r) \<Rightarrow>
             if result = QP_Full then r\<lparr>rt_fx := None\<rparr> else push_batch identity rest r))"

definition handle_inner_packet_batch_staged ::
  "crypto_backend \<Rightarrow> 'w platform \<Rightarrow> InnerPacketBatchStagedEvent \<Rightarrow> 'w rt_run \<Rightarrow> 'w rt_run" where
  "handle_inner_packet_batch_staged be pf event r =
     (let s = rt r; peer = ipb_peer event; count = unat (ipb_count event) in
      if \<not> IsCurrentActivation (pid_activation_generation peer) s \<or> \<not> AcceptsInnerPacketSubmission s \<or> ProtocolPeer s = None \<or>
         count = 0 \<or> count > MaximumInnerPacketBatchSize \<or> \<not> CanStageInnerPackets count s
      then r
      else if \<not> list_all (\<lambda>bytes. packet_fits bytes s) (take count (ipb_packets event)) then r
      else
        let r = push_batch peer (zip (take count (ipb_packet_ids event)) (take count (ipb_packets event))) r in
        if IsInTransportState (rt r) then ProcessOutboundQueue be pf peer (ipb_occurred_at event) r else r)"

definition handle_process_outbound_queue ::
  "crypto_backend \<Rightarrow> 'w platform \<Rightarrow> ProcessOutboundQueueEvent \<Rightarrow> 'w rt_run \<Rightarrow> 'w rt_run" where
  "handle_process_outbound_queue be pf event r =
     (if IsCurrentActivation (pid_activation_generation (poq_peer event)) (rt r)
      then ProcessOutboundQueue be pf (poq_peer event) (poq_occurred_at event) r else r)"

subsection \<open>Received datagrams\<close>

definition UpdateEndpointFromAuthenticatedPacket :: "EncryptedDatagramReceivedEvent \<Rightarrow> PeerRuntime \<Rightarrow> PeerRuntime" where
  "UpdateEndpointFromAuthenticatedPacket event s =
     (if ep_family (edr_source event) = AF_unspecified then s
      else s\<lparr>m_binding := Binding_SetEndpoint (edr_source event) (edr_source_text event) (m_binding s)\<rparr>)"

definition note_handshake :: "ktime_t \<Rightarrow> PeerRuntime \<Rightarrow> PeerRuntime" where
  "note_handshake now s = s\<lparr>m_lifecycle := (m_lifecycle s)\<lparr>li_last_handshake_ns := now, li_established := True\<rparr>\<rparr>"

text \<open>A new session: the state \<open>Active\<close> is entered from \<open>Handshaking\<close>, and otherwise only noted.\<close>

definition enter_active_or_note :: "ActivationGeneration \<Rightarrow> ktime_t \<Rightarrow> PeerRuntime step" where
  "enter_active_or_note generation now s =
     (if li_state (m_lifecycle s) = PRS_Handshaking then EnterActive generation now s else (True, note_handshake now s))"

definition CompleteInitiatorSession ::
  "crypto_backend \<Rightarrow> 'w platform \<Rightarrow> EncryptedDatagramReceivedEvent \<Rightarrow> 'w rt_run \<Rightarrow> 'w rt_run" where
  "CompleteInitiatorSession be pf event r =
     (let peer = edr_peer event; facts = edr_timer_facts event; now = edr_occurred_at event; (g, w) = rt_gw r in
      case ProtocolPeer (rt r) of
        None \<Rightarrow> r
      | Some _ \<Rightarrow>
          (case CompleteSession be pf (pr_device (m_protocol (rt r))) w of (ok, dev, w) \<Rightarrow>
             let r = (on_rt (set_device dev) r)\<lparr>rt_gw := (g, w)\<rparr> in
             if \<not> ok then r
             else
               let r = on_rt (UpdateEndpointFromAuthenticatedPacket event) r;
                   r = on_rt (RecordReceivedBytes (of_nat (length (edr_packet event))) now) r;
                   r = OnAuthenticatedPacketTraversal peer facts r;
                   r = OnAuthenticatedPacketReceived peer r;
                   (entered, r) = on_rt_step (enter_active_or_note (pid_activation_generation peer) now) r
               in if \<not> entered then r
                  else
                    let r = OnSessionDerived peer facts r;
                        r = OnHandshakeComplete peer r
                    in if StagedInnerPacketCount (rt r) \<noteq> 0 then add_fx (QueueInnerPacketSubmissionEffect peer) r
                       else case PrepareTransportDatagram be pf [] PDK_Keepalive 0 r of (ok, build_error, r) \<Rightarrow>
                         if \<not> ok then EnterActivationError PES_Internal PEC_InternalFailure now r
                         else send_pending_fx peer r))"

definition HandleTransportData ::
  "crypto_backend \<Rightarrow> 'w platform \<Rightarrow> EncryptedDatagramReceivedEvent \<Rightarrow> 'w rt_run \<Rightarrow> 'w rt_run" where
  "HandleTransportData be pf event r =
     (let peer = edr_peer event; facts = edr_timer_facts event; now = edr_occurred_at event; (g, w) = rt_gw r in
      case ProtocolPeer (rt r) of
        None \<Rightarrow> r
      | Some _ \<Rightarrow>
          (let r = on_rt (\<lambda>s. s\<lparr>m_decrypted_packet := (m_decrypted_packet s)\<lparr>dps_size := 0, dps_generation := 0\<rparr>\<rparr>) r in
           case noise_consume_incoming_transport_data_packet be pf (edr_packet event) (pr_device (m_protocol (rt r)))
                  (dps_bytes (m_decrypted_packet (rt r))) w of
             (e, dev, bytes, result, w) \<Rightarrow>
               let r = (on_rt (\<lambda>s. set_device dev (s\<lparr>m_decrypted_packet := (m_decrypted_packet s)\<lparr>dps_bytes := bytes\<rparr>\<rparr>)) r)
                         \<lparr>rt_gw := (g, w)\<rparr> in
               if e \<noteq> TDE_None then r
               else
                 let r = on_rt (UpdateEndpointFromAuthenticatedPacket event) r;
                     r = on_rt (RecordReceivedBytes (of_nat (length (edr_packet event))) now) r;
                     r = OnAuthenticatedPacketTraversal peer facts r;
                     r = OnAuthenticatedPacketReceived peer r;
                     r = RefreshKeyFreshness be pf peer now r;
                     r = (if promoted_next_keypair result then
                            (let r = on_rt (\<lambda>s. set_peer (ConfirmResponderSession (dev_peer (pr_device (m_protocol s)))) s) r;
                                 r = snd (on_rt_step (enter_active_or_note (pid_activation_generation peer) now) r);
                                 r = OnHandshakeComplete peer r
                             in add_fx (QueueInnerPacketSubmissionEffect peer) r)
                          else r)
                 in if dec_payload_size (itd_decrypt result) = 0 then r
                    else
                      let r = OnDataPacketReceived peer facts r;
                          padded_payload = take (dec_payload_size (itd_decrypt result)) (dps_bytes (m_decrypted_packet (rt r)))
                      in case ValidatePaddedInnerIpPacket padded_payload of (validation, inner_packet_size, _) \<Rightarrow>
                        if validation \<noteq> IVE_None then r
                        else case AllocateDecryptedPacketGeneration (rt r) of (gen, s) \<Rightarrow>
                          add_fx (PublishDecryptedPacketEffect peer gen)
                            (r\<lparr>rt := s\<lparr>m_decrypted_packet :=
                                (m_decrypted_packet s)\<lparr>dps_size := inner_packet_size, dps_generation := gen\<rparr>\<rparr>\<rparr>)))"

definition HandleEncryptedDatagram ::
  "crypto_backend \<Rightarrow> 'w platform \<Rightarrow> EncryptedDatagramReceivedEvent \<Rightarrow> 'w rt_run \<Rightarrow> 'w rt_run" where
  "HandleEncryptedDatagram be pf event r =
     (let s = rt r; peer = edr_peer event; packet = edr_packet event; facts = edr_timer_facts event;
          now = edr_occurred_at event in
      if \<not> IsCurrentActivation (pid_activation_generation peer) s \<or> \<not> IsInTransportState s \<or> ProtocolPeer s = None \<or> packet = []
      then r
      else
        let type = InspectMessageType packet in
        if \<not> pr_success type then r
        else if pr_type type = MT_TransportData then HandleTransportData be pf event r
        else
          let (go_on, r) =
                (if pr_type type = MT_HandshakeInitiation \<or> pr_type type = MT_HandshakeResponse then
                   (case noise_handshake_admit_responder_packet be pf packet (edr_source event) now
                           (pr_device (m_protocol (rt r)), zero_cookie_reply, snd (rt_gw r)) of
                      (admission, dev, reply, w) \<Rightarrow>
                        let r = (on_rt (set_device dev) r)\<lparr>rt_gw := (fst (rt_gw r), w)\<rparr> in
                        if admission = RHA_CookieReply then
                          (case SerializeHandshakeCookie (zeros HandshakeCookieSize) reply of (e, bytes) \<Rightarrow>
                             (False, if e = PE_None then add_fx (SendCookieReplyEffect peer (edr_source event) bytes) r else r))
                        else (admission = RHA_Accepted, r))
                 else (True, r))
          in if \<not> go_on then r
             else if Datagram_IsPending (m_pending_datagram (rt r)) then r
             else case noise_handshake_consume_incoming_packet be pf packet (pr_device (m_protocol (rt r))) (rt_gw r) of
               (outcome, dev, gw) \<Rightarrow>
                 let r = (on_rt (set_device dev) r)\<lparr>rt_gw := gw\<rparr> in
                 (case outcome of
                    HPO_Invalid \<Rightarrow> r
                  | HPO_CookieReplyConsumed \<Rightarrow> on_rt (RecordReceivedBytes (of_nat (length packet)) now) r
                  | HPO_ResponseConsumed \<Rightarrow> CompleteInitiatorSession be pf event r
                  | HPO_InitiationConsumed \<Rightarrow>
                      let r = OnAuthenticatedPacketTraversal peer facts r;
                          r = OnAuthenticatedPacketReceived peer r
                      in case PrepareHandshakeResponse be pf r of (ok, r) \<Rightarrow>
                           if \<not> ok then r
                           else
                             let r = on_rt (UpdateEndpointFromAuthenticatedPacket event) r;
                                 r = on_rt (RecordReceivedBytes (of_nat (length packet)) now) r;
                                 r = OnSessionDerived peer facts r
                             in send_pending_fx peer r))"

subsection \<open>Expired timers\<close>

text \<open>The keepalive of the two keepalive timers, after the lifecycle has been checked.\<close>

definition timer_keepalive ::
  "crypto_backend \<Rightarrow> 'w platform \<Rightarrow> ProtocolTimerExpiredEvent \<Rightarrow> wg_peer \<Rightarrow> ('w rt_run \<Rightarrow> 'w rt_run) \<Rightarrow> 'w rt_run \<Rightarrow> 'w rt_run" where
  "timer_keepalive be pf event p sent r =
     (case rt_now pf r of (time, r) \<Rightarrow>
        if \<not> CanSendAt (current_keypair p) time then start_or_fail be pf (pte_peer event) (pte_occurred_at event) r
        else case PrepareTransportDatagram be pf [] PDK_Keepalive 0 r of (ok, build_error, r) \<Rightarrow>
          if \<not> ok then EnterActivationError PES_Internal PEC_InternalFailure (pte_occurred_at event) r
          else send_pending_fx (pte_peer event) (sent r))"

text \<open>What follows the preparation of the keepalive in the branch \<open>SendKeepalive\<close>.\<close>

definition rearm_keepalive :: "ProtocolTimerExpiredEvent \<Rightarrow> 'w rt_run \<Rightarrow> 'w rt_run" where
  "rearm_keepalive event r =
     (let p = dev_peer (pr_device (m_protocol (rt r)));
          need_another = need_another_keepalive (timers p);
          r = on_rt (set_peer (p\<lparr>timers := (timers p)\<lparr>need_another_keepalive := False\<rparr>\<rparr>)) r
      in if need_another then arm_fx (pte_peer event) (pte_hook event) (KeepaliveDeadline (pte_timer_facts event)) r else r)"

definition timer_retransmit ::
  "crypto_backend \<Rightarrow> 'w platform \<Rightarrow> ProtocolTimerExpiredEvent \<Rightarrow> 'w rt_run \<Rightarrow> 'w rt_run" where
  "timer_retransmit be pf event r =
     (case HandleHandshakeRetryTimer be pf (pr_device (m_protocol (rt r))) (rt_gw r) of (transition, dev, gw) \<Rightarrow>
        let r = (on_rt (set_device dev) r)\<lparr>rt_gw := gw\<rparr> in
        if ht_action transition = HTA_Exhausted then
          (if \<not> pending (zero_key_material (timers (dev_peer dev)))
           then arm_fx (pte_peer event) TH_ZeroKeyMaterial (ZeroKeyMaterialDeadline (pte_timer_facts event)) r
           else r)
        else
          let (prepared, r) =
                (if ht_action transition = HTA_SendInitiation
                 then on_rt_step (PrepareHandshakeInitiation PDK_HandshakeInitiation) r
                 else (False, r))
          in if prepared then send_pending_fx (pte_peer event) r
             else if ht_action transition \<noteq> HTA_Ignore
             then EnterActivationError PES_Handshake PEC_HandshakeInitFailed (pte_occurred_at event) r
             else r)"

text \<open>The work of a timer that is current, after its cancellation has been requested.\<close>

definition run_expired_timer ::
  "crypto_backend \<Rightarrow> 'w platform \<Rightarrow> ProtocolTimerExpiredEvent \<Rightarrow> wg_peer \<Rightarrow> 'w rt_run \<Rightarrow> 'w rt_run" where
  "run_expired_timer be pf event p r =
     (let s = rt r; peer = pte_peer event; hook = pte_hook event in
      if b_suspended (m_binding s) \<and> hook \<noteq> TH_ZeroKeyMaterial then r
      else if \<not> IsInTransportState s \<and> hook \<noteq> TH_ZeroKeyMaterial then r
      else (case hook of
        TH_RetransmitHandshake \<Rightarrow> timer_retransmit be pf event r
      | TH_SendKeepalive \<Rightarrow>
          if li_state (m_lifecycle s) \<noteq> PRS_Active then r
          else timer_keepalive be pf event p (rearm_keepalive event) r
      | TH_NewHandshake \<Rightarrow>
          if li_state (m_lifecycle s) = PRS_Active then start_or_fail be pf peer (pte_occurred_at event) r else r
      | TH_PersistentKeepalive \<Rightarrow>
          if li_state (m_lifecycle s) \<noteq> PRS_Active \<or> persistent_keepalive_interval p = 0 then r
          else timer_keepalive be pf event p (\<lambda>r. r) r
      | TH_ZeroKeyMaterial \<Rightarrow>
          (case wg_peer_zero_key_material pf p (snd (rt_gw r)) of (p, w) \<Rightarrow>
             (on_rt (\<lambda>s. let s = set_peer p s
                         in set_device (wg_device_clear_index_registry (pr_device (m_protocol s))) s) r)
               \<lparr>rt_gw := (fst (rt_gw r), w)\<rparr>)))"

definition handle_protocol_timer_expired ::
  "crypto_backend \<Rightarrow> 'w platform \<Rightarrow> ProtocolTimerExpiredEvent \<Rightarrow> 'w rt_run \<Rightarrow> 'w rt_run" where
  "handle_protocol_timer_expired be pf event r =
     (let s = rt r; peer = pte_peer event; hook = pte_hook event; token = pte_token event in
      if \<not> IsCurrentActivation (pid_activation_generation peer) s \<or> token_hook token \<noteq> hook \<or>
         owner_peer_index (token_owner token) \<noteq> pid_peer_index peer \<or>
         owner_activation_generation (token_owner token) \<noteq> pid_activation_generation peer
      then r
      else case ProtocolPeer s of
        None \<Rightarrow> r
      | Some p \<Rightarrow>
          let current_owner =
                \<lparr>owner_peer_index = pid_peer_index peer, owner_activation_generation = pid_activation_generation peer,
                 owner_protocol_sequence =
                   (if hook = TH_RetransmitHandshake then hr_sequence_count (handshake_retry p) else 0)\<rparr> in
          if \<not> IsCurrent token current_owner (m_controller s) then r
          else run_expired_timer be pf event p (cancel_fx peer hook r))"

subsection \<open>Activation, path and binding\<close>

definition handle_activation_requested :: "ActivationRequestedEvent \<Rightarrow> 'w rt_run \<Rightarrow> 'w rt_run" where
  "handle_activation_requested event r =
     (let config_error = ValidateConfiguration (rt r) in
      if config_error \<noteq> PEC_None then
        EnterActivationError (if config_error = PEC_ConfigInvalid then PES_Config else PES_ResolveEndpoint) config_error
          (are_occurred_at event) r
      else
        let s = rt r;
            s = s\<lparr>m_binding := Binding_ClearEndpoint (m_binding s), m_pending_datagram := PendingDatagram_init,
                  m_pending_socket_generation := 0\<rparr>;
            s = clear_decrypted_packet s;
            s = ResetProtocol s
        in case BeginActivation (are_occurred_at event) s of (generation, s) \<Rightarrow>
           case AllocateGeneration (m_next_path_request_generation s) of (path, following) \<Rightarrow>
             let identity = \<lparr>pid_peer_index = are_peer_index event, pid_activation_generation = generation\<rparr>;
                 s = s\<lparr>m_path_request_generation := path, m_next_path_request_generation := following,
                       m_path_availability := NPA_unknown, m_last_path_observation := network_path_observation_init,
                       m_has_path_observation := False, m_rebind_on_path_confirmation := False,
                       m_waiting_for_local_path := True, m_endpoint_resolution_started := False,
                       m_receive_started := False\<rparr>
             in add_fx (StartNetworkPathRequestEffect identity path) (r\<lparr>rt := s\<rparr>))"

definition cancel_hook :: "PeerIdentity \<Rightarrow> TimerHook \<Rightarrow> 'w rt_run \<Rightarrow> 'w rt_run" where
  "cancel_hook identity hook r =
     (let s = rt r;
          s = (case ProtocolPeer s of
                 None \<Rightarrow> s
               | Some p \<Rightarrow> set_peer (p\<lparr>timers := wg_timers_cancel hook (timers p)\<rparr>) s)
      in case Cancel hook (m_controller s) of (token, c) \<Rightarrow>
           add_fx (CancelProtocolTimerEffect identity hook token) (r\<lparr>rt := s\<lparr>m_controller := c\<rparr>\<rparr>))"

definition handle_deactivation_requested :: "DeactivationRequestedEvent \<Rightarrow> 'w rt_run \<Rightarrow> 'w rt_run" where
  "handle_deactivation_requested event r =
     (let peer = dre_peer event in
      if \<not> IsCurrentActivation (pid_activation_generation peer) (rt r) then r
      else
        let r = (if m_path_request_generation (rt r) \<noteq> 0
                 then add_fx (StopNetworkPathRequestEffect peer (m_path_request_generation (rt r))) r else r);
            r = (if Binding_IsOpen (m_binding (rt r)) then
                   (case Binding_ReleaseSocket (m_binding (rt r)) of (socket, b) \<Rightarrow>
                      add_fx (CloseUdpSocketEffect (m_path_request_generation (rt r)) socket)
                        (on_rt (\<lambda>s. s\<lparr>m_binding := b\<rparr>) r))
                 else r);
            r = (if ProtocolPeer (rt r) \<noteq> None then fold (cancel_hook peer) TimerHooks r else r)
        in on_rt (Deactivate (dre_occurred_at event)) r)"

definition handle_network_path_request_started :: "NetworkPathRequestStartedEvent \<Rightarrow> 'w rt_run \<Rightarrow> 'w rt_run" where
  "handle_network_path_request_started event r = r"

definition handle_udp_rebind_requested :: "UdpRebindRequestedEvent \<Rightarrow> 'w rt_run \<Rightarrow> 'w rt_run" where
  "handle_udp_rebind_requested event r =
     (let s = rt r; peer = urr_peer event in
      if \<not> IsCurrentActivation (pid_activation_generation peer) s \<or> \<not> IsInTransportState s \<or> \<not> b_has_endpoint (m_binding s)
      then r
      else if m_waiting_for_local_path s \<or> m_path_availability s \<noteq> NPA_available \<or> m_path_request_generation s = 0 \<or>
              m_pending_socket_generation s \<noteq> 0
      then r
      else
        let b = m_binding s in
        case AllocateSocketGeneration s of (g, s) \<Rightarrow>
          add_fx (OpenUdpBindEffect peer (m_path_request_generation s) (b_endpoint b) (snprintf_s 64 (b_endpoint_text b)) g
                    (b_socket b) UBP_Rebind)
            (r\<lparr>rt := s\<lparr>m_pending_socket_generation := g, m_pending_bind_purpose := UBP_Rebind\<rparr>\<rparr>))"

definition request_rebind :: "PeerIdentity \<Rightarrow> ktime_t \<Rightarrow> 'w rt_run \<Rightarrow> 'w rt_run" where
  "request_rebind peer now = append_fx (handle_udp_rebind_requested \<lparr>urr_peer = peer, urr_occurred_at = now\<rparr>)"

definition handle_network_path_availability_changed ::
  "NetworkPathAvailabilityChangedEvent \<Rightarrow> 'w rt_run \<Rightarrow> 'w rt_run" where
  "handle_network_path_availability_changed event r =
     (let peer = nac_peer event; now = nac_occurred_at event in
      if \<not> IsCurrentPathRequest (pid_activation_generation peer) (nac_path_generation event) (rt r) then r
      else
        let r = on_rt (\<lambda>s. if \<not> m_has_path_observation s \<or> m_last_path_observation s \<noteq> nac_observation event
                           then s\<lparr>m_last_path_observation := nac_observation event, m_has_path_observation := True\<rparr>
                           else s) r;
            next_availability = npo_availability (nac_observation event) in
        if next_availability = NPA_unknown then
          on_rt (\<lambda>s. if m_path_availability s = NPA_available \<and> IsInTransportState s \<and> Binding_IsOpen (m_binding s) \<and>
                        \<not> m_rebind_on_path_confirmation s
                     then s\<lparr>m_rebind_on_path_confirmation := True\<rparr> else s) r
        else if next_availability = m_path_availability (rt r) then
          (if next_availability = NPA_available \<and> m_rebind_on_path_confirmation (rt r)
           then request_rebind peer now (on_rt (\<lambda>s. s\<lparr>m_rebind_on_path_confirmation := False\<rparr>) r)
           else r)
        else
          let r = on_rt (\<lambda>s. s\<lparr>m_path_availability := next_availability\<rparr>) r in
          if next_availability = NPA_unavailable then
            (let r = on_rt (\<lambda>s. s\<lparr>m_rebind_on_path_confirmation := False, m_waiting_for_local_path := True\<rparr>) r
             in if Binding_IsOpen (m_binding (rt r)) then SuspendTransport peer r else r)
          else
            let r = on_rt (\<lambda>s. s\<lparr>m_waiting_for_local_path := False\<rparr>) r; s = rt r in
            if \<not> m_endpoint_resolution_started s \<and> li_state (m_lifecycle s) = PRS_ResolvingEndpoint then
              add_fx (ResolveEndpointEffect peer (m_path_request_generation s) (snprintf_s 256 (cfg_endpoint (m_config s))))
                (on_rt (\<lambda>s. s\<lparr>m_endpoint_resolution_started := True\<rparr>) r)
            else if b_suspended (m_binding s) \<and> IsInTransportState s \<and> b_has_endpoint (m_binding s) then request_rebind peer now r
            else r)"

definition handle_endpoint_resolved :: "EndpointResolvedEvent \<Rightarrow> 'w rt_run \<Rightarrow> 'w rt_run" where
  "handle_endpoint_resolved event r =
     (let s = rt r; peer = ere_peer event; result = ere_result event in
      if \<not> IsCurrentPathRequest (pid_activation_generation peer) (ere_path_generation event) s \<or>
         li_state (m_lifecycle s) \<noteq> PRS_ResolvingEndpoint \<or> m_waiting_for_local_path s \<or>
         m_path_availability s \<noteq> NPA_available
      then r
      else if \<not> err_success result then
        EnterActivationError (err_error_stage result) (err_error_code result) (ere_occurred_at event) r
      else
        let s = s\<lparr>m_binding := Binding_SetEndpoint (err_resolved result) (err_text result) (m_binding s)\<rparr> in
        case AllocateSocketGeneration s of (g, s) \<Rightarrow>
          add_fx (OpenUdpBindEffect peer (m_path_request_generation s) (err_resolved result) (snprintf_s 64 (err_text result)) g
                    InvalidSocket UBP_Activation)
            (r\<lparr>rt := s\<lparr>m_pending_socket_generation := g, m_pending_bind_purpose := UBP_Activation\<rparr>\<rparr>))"

text \<open>A socket that the peer cannot use is handed back.\<close>

definition close_offered :: "UdpBindOpenedEvent \<Rightarrow> 'w rt_run \<Rightarrow> 'w rt_run" where
  "close_offered event r =
     (if ubo_socket event \<noteq> InvalidSocket
      then add_fx (CloseUdpSocketEffect (m_path_request_generation (rt r)) (ubo_socket event)) r else r)"

definition adopt_offered :: "UdpBindOpenedEvent \<Rightarrow> 'w rt_run \<Rightarrow> 'w rt_run" where
  "adopt_offered event r =
     (case Binding_AdoptOpenSocket (ubo_endpoint event) (ubo_endpoint_text event) (ubo_socket_generation event)
             (ubo_socket event) (m_binding (rt r)) of
        None \<Rightarrow> r\<lparr>rt_fx := None\<rparr>
      | Some b \<Rightarrow> on_rt (\<lambda>s. s\<lparr>m_binding := b\<rparr>) r)"

definition udp_rebind_opened ::
  "crypto_backend \<Rightarrow> 'w platform \<Rightarrow> UdpBindOpenedEvent \<Rightarrow> 'w rt_run \<Rightarrow> 'w rt_run" where
  "udp_rebind_opened be pf event r =
     (let s = rt r; peer = ubo_peer event in
      if \<not> IsCurrentActivation (pid_activation_generation peer) s \<or> \<not> IsInTransportState s \<or> \<not> b_has_endpoint (m_binding s) \<or>
         m_waiting_for_local_path s \<or> m_path_availability s \<noteq> NPA_available
      then close_offered event r
      else if ubo_error event \<noteq> SE_none \<or> ubo_socket event = InvalidSocket then close_offered event r
      else
        case Binding_ReleaseSocket (m_binding s) of (old_socket, b) \<Rightarrow>
          let r = adopt_offered event (on_rt (\<lambda>s. s\<lparr>m_binding := b\<rparr>) r);
              r = (if old_socket \<noteq> InvalidSocket
                   then add_fx (CloseUdpSocketEffect (m_path_request_generation (rt r)) old_socket) r else r);
              r = RecoverTransport be pf peer (ubo_occurred_at event) r
          in add_fx (QueueReceiveEffect peer) r)"

text \<open>The activation with its socket: from \<open>InstantiateProtocol\<close> to the first initiation.\<close>

definition begin_protocol ::
  "crypto_backend \<Rightarrow> 'w platform \<Rightarrow> UdpBindOpenedEvent \<Rightarrow> 'w rt_run \<Rightarrow> 'w rt_run" where
  "begin_protocol be pf event r =
     (let peer = ubo_peer event; now = ubo_occurred_at event in
      case InstantiateProtocol be pf (rt r, snd (rt_gw r)) of (ok, s, w) \<Rightarrow>
        let r = r\<lparr>rt := s, rt_gw := (fst (rt_gw r), w)\<rparr> in
        if \<not> ok then EnterActivationError PES_Config PEC_KeyInvalid now r
        else case on_rt_step (EnterHandshaking (pid_activation_generation peer) now) r of (ok, r) \<Rightarrow>
          if \<not> ok then
            (case Binding_ReleaseSocket (m_binding (rt r)) of (socket, b) \<Rightarrow>
               add_fx (CloseUdpSocketEffect (m_path_request_generation (rt r)) socket) (on_rt (\<lambda>s. s\<lparr>m_binding := b\<rparr>) r))
          else
            case (case ProtocolPeer (rt r) of
                    Some _ \<Rightarrow> Controller_StartHandshake be pf (pr_device (m_protocol (rt r))) (rt_gw r)
                  | None \<Rightarrow> (HandshakeTransition_of HTA_Fatal, pr_device (m_protocol (rt r)), rt_gw r)) of
              (transition, dev, gw) \<Rightarrow>
                let r = (on_rt (set_device dev) r)\<lparr>rt_gw := gw\<rparr>;
                    (prepared, r) =
                      (if ht_action transition = HTA_SendInitiation
                       then on_rt_step (PrepareHandshakeInitiation PDK_HandshakeInitiation) r
                       else (False, r))
                in if \<not> prepared then EnterActivationError PES_Handshake PEC_HandshakeInitFailed now r
                   else send_pending_fx peer r)"

definition udp_activation_opened ::
  "crypto_backend \<Rightarrow> 'w platform \<Rightarrow> UdpBindOpenedEvent \<Rightarrow> 'w rt_run \<Rightarrow> 'w rt_run" where
  "udp_activation_opened be pf event r =
     (let s = rt r in
      if \<not> IsCurrentActivation (pid_activation_generation (ubo_peer event)) s \<or>
         li_state (m_lifecycle s) \<noteq> PRS_ResolvingEndpoint \<or> m_waiting_for_local_path s \<or>
         m_path_availability s \<noteq> NPA_available
      then close_offered event r
      else if ubo_error event \<noteq> SE_none \<or> ubo_socket event = InvalidSocket then
        EnterActivationError PES_Transport PEC_TransportOpenFailed (ubo_occurred_at event) (close_offered event r)
      else begin_protocol be pf event (adopt_offered event r))"

definition handle_udp_bind_opened ::
  "crypto_backend \<Rightarrow> 'w platform \<Rightarrow> UdpBindOpenedEvent \<Rightarrow> 'w rt_run \<Rightarrow> 'w rt_run" where
  "handle_udp_bind_opened be pf event r =
     (let s = rt r in
      if ubo_socket_generation event = 0 \<or>
         \<not> IsCurrentPathRequest (pid_activation_generation (ubo_peer event)) (ubo_path_generation event) s \<or>
         ubo_socket_generation event \<noteq> m_pending_socket_generation s \<or> ubo_purpose event \<noteq> m_pending_bind_purpose s
      then close_offered event r
      else
        let r = on_rt (\<lambda>s. s\<lparr>m_pending_socket_generation := 0\<rparr>) r in
        if ubo_purpose event = UBP_Rebind then udp_rebind_opened be pf event r
        else udp_activation_opened be pf event r)"

subsection \<open>Handling an event\<close>

definition HandleEvent :: "crypto_backend \<Rightarrow> 'w platform \<Rightarrow> PeerEvent \<Rightarrow> 'w rt_run \<Rightarrow> 'w rt_run" where
  "HandleEvent be pf event =
     (case event of
        ActivationRequested e \<Rightarrow> handle_activation_requested e
      | DeactivationRequested e \<Rightarrow> handle_deactivation_requested e
      | NetworkPathRequestStarted e \<Rightarrow> handle_network_path_request_started e
      | NetworkPathAvailabilityChanged e \<Rightarrow> handle_network_path_availability_changed e
      | TransportFailure e \<Rightarrow> handle_transport_failure e
      | EndpointResolved e \<Rightarrow> handle_endpoint_resolved e
      | UdpBindOpened e \<Rightarrow> handle_udp_bind_opened be pf e
      | UdpRebindRequested e \<Rightarrow> handle_udp_rebind_requested e
      | EncryptedDatagramReceived e \<Rightarrow> HandleEncryptedDatagram be pf e
      | PendingDatagramSent e \<Rightarrow> HandlePendingDatagramCompletion be pf e
      | InnerPacketStaged e \<Rightarrow> handle_inner_packet_staged be pf e
      | InnerPacketBatchStaged e \<Rightarrow> handle_inner_packet_batch_staged be pf e
      | ProcessOutboundQueueRequested e \<Rightarrow> handle_process_outbound_queue be pf e
      | ProtocolTimerExpired e \<Rightarrow> handle_protocol_timer_expired be pf e)"

definition Handle ::
  "crypto_backend \<Rightarrow> 'w platform \<Rightarrow> PeerEvent \<Rightarrow> PeerRuntime \<Rightarrow> u32 \<times> 'w \<Rightarrow> (EffectBatch \<times> PeerRuntime \<times> u32 \<times> 'w) option" where
  "Handle be pf event s gw =
     (let r = HandleEvent be pf event \<lparr>rt = s, rt_gw = gw, rt_fx = Some []\<rparr> in
      case rt_fx r of
        None \<Rightarrow> None
      | Some effects \<Rightarrow>
          (case FinalizeTimerEffects effects (rt r) of (effects, s) \<Rightarrow>
             if length effects > GetEventEffectBudget event then None else Some (effects, s, rt_gw r)))"

end
