(* ===== verification/WG_PeerRuns.thy ===== *)
theory WG_PeerRuns
  imports WG_PeerHandlers
begin

text \<open>
  How the protocol handlers of a peer move through its state. The \<open>core\<close> of a peer is what only
  activation, path and binding events may change: configuration, socket, lifecycle state, path request.
  The handlers for timers, packets and completions change the core in two ways only: by
  \<open>EnterActivationError\<close>, and, when a datagram completes a handshake, by entering the state \<open>Active\<close>.
  The locale \<open>run_relation\<close> turns this into a proof method: a preorder on runs that allows effects other
  than \<open>Close\<close>, changes outside the core and the error transition holds for every outbound handler;
  with the transition to \<open>Active\<close> (\<open>active_relation\<close>) it holds for received datagrams too.
\<close>

subsection \<open>Core\<close>

record runtime_core =
  co_config :: PeerConfigEntry
  co_derived :: PeerConfigDerivedInfo
  co_socket :: socket_handle
  co_socket_generation :: SocketGeneration
  co_suspended :: bool
  co_state :: PeerRuntimeState
  co_activation :: ActivationGeneration
  co_next_activation :: ActivationGeneration
  co_path :: PathRequestGeneration
  co_next_path :: PathRequestGeneration
  co_availability :: network_path_availability
  co_waiting :: bool
  co_pending_socket :: SocketGeneration
  co_next_socket :: SocketGeneration
  co_purpose :: UdpBindPurpose
  co_index :: PeerIndex
  co_instantiated :: bool

definition core :: "PeerRuntime \<Rightarrow> runtime_core" where
  "core s =
     \<lparr>co_config = m_config s, co_derived = m_derived s, co_socket = b_socket (m_binding s),
      co_socket_generation = b_generation (m_binding s), co_suspended = b_suspended (m_binding s),
      co_state = li_state (m_lifecycle s), co_activation = li_activation_generation (m_lifecycle s),
      co_next_activation = m_next_activation_generation s, co_path = m_path_request_generation s,
      co_next_path = m_next_path_request_generation s, co_availability = m_path_availability s,
      co_waiting = m_waiting_for_local_path s, co_pending_socket = m_pending_socket_generation s,
      co_next_socket = m_next_socket_generation s, co_purpose = m_pending_bind_purpose s, co_index = m_peer_index s,
      co_instantiated = pr_instantiated (m_protocol s)\<rparr>"

definition is_close :: "RuntimeEffect \<Rightarrow> bool" where
  "is_close e = (case e of CloseUdpSocketEffect _ _ \<Rightarrow> True | _ \<Rightarrow> False)"

lemma is_close_simps [simp]:
  "\<not> is_close (SendPendingDatagramEffect i g)" "\<not> is_close (SendCookieReplyEffect i ep b)" "\<not> is_close (QueueReceiveEffect i)"
  "\<not> is_close (ArmProtocolTimerEffect i h t d)" "\<not> is_close (CancelProtocolTimerEffect i h t)"
  "\<not> is_close (QueueInnerPacketSubmissionEffect i)" "\<not> is_close (PublishDecryptedPacketEffect i p)"
  "is_close (CloseUdpSocketEffect p k)" "\<not> is_close (StartNetworkPathRequestEffect i q)"
  "\<not> is_close (StopNetworkPathRequestEffect i q)" "\<not> is_close (ResolveEndpointEffect i q t')"
  "\<not> is_close (OpenUdpBindEffect i q ep t' g k u)"
  by (simp_all add: is_close_def)

lemma rt_add_fx [simp]: "rt (add_fx e r) = rt r" "rt_gw (add_fx e r) = rt_gw r"
  "rt_fx (add_fx e r) = Effects_Add e (rt_fx r)"
  by (simp_all add: add_fx_def)

lemma rt_on_rt [simp]: "rt (on_rt f r) = f (rt r)" "rt_gw (on_rt f r) = rt_gw r" "rt_fx (on_rt f r) = rt_fx r"
  by (simp_all add: on_rt_def)

lemma core_simps [simp]:
  "core (s\<lparr>m_pending_datagram := d\<rparr>) = core s" "core (s\<lparr>m_next_datagram_generation := g\<rparr>) = core s"
  "core (s\<lparr>m_controller := c\<rparr>) = core s" "core (s\<lparr>m_decrypted_packet := v\<rparr>) = core s"
  "core (s\<lparr>m_next_decrypted_packet_generation := g\<rparr>) = core s"
  "core (s\<lparr>m_staging_record := sr\<rparr>) = core s" "core (s\<lparr>m_receive_started := b\<rparr>) = core s"
  "core (set_device dev s) = core s" "core (set_peer p s) = core s" "core (clear_decrypted_packet s) = core s"
  "core (RecordTransmittedBytes n now s) = core s" "core (RecordReceivedBytes n now s) = core s"
  "core (note_handshake now s) = core s" "core (UpdateEndpointFromAuthenticatedPacket e s) = core s"
  by (simp_all add: core_def set_device_def set_peer_def clear_decrypted_packet_def RecordTransmittedBytes_def
      RecordReceivedBytes_def note_handshake_def UpdateEndpointFromAuthenticatedPacket_def Binding_SetEndpoint_def)

lemma core_allocate:
  "AllocateDatagramGeneration s = (g, s') \<Longrightarrow> core s' = core s"
  "AllocateDecryptedPacketGeneration s = (g, s') \<Longrightarrow> core s' = core s"
  by (auto simp: AllocateDatagramGeneration_def AllocateDecryptedPacketGeneration_def split: prod.splits)

lemma core_prepare_initiation: "PrepareHandshakeInitiation kind s = (ok, s') \<Longrightarrow> core s' = core s"
  by (auto simp: PrepareHandshakeInitiation_def Let_def split: option.splits if_splits prod.splits dest: core_allocate)

lemma append_nothing: "h (r\<lparr>rt_fx := Some []\<rparr>) = r\<lparr>rt_fx := Some []\<rparr> \<Longrightarrow> append_fx h r = r"
  by (cases "rt_fx r") (simp_all add: append_fx_def Let_def Effects_Append_def TryAppend_def split: option.splits)

subsection \<open>Relations on runs\<close>

locale run_relation =
  fixes R :: "'w rt_run \<Rightarrow> 'w rt_run \<Rightarrow> bool"
  assumes R_refl: "R r r"
    and R_trans: "R r r' \<Longrightarrow> R r' r'' \<Longrightarrow> R r r''"
    and R_add: "\<not> is_close e \<Longrightarrow> R r (add_fx e r)"
    and R_core: "core (rt r') = core (rt r) \<Longrightarrow> rt_fx r' = rt_fx r \<Longrightarrow> R r r'"
    and R_error: "R r (EnterActivationError stage code now r)"
    and R_abort: "R r (r\<lparr>rt_fx := None\<rparr>)"
begin

lemma step_add: "R r r' \<Longrightarrow> \<not> is_close e \<Longrightarrow> R r (add_fx e r')"
  using R_trans R_add by blast

lemma step_core: "R r r' \<Longrightarrow> core (rt r'') = core (rt r') \<Longrightarrow> rt_fx r'' = rt_fx r' \<Longrightarrow> R r r''"
  using R_trans R_core by blast

lemma step_on_rt: "R r r' \<Longrightarrow> core (f (rt r')) = core (rt r') \<Longrightarrow> R r (on_rt f r')"
  by (rule step_core) simp_all

lemma step_rt: "R r r' \<Longrightarrow> core s = core (rt r') \<Longrightarrow> R r (r'\<lparr>rt := s\<rparr>)"
  by (erule step_core) simp_all

lemma step_error: "R r r' \<Longrightarrow> R r (EnterActivationError stage code now r')"
  using R_trans R_error by blast

lemma run_timer_policy:
  assumes "R r r'"
  shows "R r (arm_fx i h d r')" "R r (cancel_fx i h r')" "R r (send_pending_fx i r')"
    "R r (OnAuthenticatedPacketTraversal i f r')" "R r (OnAuthenticatedPacketSent i r')"
    "R r (OnAuthenticatedPacketReceived i r')" "R r (OnDataPacketSent i f r')" "R r (OnDataPacketReceived i f r')"
    "R r (OnSessionDerived i f r')" "R r (OnHandshakeComplete i r')"
  using assms
  by (auto simp: arm_fx_def cancel_fx_def send_pending_fx_def OnAuthenticatedPacketTraversal_def OnAuthenticatedPacketSent_def
      OnAuthenticatedPacketReceived_def OnDataPacketSent_def OnDataPacketReceived_def OnSessionDerived_def
      OnHandshakeComplete_def intro!: step_add step_on_rt split: option.splits)

lemma run_now: "R r r' \<Longrightarrow> rt_now pf r' = (t, r'') \<Longrightarrow> R r r''"
  by (auto simp: rt_now_def split: prod.splits intro: step_core)

lemma run_prepare_response: "R r r' \<Longrightarrow> PrepareHandshakeResponse be pf r' = (ok, r'') \<Longrightarrow> R r r''"
  by (erule step_core)
    (auto simp: PrepareHandshakeResponse_def Let_def split: option.splits if_splits prod.splits dest: core_allocate)

lemma run_prepare_transport: "R r r' \<Longrightarrow> PrepareTransportDatagram be pf payload kind pk r' = (ok, e, r'') \<Longrightarrow> R r r''"
  by (erule step_core)
    (auto simp: PrepareTransportDatagram_def Let_def split: option.splits if_splits prod.splits dest: core_allocate)

lemma run_start:
  assumes "R r r'" "StartHandshake be pf i retry r' = (ok, r'')"
  shows "R r r''"
proof -
  obtain t dev gw where c: "(if retry then HandleHandshakeRetryTimer be pf (pr_device (m_protocol (rt r'))) (rt_gw r')
      else Controller_StartHandshake be pf (pr_device (m_protocol (rt r'))) (rt_gw r')) = (t, dev, gw)"
    by (metis prod.exhaust)
  let ?r = "(on_rt (set_device dev) r')\<lparr>rt_gw := gw\<rparr>"
  obtain ok' r3 where p: "on_rt_step (PrepareHandshakeInitiation PDK_HandshakeInitiation) ?r = (ok', r3)" by (rule prod.exhaust)
  have "R r ?r" by (rule step_core[OF assms(1)]) simp_all
  moreover have "R r r3"
    by (rule step_core[OF assms(1)])
      (use p in \<open>auto simp: on_rt_step_def split: prod.splits dest: core_prepare_initiation\<close>)
  ultimately show ?thesis using assms p
    by (auto simp: StartHandshake_def c Let_def split: option.splits if_splits intro: run_timer_policy(3))
qed

lemma run_start_or_fail: "R r r' \<Longrightarrow> R r (start_or_fail be pf i now r')"
  by (auto simp: start_or_fail_def split: prod.splits intro: step_error run_start)

lemma run_refresh: "R r r' \<Longrightarrow> R r (RefreshKeyFreshness be pf i now r')"
  by (auto simp: RefreshKeyFreshness_def split: option.splits prod.splits intro: run_start_or_fail run_now)

lemma run_send_front: "R r r' \<Longrightarrow> R r (send_front be pf i now front r')"
  by (auto simp: send_front_def Let_def split: prod.splits StagedPacketAction.splits
      intro!: run_timer_policy(3) run_start_or_fail step_error step_on_rt intro: run_prepare_transport)

lemma run_process_loop: "R r r' \<Longrightarrow> R r (process_outbound_loop be pf i now r')"
proof (induction be pf i now r' rule: process_outbound_loop.induct)
  case (1 be pf i now r')
  show ?case
    by (subst process_outbound_loop.simps)
      (auto split: option.splits prod.splits OutboundStagingAction.splits
        intro!: "1.IH" step_on_rt "1.prems" run_start_or_fail run_send_front intro: run_now[OF "1.prems"])
qed

lemma run_process: "R r r' \<Longrightarrow> R r (ProcessOutboundQueue be pf i now r')"
  by (simp add: ProcessOutboundQueue_def run_process_loop)

lemma run_recover: "R r r' \<Longrightarrow> R r (RecoverTransport be pf i now r')"
  by (auto simp: RecoverTransport_def Let_def split: option.splits prod.splits if_splits
      intro!: run_timer_policy(3) run_start_or_fail step_error run_process intro: run_prepare_transport run_now)

lemma run_push_batch: "R r r' \<Longrightarrow> R r (push_batch i ps r')"
proof (induction i ps r' rule: push_batch.induct)
  case (2 i pk bytes rest r')
  have push: "R r r''" if "push_staged i pk bytes p r' = (res, r'')" for p res r''
    using that by (intro step_core[OF "2.prems"]) (auto simp: push_staged_def Let_def split: prod.splits)
  show ?case
    using "2.prems" by (auto split: option.splits prod.splits intro: "2.IH" push R_trans[OF push R_abort])
qed simp

lemma run_steps:
  assumes "R r r'"
  shows "R r (snd (rt_now pf r'))" "R r (snd (PrepareHandshakeResponse be pf r'))"
    "R r (snd (snd (PrepareTransportDatagram be pf payload kind pk r')))"
    "R r (snd (StartHandshake be pf i retry r'))" "R r (snd (push_staged i pk bytes p r'))"
    "R r (snd (on_rt_step (PrepareHandshakeInitiation kind) r'))"
  using run_now[OF assms prod.collapse[symmetric]] run_prepare_response[OF assms prod.collapse[symmetric]]
    run_prepare_transport[OF assms, of be pf payload kind pk "fst x" "fst (snd x)" "snd (snd x)" for x]
    run_start[OF assms prod.collapse[symmetric]]
  by (auto intro!: step_core[OF assms] simp: push_staged_def Let_def on_rt_step_def split: prod.splits dest: core_prepare_initiation)

text \<open>Walking through the body of a handler.\<close>

lemma run_if: "(c \<Longrightarrow> R r A) \<Longrightarrow> (\<not> c \<Longrightarrow> R r B) \<Longrightarrow> R r (if c then A else B)"
  by simp

lemma run_snd_if: "R r (snd A) \<Longrightarrow> R r (snd B) \<Longrightarrow> R r (snd (if c then A else B))"
  by simp

lemma run_snd: "R r x \<Longrightarrow> R r (snd (a, x))"
  by simp

lemma run_bind: "R r x \<Longrightarrow> (\<And>y. R r y \<Longrightarrow> R r (f y)) \<Longrightarrow> R r (Let x f)"
  by simp

lemma run_bind2: "R r (snd x) \<Longrightarrow> (\<And>a b. R r b \<Longrightarrow> R r (f a b)) \<Longrightarrow> R r (case x of (a, b) \<Rightarrow> f a b)"
  by (cases x) simp

lemma run_bind3: "R r (snd (snd x)) \<Longrightarrow> (\<And>a b c. R r c \<Longrightarrow> R r (f a b c)) \<Longrightarrow> R r (case x of (a, b, c) \<Rightarrow> f a b c)"
  by (cases x) simp

lemma run_let_bind2: "R r (snd x) \<Longrightarrow> (\<And>a b. R r b \<Longrightarrow> R r (f a b)) \<Longrightarrow> R r (let (a, b) = x in f a b)"
  by (cases x) simp

lemma run_let: "(\<And>y. y = x \<Longrightarrow> R r (f y)) \<Longrightarrow> R r (Let x f)"
  by simp

lemma run_prod: "(\<And>a b. x = (a, b) \<Longrightarrow> R r (f a b)) \<Longrightarrow> R r (case x of (a, b) \<Rightarrow> f a b)"
  by (cases x) simp

lemma run_let_prod: "(\<And>a b. x = (a, b) \<Longrightarrow> R r (f a b)) \<Longrightarrow> R r (let (a, b) = x in f a b)"
  by (cases x) simp

lemma run_option: "R r A \<Longrightarrow> (\<And>y. x = Some y \<Longrightarrow> R r (f y)) \<Longrightarrow> R r (case x of None \<Rightarrow> A | Some y \<Rightarrow> f y)"
  by (cases x) simp_all

lemma run_gw: "R r r' \<Longrightarrow> R r (r'\<lparr>rt_gw := gw\<rparr>)"
  by (erule step_core) simp_all

lemma run_snd_prod: "(\<And>a b. x = (a, b) \<Longrightarrow> R r (snd (f a b))) \<Longrightarrow> R r (snd (case x of (a, b) \<Rightarrow> f a b))"
  by (cases x) simp

lemma run_snd_bind: "R r x \<Longrightarrow> (\<And>y. R r y \<Longrightarrow> R r (snd (f y))) \<Longrightarrow> R r (snd (Let x f))"
  by simp

lemma run_cases:
  "R r A \<Longrightarrow> R r B \<Longrightarrow> R r C \<Longrightarrow> R r D \<Longrightarrow>
   R r (case hpo of HPO_Invalid \<Rightarrow> A | HPO_InitiationConsumed \<Rightarrow> B | HPO_ResponseConsumed \<Rightarrow> C | HPO_CookieReplyConsumed \<Rightarrow> D)"
  "R r A \<Longrightarrow> R r B \<Longrightarrow> R r C \<Longrightarrow> R r D \<Longrightarrow> R r E \<Longrightarrow>
   R r (case hook of TH_RetransmitHandshake \<Rightarrow> A | TH_SendKeepalive \<Rightarrow> B | TH_NewHandshake \<Rightarrow> C | TH_ZeroKeyMaterial \<Rightarrow> D
        | TH_PersistentKeepalive \<Rightarrow> E)"
  by (cases hpo; simp) (cases hook; simp)

lemma run_append_failure:
  "R r r' \<Longrightarrow> tfe_error e = SE_send_failed \<Longrightarrow> R r (append_fx (handle_transport_failure e) r')"
  by (subst append_nothing) (simp_all add: handle_transport_failure_def MapSocketError_def Let_def)

lemmas run_rules = run_if run_snd_if run_snd run_bind run_bind2 run_bind3 run_let_bind2 run_let_prod run_let run_prod run_option
  run_snd_prod run_snd_bind run_cases run_append_failure
  run_timer_policy step_error step_add step_on_rt step_rt run_gw run_steps run_start_or_fail run_refresh run_process run_recover

lemma run_completion: "R r r' \<Longrightarrow> R r (HandlePendingDatagramCompletion be pf e r')"
  unfolding HandlePendingDatagramCompletion_def 
  by (rule run_rules | assumption | (auto simp: Let_def dest: core_allocate; fail))+

lemma run_staged: "R r r' \<Longrightarrow> R r (handle_inner_packet_staged be pf e r')"
  unfolding handle_inner_packet_staged_def by (rule run_rules | assumption | (auto simp: Let_def dest: core_allocate; fail))+

lemma run_batch: "R r r' \<Longrightarrow> R r (handle_inner_packet_batch_staged be pf b r')"
  unfolding handle_inner_packet_batch_staged_def by (rule run_rules run_push_batch | assumption | (auto simp: Let_def dest: core_allocate; fail))+

lemma run_expired: "R r r' \<Longrightarrow> R r (run_expired_timer be pf t p r')"
  unfolding run_expired_timer_def timer_retransmit_def timer_keepalive_def rearm_keepalive_def
  by (rule run_rules | assumption | (auto simp: Let_def dest: core_allocate; fail))+

lemma run_timer: "R r r' \<Longrightarrow> R r (handle_protocol_timer_expired be pf t r')"
  unfolding handle_protocol_timer_expired_def
  by (rule run_rules run_expired | assumption)+

lemma run_process_event: "R r r' \<Longrightarrow> R r (handle_process_outbound_queue be pf q r')"
  unfolding handle_process_outbound_queue_def by (rule run_rules | assumption)+

text \<open>A failure of the transport is the error transition or nothing.\<close>

lemma run_failure: "R r r' \<Longrightarrow> R r (handle_transport_failure f r')"
  unfolding handle_transport_failure_def by (rule run_rules | assumption)+

lemmas run_outbound = run_completion run_staged run_batch run_process_event run_timer run_failure

end

text \<open>Received datagrams may also complete a handshake.\<close>

locale active_relation = run_relation +
  assumes R_active: "EnterActive g now (rt r) = (ok, s) \<Longrightarrow> R r (r\<lparr>rt := s\<rparr>)"
begin

lemma run_enter: "R r r' \<Longrightarrow> R r (snd (on_rt_step (enter_active_or_note g now) r'))"
  by (auto simp: on_rt_step_def enter_active_or_note_def split: prod.splits intro: R_trans[OF _ R_active] step_core)

lemma run_complete_initiator: "R r r' \<Longrightarrow> R r (CompleteInitiatorSession be pf e r')"
  unfolding CompleteInitiatorSession_def by (rule run_rules run_enter | assumption | (auto simp: Let_def dest: core_allocate; fail))+

lemma run_transport_data: "R r r' \<Longrightarrow> R r (HandleTransportData be pf e r')"
  unfolding HandleTransportData_def by (rule run_rules run_enter | assumption | (auto simp: Let_def dest: core_allocate; fail))+

lemma run_datagram: "R r r' \<Longrightarrow> R r (HandleEncryptedDatagram be pf e r')"
  unfolding HandleEncryptedDatagram_def 
  by (rule run_rules run_enter run_transport_data run_complete_initiator | assumption | (auto simp: Let_def dest: core_allocate; fail))+

lemmas run_protocol = run_datagram run_outbound

end

end
