(* ===== verification/WG_PeerSockets.thy ===== *)
theory WG_PeerSockets
  imports WG_PeerRuns "HOL-Library.Multiset"
begin

text \<open>
  Ownership of sockets. A peer owns the socket of its binding; a socket reaches it with \<open>UdpBindOpened\<close>
  and leaves it with a \<open>CloseUdpSocketEffect\<close>. The ledger of a run counts the sockets the peer owns
  together with the sockets it has asked to close: no handler changes it, so no socket is lost and none
  is closed twice.
\<close>

subsection \<open>The ledger\<close>

definition owned :: "PeerRuntime \<Rightarrow> socket_handle multiset" where
  "owned s = (if Binding_IsOpen (m_binding s) then {#b_socket (m_binding s)#} else {#})"

definition closed_by :: "RuntimeEffect \<Rightarrow> socket_handle multiset" where
  "closed_by e = (case e of CloseUdpSocketEffect _ socket \<Rightarrow> {#socket#} | _ \<Rightarrow> {#})"

definition closed :: "EffectBatch \<Rightarrow> socket_handle multiset" where
  "closed b = (\<Sum>e\<leftarrow>b. closed_by e)"

definition offered :: "PeerEvent \<Rightarrow> socket_handle multiset" where
  "offered event =
     (case event of UdpBindOpened e \<Rightarrow> if ubo_socket e \<noteq> InvalidSocket then {#ubo_socket e#} else {#} | _ \<Rightarrow> {#})"

definition ledger :: "'w rt_run \<Rightarrow> socket_handle multiset option" where
  "ledger r = map_option (\<lambda>b. owned (rt r) + closed b) (rt_fx r)"

text \<open>The run \<open>r'\<close> has the ledger of \<open>r\<close> with the sockets \<open>m\<close> added, or it has aborted.\<close>

definition gains :: "socket_handle multiset \<Rightarrow> 'w rt_run \<Rightarrow> 'w rt_run \<Rightarrow> bool" where
  "gains m r r' \<longleftrightarrow> ledger r' = None \<or> ledger r' = map_option ((+) m) (ledger r)"

abbreviation kept :: "'w rt_run \<Rightarrow> 'w rt_run \<Rightarrow> bool" where
  "kept \<equiv> gains {#}"

lemma map_option_plus_empty [simp]: "map_option ((+) {#}) x = x"
  by (cases x) simp_all

lemma kept_refl: "kept r r"
  by (simp add: gains_def)

lemma gains_trans: "gains m r r' \<Longrightarrow> kept r' r'' \<Longrightarrow> gains m r r''"
  by (auto simp: gains_def)

lemma kept_then: "kept r r' \<Longrightarrow> gains m r' r'' \<Longrightarrow> gains m r r''"
  by (auto simp: gains_def)

lemma closed_by_other: "\<not> is_close e \<Longrightarrow> closed_by e = {#}"
  by (simp add: is_close_def closed_by_def split: RuntimeEffect.splits)

lemma gains_add: "gains (closed_by e) r (add_fx e r)"
  by (auto simp: gains_def ledger_def Effects_Add_def TryAdd_def closed_def ac_simps split: option.splits if_splits)

lemma owned_core: "core s = core s' \<Longrightarrow> owned s = owned s'"
  by (simp add: core_def owned_def Binding_IsOpen_def)

lemma kept_same: "owned (rt r') = owned (rt r) \<Longrightarrow> rt_fx r' = rt_fx r \<Longrightarrow> kept r r'"
  by (simp add: gains_def ledger_def option.map_comp comp_def)

text \<open>Giving up the socket of the binding, whatever else changes.\<close>

lemma kept_release:
  assumes "owned (rt r) = {#socket#}" "owned s' = {#}"
  shows "kept r (add_fx (CloseUdpSocketEffect g socket) (r\<lparr>rt := s'\<rparr>))"
  using assms
  by (auto simp: gains_def ledger_def Effects_Add_def TryAdd_def closed_def closed_by_def split: option.splits if_splits)

lemma owned_open: "Binding_IsOpen (m_binding s) \<Longrightarrow> owned s = {#b_socket (m_binding s)#}"
  by (simp add: owned_def)

lemma owned_closed: "b_socket (m_binding s) = InvalidSocket \<Longrightarrow> owned s = {#}"
  by (simp add: owned_def Binding_IsOpen_def)

lemma kept_fold_add:
  "(\<And>x r. kept r (f x r)) \<Longrightarrow> kept r (fold f xs r)"
  by (induction xs arbitrary: r) (auto intro: gains_trans kept_refl)

lemma kept_add: "\<not> is_close e \<Longrightarrow> kept r (add_fx e r)"
  using gains_add[of e r] by (simp add: closed_by_other)

lemma kept_error: "kept r (EnterActivationError stage code now r)"
proof -
  define s where "s = EnterError stage code now
    (let s = snd (ClearStagedInnerPackets (clear_decrypted_packet
           ((rt r)\<lparr>m_pending_datagram := PendingDatagram_init, m_pending_socket_generation := 0\<rparr>)))
     in case ProtocolPeer s of None \<Rightarrow> s
        | Some p \<Rightarrow> let s = set_peer (wg_peer_scrub_transient_state p) s
                   in set_device (wg_device_clear_index_registry (pr_device (m_protocol s))) s)"
  have o: "owned s = owned (rt r)"
    by (simp add: s_def EnterError_def ClearStagedInnerPackets_def owned_def set_peer_def set_device_def
        clear_decrypted_packet_def Let_def split: option.splits prod.splits)
  define r1 where "r1 = (if Binding_IsOpen (m_binding s) then
      (case Binding_ReleaseSocket (m_binding s) of (socket, b) \<Rightarrow>
         add_fx (CloseUdpSocketEffect (m_path_request_generation s) socket) (r\<lparr>rt := s\<lparr>m_binding := b\<rparr>\<rparr>))
      else r\<lparr>rt := s\<rparr>)"
  have "kept r r1"
    by (cases "Binding_IsOpen (m_binding s)")
      (auto simp: r1_def o[symmetric] Binding_ReleaseSocket_def owned_open owned_closed intro!: kept_release kept_same[of "r\<lparr>rt := s\<rparr>"])
  moreover have "kept r1 (fold (\<lambda>hook. add_fx (CancelProtocolTimerEffect i hook t)) hooks r1)" for i t hooks
    by (rule kept_fold_add) (simp add: kept_add)
  ultimately show ?thesis
    by (auto simp: EnterActivationError_def Let_def r1_def s_def split: if_splits intro: gains_trans)
qed

lemma kept_active: "EnterActive g now (rt r) = (ok, s) \<Longrightarrow> kept r (r\<lparr>rt := s\<rparr>)"
  by (auto simp: EnterActive_def owned_def split: if_splits intro!: kept_same)

lemma kept_abort: "kept r (r\<lparr>rt_fx := None\<rparr>)"
  by (simp add: gains_def ledger_def)

interpretation ledger: active_relation kept
  by unfold_locales (fact kept_refl, erule (1) gains_trans, erule kept_add, rule kept_same[OF owned_core],
    assumption, assumption, fact kept_error, fact kept_abort, erule kept_active)

subsection \<open>The other handlers\<close>

lemma kept_rt_add: "owned s = owned (rt r) \<Longrightarrow> \<not> is_close e \<Longrightarrow> kept r (add_fx e (r\<lparr>rt := s\<rparr>))"
  by (auto intro!: ledger.step_add kept_same[of "r\<lparr>rt := s\<rparr>"])

lemma kept_on_rt: "kept r r' \<Longrightarrow> (\<And>s. owned (f s) = owned s) \<Longrightarrow> kept r (on_rt f r')"
  by (erule gains_trans) (simp add: kept_same)

lemma kept_activation: "kept r (handle_activation_requested e r)"
  by (auto simp: handle_activation_requested_def Let_def kept_error BeginActivation_def split: prod.splits
      intro!: kept_rt_add
      simp: owned_def ResetLifecycle_def ResetProtocol_def clear_decrypted_packet_def Binding_ClearEndpoint_def Binding_IsOpen_def)

lemma kept_cancel_hook: "kept r (cancel_hook i h r)"
  by (auto simp: cancel_hook_def Let_def owned_def set_peer_def set_device_def split: prod.splits option.splits intro!: kept_rt_add)

lemma kept_release_run:
  "kept r r' \<Longrightarrow> Binding_IsOpen (m_binding (rt r')) \<Longrightarrow> Binding_ReleaseSocket (m_binding (rt r')) = (socket, b) \<Longrightarrow>
   kept r (add_fx (CloseUdpSocketEffect g socket) (on_rt (\<lambda>s. s\<lparr>m_binding := b\<rparr>) r'))"
  unfolding on_rt_def by (erule gains_trans) (auto simp: Binding_ReleaseSocket_def owned_open owned_closed intro!: kept_release)

lemma owned_Deactivate: "owned (Deactivate now s) = owned s"
  by (simp add: Deactivate_def Let_def owned_def ResetLifecycle_def ResetProtocol_def clear_decrypted_packet_def)

lemma kept_deactivation: "kept r (handle_deactivation_requested e r)"
  unfolding handle_deactivation_requested_def
  by (rule ledger.run_bind ledger.run_let ledger.run_if kept_refl kept_on_rt owned_Deactivate ledger.step_add
      gains_trans[OF _ kept_fold_add[OF kept_cancel_hook]] ledger.run_prod kept_release_run | assumption | simp; fail)+

lemma kept_append: "kept (r\<lparr>rt_fx := Some []\<rparr>) (h (r\<lparr>rt_fx := Some []\<rparr>)) \<Longrightarrow> kept r (append_fx h r)"
  by (auto simp: gains_def ledger_def append_fx_def Let_def Effects_Append_def TryAppend_def closed_def ac_simps
      split: option.splits if_splits)

lemma kept_rebind: "kept r (handle_udp_rebind_requested e r)"
  by (auto simp: handle_udp_rebind_requested_def Let_def AllocateSocketGeneration_def owned_def kept_refl split: prod.splits
      intro!: kept_rt_add)

lemma kept_append_rebind: "kept r r' \<Longrightarrow> kept r (request_rebind i now r')"
  unfolding request_rebind_def by (erule gains_trans) (rule kept_append, rule kept_rebind)

lemma kept_suspend: "kept r r' \<Longrightarrow> Binding_IsOpen (m_binding (rt r')) \<Longrightarrow> kept r (SuspendTransport i r')"
proof (erule gains_trans)
  assume "Binding_IsOpen (m_binding (rt r'))"
  define r1 where "r1 = fold (cancel_fx i) [TH_RetransmitHandshake, TH_SendKeepalive, TH_NewHandshake, TH_PersistentKeepalive] r'"
  have "kept r' r1" unfolding r1_def by (rule kept_fold_add) (simp add: cancel_fx_def kept_add)
  moreover have "rt r1 = rt r'" by (simp add: r1_def cancel_fx_def)
  ultimately show "kept r' (SuspendTransport i r')"
    unfolding SuspendTransport_def r1_def[symmetric] Let_def
    using \<open>Binding_IsOpen _\<close>
    by (auto simp: Binding_ReleaseAndSuspend_def Binding_ReleaseSocket_def kept_refl Binding_IsOpen_def on_rt_def owned_open owned_closed
        intro!: gains_trans[of "{#}" r' r1] kept_release)
qed

lemma kept_path: "kept r (handle_network_path_availability_changed e r)"
  unfolding handle_network_path_availability_changed_def
  by (rule ledger.run_bind ledger.run_let ledger.run_if kept_refl kept_append_rebind
      kept_suspend kept_on_rt ledger.step_add | assumption | (simp add: owned_def; fail))+

lemma kept_resolved: "kept r (handle_endpoint_resolved e r)"
  by (auto simp: handle_endpoint_resolved_def Let_def AllocateSocketGeneration_def owned_def Binding_SetEndpoint_def
      Binding_IsOpen_def kept_refl kept_error split: prod.splits intro!: kept_rt_add)

subsection \<open>Opened sockets\<close>

lemma gains_close_offered: "kept r r' \<Longrightarrow> gains (offered (UdpBindOpened e)) r (close_offered e r')"
  using gains_add[of "CloseUdpSocketEffect g (ubo_socket e)" r' for g]
  by (auto simp: close_offered_def offered_def closed_by_def intro: kept_then)

lemma gains_adopt:
  assumes "ubo_socket e \<noteq> InvalidSocket" "kept r r'"
  shows "gains (offered (UdpBindOpened e)) r (adopt_offered e r')"
proof (rule kept_then[OF assms(2)])
  show "gains (offered (UdpBindOpened e)) r' (adopt_offered e r')"
  proof (cases "Binding_AdoptOpenSocket (ubo_endpoint e) (ubo_endpoint_text e) (ubo_socket_generation e) (ubo_socket e) (m_binding (rt r'))")
    case None
    then show ?thesis by (simp add: adopt_offered_def gains_def ledger_def)
  next
    case (Some b)
    then have "owned (rt r') = {#}" "b_socket b = ubo_socket e"
      by (auto simp: Binding_AdoptOpenSocket_def owned_closed split: if_splits)
    then show ?thesis using Some assms(1)
      by (auto simp: adopt_offered_def gains_def ledger_def offered_def owned_open Binding_IsOpen_def option.map_comp comp_def)
  qed
qed

lemma kept_instantiate: "InstantiateProtocol be pf (s, w) = (ok, s', w') \<Longrightarrow> owned s' = owned s"
  by (auto simp: InstantiateProtocol_def ResetProtocol_def set_device_def Let_def owned_def split: prod.splits if_splits)

lemma kept_enter_handshaking: "kept r (snd (on_rt_step (EnterHandshaking g now) r))"
  by (auto simp: on_rt_step_def EnterHandshaking_def owned_def intro!: kept_same)

lemma owned_binding_release: "owned (s\<lparr>m_binding := snd (Binding_ReleaseSocket b)\<rparr>) = {#}"
  by (simp add: Binding_ReleaseSocket_def owned_closed)

lemma gains_rebind_opened: "gains (offered (UdpBindOpened e)) r (udp_rebind_opened be pf e r)"
proof (cases "ubo_error e \<noteq> SE_none \<or> ubo_socket e = InvalidSocket")
  case False
  define b where "b = snd (Binding_ReleaseSocket (m_binding (rt r)))"
  define old where "old = b_socket (m_binding (rt r))"
  define r1 where "r1 = adopt_offered e (on_rt (\<lambda>s. s\<lparr>m_binding := b\<rparr>) r)"
  define r2 where "r2 = (if old \<noteq> InvalidSocket then add_fx (CloseUdpSocketEffect (m_path_request_generation (rt r1)) old) r1 else r1)"
  have "gains (offered (UdpBindOpened e)) r r2"
    using False
    by (auto simp: gains_def ledger_def r2_def r1_def b_def old_def adopt_offered_def Binding_AdoptOpenSocket_def
        Binding_ReleaseSocket_def Binding_SetEndpoint_def offered_def owned_def Binding_IsOpen_def Effects_Add_def TryAdd_def
        closed_def closed_by_def split: option.splits if_splits)
  moreover have "kept r2 (add_fx (QueueReceiveEffect (ubo_peer e)) (RecoverTransport be pf (ubo_peer e) (ubo_occurred_at e) r2))"
    by (intro ledger.step_add ledger.run_recover kept_refl) simp
  ultimately have "gains (offered (UdpBindOpened e)) r
      (add_fx (QueueReceiveEffect (ubo_peer e)) (RecoverTransport be pf (ubo_peer e) (ubo_occurred_at e) r2))"
    by (rule gains_trans)
  then show ?thesis using False
    by (auto simp: udp_rebind_opened_def Let_def gains_close_offered[OF kept_refl] r2_def r1_def b_def old_def
        split: prod.splits simp: Binding_ReleaseSocket_def)
qed (auto simp: udp_rebind_opened_def Let_def gains_close_offered[OF kept_refl])

lemma kept_begin_protocol:
  assumes "rt_fx r = None \<or> Binding_IsOpen (m_binding (rt r))"
  shows "kept r (begin_protocol be pf e r)"
proof -
  let ?g = "pid_activation_generation (ubo_peer e)" and ?now = "ubo_occurred_at e"
  obtain ok s w where i: "InstantiateProtocol be pf (rt r, snd (rt_gw r)) = (ok, s, w)" by (metis prod.exhaust)
  define r1 where "r1 = r\<lparr>rt := s, rt_gw := (fst (rt_gw r), w)\<rparr>"
  have r1: "kept r r1" by (rule kept_same) (simp_all add: r1_def kept_instantiate[OF i])
  obtain ok2 r2 where h: "on_rt_step (EnterHandshaking ?g ?now) r1 = (ok2, r2)" by (rule prod.exhaust)
  have r2: "kept r r2" using gains_trans[OF r1 kept_enter_handshaking[of r1 ?g ?now]] h by simp
  have "owned (rt r2) = owned (rt r)" "rt_fx r2 = rt_fx r"
    using h kept_instantiate[OF i]
    by (auto simp: on_rt_step_def EnterHandshaking_def r1_def owned_def split: if_splits)
  then have "rt_fx r2 = None \<or> Binding_IsOpen (m_binding (rt r2))"
    using assms by (auto simp: owned_def split: if_splits)
  then have rel: "kept r (add_fx (CloseUdpSocketEffect g socket) (on_rt (\<lambda>s. s\<lparr>m_binding := b\<rparr>) r2))"
    if "Binding_ReleaseSocket (m_binding (rt r2)) = (socket, b)" for g socket b
    using that kept_release_run[OF r2 _ that, of g] by (auto simp: gains_def[of _ _ "add_fx x y" for x y] ledger_def Effects_Add_def)
  show ?thesis
    unfolding begin_protocol_def i r1_def[symmetric] Let_def prod.case h
    by (rule rel r1 r2 ledger.run_rules | assumption | (simp; fail))+
qed

lemma adopt_open: "ubo_socket e \<noteq> InvalidSocket \<Longrightarrow> rt_fx (adopt_offered e r) = None \<or> Binding_IsOpen (m_binding (rt (adopt_offered e r)))"
  by (auto simp: adopt_offered_def Binding_AdoptOpenSocket_def Binding_IsOpen_def split: option.splits if_splits)

lemma gains_activation_opened: "gains (offered (UdpBindOpened e)) r (udp_activation_opened be pf e r)"
  by (auto simp: udp_activation_opened_def Let_def gains_close_offered[OF kept_refl]
      intro: gains_trans[OF _ kept_error] gains_trans[OF gains_adopt[OF _ kept_refl] kept_begin_protocol[OF adopt_open]])

lemma gains_bind_opened: "gains (offered (UdpBindOpened e)) r (handle_udp_bind_opened be pf e r)"
proof -
  let ?r = "on_rt (\<lambda>s. s\<lparr>m_pending_socket_generation := 0\<rparr>) r"
  have "kept r ?r" by (rule kept_on_rt[OF kept_refl]) (simp add: owned_def)
  then show ?thesis
    using gains_rebind_opened[of e ?r be pf] gains_activation_opened[of e ?r be pf]
    by (auto simp: handle_udp_bind_opened_def Let_def gains_close_offered[OF kept_refl] intro: kept_then)
qed

lemma gains_event: "gains (offered event) r (HandleEvent be pf event r)"
proof (cases event)
  case (UdpBindOpened e)
  then show ?thesis by (simp add: HandleEvent_def gains_bind_opened)
qed (simp_all add: HandleEvent_def offered_def kept_activation kept_deactivation handle_network_path_request_started_def
    kept_refl kept_path kept_resolved kept_rebind ledger.run_protocol[OF kept_refl])

text \<open>Assigning the timer tokens leaves sockets alone.\<close>

lemma finalize_owned: "finalize_effect e s = (e', s') \<Longrightarrow> owned s' = owned s \<and> closed_by e' = closed_by e"
  by (auto simp: finalize_effect_def Let_def owned_def set_peer_def set_device_def closed_by_def
      split: RuntimeEffect.splits if_splits option.splits prod.splits)

lemma finalize_all_owned: "FinalizeTimerEffects b s = (b', s') \<Longrightarrow> owned s' = owned s \<and> closed b' = closed b"
proof (induction b s arbitrary: b' s' rule: FinalizeTimerEffects.induct)
  case (2 e es s)
  obtain e1 s1 where e: "finalize_effect e s = (e1, s1)" by (rule prod.exhaust)
  obtain es1 s2 where es: "FinalizeTimerEffects es s1 = (es1, s2)" by (rule prod.exhaust)
  show ?case using "2.IH"[OF e[symmetric] es] finalize_owned[OF e] "2.prems" by (auto simp: e es closed_def)
qed (simp add: closed_def)

subsection \<open>Properties\<close>

text \<open>C5: Sockets are neither lost nor closed twice. Whatever event a peer handles, in whatever state: the
  socket of the binding and the sockets the event brings are, afterwards, exactly the socket of the
  binding and the sockets that the returned effects close.\<close>

theorem sockets_conserved:
  assumes "Handle be pf event s gw = Some (effects, s', gw')"
  shows "owned s + offered event = owned s' + closed effects"
proof -
  define r where "r = HandleEvent be pf event \<lparr>rt = s, rt_gw = gw, rt_fx = Some []\<rparr>"
  obtain b where b: "rt_fx r = Some b" "FinalizeTimerEffects b (rt r) = (effects, s')"
    using assms by (auto simp: Handle_def Let_def r_def[symmetric] split: option.splits prod.splits if_splits)
  have "owned (rt r) + closed b = owned s + offered event"
    using gains_event[of event "\<lparr>rt = s, rt_gw = gw, rt_fx = Some []\<rparr>" be pf]
    by (auto simp: gains_def ledger_def b(1) closed_def ac_simps simp flip: r_def)
  then show ?thesis using finalize_all_owned[OF b(2)] by simp
qed

theorem sockets_conserved_witness:
  "let b = UdpBinding_init\<lparr>b_socket := 5, b_generation := 1\<rparr>;
       e = \<lparr>ubo_peer = \<lparr>pid_peer_index = 0, pid_activation_generation = 1\<rparr>, ubo_path_generation = 1,
            ubo_endpoint = endpoint_init, ubo_endpoint_text = [], ubo_socket = 9, ubo_error = SE_none,
            ubo_socket_generation = 2, ubo_purpose = UBP_Rebind, ubo_timer_facts = \<lparr>tf_now = 0, tf_random_u32 = 0\<rparr>,
            ubo_occurred_at = 0\<rparr>;
       s = PeerRuntime_init\<lparr>m_binding := b\<rparr>
   in \<exists>effects s' gw'. Handle example_backend example_platform (UdpBindOpened e) s (1, 0) = Some (effects, s', gw') \<and>
        closed effects = {#9#} \<and> owned s' = {#5#}"
proof -
  let ?e = "\<lparr>ubo_peer = \<lparr>pid_peer_index = 0, pid_activation_generation = 1\<rparr>, ubo_path_generation = 1,
            ubo_endpoint = endpoint_init, ubo_endpoint_text = [], ubo_socket = 9, ubo_error = SE_none,
            ubo_socket_generation = 2, ubo_purpose = UBP_Rebind, ubo_timer_facts = \<lparr>tf_now = 0, tf_random_u32 = 0\<rparr>,
            ubo_occurred_at = 0\<rparr>"
  let ?s = "PeerRuntime_init\<lparr>m_binding := UdpBinding_init\<lparr>b_socket := 5, b_generation := 1\<rparr>\<rparr>"
  have h: "Handle example_backend example_platform (UdpBindOpened ?e) ?s (1, 0) = Some ([CloseUdpSocketEffect 0 9], ?s, 1, 0)"
    by (simp add: Handle_def HandleEvent_def handle_udp_bind_opened_def IsCurrentPathRequest_def IsCurrentActivation_def
        IsCurrentGeneration_def PeerRuntime_init_def PeerRuntimeInfo_init_def close_offered_def add_fx_def Effects_Add_def
        TryAdd_def Let_def finalize_effect_def GetEventEffectBudget_def)
  have "owned ?s = {#5#}" "offered (UdpBindOpened ?e) = {#9#}" by (simp_all add: owned_open Binding_IsOpen_def offered_def)
  moreover have "closed [CloseUdpSocketEffect 0 9] = {#9#}" by (simp add: closed_def closed_by_def)
  ultimately show ?thesis using h sockets_conserved[OF h] by (simp add: Let_def)
qed

end
