(* ===== verification/WG_PeerLifecycle.thy ===== *)
theory WG_PeerLifecycle
  imports WG_PeerRuns
begin

text \<open>
  The lifecycle of a peer. The protocol handlers act on the core of a peer by two functions,
  \<open>fail_core\<close> and \<open>active_core\<close>; with the handlers for activation, path and binding this gives the state
  machine of a peer, an invariant of every reachable peer, and that events of an earlier activation
  do nothing.
\<close>

subsection \<open>The protocol handlers on the core\<close>

definition fail_core :: "runtime_core \<Rightarrow> runtime_core" where
  "fail_core c =
     c\<lparr>co_state := PRS_Error, co_pending_socket := 0, co_socket := InvalidSocket,
       co_socket_generation := (if co_socket c = InvalidSocket then co_socket_generation c else 0)\<rparr>"

definition active_core :: "runtime_core \<Rightarrow> runtime_core" where
  "active_core c = (if co_state c = PRS_Handshaking then c\<lparr>co_state := PRS_Active\<rparr> else c)"

definition stays_or_fails :: "'w rt_run \<Rightarrow> 'w rt_run \<Rightarrow> bool" where
  "stays_or_fails r r' \<longleftrightarrow> core (rt r') \<in> {core (rt r), fail_core (core (rt r))}"

definition advances_or_fails :: "'w rt_run \<Rightarrow> 'w rt_run \<Rightarrow> bool" where
  "advances_or_fails r r' \<longleftrightarrow> core (rt r') \<in> {core (rt r), active_core (core (rt r)), fail_core (core (rt r))}"

lemma core_algebra [simp]:
  "fail_core (fail_core c) = fail_core c" "fail_core (active_core c) = fail_core c"
  "active_core (fail_core c) = fail_core c" "active_core (active_core c) = active_core c"
  by (simp_all add: fail_core_def active_core_def)

lemma rt_fold_add [simp]: "rt (fold (\<lambda>x. add_fx (f x)) xs r) = rt r" "rt_gw (fold (\<lambda>x. add_fx (f x)) xs r) = rt_gw r"
  by (induction xs arbitrary: r) simp_all

lemma core_error: "core (rt (EnterActivationError stage code now r)) = fail_core (core (rt r))"
  by (simp add: EnterActivationError_def Let_def core_def fail_core_def EnterError_def ClearStagedInnerPackets_def
      clear_decrypted_packet_def set_peer_def set_device_def Binding_IsOpen_def Binding_ReleaseSocket_def
      split: option.splits prod.splits)

lemma core_active:
  "EnterActive g now s = (ok, s') \<Longrightarrow> core s' \<in> {core s, active_core (core s)}"
  by (auto simp: EnterActive_def active_core_def core_def split: if_splits)

interpretation outbound: run_relation stays_or_fails
  by unfold_locales (auto simp: stays_or_fails_def core_error)

interpretation inbound: active_relation advances_or_fails
  by unfold_locales (auto simp: advances_or_fails_def core_error dest: core_active)

lemma outbound_core:
  "HandleEvent be pf event r = r' \<Longrightarrow>
   event = PendingDatagramSent e1 \<or> event = InnerPacketStaged e2 \<or> event = InnerPacketBatchStaged e3 \<or>
   event = ProcessOutboundQueueRequested e4 \<or> event = ProtocolTimerExpired e5 \<or> event = TransportFailure e6 \<Longrightarrow>
   stays_or_fails r r'"
  by (auto simp: HandleEvent_def intro: outbound.run_outbound[OF outbound.R_refl])

lemma inbound_core: "advances_or_fails r (HandleEncryptedDatagram be pf e r)"
  by (rule inbound.run_datagram[OF inbound.R_refl])

subsection \<open>Activation, path and binding on the core\<close>

lemma core_Deactivate:
  "core (Deactivate now s) =
     (core s)\<lparr>co_state := PRS_Inactive, co_activation := 0, co_path := 0, co_availability := NPA_unknown, co_waiting := False,
       co_pending_socket := 0, co_instantiated := False\<rparr>"
  by (simp add: Deactivate_def Let_def core_def ResetLifecycle_def ResetProtocol_def clear_decrypted_packet_def)

definition release_core :: "runtime_core \<Rightarrow> runtime_core" where
  "release_core c =
     c\<lparr>co_socket := InvalidSocket, co_socket_generation := (if co_socket c = InvalidSocket then co_socket_generation c else 0)\<rparr>"

lemma core_cancel_hook [simp]: "core (rt (cancel_hook i h r)) = core (rt r)"
  by (simp add: cancel_hook_def Let_def split: prod.splits option.splits)

lemma core_cancel_hooks [simp]: "core (rt (fold (cancel_hook i) hs r)) = core (rt r)"
  by (induction hs arbitrary: r) simp_all

lemma core_deactivation:
  "core (rt (handle_deactivation_requested e r)) =
     (if IsCurrentActivation (pid_activation_generation (dre_peer e)) (rt r)
      then (release_core (core (rt r)))\<lparr>co_state := PRS_Inactive, co_activation := 0, co_path := 0,
             co_availability := NPA_unknown, co_waiting := False, co_pending_socket := 0, co_instantiated := False\<rparr>
      else core (rt r))"
proof -
  have "core (s\<lparr>m_binding := snd (Binding_ReleaseSocket (m_binding s))\<rparr>) = release_core (core s)"
    if "Binding_IsOpen (m_binding s)" for s
    using that by (simp add: core_def release_core_def Binding_ReleaseSocket_def Binding_IsOpen_def)
  moreover have "release_core (core s) = core s" if "\<not> Binding_IsOpen (m_binding s)" for s
    using that by (simp add: core_def release_core_def Binding_IsOpen_def)
  ultimately show ?thesis
    by (auto simp: handle_deactivation_requested_def Let_def core_Deactivate Binding_ReleaseSocket_def)
qed

definition transport_state :: "PeerRuntimeState \<Rightarrow> bool" where
  "transport_state st \<longleftrightarrow> st = PRS_Handshaking \<or> st = PRS_Active"

lemma IsInTransportState_core: "IsInTransportState s \<longleftrightarrow> transport_state (co_state (core s))"
  by (simp add: IsInTransportState_def transport_state_def core_def)

definition config_ok :: "runtime_core \<Rightarrow> bool" where
  "config_ok c \<longleftrightarrow> cfg_public_key (co_config c) \<noteq> [] \<and> cfg_allowed_ips (co_config c) \<noteq> [] \<and> cfg_endpoint (co_config c) \<noteq> [] \<and>
     di_secrets_valid (co_derived c) \<and> noise_is_valid_encoded_key (cfg_public_key (co_config c)) False"

lemma ValidateConfiguration_core: "ValidateConfiguration s = PEC_None \<longleftrightarrow> config_ok (core s)"
  by (simp add: ValidateConfiguration_def config_ok_def core_def Let_def)

text \<open>An open socket belongs to a peer in a transport state, which is open or suspended and has a protocol
  instance; an activation that is not over has a valid configuration, an activation generation and a
  path request; generations are never zero.\<close>

definition core_inv :: "runtime_core \<Rightarrow> bool" where
  "core_inv c \<longleftrightarrow>
     (co_socket c \<noteq> InvalidSocket \<longrightarrow> transport_state (co_state c) \<and> \<not> co_suspended c) \<and>
     (transport_state (co_state c) \<longrightarrow> co_instantiated c \<and> (co_socket c \<noteq> InvalidSocket \<or> co_suspended c)) \<and>
     (transport_state (co_state c) \<or> co_state c = PRS_ResolvingEndpoint \<longrightarrow> config_ok c \<and> co_activation c \<noteq> 0 \<and> co_path c \<noteq> 0) \<and>
     (co_state c = PRS_Inactive \<longrightarrow> co_activation c = 0 \<and> co_path c = 0 \<and> co_pending_socket c = 0) \<and>
     co_next_activation c \<noteq> 0 \<and> co_next_path c \<noteq> 0 \<and> co_next_socket c \<noteq> 0"

lemma core_inv_fail: "core_inv c \<Longrightarrow> core_inv (fail_core c)"
  by (simp add: core_inv_def fail_core_def transport_state_def)

lemma core_inv_active: "core_inv c \<Longrightarrow> core_inv (active_core c)"
  by (auto simp: core_inv_def active_core_def transport_state_def config_ok_def)

lemma core_inv_stays: "stays_or_fails r r' \<Longrightarrow> core_inv (core (rt r)) \<Longrightarrow> core_inv (core (rt r'))"
  by (auto simp: stays_or_fails_def core_inv_fail)

lemma core_inv_advances: "advances_or_fails r r' \<Longrightarrow> core_inv (core (rt r)) \<Longrightarrow> core_inv (core (rt r'))"
  by (auto simp: advances_or_fails_def core_inv_fail core_inv_active)

lemma AllocateGeneration_nonzero: "AllocateGeneration g = (a, b) \<Longrightarrow> a = g \<and> b \<noteq> 0"
  by (auto simp: AllocateGeneration_def Let_def split: if_splits)

lemma core_activation:
  assumes "AllocateGeneration (co_next_activation (core (rt r))) = (a, a')" "AllocateGeneration (co_next_path (core (rt r))) = (q, q')"
  shows "core (rt (handle_activation_requested e r)) =
     (if config_ok (core (rt r))
      then (core (rt r))\<lparr>co_state := PRS_ResolvingEndpoint, co_activation := a, co_next_activation := a', co_path := q,
             co_next_path := q', co_availability := NPA_unknown, co_waiting := True, co_pending_socket := 0,
             co_instantiated := False\<rparr>
      else fail_core (core (rt r)))"
  using assms
  by (auto simp: handle_activation_requested_def Let_def ValidateConfiguration_core core_error BeginActivation_def)
    (simp add: core_def ResetLifecycle_def ResetProtocol_def clear_decrypted_packet_def Binding_ClearEndpoint_def)

lemma core_rebind:
  assumes "AllocateGeneration (co_next_socket (core (rt r))) = (g, g')"
  shows "core (rt (handle_udp_rebind_requested e r)) \<in>
    {core (rt r), (core (rt r))\<lparr>co_pending_socket := g, co_next_socket := g', co_purpose := UBP_Rebind\<rparr>}"
  using assms by (auto simp: handle_udp_rebind_requested_def Let_def AllocateSocketGeneration_def core_def)

lemma core_append: "rt (append_fx h r) = rt (h (r\<lparr>rt_fx := Some []\<rparr>))"
  by (simp add: append_fx_def Let_def)

lemma core_resolved:
  assumes "AllocateGeneration (co_next_socket (core (rt r))) = (g, g')"
  shows "core (rt (handle_endpoint_resolved e r)) \<in>
    {core (rt r), fail_core (core (rt r)), (core (rt r))\<lparr>co_pending_socket := g, co_next_socket := g', co_purpose := UBP_Activation\<rparr>} \<and>
    (co_state (core (rt r)) \<noteq> PRS_ResolvingEndpoint \<longrightarrow> core (rt (handle_endpoint_resolved e r)) = core (rt r))"
  using assms by (auto simp: handle_endpoint_resolved_def Let_def AllocateSocketGeneration_def core_error Binding_SetEndpoint_def)
    (auto simp: core_def)

lemma core_inv_update:
  assumes "core_inv c"
  shows "core_inv (c\<lparr>co_availability := a, co_waiting := w\<rparr>)" "core_inv (c\<lparr>co_availability := a\<rparr>)" "core_inv (c\<lparr>co_waiting := w\<rparr>)"
  using assms by (simp_all add: core_inv_def config_ok_def)

lemma core_inv_pending:
  "core_inv c \<Longrightarrow> co_state c \<noteq> PRS_Inactive \<Longrightarrow> g' \<noteq> 0 \<Longrightarrow>
   core_inv (c\<lparr>co_pending_socket := g, co_next_socket := g', co_purpose := u\<rparr>)"
  by (simp add: core_inv_def config_ok_def)

lemma inv_activation:
  assumes "core_inv (core (rt r))" "\<not> IsInTransportState (rt r)"
  shows "core_inv (core (rt (handle_activation_requested e r)))"
proof -
  obtain a a' where a: "AllocateGeneration (co_next_activation (core (rt r))) = (a, a')" by (rule prod.exhaust)
  obtain q q' where q: "AllocateGeneration (co_next_path (core (rt r))) = (q, q')" by (rule prod.exhaust)
  show ?thesis
    using assms AllocateGeneration_nonzero[OF a] AllocateGeneration_nonzero[OF q]
    by (simp add: core_activation[OF a q] core_inv_fail)
      (auto simp: core_inv_def IsInTransportState_core transport_state_def config_ok_def)
qed

lemma inv_deactivation: "core_inv (core (rt r)) \<Longrightarrow> core_inv (core (rt (handle_deactivation_requested e r)))"
  by (simp add: core_deactivation release_core_def core_inv_def transport_state_def)

lemma inv_rebind: "core_inv (core (rt r)) \<Longrightarrow> core_inv (core (rt (handle_udp_rebind_requested e r)))"
proof -
  assume i: "core_inv (core (rt r))"
  obtain g g' where g: "AllocateGeneration (co_next_socket (core (rt r))) = (g, g')" by (rule prod.exhaust)
  have "co_state (core (rt r)) = PRS_Inactive \<Longrightarrow> handle_udp_rebind_requested e r = r"
    by (simp add: handle_udp_rebind_requested_def Let_def IsInTransportState_core transport_state_def)
  then show ?thesis
    using core_rebind[OF g, of e] i AllocateGeneration_nonzero[OF g] by (cases "co_state (core (rt r)) = PRS_Inactive")
      (auto intro: core_inv_pending)
qed

lemma inv_request_rebind: "core_inv (core (rt r)) \<Longrightarrow> core_inv (core (rt (request_rebind i now r)))"
  by (simp add: request_rebind_def core_append inv_rebind)

lemma rt_SuspendTransport:
  "rt (SuspendTransport i r) =
     (if b_suspended (m_binding (rt r)) then rt r
      else (rt r)\<lparr>m_binding := (m_binding (rt r))\<lparr>b_suspended := True, b_socket := InvalidSocket, b_generation := 0\<rparr>\<rparr>)"
  by (simp add: SuspendTransport_def Let_def cancel_fx_def Binding_ReleaseAndSuspend_def Binding_ReleaseSocket_def)

lemma inv_suspend:
  assumes "core_inv (core (rt r))" "Binding_IsOpen (m_binding (rt r))"
  shows "core_inv (core (rt (SuspendTransport i r)))"
proof -
  have "core (rt (SuspendTransport i r)) = (if co_suspended (core (rt r)) then core (rt r)
      else (core (rt r))\<lparr>co_suspended := True, co_socket := InvalidSocket, co_socket_generation := 0\<rparr>)"
    unfolding rt_SuspendTransport by (simp add: core_def)
  then show ?thesis using assms(1) by (auto simp: core_inv_def config_ok_def)
qed

lemma inv_path: "core_inv (core (rt r)) \<Longrightarrow> core_inv (core (rt (handle_network_path_availability_changed e r)))"
proof -
  assume i: "core_inv (core (rt r))"
  define r1 where "r1 = on_rt (\<lambda>s. if \<not> m_has_path_observation s \<or> m_last_path_observation s \<noteq> nac_observation e
      then s\<lparr>m_last_path_observation := nac_observation e, m_has_path_observation := True\<rparr> else s) r"
  have c: "core (rt r1) = core (rt r)" by (simp add: r1_def core_def)
  have x: "core (s\<lparr>m_path_availability := a\<rparr>) = (core s)\<lparr>co_availability := a\<rparr>"
    "core (s\<lparr>m_waiting_for_local_path := b\<rparr>) = (core s)\<lparr>co_waiting := b\<rparr>"
    "core (s\<lparr>m_rebind_on_path_confirmation := b\<rparr>) = core s"
    "core (s\<lparr>m_endpoint_resolution_started := b\<rparr>) = core s" for s a b
    by (simp_all add: core_def)
  show ?thesis
    unfolding handle_network_path_availability_changed_def Let_def r1_def[symmetric]
    using i by (auto simp: c x intro!: inv_request_rebind inv_suspend core_inv_update)
qed

lemma inv_resolved: "core_inv (core (rt r)) \<Longrightarrow> core_inv (core (rt (handle_endpoint_resolved e r)))"
proof -
  assume i: "core_inv (core (rt r))"
  obtain g g' where g: "AllocateGeneration (co_next_socket (core (rt r))) = (g, g')" by (rule prod.exhaust)
  show ?thesis
    using core_resolved[OF g, of e] i AllocateGeneration_nonzero[OF g]
    by (cases "co_state (core (rt r)) = PRS_ResolvingEndpoint") (auto intro!: core_inv_pending core_inv_fail)
qed

subsection \<open>Opened sockets on the core\<close>

lemma core_close_offered [simp]: "rt (close_offered e r) = rt r"
  by (simp add: close_offered_def)

lemma core_adopt:
  "b_socket (m_binding (rt r)) = InvalidSocket \<Longrightarrow> core (rt (adopt_offered e r)) =
     (core (rt r))\<lparr>co_socket := ubo_socket e, co_socket_generation := ubo_socket_generation e, co_suspended := False\<rparr>"
  by (simp add: adopt_offered_def Binding_AdoptOpenSocket_def Binding_SetEndpoint_def core_def)

lemma core_instantiate:
  "InstantiateProtocol be pf (s, w) = (ok, s', w') \<Longrightarrow> core s' = (core s)\<lparr>co_instantiated := ok\<rparr>"
  by (auto simp: InstantiateProtocol_def ResetProtocol_def set_device_def Let_def core_def split: prod.splits if_splits)

lemma core_enter_handshaking:
  assumes "IsCurrentActivation g s" "co_state (core s) = PRS_ResolvingEndpoint" "EnterHandshaking g now s = (ok, s')"
  shows "ok \<and> core s' = (core s)\<lparr>co_state := PRS_Handshaking\<rparr>"
  using assms by (auto simp: EnterHandshaking_def core_def)

lemma IsCurrentActivation_core: "IsCurrentActivation g s \<longleftrightarrow> co_activation (core s) \<noteq> 0 \<and> co_activation (core s) = g"
  by (simp add: IsCurrentActivation_def IsCurrentGeneration_def core_def)

lemma core_begin_protocol:
  assumes "IsCurrentActivation (pid_activation_generation (ubo_peer e)) (rt r)" "co_state (core (rt r)) = PRS_ResolvingEndpoint"
  shows "core (rt (begin_protocol be pf e r)) \<in>
    {fail_core ((core (rt r))\<lparr>co_instantiated := False\<rparr>), fail_core ((core (rt r))\<lparr>co_instantiated := True\<rparr>),
     (core (rt r))\<lparr>co_state := PRS_Handshaking, co_instantiated := True\<rparr>}"
proof -
  let ?g = "pid_activation_generation (ubo_peer e)" and ?now = "ubo_occurred_at e"
  obtain ok s w where i: "InstantiateProtocol be pf (rt r, snd (rt_gw r)) = (ok, s, w)" by (metis prod.exhaust)
  define r1 where "r1 = r\<lparr>rt := s, rt_gw := (fst (rt_gw r), w)\<rparr>"
  have c1: "core (rt r1) = (core (rt r))\<lparr>co_instantiated := ok\<rparr>" using core_instantiate[OF i] by (simp add: r1_def)
  obtain ok2 s2 where e2: "EnterHandshaking ?g ?now (rt r1) = (ok2, s2)" by (rule prod.exhaust)
  define r2 where "r2 = r1\<lparr>rt := s2\<rparr>"
  have h: "on_rt_step (EnterHandshaking ?g ?now) r1 = (ok2, r2)" by (simp add: on_rt_step_def e2 r2_def)
  have "IsCurrentActivation ?g (rt r1)" "co_state (core (rt r1)) = PRS_ResolvingEndpoint"
    using assms unfolding IsCurrentActivation_core c1 by auto
  from core_enter_handshaking[OF this e2]
  have c2: "ok2" "core (rt r2) = (core (rt r))\<lparr>co_state := PRS_Handshaking, co_instantiated := ok\<rparr>"
    unfolding c1 by (simp_all add: r2_def)
  have p: "core (rt (snd (on_rt_step (PrepareHandshakeInitiation k) x))) = core (rt x)" for k and x :: "'a rt_run"
    by (auto simp: on_rt_step_def split: prod.splits dest: core_prepare_initiation)
  have f: "fail_core (c\<lparr>co_state := st, co_instantiated := b\<rparr>) = fail_core (c\<lparr>co_instantiated := b\<rparr>)" for c st b
    by (simp add: fail_core_def)
  obtain t dev gw where st: "(case ProtocolPeer (rt r2) of
      Some _ \<Rightarrow> Controller_StartHandshake be pf (pr_device (m_protocol (rt r2))) (rt_gw r2)
    | None \<Rightarrow> (HandshakeTransition_of HTA_Fatal, pr_device (m_protocol (rt r2)), rt_gw r2)) = (t, dev, gw)"
    by (rule prod_cases3)
  define r3 where "r3 = (on_rt (set_device dev) r2)\<lparr>rt_gw := gw\<rparr>"
  obtain ok4 r4 where r4: "(if ht_action t = HTA_SendInitiation then on_rt_step (PrepareHandshakeInitiation PDK_HandshakeInitiation) r3
      else (False, r3)) = (ok4, r4)" by (rule prod.exhaust)
  have c4: "core (rt r4) = core (rt r2)"
    using r4 p[of PDK_HandshakeInitiation r3] by (auto simp: r3_def split: if_splits)
  have "core (rt (begin_protocol be pf e r)) = (if \<not> ok then fail_core (core (rt r1)) else if \<not> ok4 then fail_core (core (rt r4)) else core (rt r4))"
    unfolding begin_protocol_def i r1_def[symmetric] Let_def prod.case h st r3_def[symmetric] r4
    using c2(1) by (simp add: core_error send_pending_fx_def)
  then show ?thesis by (cases ok; cases ok4) (simp_all add: c1 c2(2) c4 f)
qed

lemma inv_rebind_opened:
  assumes "core_inv (core (rt r))"
  shows "core_inv (core (rt (udp_rebind_opened be pf e r)))"
proof -
  define r1 where "r1 = adopt_offered e (on_rt (\<lambda>s. s\<lparr>m_binding := snd (Binding_ReleaseSocket (m_binding (rt r)))\<rparr>) r)"
  have c: "core (rt r1) = (core (rt r))\<lparr>co_socket := ubo_socket e, co_socket_generation := ubo_socket_generation e, co_suspended := False\<rparr>"
    unfolding r1_def by (subst core_adopt) (simp_all add: Binding_ReleaseSocket_def core_def)
  have i: "core_inv (core (rt r1))" if "IsInTransportState (rt r)" "ubo_socket e \<noteq> InvalidSocket"
    using assms that by (auto simp: c core_inv_def IsInTransportState_core config_ok_def)
  have rec: "core_inv (core (rt (RecoverTransport be pf j now x)))" if "core_inv (core (rt x))" for j now x
    using core_inv_stays[OF outbound.run_recover[OF outbound.R_refl] that] .
  show ?thesis
    using assms rec i
    by (auto simp: udp_rebind_opened_def Let_def Binding_ReleaseSocket_def r1_def intro!: rec)
qed

lemma inv_activation_opened:
  assumes "core_inv (core (rt r))"
  shows "core_inv (core (rt (udp_activation_opened be pf e r)))"
proof (cases "IsCurrentActivation (pid_activation_generation (ubo_peer e)) (rt r) \<and> co_state (core (rt r)) = PRS_ResolvingEndpoint \<and>
    \<not> m_waiting_for_local_path (rt r) \<and> m_path_availability (rt r) = NPA_available \<and> ubo_error e = SE_none \<and> ubo_socket e \<noteq> InvalidSocket")
  case True
  have sock: "b_socket (m_binding (rt r)) = InvalidSocket"
    using True assms by (auto simp: core_inv_def transport_state_def core_def)
  let ?r = "adopt_offered e r"
  have c: "core (rt ?r) = (core (rt r))\<lparr>co_socket := ubo_socket e, co_socket_generation := ubo_socket_generation e, co_suspended := False\<rparr>"
    by (rule core_adopt[OF sock])
  have e: "udp_activation_opened be pf e r = begin_protocol be pf e ?r"
    using True by (simp add: udp_activation_opened_def Let_def core_def)
  show ?thesis
    using core_begin_protocol[of e ?r be pf] True assms unfolding e
    by (auto simp: c IsCurrentActivation_core core_inv_def fail_core_def transport_state_def config_ok_def)
next
  case False
  have "co_state (core s) = li_state (m_lifecycle s)" for s by (simp add: core_def)
  then show ?thesis using False assms by (auto simp: udp_activation_opened_def Let_def core_error core_inv_fail)
qed

lemma inv_bind_opened: "core_inv (core (rt r)) \<Longrightarrow> core_inv (core (rt (handle_udp_bind_opened be pf e r)))"
proof -
  assume i: "core_inv (core (rt r))"
  let ?r = "on_rt (\<lambda>s. s\<lparr>m_pending_socket_generation := 0\<rparr>) r"
  have "core_inv (core (rt ?r))" using i by (simp add: core_inv_def core_def config_ok_def)
  then show ?thesis
    using i by (simp add: handle_udp_bind_opened_def Let_def inv_rebind_opened inv_activation_opened)
qed

text \<open>Activation is requested of a peer that is not in a transport state.\<close>

definition admissible :: "PeerEvent \<Rightarrow> PeerRuntime \<Rightarrow> bool" where
  "admissible event s = (case event of ActivationRequested _ \<Rightarrow> \<not> IsInTransportState s | _ \<Rightarrow> True)"

lemma inv_event:
  assumes "core_inv (core (rt r))" "admissible event (rt r)"
  shows "core_inv (core (rt (HandleEvent be pf event r)))"
  using assms core_inv_stays[OF outbound.run_outbound(1)[OF outbound.R_refl] assms(1)]
    core_inv_stays[OF outbound.run_outbound(2)[OF outbound.R_refl] assms(1)]
    core_inv_stays[OF outbound.run_outbound(3)[OF outbound.R_refl] assms(1)]
    core_inv_stays[OF outbound.run_outbound(4)[OF outbound.R_refl] assms(1)]
    core_inv_stays[OF outbound.run_outbound(5)[OF outbound.R_refl] assms(1)]
    core_inv_stays[OF outbound.run_outbound(6)[OF outbound.R_refl] assms(1)]
    core_inv_advances[OF inbound_core assms(1)]
  by (cases event) (simp_all add: HandleEvent_def admissible_def inv_activation inv_deactivation inv_path inv_resolved inv_rebind
      inv_bind_opened handle_network_path_request_started_def)

lemma finalize_core: "finalize_effect e s = (e', s') \<Longrightarrow> core s' = core s"
  by (auto simp: finalize_effect_def Let_def split: RuntimeEffect.splits if_splits option.splits prod.splits)

lemma finalize_all_core: "FinalizeTimerEffects b s = (b', s') \<Longrightarrow> core s' = core s \<and> length b' = length b"
proof (induction b s arbitrary: b' s' rule: FinalizeTimerEffects.induct)
  case (2 e es s)
  obtain e1 s1 where e: "finalize_effect e s = (e1, s1)" by (rule prod.exhaust)
  obtain es1 s2 where es: "FinalizeTimerEffects es s1 = (es1, s2)" by (rule prod.exhaust)
  show ?case using "2.IH"[OF e[symmetric] es] finalize_core[OF e] "2.prems" by (auto simp: e es)
qed simp

subsection \<open>Events of another activation\<close>

definition is_activation :: "PeerEvent \<Rightarrow> bool" where
  "is_activation event = (case event of ActivationRequested _ \<Rightarrow> True | _ \<Rightarrow> False)"

definition current_event :: "PeerEvent \<Rightarrow> PeerRuntime \<Rightarrow> bool" where
  "current_event event s = IsCurrentActivation (pid_activation_generation (GetPeerIdentity event)) s"

lemma stale_event_run:
  assumes "\<not> is_activation event" "\<not> current_event event (rt r)"
  shows "HandleEvent be pf event r = (case event of UdpBindOpened e \<Rightarrow> close_offered e r | _ \<Rightarrow> r)"
  using assms
  by (cases event) (auto simp: is_activation_def current_event_def GetPeerIdentity_def HandleEvent_def Let_def
      handle_deactivation_requested_def handle_network_path_request_started_def handle_network_path_availability_changed_def
      IsCurrentPathRequest_def handle_transport_failure_def handle_endpoint_resolved_def handle_udp_bind_opened_def
      handle_udp_rebind_requested_def HandleEncryptedDatagram_def HandlePendingDatagramCompletion_def handle_inner_packet_staged_def
      handle_inner_packet_batch_staged_def handle_process_outbound_queue_def handle_protocol_timer_expired_def split: option.splits)

lemma co_state_core: "co_state (core s) = li_state (m_lifecycle s)"
  by (simp add: core_def)

subsection \<open>State transitions\<close>

definition lifecycle_step :: "PeerEvent \<Rightarrow> PeerRuntime \<Rightarrow> PeerRuntimeState \<Rightarrow> bool" where
  "lifecycle_step event s st' =
     (let st = li_state (m_lifecycle s) in
      case event of
        ActivationRequested _ \<Rightarrow> st' = (if ValidateConfiguration s = PEC_None then PRS_ResolvingEndpoint else PRS_Error)
      | _ \<Rightarrow>
          if \<not> current_event event s then st' = st
          else (case event of
            DeactivationRequested _ \<Rightarrow> st' = PRS_Inactive
          | UdpBindOpened e \<Rightarrow> st' = st \<or> st' = PRS_Error \<or> st = PRS_ResolvingEndpoint \<and> ubo_purpose e = UBP_Activation \<and> st' = PRS_Handshaking
          | EncryptedDatagramReceived _ \<Rightarrow> st' = st \<or> st' = PRS_Error \<or> st = PRS_Handshaking \<and> st' = PRS_Active
          | NetworkPathRequestStarted _ \<Rightarrow> st' = st
          | NetworkPathAvailabilityChanged _ \<Rightarrow> st' = st
          | UdpRebindRequested _ \<Rightarrow> st' = st
          | EndpointResolved _ \<Rightarrow> st' = st \<or> st = PRS_ResolvingEndpoint \<and> st' = PRS_Error
          | _ \<Rightarrow> st' = st \<or> st' = PRS_Error))"

lemma stays_state: "stays_or_fails r r' \<Longrightarrow> co_state (core (rt r')) \<in> {co_state (core (rt r)), PRS_Error}"
  by (auto simp: stays_or_fails_def fail_core_def)

lemma advances_state:
  "advances_or_fails r r' \<Longrightarrow> co_state (core (rt r')) \<in> {co_state (core (rt r)), PRS_Error} \<or>
   co_state (core (rt r)) = PRS_Handshaking \<and> co_state (core (rt r')) = PRS_Active"
  by (auto simp: advances_or_fails_def fail_core_def active_core_def split: if_splits)

lemma path_state: "co_state (core (rt (handle_network_path_availability_changed e r))) = co_state (core (rt r))"
proof -
  have "co_state (core (rt (handle_udp_rebind_requested e x))) = co_state (core (rt x))" for e and x :: "'a rt_run"
    by (simp add: handle_udp_rebind_requested_def Let_def AllocateSocketGeneration_def co_state_core split: prod.splits)
  then show ?thesis
    by (simp add: handle_network_path_availability_changed_def Let_def request_rebind_def core_append rt_SuspendTransport co_state_core)
qed

lemma resolved_state:
  "co_state (core (rt (handle_endpoint_resolved e r))) = co_state (core (rt r)) \<or>
   co_state (core (rt r)) = PRS_ResolvingEndpoint \<and> co_state (core (rt (handle_endpoint_resolved e r))) = PRS_Error"
proof -
  obtain g g' where "AllocateGeneration (co_next_socket (core (rt r))) = (g, g')" by (rule prod.exhaust)
  from core_resolved[OF this, of e] show ?thesis by (auto simp: fail_core_def)
qed

lemma adopt_lifecycle: "m_lifecycle (rt (adopt_offered e r)) = m_lifecycle (rt r)"
  by (simp add: adopt_offered_def split: option.splits)

lemma error_state: "li_state (m_lifecycle (rt (EnterActivationError st c t r))) = PRS_Error"
  using arg_cong[OF core_error[of st c t r], of co_state] by (simp add: co_state_core fail_core_def)

lemma rebind_opened_state: "co_state (core (rt (udp_rebind_opened be pf e r))) \<in> {co_state (core (rt r)), PRS_Error}"
proof -
  have rec: "li_state (m_lifecycle (rt (RecoverTransport be pf j now x))) \<noteq> PRS_Error \<Longrightarrow>
      li_state (m_lifecycle (rt (RecoverTransport be pf j now x))) = li_state (m_lifecycle (rt x))" for j now x
    using stays_state[OF outbound.run_recover[OF outbound.R_refl]] by (fastforce simp: co_state_core)
  show ?thesis
    by (auto simp: udp_rebind_opened_def Let_def adopt_lifecycle co_state_core dest: rec split: prod.splits)
qed

lemma begin_protocol_state:
  assumes "IsCurrentActivation (pid_activation_generation (ubo_peer e)) (rt r)" "li_state (m_lifecycle (rt r)) = PRS_ResolvingEndpoint"
  shows "li_state (m_lifecycle (rt (begin_protocol be pf e r))) \<in> {PRS_Error, PRS_Handshaking}"
proof -
  have "co_state c \<in> {PRS_Error, PRS_Handshaking}" if "c \<in> {fail_core (d\<lparr>co_instantiated := False\<rparr>),
      fail_core (d\<lparr>co_instantiated := True\<rparr>), d\<lparr>co_state := PRS_Handshaking, co_instantiated := True\<rparr>}" for c d
    using that by (auto simp: fail_core_def)
  from this[OF core_begin_protocol[OF assms(1)]] assms(2) show ?thesis by (simp add: co_state_core)
qed

lemma activation_opened_state:
  "co_state (core (rt (udp_activation_opened be pf e r))) \<in> {co_state (core (rt r)), PRS_Error} \<or>
   co_state (core (rt r)) = PRS_ResolvingEndpoint \<and> co_state (core (rt (udp_activation_opened be pf e r))) = PRS_Handshaking"
  using begin_protocol_state[of e "adopt_offered e r" be pf]
  by (auto simp: udp_activation_opened_def Let_def error_state co_state_core IsCurrentActivation_def adopt_lifecycle)

lemma bind_opened_state:
  "co_state (core (rt (handle_udp_bind_opened be pf e r))) \<in> {co_state (core (rt r)), PRS_Error} \<or>
   co_state (core (rt r)) = PRS_ResolvingEndpoint \<and> ubo_purpose e = UBP_Activation \<and>
   co_state (core (rt (handle_udp_bind_opened be pf e r))) = PRS_Handshaking"
proof -
  let ?r = "on_rt (\<lambda>s. s\<lparr>m_pending_socket_generation := 0\<rparr>) r"
  have "co_state (core (rt ?r)) = co_state (core (rt r))" by (simp add: co_state_core)
  then show ?thesis
    using rebind_opened_state[of be pf e ?r] activation_opened_state[of be pf e ?r]
    by (cases "ubo_purpose e") (auto simp: handle_udp_bind_opened_def Let_def)
qed

lemma event_state: "lifecycle_step event (rt r) (co_state (core (rt (HandleEvent be pf event r))))"
proof (cases "is_activation event \<or> current_event event (rt r)")
  case False
  then show ?thesis
    by (cases event) (auto simp: stale_event_run lifecycle_step_def Let_def is_activation_def co_state_core)
next
  case True
  obtain a a' where a: "AllocateGeneration (co_next_activation (core (rt r))) = (a, a')" by (rule prod.exhaust)
  obtain q q' where q: "AllocateGeneration (co_next_path (core (rt r))) = (q, q')" by (rule prod.exhaust)
  show ?thesis
  proof (cases event)
    case (ActivationRequested e)
    then show ?thesis
      by (simp add: HandleEvent_def lifecycle_step_def Let_def core_activation[OF a q] ValidateConfiguration_core fail_core_def)
  next
    case (DeactivationRequested e)
    then show ?thesis using True
      by (simp add: HandleEvent_def lifecycle_step_def Let_def core_deactivation current_event_def GetPeerIdentity_def is_activation_def)
  next
    case (UdpRebindRequested e)
    then show ?thesis
      by (simp add: HandleEvent_def lifecycle_step_def Let_def handle_udp_rebind_requested_def AllocateSocketGeneration_def
          co_state_core split: prod.splits)
  next
    case (EncryptedDatagramReceived e)
    then show ?thesis using advances_state[OF inbound_core[where r = r and be = be and pf = pf and e = e]] True
      by (auto simp: HandleEvent_def lifecycle_step_def is_activation_def simp flip: co_state_core)
  next
    case (UdpBindOpened e)
    then show ?thesis using bind_opened_state[of be pf e r] True
      by (auto simp: HandleEvent_def lifecycle_step_def is_activation_def simp flip: co_state_core)
  next
    case (EndpointResolved e)
    then show ?thesis using resolved_state[of e r] True
      by (auto simp: HandleEvent_def lifecycle_step_def is_activation_def simp flip: co_state_core)
  next
    case (NetworkPathAvailabilityChanged e)
    then show ?thesis using path_state[of e r] by (simp add: HandleEvent_def lifecycle_step_def Let_def co_state_core)
  next
    case (NetworkPathRequestStarted e)
    then show ?thesis by (simp add: HandleEvent_def lifecycle_step_def Let_def handle_network_path_request_started_def co_state_core)
  qed (use True stays_state[OF outbound_core[where be = be and pf = pf and event = event and r = r, OF refl]] in
      \<open>auto simp: lifecycle_step_def is_activation_def simp flip: co_state_core\<close>)
qed

subsection \<open>Whole events\<close>

lemma Handle_core:
  assumes "Handle be pf event s gw = Some (effects, s', gw')"
  shows "core s' = core (rt (HandleEvent be pf event \<lparr>rt = s, rt_gw = gw, rt_fx = Some []\<rparr>))"
  using assms by (auto simp: Handle_def Let_def split: option.splits prod.splits if_splits dest: finalize_all_core)

inductive reachable :: "crypto_backend \<Rightarrow> 'w platform \<Rightarrow> PeerRuntime \<Rightarrow> bool" for be :: crypto_backend and pf :: "'w platform" where
  initial: "reachable be pf PeerRuntime_init"
| configured: "reachable be pf s \<Longrightarrow> Peer_Configure index config derived now s = Some s' \<Longrightarrow> reachable be pf s'"
| cleared: "reachable be pf s \<Longrightarrow> Peer_ClearConfiguration now s = (socket, s') \<Longrightarrow> reachable be pf s'"
| handled: "reachable be pf s \<Longrightarrow> admissible event s \<Longrightarrow> Handle be pf event s gw = Some (effects, s', gw') \<Longrightarrow> reachable be pf s'"

lemma core_inv_initial: "core_inv (core PeerRuntime_init)"
  by (simp add: core_inv_def core_def PeerRuntime_init_def UdpBinding_init_def PeerRuntimeInfo_init_def transport_state_def)

lemma Binding_ClearEndpoint_socket: "b_socket (Binding_ClearEndpoint b) = b_socket b"
  by (simp add: Binding_ClearEndpoint_def)

lemma core_inv_inactive:
  assumes "core_inv (core s)" "m_next_activation_generation s' = m_next_activation_generation s"
    "m_next_path_request_generation s' = m_next_path_request_generation s" "m_next_socket_generation s' = m_next_socket_generation s"
    "b_socket (m_binding s') = InvalidSocket" "li_state (m_lifecycle s') = PRS_Inactive" "li_activation_generation (m_lifecycle s') = 0"
    "m_path_request_generation s' = 0" "m_pending_socket_generation s' = 0"
  shows "core_inv (core s')"
  using assms by (simp add: core_inv_def core_def transport_state_def)

lemma core_inv_reachable: "reachable be pf s \<Longrightarrow> core_inv (core s)"
proof (induction rule: reachable.induct)
  case (configured s index config derived now s')
  then show ?case
    by (intro core_inv_inactive[of s s'])
      (auto simp: Peer_Configure_def Let_def Deactivate_def ResetLifecycle_def ResetProtocol_def clear_decrypted_packet_def
        Binding_ClearEndpoint_socket split: if_splits)
next
  case (cleared s now socket s')
  then show ?case
    by (intro core_inv_inactive[of s s'])
      (auto simp: Peer_ClearConfiguration_def Let_def Deactivate_def ResetLifecycle_def ResetProtocol_def clear_decrypted_packet_def
        Binding_ClearEndpoint_socket Binding_ReleaseSocket_def)
next
  case (handled s event gw effects s' gw')
  then show ?case using inv_event[of "\<lparr>rt = s, rt_gw = gw, rt_fx = Some []\<rparr>"] by (simp add: Handle_core[OF handled(3)])
qed (rule core_inv_initial)

subsection \<open>A configured peer\<close>

definition example_entry :: PeerConfigEntry where
  "example_entry =
     PeerConfigEntry_init\<lparr>cfg_public_key := replicate 43 (CHR ''B'') @ ''='', cfg_allowed_ips := ''0.0.0.0/0'',
       cfg_endpoint := ''192.0.2.1:51820''\<rparr>"

definition example_configured :: PeerRuntime where
  "example_configured =
     PeerRuntime_init\<lparr>m_config := example_entry, m_derived := PeerConfigDerivedInfo_init\<lparr>di_secrets_valid := True\<rparr>,
       m_controller := CancelAll TimerCoordinator_init\<rparr>"

definition example_activated :: PeerRuntime where
  "example_activated =
     example_configured\<lparr>m_lifecycle := PeerRuntimeInfo_init\<lparr>li_state := PRS_ResolvingEndpoint, li_activation_generation := 1\<rparr>,
       m_next_activation_generation := 2, m_path_request_generation := 1, m_next_path_request_generation := 2,
       m_waiting_for_local_path := True\<rparr>"

lemma example_validates: "ValidateConfiguration example_configured = PEC_None"
proof -
  have "fst (DecodeWireGuardKey (zeros 32) (replicate 43 (CHR ''B'') @ ''=''))" by code_simp
  then show ?thesis
    by (simp add: ValidateConfiguration_def example_configured_def example_entry_def noise_is_valid_encoded_key_def Let_def)
qed

lemma example_configure:
  "Peer_Configure 0 example_entry (PeerConfigDerivedInfo_init\<lparr>di_secrets_valid := True\<rparr>) 0 PeerRuntime_init = Some example_configured"
  by (simp add: Peer_Configure_def Let_def Deactivate_def ResetLifecycle_def ResetProtocol_def clear_decrypted_packet_def
      example_configured_def PeerRuntime_init_def UdpBinding_init_def PeerRuntimeInfo_init_def Binding_ClearEndpoint_def
      DecryptedPacketSlot_init_def wg_device_reset_def example_entry_def PeerConfigEntry_init_def)

lemma example_activation:
  "Handle be pf (ActivationRequested \<lparr>are_peer_index = 0, are_occurred_at = 0\<rparr>) example_configured gw =
     Some ([StartNetworkPathRequestEffect \<lparr>pid_peer_index = 0, pid_activation_generation = 1\<rparr> 1], example_activated, gw)"
proof -
  let ?e = "\<lparr>are_peer_index = 0, are_occurred_at = 0\<rparr>"
  let ?s = "example_configured\<lparr>m_binding := Binding_ClearEndpoint (m_binding example_configured),
      m_pending_datagram := PendingDatagram_init, m_pending_socket_generation := 0\<rparr>"
  have s: "ResetProtocol (clear_decrypted_packet ?s) = example_configured"
    by (simp add: ResetProtocol_def clear_decrypted_packet_def example_configured_def PeerRuntime_init_def UdpBinding_init_def
        Binding_ClearEndpoint_def DecryptedPacketSlot_init_def wg_device_reset_def)
  have "HandleEvent be pf (ActivationRequested ?e) \<lparr>rt = example_configured, rt_gw = gw, rt_fx = Some []\<rparr> =
    \<lparr>rt = example_activated, rt_gw = gw,
     rt_fx = Some [StartNetworkPathRequestEffect \<lparr>pid_peer_index = 0, pid_activation_generation = 1\<rparr> 1]\<rparr>"
    by (simp add: HandleEvent_def handle_activation_requested_def example_validates Let_def s BeginActivation_def)
      (simp add: AllocateGeneration_def ResetLifecycle_def example_activated_def add_fx_def Effects_Add_def TryAdd_def
        example_configured_def PeerRuntime_init_def example_entry_def PeerConfigEntry_init_def PeerRuntimeInfo_init_def)
  then show ?thesis by (simp add: Handle_def finalize_effect_def GetEventEffectBudget_def)
qed

subsection \<open>Properties\<close>

text \<open>C6: Every reachable peer is in a consistent state. A peer with an open socket is handshaking or active;
  a peer in such a state has a protocol instance and its binding is open exactly when it is not suspended;
  a peer that is resolving, handshaking or active has a configuration that validates, a nonzero activation
  generation and a nonzero path request; an inactive peer has none of these and waits for no socket. The
  one condition on the events is that a peer is not activated again while it is handshaking or active.\<close>

theorem reachable_peer_consistent:
  assumes "reachable be pf s"
  shows "(Binding_IsOpen (m_binding s) \<longrightarrow> IsInTransportState s) \<and>
    (IsInTransportState s \<longrightarrow> pr_instantiated (m_protocol s) \<and> (Binding_IsOpen (m_binding s) \<longleftrightarrow> \<not> b_suspended (m_binding s))) \<and>
    (li_state (m_lifecycle s) \<in> {PRS_ResolvingEndpoint, PRS_Handshaking, PRS_Active} \<longrightarrow>
       ValidateConfiguration s = PEC_None \<and> li_activation_generation (m_lifecycle s) \<noteq> 0 \<and> m_path_request_generation s \<noteq> 0) \<and>
    (li_state (m_lifecycle s) = PRS_Inactive \<longrightarrow>
       li_activation_generation (m_lifecycle s) = 0 \<and> m_path_request_generation s = 0 \<and> m_pending_socket_generation s = 0)"
proof -
  have i: "core_inv (core s)" by (rule core_inv_reachable[OF assms])
  have "IsInTransportState s \<longleftrightarrow> transport_state (li_state (m_lifecycle s))" by (simp add: IsInTransportState_core co_state_core)
  moreover have "ValidateConfiguration s = PEC_None \<longleftrightarrow> config_ok (core s)" by (rule ValidateConfiguration_core)
  ultimately show ?thesis
    using i by (auto simp: core_inv_def core_def transport_state_def Binding_IsOpen_def)
qed

theorem reachable_peer_consistent_witness:
  "reachable example_backend example_platform example_activated \<and> li_state (m_lifecycle example_activated) = PRS_ResolvingEndpoint \<and>
   ValidateConfiguration example_activated = PEC_None \<and> li_activation_generation (m_lifecycle example_activated) = 1"
proof -
  have c: "reachable example_backend example_platform example_configured"
    by (rule reachable.configured[OF reachable.initial example_configure])
  have r: "reachable example_backend example_platform example_activated"
    by (rule reachable.handled[OF c _ example_activation[of _ _ "(1, 0)"]])
      (simp add: admissible_def IsInTransportState_def example_configured_def PeerRuntime_init_def PeerRuntimeInfo_init_def)
  show ?thesis using reachable_peer_consistent[OF r] r by (simp add: example_activated_def)
qed

text \<open>C7: The lifecycle of a peer is the state machine of \<open>lifecycle_step\<close>: an activation request always leads
  to resolving the endpoint or, with a configuration that does not validate, to the error state; events of
  another activation leave the state alone; a deactivation leads to the inactive state; only the socket
  opened for an activation leads from resolving to handshaking and only a received datagram from
  handshaking to active; the path and rebind events change no state; every other change is to the error
  state.\<close>

theorem lifecycle_transitions:
  assumes "Handle be pf event s gw = Some (effects, s', gw')"
  shows "lifecycle_step event s (li_state (m_lifecycle s'))"
  using event_state[of event "\<lparr>rt = s, rt_gw = gw, rt_fx = Some []\<rparr>" be pf]
  by (simp add: Handle_core[OF assms, symmetric] co_state_core[symmetric])

theorem lifecycle_transitions_witness:
  "lifecycle_step (ActivationRequested \<lparr>are_peer_index = 0, are_occurred_at = 0\<rparr>) example_configured PRS_ResolvingEndpoint"
  using lifecycle_transitions[OF example_activation[of example_backend example_platform "(1, 0)"]]
  by (simp add: example_activated_def)

text \<open>C8: An event of an activation that is over, or was never begun, has no effect: the peer, the index
  counter and the platform stay as they are and no effect is requested, but for the close of the
  socket that a late open of a binding brings.\<close>

theorem stale_event_ignored:
  assumes "\<not> is_activation event" "\<not> current_event event s"
  shows "Handle be pf event s gw =
    Some (case event of UdpBindOpened e \<Rightarrow>
            if ubo_socket e \<noteq> InvalidSocket then [CloseUdpSocketEffect (m_path_request_generation s) (ubo_socket e)] else []
          | _ \<Rightarrow> [], s, gw)"
  using stale_event_run[of event "\<lparr>rt = s, rt_gw = gw, rt_fx = Some []\<rparr>" be pf] assms
  by (cases event) (simp_all add: Handle_def close_offered_def add_fx_def Effects_Add_def TryAdd_def finalize_effect_def
      GetEventEffectBudget_def)

theorem stale_event_ignored_witness:
  "Handle example_backend example_platform
     (DeactivationRequested \<lparr>dre_peer = \<lparr>pid_peer_index = 0, pid_activation_generation = 2\<rparr>, dre_occurred_at = 9\<rparr>)
     example_activated (1, 0) = Some ([], example_activated, 1, 0)"
  by (subst stale_event_ignored)
    (simp_all add: is_activation_def current_event_def GetPeerIdentity_def IsCurrentActivation_def IsCurrentGeneration_def
      example_activated_def)

end
