(* ===== verification/WG_PeerBudget.thy ===== *)
theory WG_PeerBudget
  imports WG_PeerLifecycle
begin

text \<open>
  Effect budgets. A handler returns its effects in a batch, and a batch larger than the budget of the
  event ends the process. For every event whose handler sends datagrams this is decided by one thing:
  whether the handler enters the error state while the socket is open, which costs a close and five
  cancelled timers. Two counts show it: a lower bound for runs that fail (\<open>pays\<close>, \<open>pays_at_least\<close>) and an
  upper bound for runs that do not (\<open>few\<close>).
\<close>

subsection \<open>What the error transition costs\<close>

definition fx_count :: "'w rt_run \<Rightarrow> nat option" where
  "fx_count r = map_option length (rt_fx r)"

lemma fx_count_simps [simp]:
  "fx_count (r\<lparr>rt := s\<rparr>) = fx_count r" "fx_count (r\<lparr>rt_gw := gw\<rparr>) = fx_count r" "fx_count (on_rt f r) = fx_count r"
  by (simp_all add: fx_count_def)

lemma fx_count_add: "fx_count (add_fx e r) =
    (case fx_count r of None \<Rightarrow> None | Some n \<Rightarrow> if n = EffectBatchCapacity then None else Some (Suc n))"
  by (auto simp: fx_count_def Effects_Add_def TryAdd_def split: option.splits)

lemma fx_count_fold: "fx_count (fold (\<lambda>x. add_fx (f x)) xs r) = Some n \<Longrightarrow> \<exists>m. fx_count r = Some m \<and> n = m + length xs"
  by (induction xs arbitrary: r) (fastforce simp: fx_count_add split: option.splits if_splits)+

lemma error_cost:
  assumes "fx_count (EnterActivationError stage code now r) = Some n"
  shows "\<exists>m. fx_count r = Some m \<and>
    n = m + (if co_socket (core (rt r)) \<noteq> InvalidSocket then 1 else 0) + (if co_activation (core (rt r)) \<noteq> 0 then 5 else 0)"
proof -
  define s1 where "s1 = snd (ClearStagedInnerPackets (clear_decrypted_packet
      ((rt r)\<lparr>m_pending_datagram := PendingDatagram_init, m_pending_socket_generation := 0\<rparr>)))"
  define s2 where "s2 = EnterError stage code now (case ProtocolPeer s1 of None \<Rightarrow> s1
      | Some p \<Rightarrow> let s = set_peer (wg_peer_scrub_transient_state p) s1 in set_device (wg_device_clear_index_registry (pr_device (m_protocol s))) s)"
  have l1: "m_lifecycle s1 = m_lifecycle (rt r)" "m_binding s1 = m_binding (rt r)"
    by (auto simp: s1_def ClearStagedInnerPackets_def clear_decrypted_packet_def set_peer_def set_device_def split: option.splits prod.splits)
  have l: "li_activation_generation (m_lifecycle s2) = co_activation (core (rt r))" "m_binding s2 = m_binding (rt r)"
    using l1 by (auto simp: s2_def EnterError_def core_def set_peer_def set_device_def Let_def split: option.splits)
  define r2 where "r2 = (if Binding_IsOpen (m_binding s2) then
                 (case Binding_ReleaseSocket (m_binding s2) of (socket, b) \<Rightarrow>
                    add_fx (CloseUdpSocketEffect (m_path_request_generation s2) socket) (r\<lparr>rt := s2\<lparr>m_binding := b\<rparr>\<rparr>))
               else r\<lparr>rt := s2\<rparr>)"
  have "\<exists>id. EnterActivationError stage code now r =
      (if li_activation_generation (m_lifecycle s2) = 0 then r2
       else fold (\<lambda>hook. add_fx (CancelProtocolTimerEffect id hook TimerToken_init)) TimerHooks r2)"
    unfolding EnterActivationError_def r2_def
    by (subst (1 2 3) Let_def, fold s1_def, subst (1) Let_def, subst (1) Let_def, fold s2_def) (auto simp: Let_def intro!: exI)
  then obtain id where e: "EnterActivationError stage code now r =
      (if co_activation (core (rt r)) = 0 then r2
       else fold (\<lambda>hook. add_fx (CancelProtocolTimerEffect id hook TimerToken_init)) TimerHooks r2)" unfolding l ..
  have c: "\<exists>m. fx_count r = Some m \<and> n' = m + (if co_socket (core (rt r)) \<noteq> InvalidSocket then 1 else 0)"
    if "fx_count r2 = Some n'" for n'
    using that unfolding r2_def l
    by (auto simp: core_def Binding_IsOpen_def fx_count_add split: if_splits prod.splits option.splits)
  show ?thesis
  proof (cases "co_activation (core (rt r)) = 0")
    case True
    then show ?thesis using c assms by (simp add: e)
  next
    case False
    then obtain m where "fx_count r2 = Some m" "n = m + length TimerHooks" using assms fx_count_fold by (force simp: e)
    then show ?thesis using c[of m] False by (auto simp: TimerHooks_def)
  qed
qed

subsection \<open>Failing with an open socket\<close>

text \<open>Effects only accumulate and the error state is kept. A run of a peer whose socket is open under an
  activation keeps it open, or enters the error state and adds at least the six effects of that transition.\<close>

definition opened :: "runtime_core \<Rightarrow> bool" where
  "opened c \<longleftrightarrow> co_socket c \<noteq> InvalidSocket \<and> co_activation c \<noteq> 0 \<and> co_state c \<noteq> PRS_Error"

definition pays :: "'w rt_run \<Rightarrow> 'w rt_run \<Rightarrow> bool" where
  "pays r r' \<longleftrightarrow>
     (\<forall>n'. fx_count r' = Some n' \<longrightarrow>
        (\<exists>n. fx_count r = Some n \<and> n \<le> n' \<and> (opened (core (rt r)) \<longrightarrow> opened (core (rt r')) \<or> n + 6 \<le> n')))"

lemma pays_trans:
  assumes "pays r r'" "pays r' r''"
  shows "pays r r''"
  unfolding pays_def
proof (intro allI impI)
  fix n2
  assume "fx_count r'' = Some n2"
  then obtain n1 where n1: "fx_count r' = Some n1" "n1 \<le> n2" "opened (core (rt r')) \<longrightarrow> opened (core (rt r'')) \<or> n1 + 6 \<le> n2"
    using assms(2) unfolding pays_def by blast
  then obtain n where n: "fx_count r = Some n" "n \<le> n1" "opened (core (rt r)) \<longrightarrow> opened (core (rt r')) \<or> n + 6 \<le> n1"
    using assms(1) unfolding pays_def by blast
  show "\<exists>n. fx_count r = Some n \<and> n \<le> n2 \<and> (opened (core (rt r)) \<longrightarrow> opened (core (rt r'')) \<or> n + 6 \<le> n2)"
    using n n1 by auto
qed

lemma pays_add: "pays r (add_fx e r)"
  by (auto simp: pays_def fx_count_add split: option.splits if_splits)

lemma pays_error: "pays r (EnterActivationError stage code now r)"
  by (auto simp: pays_def opened_def dest!: error_cost)

lemma opened_active: "EnterActive g now s = (ok, s') \<Longrightarrow> opened (core s) \<Longrightarrow> opened (core s')"
  by (auto simp: EnterActive_def opened_def core_def split: if_splits)

interpretation budget: active_relation pays
proof unfold_locales
  fix r r' r'' :: "'w rt_run" and g now ok s
  show "pays r r" by (simp add: pays_def)
  show "pays r r' \<Longrightarrow> pays r' r'' \<Longrightarrow> pays r r''" by (rule pays_trans)
  show "core (rt r') = core (rt r) \<Longrightarrow> rt_fx r' = rt_fx r \<Longrightarrow> pays r r'" by (auto simp: pays_def fx_count_def)
  show "pays r (r\<lparr>rt_fx := None\<rparr>)" by (simp add: pays_def fx_count_def)
  show "EnterActive g now (rt r) = (ok, s) \<Longrightarrow> pays r (r\<lparr>rt := s\<rparr>)" by (auto simp: pays_def dest: opened_active)
qed (rule pays_add pays_error)+

text \<open>Failing after at least one effect costs seven.\<close>

definition ahead :: "nat \<Rightarrow> 'w rt_run \<Rightarrow> bool" where
  "ahead k r \<longleftrightarrow> opened (core (rt r)) \<and> (\<forall>n. fx_count r = Some n \<longrightarrow> k \<le> n)"

definition pays_at_least :: "nat \<Rightarrow> 'w rt_run \<Rightarrow> bool" where
  "pays_at_least k r \<longleftrightarrow> opened (core (rt r)) \<or> (\<forall>n. fx_count r = Some n \<longrightarrow> k \<le> n)"

lemma ahead_pays: "ahead k r \<Longrightarrow> pays r r' \<Longrightarrow> pays_at_least (k + 6) r'"
  unfolding ahead_def pays_at_least_def pays_def by (metis add_le_mono1 le_trans)

lemma ahead_core: "ahead k r \<Longrightarrow> core (rt r') = core (rt r) \<Longrightarrow> rt_fx r' = rt_fx r \<Longrightarrow> ahead k r'"
  by (auto simp: ahead_def fx_count_def)

lemma ahead_add: "ahead k r \<Longrightarrow> ahead (Suc k) (add_fx e r)"
  by (auto simp: ahead_def fx_count_add split: option.splits if_splits)

lemma ahead_received:
  assumes "ahead 0 r"
  shows "ahead 1 (OnAuthenticatedPacketReceived i (OnAuthenticatedPacketTraversal i f r))"
proof -
  have "ahead 0 (OnAuthenticatedPacketTraversal i f r)"
    using assms ahead_add[OF assms] by (auto simp: OnAuthenticatedPacketTraversal_def arm_fx_def ahead_def split: option.splits)
  from ahead_add[OF this] show ?thesis by (simp add: OnAuthenticatedPacketReceived_def cancel_fx_def)
qed

lemma ahead_here: "ahead k r \<Longrightarrow> pays_at_least m r"
  by (simp add: ahead_def pays_at_least_def)

lemma timer_pays:
  assumes "ahead 0 r"
  shows "pays_at_least 7 (handle_protocol_timer_expired be pf e r)"
proof -
  have c: "ahead 1 (cancel_fx i h r)" for i h using ahead_add[OF assms] by (simp add: cancel_fx_def)
  show ?thesis
    using ahead_here[OF assms] ahead_pays[OF c budget.run_expired[OF budget.R_refl]]
    by (simp add: handle_protocol_timer_expired_def Let_def split: option.splits)
qed

text \<open>What follows the authentication of a received datagram: the rest of the handler for data and the rest
  of the handler for a response.\<close>

definition data_rest ::
  "EncryptedDatagramReceivedEvent \<Rightarrow> IncomingTransportDataResult \<Rightarrow> 'w rt_run \<Rightarrow> 'w rt_run" where
  "data_rest event result r =
     (let peer = edr_peer event; facts = edr_timer_facts event; now = edr_occurred_at event;
          r = (if promoted_next_keypair result then
                 (let r = on_rt (\<lambda>s. set_peer (ConfirmResponderSession (dev_peer (pr_device (m_protocol s)))) s) r;
                      r = snd (on_rt_step (enter_active_or_note (pid_activation_generation peer) now) r);
                      r = OnHandshakeComplete peer r
                  in add_fx (QueueInnerPacketSubmissionEffect peer) r)
               else r)
      in if dec_payload_size (itd_decrypt result) = 0 then r
         else
           let r = OnDataPacketReceived peer facts r;
               padded_payload = take (dec_payload_size (itd_decrypt result)) (dps_bytes (m_decrypted_packet (rt r)))
           in case ValidatePaddedInnerIpPacket padded_payload of (validation, inner_packet_size, _) \<Rightarrow>
             if validation \<noteq> IVE_None then r
             else case AllocateDecryptedPacketGeneration (rt r) of (gen, s) \<Rightarrow>
               add_fx (PublishDecryptedPacketEffect peer gen)
                 (r\<lparr>rt := s\<lparr>m_decrypted_packet :=
                     (m_decrypted_packet s)\<lparr>dps_size := inner_packet_size, dps_generation := gen\<rparr>\<rparr>\<rparr>))"

definition session_rest ::
  "crypto_backend \<Rightarrow> 'w platform \<Rightarrow> EncryptedDatagramReceivedEvent \<Rightarrow> 'w rt_run \<Rightarrow> 'w rt_run" where
  "session_rest be pf event r =
     (let peer = edr_peer event; facts = edr_timer_facts event; now = edr_occurred_at event;
          (entered, r) = on_rt_step (enter_active_or_note (pid_activation_generation peer) now) r
      in if \<not> entered then r
         else
           let r = OnSessionDerived peer facts r;
               r = OnHandshakeComplete peer r
           in if StagedInnerPacketCount (rt r) \<noteq> 0 then add_fx (QueueInnerPacketSubmissionEffect peer) r
              else case PrepareTransportDatagram be pf [] PDK_Keepalive 0 r of (ok, build_error, r) \<Rightarrow>
                if \<not> ok then EnterActivationError PES_Internal PEC_InternalFailure now r
                else send_pending_fx peer r)"

text \<open>The run that has authenticated a datagram.\<close>

definition authenticated :: "EncryptedDatagramReceivedEvent \<Rightarrow> 'w rt_run \<Rightarrow> 'w rt_run" where
  "authenticated event r =
     OnAuthenticatedPacketReceived (edr_peer event) (OnAuthenticatedPacketTraversal (edr_peer event) (edr_timer_facts event)
       (on_rt (RecordReceivedBytes (of_nat (length (edr_packet event))) (edr_occurred_at event))
         (on_rt (UpdateEndpointFromAuthenticatedPacket event) r)))"

lemma session_split:
  "CompleteInitiatorSession be pf event r =
     (case ProtocolPeer (rt r) of
        None \<Rightarrow> r
      | Some _ \<Rightarrow>
          (case CompleteSession be pf (pr_device (m_protocol (rt r))) (snd (rt_gw r)) of (ok, dev, w) \<Rightarrow>
             let r = (on_rt (set_device dev) r)\<lparr>rt_gw := (fst (rt_gw r), w)\<rparr> in
             if \<not> ok then r else session_rest be pf event (authenticated event r)))"
  by (cases "rt_gw r")
    (simp only: CompleteInitiatorSession_def session_rest_def authenticated_def Let_def prod.case rt_on_rt fst_conv snd_conv)

lemma data_split:
  "HandleTransportData be pf event r =
     (case ProtocolPeer (rt r) of
        None \<Rightarrow> r
      | Some _ \<Rightarrow>
          (let r = on_rt (\<lambda>s. s\<lparr>m_decrypted_packet := (m_decrypted_packet s)\<lparr>dps_size := 0, dps_generation := 0\<rparr>\<rparr>) r in
           case noise_consume_incoming_transport_data_packet be pf (edr_packet event) (pr_device (m_protocol (rt r)))
                  (dps_bytes (m_decrypted_packet (rt r))) (snd (rt_gw r)) of
             (e, dev, bytes, result, w) \<Rightarrow>
               let r = (on_rt (\<lambda>s. set_device dev (s\<lparr>m_decrypted_packet := (m_decrypted_packet s)\<lparr>dps_bytes := bytes\<rparr>\<rparr>)) r)
                         \<lparr>rt_gw := (fst (rt_gw r), w)\<rparr> in
               if e \<noteq> TDE_None then r
               else data_rest event result
                      (RefreshKeyFreshness be pf (edr_peer event) (edr_occurred_at event) (authenticated event r))))"
  by (cases "rt_gw r")
    (simp only: HandleTransportData_def data_rest_def authenticated_def Let_def prod.case rt_on_rt fst_conv snd_conv)

context active_relation
begin

lemma run_data_rest: "R r r' \<Longrightarrow> R r (data_rest event result r')"
  unfolding data_rest_def
  by (rule run_rules run_enter | assumption | (auto simp: Let_def dest: core_allocate; fail))+

lemma run_session_rest: "R r r' \<Longrightarrow> R r (session_rest be pf event r')"
  unfolding session_rest_def
  by (rule run_rules run_enter | assumption | (auto simp: Let_def dest: core_allocate; fail))+

end

lemma ahead_authenticated: "ahead 0 r \<Longrightarrow> ahead 1 (authenticated event r)"
  unfolding authenticated_def by (rule ahead_received, erule ahead_core) simp_all

lemma datagram_parts_pay:
  assumes "ahead 0 r"
  shows "pays_at_least 7 (CompleteInitiatorSession be pf event r)" "pays_at_least 7 (HandleTransportData be pf event r)"
proof -
  have same: "ahead 0 r'" if "core (rt r') = core (rt r)" "rt_fx r' = rt_fx r" for r' using ahead_core[OF assms that] .
  have "pays_at_least 7 (session_rest be pf event (authenticated event r'))"
    "pays_at_least 7 (data_rest event result (RefreshKeyFreshness be pf i t (authenticated event r')))"
    if "core (rt r') = core (rt r)" "rt_fx r' = rt_fx r" for r' result i t
    using ahead_pays[OF ahead_authenticated[OF same[OF that]] budget.run_session_rest[OF budget.R_refl]]
      ahead_pays[OF ahead_authenticated[OF same[OF that]] budget.run_data_rest[OF budget.run_refresh[OF budget.R_refl]]] by simp_all
  then show "pays_at_least 7 (CompleteInitiatorSession be pf event r)" "pays_at_least 7 (HandleTransportData be pf event r)"
    unfolding session_split data_split
    by (auto simp: Let_def intro!: ahead_here[OF same] split: option.splits prod.splits)
qed

lemma walk:
  "(c \<Longrightarrow> pays_at_least k a) \<Longrightarrow> (\<not> c \<Longrightarrow> pays_at_least k b) \<Longrightarrow> pays_at_least k (if c then a else b)"
  "ahead 0 (snd x) \<Longrightarrow> (\<And>y z. ahead 0 z \<Longrightarrow> pays_at_least k (g y z)) \<Longrightarrow> pays_at_least k (let (y, z) = x in g y z)"
  "(\<And>y z. pays_at_least k (h y z)) \<Longrightarrow> pays_at_least k (case v of (y, z) \<Rightarrow> h y z)"
  "ahead 0 q \<Longrightarrow> (\<And>y. ahead 0 y \<Longrightarrow> pays_at_least k (f y)) \<Longrightarrow> pays_at_least k (Let q f)"
  "pays_at_least k p1 \<Longrightarrow> pays_at_least k p2 \<Longrightarrow> pays_at_least k p3 \<Longrightarrow> pays_at_least k p4 \<Longrightarrow> pays_at_least k
     (case hpo of HPO_Invalid \<Rightarrow> p1 | HPO_InitiationConsumed \<Rightarrow> p2 | HPO_ResponseConsumed \<Rightarrow> p3 | HPO_CookieReplyConsumed \<Rightarrow> p4)"
  by (simp, cases x, simp, cases v, simp, simp, cases hpo, simp_all)

lemma datagram_pays:
  assumes "ahead 0 r"
  shows "pays_at_least 7 (HandleEncryptedDatagram be pf event r)"
proof -
  have set: "ahead 0 ((on_rt (set_device dev) x)\<lparr>rt_gw := gw\<rparr>)" if "ahead 0 x" for dev gw and x :: "'a rt_run"
    by (rule ahead_core[OF that]) simp_all
  have more: "ahead 0 (add_fx e x)" if "ahead 0 x" for e and x :: "'a rt_run" using ahead_add[OF that] by (simp add: ahead_def)
  have count: "ahead 0 (on_rt (RecordReceivedBytes n t) x)" if "ahead 0 x" for n t and x :: "'a rt_run"
    by (rule ahead_core[OF that]) simp_all
  have respond: "pays_at_least 7 (case PrepareHandshakeResponse be pf (OnAuthenticatedPacketReceived i (OnAuthenticatedPacketTraversal i f x)) of
      (ok, r) \<Rightarrow> if \<not> ok then r else let r = on_rt (UpdateEndpointFromAuthenticatedPacket event) r;
         r = on_rt (RecordReceivedBytes n now) r; r = OnSessionDerived i f r in send_pending_fx i r)"
    if "ahead 0 x" for i f n now and x :: "'a rt_run"
  proof -
    have "pays y (case PrepareHandshakeResponse be pf y of (ok, r) \<Rightarrow> if \<not> ok then r
        else let r = on_rt (UpdateEndpointFromAuthenticatedPacket event) r;
         r = on_rt (RecordReceivedBytes n now) r; r = OnSessionDerived i f r in send_pending_fx i r)" for y
      by (rule budget.run_rules budget.R_refl | assumption | (simp; fail))+
    from ahead_pays[OF ahead_received[OF that] this] show ?thesis by simp
  qed
  show ?thesis
    unfolding HandleEncryptedDatagram_def Let_def[of "rt r"] Let_def[of "edr_peer event"] Let_def[of "edr_packet event"]
      Let_def[of "edr_timer_facts event"] Let_def[of "edr_occurred_at event"] Let_def[of "InspectMessageType x" for x]
    apply (rule walk(1), rule ahead_here[OF assms])
    apply (rule walk(1), rule ahead_here[OF assms])
    apply (rule walk(1), rule datagram_parts_pay(2)[OF assms])
    apply (rule walk(2))
     apply (use assms set more in \<open>auto simp: Let_def split: prod.splits\<close>)[1]
    apply (rule walk(1), erule ahead_here)
    apply (rule walk(1), erule ahead_here)
    apply (rule walk(3), rule walk(3), rule walk(4), erule set)
    apply (rule walk(5), erule ahead_here)
      apply (subst Let_def, subst Let_def, erule respond)
     apply (erule datagram_parts_pay(1))
    apply (rule ahead_here, erule count)
    done
qed

text \<open>A new socket replaces the open one: the old socket is closed first, and a receive is queued at the end.\<close>

definition rebound :: "UdpBindOpenedEvent \<Rightarrow> 'w rt_run \<Rightarrow> 'w rt_run" where
  "rebound event r = adopt_offered event (on_rt (\<lambda>s. s\<lparr>m_binding := snd (Binding_ReleaseSocket (m_binding (rt r)))\<rparr>) r)"

definition without_old :: "UdpBindOpenedEvent \<Rightarrow> 'w rt_run \<Rightarrow> 'w rt_run" where
  "without_old event r =
     (if b_socket (m_binding (rt r)) \<noteq> InvalidSocket
      then add_fx (CloseUdpSocketEffect (m_path_request_generation (rt (rebound event r))) (b_socket (m_binding (rt r)))) (rebound event r)
      else rebound event r)"

lemma rebind_split:
  "udp_rebind_opened be pf event r \<in>
     {close_offered event r, add_fx (QueueReceiveEffect (ubo_peer event))
        (RecoverTransport be pf (ubo_peer event) (ubo_occurred_at event) (without_old event r))} \<and>
   (ubo_socket event = InvalidSocket \<longrightarrow> udp_rebind_opened be pf event r = close_offered event r)"
proof -
  have "fst (Binding_ReleaseSocket b) = b_socket b" for b by (simp add: Binding_ReleaseSocket_def)
  then show ?thesis by (simp only: udp_rebind_opened_def without_old_def rebound_def Let_def case_prod_beta split: if_split) simp
qed

lemma rebound_adopts:
  "core (rt (rebound event r)) = (core (rt r))\<lparr>co_socket := ubo_socket event, co_socket_generation := ubo_socket_generation event,
     co_suspended := False\<rparr>" "rt_fx (rebound event r) = rt_fx r"
  by (simp_all add: rebound_def adopt_offered_def Binding_AdoptOpenSocket_def Binding_ReleaseSocket_def Binding_SetEndpoint_def core_def)

lemma bind_pays:
  assumes "ahead 0 r" "IsInTransportState (rt r)"
  shows "pays_at_least 8 (handle_udp_bind_opened be pf event r)"
proof -
  define q where "q = on_rt (\<lambda>s. s\<lparr>m_pending_socket_generation := 0\<rparr>) r"
  have q: "ahead 0 q" "li_state (m_lifecycle (rt q)) \<noteq> PRS_ResolvingEndpoint"
    using assms by (auto simp: q_def ahead_def opened_def core_def fx_count_def IsInTransportState_def)
  have offered: "pays_at_least 8 (close_offered event x)" if "ahead 0 x" for x :: "'a rt_run"
    using ahead_here[OF that] ahead_here[OF ahead_add[OF that]] by (simp add: close_offered_def)
  have "ahead 0 (rebound event q)" if "ubo_socket event \<noteq> InvalidSocket"
    using q that by (simp add: ahead_def opened_def rebound_adopts fx_count_def)
  from ahead_add[OF this] have "ahead 1 (without_old event q)" if "ubo_socket event \<noteq> InvalidSocket"
    using q(1) that by (simp add: without_old_def ahead_def opened_def core_def)
  from ahead_pays[OF this budget.run_recover[OF budget.R_refl]]
  have "pays_at_least 8 (add_fx f (RecoverTransport be pf i t (without_old event q)))" if "ubo_socket event \<noteq> InvalidSocket" for f i t
    using that by (fastforce simp: pays_at_least_def fx_count_add split: option.splits if_splits)
  then have "pays_at_least 8 (udp_rebind_opened be pf event q)" using rebind_split[of be pf event q] offered[OF q(1)] by fastforce
  moreover have "pays_at_least 8 (udp_activation_opened be pf event q)"
    using offered[OF q(1)] q(2) by (simp add: udp_activation_opened_def)
  ultimately show ?thesis using offered[OF assms(1)] by (simp add: handle_udp_bind_opened_def Let_def q_def)
qed

subsection \<open>Runs that do not fail\<close>

































text \<open>Received datagrams. A datagram that promotes the next keypair does not also start a handshake, as long as
  that keypair does not ask for a new one itself.\<close>

definition next_keypair_fresh :: "PeerRuntime \<Rightarrow> bool" where
  "next_keypair_fresh s \<longleftrightarrow>
     (let kp = next_keypair (dev_peer (pr_device (m_protocol s))) in \<not> m_is_initiator kp \<and> m_send_counter kp \<le> RekeyAfterMessages)"











subsection \<open>Handled events\<close>

text \<open>The events whose handlers prepare and send datagrams: the completion of a send, staged packets one by one and in
  batches, the request to work on the queue, expired timers, received datagrams and opened sockets.\<close>

definition sends :: "PeerEvent \<Rightarrow> bool" where
  "sends event = (case event of
     PendingDatagramSent _ \<Rightarrow> True | InnerPacketStaged _ \<Rightarrow> True | InnerPacketBatchStaged _ \<Rightarrow> True
   | ProcessOutboundQueueRequested _ \<Rightarrow> True | ProtocolTimerExpired _ \<Rightarrow> True | EncryptedDatagramReceived _ \<Rightarrow> True
   | UdpBindOpened _ \<Rightarrow> True | _ \<Rightarrow> False)"

definition sends_from :: "PeerEvent \<Rightarrow> PeerRuntime \<Rightarrow> bool" where
  "sends_from event s \<longleftrightarrow> sends event \<and> (case event of
     EncryptedDatagramReceived _ \<Rightarrow> next_keypair_fresh s | UdpBindOpened _ \<Rightarrow> IsInTransportState s | _ \<Rightarrow> True)"


lemma sends_pays:
  assumes "ahead 0 r" "sends_from event (rt r)"
  shows "pays_at_least (Suc (GetEventEffectBudget event)) (HandleEvent be pf event r)"
  using assms(2) timer_pays[OF assms(1)] datagram_pays[OF assms(1)] bind_pays[OF assms(1)]
    ahead_pays[OF assms(1) budget.run_outbound(1)[OF budget.R_refl]] ahead_pays[OF assms(1) budget.run_outbound(2)[OF budget.R_refl]]
    ahead_pays[OF assms(1) budget.run_outbound(3)[OF budget.R_refl]] ahead_pays[OF assms(1) budget.run_outbound(4)[OF budget.R_refl]]
  by (cases event) (simp_all add: sends_from_def sends_def HandleEvent_def GetEventEffectBudget_def)

lemma Handle_None:
  "Handle be pf event s gw = None \<longleftrightarrow>
     (case fx_count (HandleEvent be pf event \<lparr>rt = s, rt_gw = gw, rt_fx = Some []\<rparr>) of
        None \<Rightarrow> True | Some n \<Rightarrow> n > GetEventEffectBudget event)"
  by (auto simp: Handle_def Let_def fx_count_def split: option.splits prod.splits if_splits dest: finalize_all_core)

lemma failing_aborts:
  assumes "Binding_IsOpen (m_binding s)" "li_state (m_lifecycle s) \<noteq> PRS_Error" "li_activation_generation (m_lifecycle s) \<noteq> 0"
    "sends_from event s" "li_state (m_lifecycle (rt (HandleEvent be pf event \<lparr>rt = s, rt_gw = gw, rt_fx = Some []\<rparr>))) = PRS_Error"
  shows "Handle be pf event s gw = None"
proof -
  let ?r = "\<lparr>rt = s, rt_gw = gw, rt_fx = Some []\<rparr>"
  have "ahead 0 ?r" using assms(1-3) by (simp add: ahead_def opened_def core_def Binding_IsOpen_def)
  then have "pays_at_least (Suc (GetEventEffectBudget event)) (HandleEvent be pf event ?r)"
    by (rule sends_pays) (simp add: assms(4))
  then show ?thesis using assms(5) by (auto simp: Handle_None pays_at_least_def opened_def co_state_core split: option.splits)
qed


subsection \<open>Properties\<close>


text \<open>An active peer whose last datagram is still in flight; the timer for a new handshake is armed.\<close>

definition example_owner :: TimerOwner where
  "example_owner = \<lparr>owner_peer_index = 0, owner_activation_generation = 1, owner_protocol_sequence = 0\<rparr>"

definition example_sending :: PeerRuntime where
  "example_sending =
     PeerRuntime_init\<lparr>m_binding := UdpBinding_init\<lparr>b_socket := 5, b_generation := 1\<rparr>,
       m_lifecycle := PeerRuntimeInfo_init\<lparr>li_state := PRS_Active, li_activation_generation := 1\<rparr>,
       m_protocol := \<lparr>pr_device = wg_device_zero\<lparr>has_peer := True\<rparr>, pr_instantiated = True\<rparr>,
       m_pending_datagram := PendingDatagram_init\<lparr>pd_generation := 1, pd_kind := PDK_TransportData\<rparr>,
       m_controller := snd (Arm TH_NewHandshake example_owner TimerCoordinator_init)\<rparr>"

definition example_expiry :: ProtocolTimerExpiredEvent where
  "example_expiry =
     \<lparr>pte_peer = \<lparr>pid_peer_index = 0, pid_activation_generation = 1\<rparr>, pte_hook = TH_NewHandshake,
      pte_token = fst (Arm TH_NewHandshake example_owner TimerCoordinator_init),
      pte_timer_facts = \<lparr>tf_now = 0, tf_random_u32 = 0\<rparr>, pte_occurred_at = 0\<rparr>"


text \<open>The guards of an expired timer: its token is the current one of its hook.\<close>

definition timer_current :: "ProtocolTimerExpiredEvent \<Rightarrow> wg_peer \<Rightarrow> PeerRuntime \<Rightarrow> bool" where
  "timer_current event p s \<longleftrightarrow>
     ProtocolPeer s = Some p \<and> IsCurrentActivation (pid_activation_generation (pte_peer event)) s \<and>
     token_hook (pte_token event) = pte_hook event \<and>
     IsCurrent (pte_token event)
       \<lparr>owner_peer_index = pid_peer_index (pte_peer event), owner_activation_generation = pid_activation_generation (pte_peer event),
        owner_protocol_sequence = (if pte_hook event = TH_RetransmitHandshake then hr_sequence_count (handshake_retry p) else 0)\<rparr>
       (m_controller s)"

lemma timer_current_run:
  assumes "timer_current event p s"
  shows "handle_protocol_timer_expired be pf event \<lparr>rt = s, rt_gw = gw, rt_fx = fx\<rparr> =
    run_expired_timer be pf event p (cancel_fx (pte_peer event) (pte_hook event) \<lparr>rt = s, rt_gw = gw, rt_fx = fx\<rparr>)"
  using assms by (auto simp: handle_protocol_timer_expired_def timer_current_def Let_def IsCurrent_def split: if_splits)

text \<open>C10: A timer that fires while a datagram is in flight ends the process. The keepalive timers and the timer
  for a new handshake have to send; with a pending datagram the preparation fails, the handler enters the
  error state, and the seven effects exceed the budget of six.\<close>

theorem timer_during_send_aborts:
  assumes "timer_current event p s" "Binding_IsOpen (m_binding s)" "\<not> b_suspended (m_binding s)" "li_state (m_lifecycle s) = PRS_Active"
    "Datagram_IsPending (m_pending_datagram s)"
    "pte_hook event \<in> {TH_SendKeepalive, TH_NewHandshake} \<or> pte_hook event = TH_PersistentKeepalive \<and> persistent_keepalive_interval p \<noteq> 0"
  shows "Handle be pf (ProtocolTimerExpired event) s gw = None"
proof -
  let ?r = "\<lparr>rt = s, rt_gw = gw, rt_fx = Some []\<rparr>"
  let ?c = "cancel_fx (pte_peer event) (pte_hook event) ?r"
  have st: "rt ?c = s" by (simp add: cancel_fx_def)
  have fail: "li_state (m_lifecycle (rt (start_or_fail be pf i now r))) = PRS_Error" if "rt r = s" for i now r
    using that assms(1,5) by (simp add: start_or_fail_def StartHandshake_def timer_current_def error_state)
  have "li_state (m_lifecycle (rt (timer_keepalive be pf event p f ?c))) = PRS_Error" for f
    using assms(1,5) st
    by (auto simp: timer_keepalive_def rt_now_def PrepareTransportDatagram_def timer_current_def error_state split: prod.splits
        intro!: fail)
  then have "li_state (m_lifecycle (rt (HandleEvent be pf (ProtocolTimerExpired event) ?r))) = PRS_Error"
    using assms(3,4,6) fail[OF st]
    by (auto simp: HandleEvent_def timer_current_run[OF assms(1)] run_expired_timer_def Let_def st IsInTransportState_def)
  moreover have "li_activation_generation (m_lifecycle s) \<noteq> 0"
    using assms(1) by (auto simp: timer_current_def IsCurrentActivation_def IsCurrentGeneration_def)
  ultimately show ?thesis using assms(2,4) by (intro failing_aborts) (simp_all add: sends_from_def sends_def)
qed

theorem timer_during_send_aborts_witness:
  "Handle example_backend example_platform (ProtocolTimerExpired example_expiry) example_sending (1, 0) = None"
proof (rule timer_during_send_aborts)
  have "NextGeneration \<lparr>m_hooks = replicate 5 HookState_init, m_next_generation = 1\<rparr> =
      (1, \<lparr>m_hooks = replicate 5 HookState_init, m_next_generation = 2\<rparr>)"
    by (subst NextGeneration.simps) (simp add: Let_def)
  then show "timer_current example_expiry (dev_peer wg_device_zero) example_sending"
    by (simp add: timer_current_def example_expiry_def example_sending_def example_owner_def ProtocolPeer_def wg_device_first_peer_def
        IsCurrentActivation_def IsCurrentGeneration_def IsCurrent_def Arm_def TimerCoordinator_init_def TimerToken_IsValid_def
        HookIndex_def Let_def)
qed (simp_all add: example_sending_def example_expiry_def Binding_IsOpen_def UdpBinding_init_def Datagram_IsPending_def)

end
