(* ===== verification/WG_ChaCha20.thy ===== *)
theory WG_ChaCha20
  imports WG_Endian
begin

unbundle bit_operations_syntax

text \<open>
  The vendored Monocypher, first part: loads and stores, constant-time comparison, and ChaCha20 with its
  64-bit counter (\<open>crypto_chacha20_djb\<close>), the variant of RFC 8439 and the key derivation of XChaCha20.
  A call writes a buffer; the model returns what is written. \<open>size_t\<close> lengths of buffers are naturals.
  The theorems say that encryption is the exclusive or with a key stream that depends only on key,
  nonce and counter.
\<close>

subsection \<open>Loads, stores and comparison\<close>

definition gap :: "u64 \<Rightarrow> u64 \<Rightarrow> u64" where
  "gap x pow_2 = (NOT x + 1) AND (pow_2 - 1)"

definition load32_le :: "byte list \<Rightarrow> u32" where
  "load32_le s =
     push_bit 0 (ucast (s ! 0)) OR push_bit 8 (ucast (s ! 1)) OR push_bit 16 (ucast (s ! 2)) OR push_bit 24 (ucast (s ! 3))"

definition load64_le :: "byte list \<Rightarrow> u64" where
  "load64_le s = ucast (load32_le s) OR push_bit 32 (ucast (load32_le (drop 4 s)))"

definition store32_le :: "u32 \<Rightarrow> byte list" where
  "store32_le v = [ucast v, ucast (drop_bit 8 v), ucast (drop_bit 16 v), ucast (drop_bit 24 v)]"

definition store64_le :: "u64 \<Rightarrow> byte list" where
  "store64_le v = store32_le (ucast v) @ store32_le (ucast (drop_bit 32 v))"

definition load32_le_buf :: "byte list \<Rightarrow> nat \<Rightarrow> u32 list" where
  "load32_le_buf src n = map (\<lambda>i. load32_le (drop (i * 4) src)) [0..<n]"

definition store32_le_buf :: "u32 list \<Rightarrow> nat \<Rightarrow> byte list" where
  "store32_le_buf src n = concat (map (\<lambda>i. store32_le (src ! i)) [0..<n])"

definition rotl32 :: "u32 \<Rightarrow> nat \<Rightarrow> u32" where
  "rotl32 x n = push_bit n x XOR drop_bit (32 - n) x"

text \<open>The result is an \<open>int\<close>: 0 or -1.\<close>

definition neq0 :: "u64 \<Rightarrow> int" where
  "neq0 diff =
     (let half = drop_bit 32 diff OR ucast (ucast diff :: u32);
          eq0 = 1 AND drop_bit 32 (half - 1)
      in sint (ucast eq0 :: u32) - 1)"

definition x16 :: "byte list \<Rightarrow> byte list \<Rightarrow> u64" where
  "x16 a b = (load64_le a XOR load64_le b) OR (load64_le (drop 8 a) XOR load64_le (drop 8 b))"

definition crypto_verify16 :: "byte list \<Rightarrow> byte list \<Rightarrow> int" where
  "crypto_verify16 a b = neq0 (x16 a b)"

subsection \<open>ChaCha20\<close>

definition QUARTERROUND :: "u32 \<times> u32 \<times> u32 \<times> u32 \<Rightarrow> u32 \<times> u32 \<times> u32 \<times> u32" where
  "QUARTERROUND = (\<lambda>(a, b, c, d).
     let a = a + b; d = rotl32 (d XOR a) 16;
         c = c + d; b = rotl32 (b XOR c) 12;
         a = a + b; d = rotl32 (d XOR a) 8;
         c = c + d; b = rotl32 (b XOR c) 7
     in (a, b, c, d))"

text \<open>The macro applied to four of the sixteen temporaries.\<close>

definition quarterround_at :: "nat \<Rightarrow> nat \<Rightarrow> nat \<Rightarrow> nat \<Rightarrow> u32 list \<Rightarrow> u32 list" where
  "quarterround_at i j k l t =
     (case QUARTERROUND (t ! i, t ! j, t ! k, t ! l) of (a, b, c, d) \<Rightarrow> t[i := a, j := b, k := c, l := d])"

definition double_round :: "u32 list \<Rightarrow> u32 list" where
  "double_round t =
     (let t = quarterround_at 0 4 8 12 t;
          t = quarterround_at 1 5 9 13 t;
          t = quarterround_at 2 6 10 14 t;
          t = quarterround_at 3 7 11 15 t;
          t = quarterround_at 0 5 10 15 t;
          t = quarterround_at 1 6 11 12 t;
          t = quarterround_at 2 7 8 13 t
      in quarterround_at 3 4 9 14 t)"

definition chacha20_rounds :: "u32 list \<Rightarrow> u32 list" where
  "chacha20_rounds inp = fold (\<lambda>_. double_round) [0..<10] inp"

definition chacha20_constant :: "byte list" where
  "chacha20_constant = map of_char ''expand 32-byte k''"

definition crypto_chacha20_h :: "byte list \<Rightarrow> byte list \<Rightarrow> byte list" where
  "crypto_chacha20_h key inp =
     (let block = load32_le_buf chacha20_constant 4 @ load32_le_buf key 8 @ load32_le_buf inp 4;
          block = chacha20_rounds block
      in store32_le_buf block 4 @ store32_le_buf (drop 12 block) 4)"

text \<open>The increment of the counter in the words 12 and 13 of the input.\<close>

definition next_input :: "u32 list \<Rightarrow> u32 list" where
  "next_input inp =
     (let inp = inp[12 := inp ! 12 + 1] in if inp ! 12 = 0 then inp[13 := inp ! 13 + 1] else inp)"

text \<open>The loop over whole blocks: the cipher text, the rest of the plain text and the input after it. A plain
  text that is \<open>NULL\<close> is \<open>None\<close>.\<close>

fun chacha20_blocks :: "nat \<Rightarrow> byte list option \<Rightarrow> u32 list \<Rightarrow> byte list \<times> byte list option \<times> u32 list" where
  "chacha20_blocks 0 plain_text inp = ([], plain_text, inp)"
| "chacha20_blocks (Suc n) plain_text inp =
     (let pool = chacha20_rounds inp;
          out = (case plain_text of
              Some pt \<Rightarrow> concat (map (\<lambda>j. store32_le ((pool ! j + inp ! j) XOR load32_le (drop (4 * j) pt))) [0..<16])
            | None \<Rightarrow> concat (map (\<lambda>j. store32_le (pool ! j + inp ! j)) [0..<16]))
      in case chacha20_blocks n (map_option (drop 64) plain_text) (next_input inp) of
           (rest, plain_text, inp) \<Rightarrow> (out @ rest, plain_text, inp))"

definition crypto_chacha20_djb ::
  "byte list option \<Rightarrow> nat \<Rightarrow> byte list \<Rightarrow> byte list \<Rightarrow> u64 \<Rightarrow> byte list \<times> u64" where
  "crypto_chacha20_djb plain_text text_size key nonce ctr =
     (let inp = load32_le_buf chacha20_constant 4 @ load32_le_buf key 8 @ [ucast ctr, ucast (drop_bit 32 ctr)] @
            load32_le_buf nonce 2;
          nb_blocks = text_size div 64
      in case chacha20_blocks nb_blocks plain_text inp of (cipher_text, plain_text, inp) \<Rightarrow>
        let text_size = text_size mod 64;
            last_block =
              (if text_size > 0 then
                 (let pt = (case plain_text of None \<Rightarrow> zeros 128 | Some pt \<Rightarrow> pt);
                      pool = chacha20_rounds inp;
                      tmp = concat (map (\<lambda>i. store32_le (pool ! i + inp ! i)) [0..<16])
                  in map (\<lambda>i. tmp ! i XOR pt ! i) [0..<text_size])
               else [])
        in (cipher_text @ last_block,
            ucast (inp ! 12) + push_bit 32 (ucast (inp ! 13)) + (if text_size > 0 then 1 else 0)))"

definition crypto_chacha20_ietf ::
  "byte list option \<Rightarrow> nat \<Rightarrow> byte list \<Rightarrow> byte list \<Rightarrow> u32 \<Rightarrow> byte list \<times> u32" where
  "crypto_chacha20_ietf plain_text text_size key nonce ctr =
     (let big_ctr = ucast ctr + push_bit 32 (ucast (load32_le nonce)) in
      case crypto_chacha20_djb plain_text text_size key (drop 4 nonce) big_ctr of
        (cipher_text, ctr) \<Rightarrow> (cipher_text, ucast ctr))"

definition crypto_chacha20_x ::
  "byte list option \<Rightarrow> nat \<Rightarrow> byte list \<Rightarrow> byte list \<Rightarrow> u64 \<Rightarrow> byte list \<times> u64" where
  "crypto_chacha20_x plain_text text_size key nonce ctr =
     (let sub_key = crypto_chacha20_h key nonce
      in crypto_chacha20_djb plain_text text_size sub_key (drop 16 nonce) ctr)"

subsection \<open>Specification\<close>

text \<open>The initial state for a block, the block, and the key stream from a block counter on.\<close>

definition chacha20_state :: "byte list \<Rightarrow> byte list \<Rightarrow> u64 \<Rightarrow> u32 list" where
  "chacha20_state key nonce ctr =
     load32_le_buf chacha20_constant 4 @ load32_le_buf key 8 @ [ucast ctr, ucast (drop_bit 32 ctr)] @ load32_le_buf nonce 2"

definition chacha20_block :: "u32 list \<Rightarrow> byte list" where
  "chacha20_block st = concat (map (\<lambda>(x, y). store32_le (x + y)) (zip (chacha20_rounds st) st))"

definition key_stream :: "byte list \<Rightarrow> byte list \<Rightarrow> u64 \<Rightarrow> nat \<Rightarrow> byte list" where
  "key_stream key nonce ctr n =
     take n (concat (map (\<lambda>i. chacha20_block (chacha20_state key nonce (ctr + of_nat i))) [0..<Suc (n div 64)]))"

definition xor_bytes :: "byte list \<Rightarrow> byte list \<Rightarrow> byte list" where
  "xor_bytes xs ys = map (\<lambda>(x, y). x XOR y) (zip xs ys)"

subsection \<open>Words and bytes\<close>

lemma load32_le_eq: "load32_le s = LoadLe32 s"
  by (simp add: load32_le_def LoadLe32_def)

lemma store32_le_eq: "store32_le v = StoreLe32 v"
  by (simp add: store32_le_def StoreLe32_def)

lemma length_store32_le [simp, wf_simps]: "length (store32_le v) = 4"
  by (simp add: store32_le_def)

lemma length_store64_le [simp, wf_simps]: "length (store64_le v) = 8"
  by (simp add: store64_le_def)

lemma length_load32_le_buf [simp, wf_simps]: "length (load32_le_buf s n) = n"
  by (simp add: load32_le_buf_def)

lemma length_concat_const:
  "(\<And>x. x \<in> set xs \<Longrightarrow> length (f x) = k) \<Longrightarrow> length (concat (map f xs)) = k * length xs"
  by (induction xs) auto

lemma length_store32_le_buf [simp, wf_simps]: "length (store32_le_buf s n) = 4 * n"
  unfolding store32_le_buf_def by (subst length_concat_const[where k = 4]) simp_all

lemma length_xor_bytes [simp, wf_simps]: "length (xor_bytes xs ys) = min (length xs) (length ys)"
  by (simp add: xor_bytes_def)

lemma xor_bytes_append: "length xs = length ys \<Longrightarrow> xor_bytes (xs @ xs') (ys @ ys') = xor_bytes xs ys @ xor_bytes xs' ys'"
  by (simp add: xor_bytes_def)

lemma xor_bytes_commute: "xor_bytes xs ys = xor_bytes ys xs"
  by (auto simp: xor_bytes_def intro!: nth_equalityI simp: xor.commute)

lemma xor_bytes_cancel: "length xs \<le> length ys \<Longrightarrow> xor_bytes (xor_bytes xs ys) ys = xs"
  by (auto simp: xor_bytes_def xor.assoc intro!: nth_equalityI)

lemma store32_le_xor: "store32_le (a XOR b) = xor_bytes (store32_le a) (store32_le b)"
  by (simp add: store32_le_def xor_bytes_def drop_bit_xor unsigned_xor_eq)

lemma store32_le_load: "4 \<le> length s \<Longrightarrow> store32_le (load32_le s) = take 4 s"
  using StoreLe32_LoadLe32[of "take 4 s"] by (simp add: store32_le_eq load32_le_eq LoadLe32_take)

lemma xor_concat:
  "(\<And>x. x \<in> set xs \<Longrightarrow> length (f x) = length (g x)) \<Longrightarrow>
   concat (map (\<lambda>x. xor_bytes (f x) (g x)) xs) = xor_bytes (concat (map f xs)) (concat (map g xs))"
  by (induction xs) (simp_all add: xor_bytes_append[symmetric], simp add: xor_bytes_def)

lemma concat_pieces: "k * n \<le> length xs \<Longrightarrow> concat (map (\<lambda>j. take k (drop (k * j) xs)) [0..<n]) = take (k * n) xs"
proof (induction n)
  case (Suc n)
  then show ?case using take_add[of "k * n" k xs] by (simp add: add.commute)
qed simp

subsection \<open>The block function\<close>

lemma length_quarterround_at [simp]: "length (quarterround_at i j k l t) = length t"
  by (simp add: quarterround_at_def split: prod.splits)

lemma length_chacha20_rounds [simp, wf_simps]: "length (chacha20_rounds t) = length t"
proof -
  have "length (double_round t) = length t" for t by (simp add: double_round_def Let_def)
  then have "length (fold (\<lambda>_. double_round) xs t) = length t" for xs :: "nat list" by (induction xs arbitrary: t) simp_all
  then show ?thesis by (simp add: chacha20_rounds_def)
qed

lemma length_chacha20_state [simp, wf_simps]: "length (chacha20_state key nonce ctr) = 16"
  by (simp add: chacha20_state_def)

lemma chacha20_block_words:
  assumes "length st = 16"
  shows "concat (map (\<lambda>j. store32_le (chacha20_rounds st ! j + st ! j)) [0..<16]) = chacha20_block st"
proof -
  have "map (\<lambda>(x, y). store32_le (x + y)) (zip (chacha20_rounds st) st) = map (\<lambda>j. store32_le (chacha20_rounds st ! j + st ! j)) [0..<16]"
    using assms by (auto intro!: nth_equalityI)
  then show ?thesis by (simp add: chacha20_block_def)
qed

lemma length_chacha20_block [simp, wf_simps]: "length st = 16 \<Longrightarrow> length (chacha20_block st) = 64"
  unfolding chacha20_block_words[symmetric] by (subst length_concat_const[where k = 4]) simp_all

lemma chacha20_block_xor:
  assumes "length st = 16" "64 \<le> length pt"
  shows "concat (map (\<lambda>j. store32_le ((chacha20_rounds st ! j + st ! j) XOR load32_le (drop (4 * j) pt))) [0..<16]) =
    xor_bytes (take 64 pt) (chacha20_block st)"
proof -
  have "map (\<lambda>j. store32_le ((chacha20_rounds st ! j + st ! j) XOR load32_le (drop (4 * j) pt))) [0..<16] =
      map (\<lambda>j. xor_bytes (store32_le (chacha20_rounds st ! j + st ! j)) (take 4 (drop (4 * j) pt))) [0..<16]"
    using assms by (intro map_cong) (simp_all add: store32_le_xor store32_le_load)
  then have "concat (map (\<lambda>j. store32_le ((chacha20_rounds st ! j + st ! j) XOR load32_le (drop (4 * j) pt))) [0..<16]) =
      xor_bytes (concat (map (\<lambda>j. store32_le (chacha20_rounds st ! j + st ! j)) [0..<16])) (concat (map (\<lambda>j. take 4 (drop (4 * j) pt)) [0..<16]))"
    using assms by (simp only: xor_concat[symmetric]) (subst xor_concat, simp_all)
  then show ?thesis
    using assms concat_pieces[of 4 16 pt] by (simp only: chacha20_block_words) (simp add: xor_bytes_commute)
qed

subsection \<open>The counter\<close>

lemma counter_words:
  fixes c :: u64
  shows "unat (ucast c :: u32) = unat c mod 2 ^ 32" "unat (ucast (drop_bit 32 c) :: u32) = unat c div 2 ^ 32"
proof -
  show "unat (ucast c :: u32) = unat c mod 2 ^ 32" by (simp add: unsigned_ucast_eq take_bit_eq_mod)
  have "unat c div 2 ^ 32 < 2 ^ 32" using unat_u64_bound[of c] by simp
  then show "unat (ucast (drop_bit 32 c) :: u32) = unat c div 2 ^ 32"
    by (simp add: unsigned_ucast_eq take_bit_eq_mod unat_drop_bit_div)
qed

lemma ucast_down_up: "(ucast (ucast c :: u32) :: u64) = take_bit 32 c"
  by (rule bit_word_eqI) (auto simp: bit_simps dest: bit_u32_le)

lemma counter_join: "ucast (ucast c :: u32) + push_bit 32 (ucast (ucast (drop_bit 32 c) :: u32)) = (c :: u64)"
proof -
  have "take_bit 32 (drop_bit 32 c) = drop_bit 32 c"
    by (rule bit_word_eqI) (auto simp: bit_simps dest: bit_imp_le_length)
  then show ?thesis using bits_ident[of 32 c] by (simp add: ucast_down_up add.commute)
qed

lemma counter_next:
  fixes c :: u64
  shows "(ucast c + 1 :: u32) = ucast (c + 1)"
    "(if (ucast (c + 1) :: u32) = 0 then ucast (drop_bit 32 c) + 1 else ucast (drop_bit 32 c)) = (ucast (drop_bit 32 (c + 1)) :: u32)"
proof -
  let ?c = "unat c"
  have n: "unat (c + 1) = (?c + 1) mod 2 ^ 64" by (simp add: unat_word_ariths)
  have m: "(?c + 1) mod 2 ^ 64 mod 2 ^ 32 = (?c + 1) mod 2 ^ 32" by (rule mod_mod_cancel) simp
  show "(ucast c + 1 :: u32) = ucast (c + 1)"
    by (rule word_unat_eq_iff[THEN iffD2]) (use m in \<open>simp add: unat_word_ariths counter_words n mod_simps\<close>)
  have z: "(ucast (c + 1) :: u32) = 0 \<longleftrightarrow> (?c + 1) mod 2 ^ 32 = 0"
    by (simp only: unat_eq_0[symmetric] counter_words n m)
  have d: "((?c + 1) mod 2 ^ 64) div 2 ^ 32 = (if (?c + 1) mod 2 ^ 32 = 0 then ?c div 2 ^ 32 + 1 else ?c div 2 ^ 32) mod 2 ^ 32"
    using mod_mult2_eq[of "?c + 1" "2 ^ 32" "2 ^ 32"] by (simp add: div_Suc)
  have "unat (ucast (drop_bit 32 c) + 1 :: u32) = (?c div 2 ^ 32 + 1) mod 2 ^ 32"
    unfolding unat_word_ariths counter_words(2) by simp
  moreover have "unat (ucast (drop_bit 32 c) :: u32) = ?c div 2 ^ 32 mod 2 ^ 32"
    unfolding counter_words(2) using unat_u64_bound[of c] by simp
  moreover have "unat (ucast (drop_bit 32 (c + 1)) :: u32) = ((?c + 1) mod 2 ^ 64) div 2 ^ 32" unfolding counter_words(2) n ..
  ultimately show "(if (ucast (c + 1) :: u32) = 0 then ucast (drop_bit 32 c) + 1 else ucast (drop_bit 32 c)) = (ucast (drop_bit 32 (c + 1)) :: u32)"
    unfolding z d by (intro word_unat_eq_iff[THEN iffD2]) presburger
qed

lemma next_input_state: "next_input (chacha20_state key nonce ctr) = chacha20_state key nonce (ctr + 1)"
  using counter_next[of ctr] by (auto simp: next_input_def chacha20_state_def Let_def nth_append list_update_append)

subsection \<open>The loop over blocks\<close>

abbreviation (input) stream_block :: "byte list \<Rightarrow> byte list \<Rightarrow> u64 \<Rightarrow> nat \<Rightarrow> byte list" where
  "stream_block key nonce ctr i \<equiv> chacha20_block (chacha20_state key nonce (ctr + of_nat i))"

definition stream_blocks :: "byte list \<Rightarrow> byte list \<Rightarrow> u64 \<Rightarrow> nat \<Rightarrow> byte list" where
  "stream_blocks key nonce ctr n = concat (map (stream_block key nonce ctr) [0..<n])"

lemma length_stream_blocks [simp]: "length (stream_blocks key nonce ctr n) = 64 * n"
  unfolding stream_blocks_def by (subst length_concat_const[where k = 64]) simp_all

lemma stream_blocks_Suc:
  "stream_blocks key nonce ctr (Suc n) = chacha20_block (chacha20_state key nonce ctr) @ stream_blocks key nonce (ctr + 1) n"
proof -
  have "map (stream_block key nonce ctr) [0..<Suc n] =
      chacha20_block (chacha20_state key nonce ctr) # map (\<lambda>i. stream_block key nonce ctr (Suc i)) [0..<n]"
    by (simp add: upt_conv_Cons map_Suc_upt[symmetric] comp_def del: upt_Suc)
  then show ?thesis by (simp add: stream_blocks_def algebra_simps del: upt_Suc)
qed

lemma stream_blocks_add: "stream_blocks key nonce ctr (m + n) = stream_blocks key nonce ctr m @ stream_blocks key nonce (ctr + of_nat m) n"
  by (induction m arbitrary: ctr) (simp_all add: stream_blocks_Suc algebra_simps, simp add: stream_blocks_def)

lemma key_stream_blocks: "key_stream key nonce ctr n = take n (stream_blocks key nonce ctr (Suc (n div 64)))"
  by (simp add: key_stream_def stream_blocks_def del: upt_Suc)

lemma length_key_stream [simp, wf_simps]: "length (key_stream key nonce ctr n) = n"
proof -
  have "n \<le> 64 * Suc (n div 64)" using pos_mod_bound[of 64 "int n"] mult_div_mod_eq[of 64 n] by (metis add_le_cancel_left less_imp_le_nat mod_less_divisor mult_Suc_right add.commute zero_less_numeral)
  then show ?thesis by (simp add: key_stream_blocks)
qed

lemma key_stream_split:
  "key_stream key nonce ctr n =
     stream_blocks key nonce ctr (n div 64) @ take (n mod 64) (chacha20_block (chacha20_state key nonce (ctr + of_nat (n div 64))))"
proof -
  have "64 * (n div 64) + n mod 64 = n" by (rule mult_div_mod_eq)
  moreover have "stream_blocks key nonce c 1 = chacha20_block (chacha20_state key nonce c)" for c by (simp add: stream_blocks_def)
  ultimately show ?thesis
    using stream_blocks_add[of key nonce ctr "n div 64" 1] by (simp add: key_stream_blocks minus_mult_div_eq_mod)
qed

lemma chacha20_blocks_Some:
  "64 * n \<le> length pt \<Longrightarrow>
   chacha20_blocks n (Some pt) (chacha20_state key nonce ctr) =
     (xor_bytes (take (64 * n) pt) (stream_blocks key nonce ctr n), Some (drop (64 * n) pt), chacha20_state key nonce (ctr + of_nat n))"
proof (induction n arbitrary: pt ctr)
  case (Suc n)
  have "take (64 * Suc n) pt = take 64 pt @ take (64 * n) (drop 64 pt)" using take_add[of 64 "64 * n" pt] by simp
  then have "xor_bytes (take (64 * Suc n) pt) (stream_blocks key nonce ctr (Suc n)) =
      xor_bytes (take 64 pt) (chacha20_block (chacha20_state key nonce ctr)) @
      xor_bytes (take (64 * n) (drop 64 pt)) (stream_blocks key nonce (ctr + 1) n)"
    using Suc.prems by (simp add: stream_blocks_Suc xor_bytes_append)
  then show ?case
    using Suc.prems Suc.IH[of "drop 64 pt" "ctr + 1"]
    by (simp add: chacha20_block_xor next_input_state Let_def add.assoc add.commute[of "64 * n"] del: upt_conv_Cons)
qed (simp add: xor_bytes_def stream_blocks_def)

lemma chacha20_blocks_None:
  "chacha20_blocks n None (chacha20_state key nonce ctr) =
     (stream_blocks key nonce ctr n, None, chacha20_state key nonce (ctr + of_nat n))"
proof (induction n arbitrary: ctr)
  case (Suc n)
  then show ?case by (simp add: chacha20_block_words next_input_state stream_blocks_Suc add.assoc del: upt_conv_Cons)
qed (simp add: stream_blocks_def)

lemma state_counter:
  "ucast (chacha20_state key nonce ctr ! 12) + push_bit 32 (ucast (chacha20_state key nonce ctr ! 13)) = ctr"
  using counter_join[of ctr] by (simp add: chacha20_state_def nth_append)

lemma partial_block:
  assumes "length st = 16" "m \<le> length pt" "m \<le> 64"
  shows "map (\<lambda>i. concat (map (\<lambda>i. store32_le (chacha20_rounds st ! i + st ! i)) [0..<16]) ! i XOR pt ! i) [0..<m] =
    xor_bytes (take m pt) (take m (chacha20_block st))"
  unfolding chacha20_block_words[OF assms(1)]
  using assms by (auto simp: xor_bytes_def xor.commute intro!: nth_equalityI)

definition blocks_used :: "nat \<Rightarrow> nat" where
  "blocks_used n = n div 64 + (if n mod 64 > 0 then 1 else 0)"

lemma djb_Some:
  "crypto_chacha20_djb (Some pt) (length pt) key nonce ctr =
     (xor_bytes pt (key_stream key nonce ctr (length pt)), ctr + of_nat (blocks_used (length pt)))"
proof -
  let ?n = "length pt div 64" and ?m = "length pt mod 64"
  have l: "64 * ?n + ?m = length pt" by (rule mult_div_mod_eq)
  then have n: "64 * ?n \<le> length pt" by linarith
  have s: "chacha20_blocks ?n (Some pt) (chacha20_state key nonce ctr) =
      (xor_bytes (take (64 * ?n) pt) (stream_blocks key nonce ctr ?n), Some (drop (64 * ?n) pt), chacha20_state key nonce (ctr + of_nat ?n))"
    by (rule chacha20_blocks_Some[OF n])
  have d: "take ?m (drop (64 * ?n) pt) = drop (64 * ?n) pt" by (simp add: minus_mult_div_eq_mod)
  have "xor_bytes pt (key_stream key nonce ctr (length pt)) =
      xor_bytes (take (64 * ?n) pt) (stream_blocks key nonce ctr ?n) @
      xor_bytes (drop (64 * ?n) pt) (take ?m (chacha20_block (chacha20_state key nonce (ctr + of_nat ?n))))"
    using xor_bytes_append[of "take (64 * ?n) pt" "stream_blocks key nonce ctr ?n" "drop (64 * ?n) pt"] n by (simp add: key_stream_split)
  moreover have "?m \<le> length (drop (64 * ?n) pt)" by (simp add: minus_mult_div_eq_mod)
  note p = partial_block[OF length_chacha20_state this, of key nonce "ctr + of_nat ?n", unfolded d]
  ultimately show ?thesis
    unfolding crypto_chacha20_djb_def Let_def chacha20_state_def[symmetric] s prod.case option.case
    by (subst p) (simp_all add: state_counter blocks_used_def add.assoc, simp add: xor_bytes_def)
qed

lemma djb_None:
  "crypto_chacha20_djb None n key nonce ctr = (key_stream key nonce ctr n, ctr + of_nat (blocks_used n))"
proof -
  let ?n = "n div 64" and ?m = "n mod 64"
  have x: "xor_bytes (zeros k) bs = bs" if "length bs = k" for k bs
    using that by (auto simp: xor_bytes_def intro!: nth_equalityI)
  have m: "?m \<le> 64" using mod_less_divisor[of 64 n] by linarith
  show ?thesis
    unfolding crypto_chacha20_djb_def Let_def chacha20_state_def[symmetric] chacha20_blocks_None prod.case option.case
    using partial_block[of "chacha20_state key nonce (ctr + of_nat ?n)" ?m "zeros 128"] m
    by (simp add: x state_counter blocks_used_def key_stream_split add.assoc del: upt_conv_Cons)
qed

subsection \<open>Comparison\<close>

lemma neq0_zero: "neq0 d = (if d = 0 then 0 else - 1)"
proof -
  let ?h = "drop_bit 32 d OR ucast (ucast d :: u32)"
  have z: "?h = 0 \<longleftrightarrow> d = 0"
    using bits_ident[of 32 d] by (auto simp: ucast_down_up or_eq_0_iff)
  have "?h = take_bit 32 ?h"
    by (rule bit_word_eqI) (auto simp: ucast_down_up bit_simps dest: bit_imp_le_length)
  then have b: "unat ?h < 2 ^ 32" by (metis mod_less_divisor unat_take_bit_mod zero_less_power zero_less_numeral)
  show ?thesis
  proof (cases "d = 0")
    case True
    have "1 AND (mask 32 :: u64) = 1" by (simp flip: take_bit_eq_mask)
    then show ?thesis using True by (simp add: neq0_def Let_def)
  next
    case False
    then have "unat (?h - 1) < 2 ^ 32" using b z unat_minus_one[of ?h] by simp
    then have "drop_bit 32 (?h - 1) = 0" by (simp add: word_unat_eq_iff unat_drop_bit_div)
    then show ?thesis using False by (simp add: neq0_def Let_def)
  qed
qed

lemma load64_le_eq: "load64_le s = LoadLe64 s"
  by (simp add: load64_le_def LoadLe64_def load32_le_eq)

lemma store64_le_eq: "store64_le v = StoreLe64 v"
  by (simp add: store64_le_def StoreLe64_def store32_le_eq)

lemma load64_le_inj: "length a = 8 \<Longrightarrow> length b = 8 \<Longrightarrow> load64_le a = load64_le b \<longleftrightarrow> a = b"
  by (metis StoreLe64_LoadLe64 load64_le_eq)

lemma crypto_verify16_eq:
  assumes "length a = 16" "length b = 16"
  shows "crypto_verify16 a b = (if a = b then 0 else - 1)"
proof -
  have "a = b \<longleftrightarrow> take 8 a = take 8 b \<and> drop 8 a = drop 8 b" by (metis append_take_drop_id)
  also have "\<dots> \<longleftrightarrow> load64_le (take 8 a) = load64_le (take 8 b) \<and> load64_le (drop 8 a) = load64_le (drop 8 b)"
    using assms by (simp add: load64_le_inj)
  finally have "a = b \<longleftrightarrow> load64_le a = load64_le b \<and> load64_le (drop 8 a) = load64_le (drop 8 b)"
    by (simp add: load64_le_eq LoadLe64_take)
  moreover have "(x XOR y = 0) = (x = y)" for x y :: u64 by (auto simp: bit_eq_iff bit_xor_iff)
  ultimately show ?thesis by (simp add: crypto_verify16_def neq0_zero x16_def or_eq_0_iff)
qed

lemma mod_minus_multiple:
  fixes m n d :: nat
  assumes "n < m" "d dvd m" "0 < d"
  shows "(m - n) mod d = (d - n mod d) mod d"
proof -
  obtain k where k: "m = d * k" using assms(2) by (auto elim: dvdE)
  define q r where "q = n div d" and "r = n mod d"
  have n: "n = d * q + r" "r < d" using assms(3) by (simp_all add: q_def r_def)
  have "q < k" using assms(1) n k by (metis add_lessD1 mult_less_cancel1)
  then obtain j where "k = Suc (q + j)" using less_imp_Suc_add by auto
  then have "m - n = (d - r) + d * j" using n(2) by (simp add: k n(1) algebra_simps)
  then show ?thesis by (simp add: r_def)
qed

lemma gap_value: "unat (gap x 16) = (16 - unat x mod 16) mod 16"
proof -
  have "(16 - 1 :: u64) = mask 4" by (simp add: mask_eq_exp_minus_1)
  then have "gap x 16 = take_bit 4 (- x)" by (simp add: gap_def take_bit_eq_mask minus_eq_not_plus_1)
  then have "unat (gap x 16) = unat (- x) mod 16" by (simp add: unat_take_bit_mod)
  also have "\<dots> = (16 - unat x mod 16) mod 16"
  proof (cases "x = 0")
    case False
    then have "unat (- x) = 2 ^ 64 - unat x" using unat_sub_if'[of 0 x] by (simp add: unat_eq_0)
    then show ?thesis using unat_u64_bound[of x] mod_minus_multiple[of "unat x" "2 ^ 64" 16] by simp
  qed simp
  finally show ?thesis .
qed

subsection \<open>The cipher\<close>

text \<open>C14: Encryption with \<open>crypto_chacha20_djb\<close> is the exclusive or of the text with the ChaCha20 key stream,
  block after block at consecutive counters, also when the text does not fill its last block; with no text the
  function writes the key stream itself; and the counter it returns has moved by the number of blocks it began.\<close>

theorem chacha20_is_key_stream:
  "crypto_chacha20_djb (Some pt) (length pt) key nonce ctr =
     (xor_bytes pt (key_stream key nonce ctr (length pt)), ctr + of_nat (blocks_used (length pt))) \<and>
   crypto_chacha20_djb None n key nonce ctr = (key_stream key nonce ctr n, ctr + of_nat (blocks_used n))"
  by (intro conjI djb_Some djb_None)

end
