(* ===== verification/WG_Poly1305.thy ===== *)
theory WG_Poly1305
  imports WG_ChaCha20
begin

unbundle bit_operations_syntax

text \<open>
  The vendored Monocypher, second part: Poly1305 on 32-bit limbs with a streaming interface. The theorems
  say that no sum or product overflows, and that any sequence of updates followed by the final step gives the
  tag of RFC 8439 for the concatenated message.
\<close>

subsection \<open>Model\<close>

record crypto_poly1305_ctx =
  poly_c :: "byte list"
  poly_c_idx :: nat
  poly_r :: "u32 list"
  poly_pad :: "u32 list"
  poly_h :: "u32 list"

text \<open>The body of the loop of \<open>poly_blocks\<close>; products of two 32-bit operands are computed in 32 bits.\<close>

definition poly_block :: "u32 list \<Rightarrow> byte list \<Rightarrow> u32 \<Rightarrow> u32 list \<Rightarrow> u32 list" where
  "poly_block r inp fin h =
     (let r0 = r ! 0; r1 = r ! 1; r2 = r ! 2; r3 = r ! 3;
          rr0 = drop_bit 2 r0 * 5;
          rr1 = drop_bit 2 r1 + r1;
          rr2 = drop_bit 2 r2 + r2;
          rr3 = drop_bit 2 r3 + r3;
          rr4 = r0 AND 3;
          s0 = ucast (h ! 0) + ucast (load32_le inp) :: u64;
          s1 = ucast (h ! 1) + ucast (load32_le (drop 4 inp)) :: u64;
          s2 = ucast (h ! 2) + ucast (load32_le (drop 8 inp)) :: u64;
          s3 = ucast (h ! 3) + ucast (load32_le (drop 12 inp)) :: u64;
          s4 = h ! 4 + fin;
          x0 = s0 * ucast r0 + s1 * ucast rr3 + s2 * ucast rr2 + s3 * ucast rr1 + ucast (s4 * rr0);
          x1 = s0 * ucast r1 + s1 * ucast r0 + s2 * ucast rr3 + s3 * ucast rr2 + ucast (s4 * rr1);
          x2 = s0 * ucast r2 + s1 * ucast r1 + s2 * ucast r0 + s3 * ucast rr3 + ucast (s4 * rr2);
          x3 = s0 * ucast r3 + s1 * ucast r2 + s2 * ucast r1 + s3 * ucast r0 + ucast (s4 * rr3);
          x4 = s4 * rr4;
          u5 = ucast (drop_bit 32 x3) + x4;
          u0 = ucast (drop_bit 2 u5 * 5) + (x0 AND 0xffffffff);
          u1 = ucast (ucast (drop_bit 32 u0) :: u32) + (x1 AND 0xffffffff) + drop_bit 32 x0;
          u2 = ucast (ucast (drop_bit 32 u1) :: u32) + (x2 AND 0xffffffff) + drop_bit 32 x1;
          u3 = ucast (ucast (drop_bit 32 u2) :: u32) + (x3 AND 0xffffffff) + drop_bit 32 x2;
          u4 = ucast (drop_bit 32 u3) + (u5 AND 3)
      in [ucast (u0 AND 0xffffffff), ucast (u1 AND 0xffffffff), ucast (u2 AND 0xffffffff), ucast (u3 AND 0xffffffff), u4])"

fun poly_blocks :: "u32 list \<Rightarrow> byte list \<Rightarrow> nat \<Rightarrow> u32 \<Rightarrow> u32 list \<Rightarrow> u32 list" where
  "poly_blocks r inp 0 fin h = h"
| "poly_blocks r inp (Suc n) fin h = poly_blocks r (drop 16 inp) n fin (poly_block r inp fin h)"

definition crypto_poly1305_init :: "byte list \<Rightarrow> crypto_poly1305_ctx \<Rightarrow> crypto_poly1305_ctx" where
  "crypto_poly1305_init key ctx =
     (let r = load32_le_buf key 4 in
      ctx\<lparr>poly_h := replicate 5 0, poly_c_idx := 0, poly_pad := load32_le_buf (drop 16 key) 4,
          poly_r := r[0 := r ! 0 AND 0x0fffffff, 1 := r ! 1 AND 0x0ffffffc, 2 := r ! 2 AND 0x0ffffffc, 3 := r ! 3 AND 0x0ffffffc]\<rparr>)"

definition crypto_poly1305_update :: "byte list \<Rightarrow> crypto_poly1305_ctx \<Rightarrow> crypto_poly1305_ctx" where
  "crypto_poly1305_update message ctx =
     (if length message = 0 then ctx
      else
        let aligned = min (unat (gap (of_nat (poly_c_idx ctx)) 16)) (length message);
            ctx = ctx\<lparr>poly_c := put_bytes (poly_c_idx ctx) (take aligned message) (poly_c ctx),
                      poly_c_idx := poly_c_idx ctx + aligned\<rparr>;
            message = drop aligned message;
            ctx = (if poly_c_idx ctx = 16
                   then ctx\<lparr>poly_h := poly_blocks (poly_r ctx) (poly_c ctx) 1 1 (poly_h ctx), poly_c_idx := 0\<rparr>
                   else ctx);
            nb_blocks = length message div 16;
            ctx = ctx\<lparr>poly_h := poly_blocks (poly_r ctx) message nb_blocks 1 (poly_h ctx)\<rparr>;
            message = drop (nb_blocks * 16) message
        in ctx\<lparr>poly_c := put_bytes (poly_c_idx ctx) message (poly_c ctx), poly_c_idx := poly_c_idx ctx + length message\<rparr>)"

text \<open>The final carries; \<open>WIPE_CTX\<close> erases the context, so that only the tag remains.\<close>

definition crypto_poly1305_final :: "crypto_poly1305_ctx \<Rightarrow> byte list" where
  "crypto_poly1305_final ctx =
     (let idx = poly_c_idx ctx;
          h = (if idx \<noteq> 0
               then poly_blocks (poly_r ctx) ((take idx (poly_c ctx) @ zeros (16 - idx))[idx := 1]) 1 0 (poly_h ctx)
               else poly_h ctx);
          c = fold (\<lambda>i c. drop_bit 32 (c + ucast (h ! i))) [0..<4] (5 :: u64);
          c = c + ucast (h ! 4);
          c = drop_bit 2 c * 5
      in fst (fold (\<lambda>i (mac, c).
           let c = c + (ucast (h ! i) + ucast (poly_pad ctx ! i)) in (mac @ store32_le (ucast c), drop_bit 32 c)) [0..<4] ([], c)))"

definition crypto_poly1305 :: "byte list \<Rightarrow> byte list \<Rightarrow> crypto_poly1305_ctx \<Rightarrow> byte list" where
  "crypto_poly1305 message key ctx =
     crypto_poly1305_final (crypto_poly1305_update message (crypto_poly1305_init key ctx))"

subsection \<open>Specification\<close>

primrec le_num :: "byte list \<Rightarrow> nat" where
  "le_num [] = 0"
| "le_num (b # bs) = unat b + 256 * le_num bs"

definition le_bytes :: "nat \<Rightarrow> nat \<Rightarrow> byte list" where
  "le_bytes n v = map (\<lambda>i. of_nat (v div 256 ^ i)) [0..<n]"

definition poly_p :: nat where
  "poly_p = 2 ^ 130 - 5"

definition clamp :: "byte list \<Rightarrow> byte list" where
  "clamp k = map (\<lambda>i. if i \<in> {3, 7, 11, 15} then k ! i AND 15 else if i \<in> {4, 8, 12} then k ! i AND 252 else k ! i) [0..<16]"

text \<open>The pieces of a message of 16 bytes, the last one possibly shorter, and the accumulator over them.\<close>

function pieces16 :: "byte list \<Rightarrow> byte list list" where
  "pieces16 m = (if m = [] then [] else take 16 m # pieces16 (drop 16 m))"
  by auto
termination
  by (relation "measure length") auto

declare pieces16.simps [simp del]

definition poly_acc :: "nat \<Rightarrow> byte list list \<Rightarrow> nat \<Rightarrow> nat" where
  "poly_acc r bs acc = fold (\<lambda>b acc. (acc + le_num (b @ [1])) * r mod poly_p) bs acc"

definition poly1305_tag :: "byte list \<Rightarrow> byte list \<Rightarrow> byte list" where
  "poly1305_tag key msg =
     le_bytes 16 (poly_acc (le_num (clamp key)) (pieces16 msg) 0 + le_num (take 16 (drop 16 key)))"

subsection \<open>The arithmetic of one block\<close>

text \<open>The product of two numbers of five and four limbs, folded once at \<open>2 ^ 130\<close>.\<close>

lemma fold_product:
  fixes s0 s1 s2 s3 s4 q0 q1 q2 q3 t :: nat
  shows "(s0 + 2 ^ 32 * s1 + 2 ^ 64 * s2 + 2 ^ 96 * s3 + 2 ^ 128 * s4) *
      ((4 * q0 + t) + 2 ^ 32 * (4 * q1) + 2 ^ 64 * (4 * q2) + 2 ^ 96 * (4 * q3)) =
    (s0 * (4 * q0 + t) + s1 * (5 * q3) + s2 * (5 * q2) + s3 * (5 * q1) + s4 * (5 * q0)) +
    2 ^ 32 * (s0 * (4 * q1) + s1 * (4 * q0 + t) + s2 * (5 * q3) + s3 * (5 * q2) + s4 * (5 * q1)) +
    2 ^ 64 * (s0 * (4 * q2) + s1 * (4 * q1) + s2 * (4 * q0 + t) + s3 * (5 * q3) + s4 * (5 * q2)) +
    2 ^ 96 * (s0 * (4 * q3) + s1 * (4 * q2) + s2 * (4 * q1) + s3 * (4 * q0 + t) + s4 * (5 * q3)) +
    2 ^ 128 * (s4 * t) +
    poly_p * (s1 * q3 + s2 * q2 + s3 * q1 + s4 * q0 + 2 ^ 32 * (s2 * q3 + s3 * q2 + s4 * q1) + 2 ^ 64 * (s3 * q3 + s4 * q2) + 2 ^ 96 * (s4 * q3))"
  by (simp add: poly_p_def algebra_simps)

text \<open>The carries after the product, which fold once more.\<close>

lemma carries_linear:
  fixes x0 x1 x2 x3 x4 a0 a1 a2 a3 b0 b1 b2 b3 c0 c1 c2 c3 d0 d1 d2 d3 k t :: nat
  assumes "x0 = a0 + 2 ^ 32 * b0" "x1 = a1 + 2 ^ 32 * b1" "x2 = a2 + 2 ^ 32 * b2" "x3 = a3 + 2 ^ 32 * b3"
    "b3 + x4 = 4 * k + t" "k * 5 + a0 = c0 + 2 ^ 32 * d0" "d0 + a1 + b0 = c1 + 2 ^ 32 * d1"
    "d1 + a2 + b1 = c2 + 2 ^ 32 * d2" "d2 + a3 + b2 = c3 + 2 ^ 32 * d3"
  shows "x0 + 2 ^ 32 * x1 + 2 ^ 64 * x2 + 2 ^ 96 * x3 + 2 ^ 128 * x4 =
    c0 + 2 ^ 32 * c1 + 2 ^ 64 * c2 + 2 ^ 96 * c3 + 2 ^ 128 * (d3 + t) + poly_p * k"
proof -
  have "x0 + 2 ^ 32 * x1 + 2 ^ 64 * x2 + 2 ^ 96 * x3 + 2 ^ 128 * x4 =
      a0 + 2 ^ 32 * (a1 + b0) + 2 ^ 64 * (a2 + b1) + 2 ^ 96 * (a3 + b2) + 2 ^ 128 * (b3 + x4)"
    by (simp add: assms(1-4))
  also have "\<dots> = (k * 5 + a0) + 2 ^ 32 * (a1 + b0) + 2 ^ 64 * (a2 + b1) + 2 ^ 96 * (a3 + b2) + 2 ^ 128 * t + poly_p * k"
    by (simp add: assms(5) poly_p_def)
  also have "\<dots> = c0 + 2 ^ 32 * (d0 + a1 + b0) + 2 ^ 64 * (a2 + b1) + 2 ^ 96 * (a3 + b2) + 2 ^ 128 * t + poly_p * k"
    by (simp add: assms(6))
  also have "\<dots> = c0 + 2 ^ 32 * c1 + 2 ^ 64 * (d1 + a2 + b1) + 2 ^ 96 * (a3 + b2) + 2 ^ 128 * t + poly_p * k"
    by (simp add: assms(7))
  also have "\<dots> = c0 + 2 ^ 32 * c1 + 2 ^ 64 * c2 + 2 ^ 96 * (d2 + a3 + b2) + 2 ^ 128 * t + poly_p * k"
    by (simp add: assms(8))
  also have "\<dots> = c0 + 2 ^ 32 * c1 + 2 ^ 64 * c2 + 2 ^ 96 * c3 + 2 ^ 128 * (d3 + t) + poly_p * k"
    by (simp add: assms(9))
  finally show ?thesis .
qed

lemma fold_carries:
  fixes x0 x1 x2 x3 x4 u0 u1 u2 u3 u4 u5 :: nat
  assumes "u5 = x3 div 2 ^ 32 + x4" "u0 = u5 div 4 * 5 + x0 mod 2 ^ 32"
    "u1 = u0 div 2 ^ 32 + x1 mod 2 ^ 32 + x0 div 2 ^ 32" "u2 = u1 div 2 ^ 32 + x2 mod 2 ^ 32 + x1 div 2 ^ 32"
    "u3 = u2 div 2 ^ 32 + x3 mod 2 ^ 32 + x2 div 2 ^ 32" "u4 = u3 div 2 ^ 32 + u5 mod 4"
  shows "x0 + 2 ^ 32 * x1 + 2 ^ 64 * x2 + 2 ^ 96 * x3 + 2 ^ 128 * x4 =
    u0 mod 2 ^ 32 + 2 ^ 32 * (u1 mod 2 ^ 32) + 2 ^ 64 * (u2 mod 2 ^ 32) + 2 ^ 96 * (u3 mod 2 ^ 32) + 2 ^ 128 * u4 + poly_p * (u5 div 4)"
  unfolding assms(6)
  by (rule carries_linear[where ?a0.0 = "x0 mod 2 ^ 32" and ?b0.0 = "x0 div 2 ^ 32" and ?a1.0 = "x1 mod 2 ^ 32" and ?b1.0 = "x1 div 2 ^ 32"
      and ?a2.0 = "x2 mod 2 ^ 32" and ?b2.0 = "x2 div 2 ^ 32" and ?a3.0 = "x3 mod 2 ^ 32" and ?b3.0 = "x3 div 2 ^ 32"
      and ?d0.0 = "u0 div 2 ^ 32" and ?d1.0 = "u1 div 2 ^ 32" and ?d2.0 = "u2 div 2 ^ 32" and ?d3.0 = "u3 div 2 ^ 32"])
    (simp_all only: assms(1-5)[symmetric] mult_div_mod_eq mod_mult_div_eq)

subsection \<open>No overflow\<close>

lemma unat_u32: "unat (x :: u32) < 2 ^ 32"
  using unsigned_less[of x] by simp

lemma unat_ucast_widen: "unat (ucast (x :: u32) :: u64) = unat x"
  using unat_u32[of x] by (simp add: unsigned_ucast_eq take_bit_eq_mod)

lemma unat_ucast_down: "unat (ucast (x :: u64) :: u32) = unat x mod 2 ^ 32"
  by (simp add: unsigned_ucast_eq take_bit_eq_mod)

lemma unat_and_low: "unat ((x :: u64) AND 0xffffffff) = unat x mod 2 ^ 32"
  by (simp add: mask_FFFFFFFF unat_take_bit_mod flip: take_bit_eq_mask)

lemma unat_and_3: "unat ((x :: u32) AND 3) = unat x mod 4"
proof -
  have "(3 :: u32) = mask 2" by (simp add: mask_eq_exp_minus_1)
  then have "x AND 3 = take_bit 2 x" by (simp only: take_bit_eq_mask)
  then show ?thesis by (simp add: unat_take_bit_mod)
qed

lemma unat_plus: "unat a + unat b < 2 ^ LENGTH('a) \<Longrightarrow> unat (a + b :: 'a::len word) = unat a + unat b"
  by (simp add: unat_word_ariths)

lemma unat_times: "unat a * unat b < 2 ^ LENGTH('a) \<Longrightarrow> unat (a * b :: 'a::len word) = unat a * unat b"
  by (simp add: unat_word_ariths)

lemma limb_product:
  fixes s :: u64 and r :: u32
  assumes "unat s < 2 ^ 33" "unat r < 5 * 2 ^ 26"
  shows "unat (s * ucast r) = unat s * unat r" "unat s * unat r < 5 * 2 ^ 59"
proof -
  have "unat s * unat r < 2 ^ 33 * (5 * 2 ^ 26)" using assms by (intro mult_strict_mono) simp_all
  then show "unat s * unat r < 5 * 2 ^ 59" by simp
  then show "unat (s * ucast r) = unat s * unat r" by (subst unat_times) (simp_all add: unat_ucast_widen)
qed

lemma sum5:
  fixes a b c d :: u64 and e :: u32
  assumes "unat a < 5 * 2 ^ 59" "unat b < 5 * 2 ^ 59" "unat c < 5 * 2 ^ 59" "unat d < 5 * 2 ^ 59"
  shows "unat (a + b + c + d + ucast e) = unat a + unat b + unat c + unat d + unat e"
    "unat a + unat b + unat c + unat d + unat e < 21 * 2 ^ 59"
proof -
  show b: "unat a + unat b + unat c + unat d + unat e < 21 * 2 ^ 59" using assms unat_u32[of e] by simp
  have "unat (a + b + c + d + ucast e) = (unat a + unat b + unat c + unat d + unat e) mod 2 ^ 64"
    unfolding unat_word_ariths unat_ucast_widen by (simp only: mod_simps len_num1 len_bit0)  simp
  then show "unat (a + b + c + d + ucast e) = unat a + unat b + unat c + unat d + unat e" using b by simp
qed

lemma row:
  fixes s0 s1 s2 s3 :: u64 and s4 a b c d e :: u32
  assumes "unat s0 < 2 ^ 33" "unat s1 < 2 ^ 33" "unat s2 < 2 ^ 33" "unat s3 < 2 ^ 33" "unat s4 \<le> 5"
    "unat a < 5 * 2 ^ 26" "unat b < 5 * 2 ^ 26" "unat c < 5 * 2 ^ 26" "unat d < 5 * 2 ^ 26" "unat e < 5 * 2 ^ 26"
  shows "unat (s0 * ucast a + s1 * ucast b + s2 * ucast c + s3 * ucast d + ucast (s4 * e)) =
      unat s0 * unat a + unat s1 * unat b + unat s2 * unat c + unat s3 * unat d + unat s4 * unat e"
    "unat (s0 * ucast a + s1 * ucast b + s2 * ucast c + s3 * ucast d + ucast (s4 * e)) < 21 * 2 ^ 59"
proof -
  have "unat s4 * unat e \<le> 5 * (5 * 2 ^ 26)" using assms(5,10) by (intro mult_mono) simp_all
  then have e: "unat (s4 * e) = unat s4 * unat e" by (intro unat_times) simp
  note p = limb_product[OF assms(1) assms(6)] limb_product[OF assms(2) assms(7)] limb_product[OF assms(3) assms(8)]
    limb_product[OF assms(4) assms(9)]
  show "unat (s0 * ucast a + s1 * ucast b + s2 * ucast c + s3 * ucast d + ucast (s4 * e)) =
      unat s0 * unat a + unat s1 * unat b + unat s2 * unat c + unat s3 * unat d + unat s4 * unat e"
    "unat (s0 * ucast a + s1 * ucast b + s2 * ucast c + s3 * ucast d + ucast (s4 * e)) < 21 * 2 ^ 59"
    using sum5[of "s0 * ucast a" "s1 * ucast b" "s2 * ucast c" "s3 * ucast d" "s4 * e"] p e by simp_all
qed

subsection \<open>One block\<close>

definition hval :: "u32 list \<Rightarrow> nat" where
  "hval h = unat (h ! 0) + 2 ^ 32 * unat (h ! 1) + 2 ^ 64 * unat (h ! 2) + 2 ^ 96 * unat (h ! 3) + 2 ^ 128 * unat (h ! 4)"

definition rval :: "u32 list \<Rightarrow> nat" where
  "rval r = unat (r ! 0) + 2 ^ 32 * unat (r ! 1) + 2 ^ 64 * unat (r ! 2) + 2 ^ 96 * unat (r ! 3)"

definition r_ok :: "u32 list \<Rightarrow> bool" where
  "r_ok r \<longleftrightarrow> unat (r ! 0) < 2 ^ 28 \<and> (\<forall>i \<in> {1, 2, 3}. unat (r ! i) < 2 ^ 28 \<and> 4 dvd unat (r ! i))"

definition h_ok :: "u32 list \<Rightarrow> bool" where
  "h_ok h \<longleftrightarrow> length h = 5 \<and> unat (h ! 4) \<le> 4"

definition inval :: "byte list \<Rightarrow> nat" where
  "inval inp = unat (load32_le inp) + 2 ^ 32 * unat (load32_le (drop 4 inp)) + 2 ^ 64 * unat (load32_le (drop 8 inp)) +
     2 ^ 96 * unat (load32_le (drop 12 inp))"

lemma folded_limb:
  fixes r :: u32
  assumes "unat r < 2 ^ 28" "4 dvd unat r"
  shows "unat (drop_bit 2 r + r) = 5 * (unat r div 4)" "unat r = 4 * (unat r div 4)"
proof -
  show "unat r = 4 * (unat r div 4)" using assms(2) by simp
  then have "unat (drop_bit 2 r) + unat r = 5 * (unat r div 4)" by (simp add: unat_drop_bit_div)
  moreover from this have "unat (drop_bit 2 r) + unat r < 2 ^ LENGTH(32)" using assms(1) by simp
  ultimately show "unat (drop_bit 2 r + r) = 5 * (unat r div 4)" by (simp add: unat_plus)
qed

lemma sum_limb: "unat (ucast (a :: u32) + ucast (b :: u32) :: u64) = unat a + unat b"
    "unat (ucast (a :: u32) + ucast (b :: u32) :: u64) < 2 ^ 33"
  using unat_u32[of a] unat_u32[of b] by (simp_all add: unat_word_ariths unat_ucast_widen)

lemma carry_limb:
  fixes u x y :: u64
  shows "unat (ucast (ucast (drop_bit 32 u) :: u32) + (x AND 0xffffffff) + drop_bit 32 y) = unat u div 2 ^ 32 + unat x mod 2 ^ 32 + unat y div 2 ^ 32"
proof -
  have b: "unat u div 2 ^ 32 < 2 ^ 32" "unat y div 2 ^ 32 < 2 ^ 32" using unat_u64_bound[of u] unat_u64_bound[of y] by simp_all
  have "unat (ucast (ucast (drop_bit 32 u) :: u32) :: u64) = unat u div 2 ^ 32"
    using b(1) unfolding unat_ucast_widen unat_ucast_down unat_drop_bit_div by simp
  moreover have "unat (x AND 0xffffffff) = unat x mod 2 ^ 32" by (rule unat_and_low)
  moreover have "unat (drop_bit 32 y) = unat y div 2 ^ 32" by (rule unat_drop_bit_div)
  moreover have "unat x mod 2 ^ 32 < 2 ^ 32" by simp
  ultimately show ?thesis using b by (subst unat_plus; (subst unat_plus)?) (simp_all)
qed

lemma reduce_limbs:
  fixes x0 x1 x2 x3 :: u64 and x4 :: u32
  assumes "unat x0 < 21 * 2 ^ 59" "unat x1 < 21 * 2 ^ 59" "unat x2 < 21 * 2 ^ 59" "unat x3 < 21 * 2 ^ 59" "unat x4 \<le> 15"
  defines "u5 \<equiv> ucast (drop_bit 32 x3) + x4"
  defines "u0 \<equiv> ucast (drop_bit 2 u5 * 5) + (x0 AND 0xffffffff)"
  defines "u1 \<equiv> ucast (ucast (drop_bit 32 u0) :: u32) + (x1 AND 0xffffffff) + drop_bit 32 x0"
  defines "u2 \<equiv> ucast (ucast (drop_bit 32 u1) :: u32) + (x2 AND 0xffffffff) + drop_bit 32 x1"
  defines "u3 \<equiv> ucast (ucast (drop_bit 32 u2) :: u32) + (x3 AND 0xffffffff) + drop_bit 32 x2"
  defines "u4 \<equiv> ucast (drop_bit 32 u3) + (u5 AND 3)"
  defines "h \<equiv> [ucast (u0 AND 0xffffffff), ucast (u1 AND 0xffffffff), ucast (u2 AND 0xffffffff), ucast (u3 AND 0xffffffff), u4]"
  shows "\<exists>k. unat x0 + 2 ^ 32 * unat x1 + 2 ^ 64 * unat x2 + 2 ^ 96 * unat x3 + 2 ^ 128 * unat x4 = hval h + poly_p * k" "h_ok h"
proof -
  have x3: "unat x3 div 2 ^ 32 < 21 * 2 ^ 27" "unat x2 div 2 ^ 32 < 21 * 2 ^ 27" "unat x1 div 2 ^ 32 < 21 * 2 ^ 27"
    using assms(2-4) by simp_all
  have u5: "unat u5 = unat x3 div 2 ^ 32 + unat x4" "unat u5 < 22 * 2 ^ 27"
  proof -
    have "unat (ucast (drop_bit 32 x3) :: u32) = unat x3 div 2 ^ 32"
      using x3(1) unfolding unat_ucast_down unat_drop_bit_div by simp
    then show "unat u5 = unat x3 div 2 ^ 32 + unat x4" unfolding u5_def using x3(1) assms(5) by (subst unat_plus) simp_all
    then show "unat u5 < 22 * 2 ^ 27" using x3(1) assms(5) by simp
  qed
  have k: "unat (drop_bit 2 u5 * 5) = unat u5 div 4 * 5" using u5(2) by (subst unat_times) (simp_all add: unat_drop_bit_div)
  have u0: "unat u0 = unat u5 div 4 * 5 + unat x0 mod 2 ^ 32"
  proof -
    have "unat x0 mod 2 ^ 32 < 2 ^ 32" by simp
    then show ?thesis unfolding u0_def using u5(2) by (subst unat_plus) (simp_all add: unat_ucast_widen k unat_and_low)
  qed
  have u1: "unat u1 = unat u0 div 2 ^ 32 + unat x1 mod 2 ^ 32 + unat x0 div 2 ^ 32" unfolding u1_def by (rule carry_limb)
  have u2: "unat u2 = unat u1 div 2 ^ 32 + unat x2 mod 2 ^ 32 + unat x1 div 2 ^ 32" unfolding u2_def by (rule carry_limb)
  have u3: "unat u3 = unat u2 div 2 ^ 32 + unat x3 mod 2 ^ 32 + unat x2 div 2 ^ 32" unfolding u3_def by (rule carry_limb)
  have "unat x2 mod 2 ^ 32 < 2 ^ 32" "unat u1 div 2 ^ 32 < 2 ^ 32" using unat_u64_bound[of u1] by simp_all
  then have "unat u2 < 3 * 2 ^ 32" using u2 x3(3) by simp
  then have "unat u2 div 2 ^ 32 < 3" by simp
  moreover have "unat x3 mod 2 ^ 32 < 2 ^ 32" by simp
  ultimately have "unat u3 < 2 * 2 ^ 32" using u3 x3(2) by simp
  then have u3d: "unat u3 div 2 ^ 32 \<le> 1" by simp
  have u4: "unat u4 = unat u3 div 2 ^ 32 + unat u5 mod 4" "unat u4 \<le> 4"
  proof -
    have "unat (ucast (drop_bit 32 u3) :: u32) = unat u3 div 2 ^ 32"
      using u3d unfolding unat_ucast_down unat_drop_bit_div by simp
    moreover have "unat u5 mod 4 < 4" by simp
    ultimately show "unat u4 = unat u3 div 2 ^ 32 + unat u5 mod 4" unfolding u4_def using u3d by (subst unat_plus) (simp_all add: unat_and_3)
    then show "unat u4 \<le> 4" using u3d \<open>unat u5 mod 4 < 4\<close> by simp
  qed
  have "unat (ucast (x AND 0xffffffff) :: u32) = unat x mod 2 ^ 32" for x :: u64 by (simp add: unat_ucast_down)
  then have "hval h = unat u0 mod 2 ^ 32 + 2 ^ 32 * (unat u1 mod 2 ^ 32) + 2 ^ 64 * (unat u2 mod 2 ^ 32) + 2 ^ 96 * (unat u3 mod 2 ^ 32) + 2 ^ 128 * unat u4"
    by (simp add: hval_def h_def)
  then show "\<exists>k. unat x0 + 2 ^ 32 * unat x1 + 2 ^ 64 * unat x2 + 2 ^ 96 * unat x3 + 2 ^ 128 * unat x4 = hval h + poly_p * k"
    using fold_carries[OF u5(1) u0 u1 u2 u3 u4(1)] by metis
  show "h_ok h" using u4(2) by (simp add: h_ok_def h_def)
qed

lemma poly_block_correct:
  assumes "r_ok r" "h_ok h" "unat fin \<le> 1"
  shows "hval (poly_block r inp fin h) mod poly_p = (hval h + inval inp + 2 ^ 128 * unat fin) * rval r mod poly_p"
    "h_ok (poly_block r inp fin h)"
proof -
  define r0 r1 r2 r3 where "r0 = r ! 0" and "r1 = r ! 1" and "r2 = r ! 2" and "r3 = r ! 3"
  define rr0 rr1 rr2 rr3 rr4 where "rr0 = drop_bit 2 r0 * 5" and "rr1 = drop_bit 2 r1 + r1" and "rr2 = drop_bit 2 r2 + r2"
    and "rr3 = drop_bit 2 r3 + r3" and "rr4 = r0 AND 3"
  define s0 s1 s2 s3 where "s0 = (ucast (h ! 0) + ucast (load32_le inp) :: u64)"
    and "s1 = (ucast (h ! 1) + ucast (load32_le (drop 4 inp)) :: u64)"
    and "s2 = (ucast (h ! 2) + ucast (load32_le (drop 8 inp)) :: u64)"
    and "s3 = (ucast (h ! 3) + ucast (load32_le (drop 12 inp)) :: u64)"
  define s4 where "s4 = h ! 4 + fin"
  define x0 x1 x2 x3 where "x0 = s0 * ucast r0 + s1 * ucast rr3 + s2 * ucast rr2 + s3 * ucast rr1 + ucast (s4 * rr0)"
    and "x1 = s0 * ucast r1 + s1 * ucast r0 + s2 * ucast rr3 + s3 * ucast rr2 + ucast (s4 * rr1)"
    and "x2 = s0 * ucast r2 + s1 * ucast r1 + s2 * ucast r0 + s3 * ucast rr3 + ucast (s4 * rr2)"
    and "x3 = s0 * ucast r3 + s1 * ucast r2 + s2 * ucast r1 + s3 * ucast r0 + ucast (s4 * rr3)"
  note defs = r0_def r1_def r2_def r3_def rr0_def rr1_def rr2_def rr3_def rr4_def s0_def s1_def s2_def s3_def s4_def
    x0_def x1_def x2_def x3_def
  let ?q = "\<lambda>x :: u32. unat x div 4"
  have r: "unat r0 < 2 ^ 28" "unat r1 < 2 ^ 28" "unat r2 < 2 ^ 28" "unat r3 < 2 ^ 28" "4 dvd unat r1" "4 dvd unat r2" "4 dvd unat r3"
    using assms(1) by (simp_all add: r_ok_def r0_def r1_def r2_def r3_def)
  have r0: "unat r0 = 4 * ?q r0 + unat rr4" by (simp add: rr4_def unat_and_3)
  have rr0: "unat rr0 = 5 * ?q r0" unfolding rr0_def using r(1) by (subst unat_times) (simp_all add: unat_drop_bit_div)
  note rr = folded_limb[OF r(2,5), folded rr1_def] folded_limb[OF r(3,6), folded rr2_def] folded_limb[OF r(4,7), folded rr3_def]
  have s: "unat s0 = unat (h ! 0) + unat (load32_le inp)" "unat s1 = unat (h ! 1) + unat (load32_le (drop 4 inp))"
    "unat s2 = unat (h ! 2) + unat (load32_le (drop 8 inp))" "unat s3 = unat (h ! 3) + unat (load32_le (drop 12 inp))"
    "unat s0 < 2 ^ 33" "unat s1 < 2 ^ 33" "unat s2 < 2 ^ 33" "unat s3 < 2 ^ 33"
    unfolding s0_def s1_def s2_def s3_def by (rule sum_limb)+
  have s4: "unat s4 = unat (h ! 4) + unat fin" "unat s4 \<le> 5"
    using assms(2,3) unfolding s4_def h_ok_def by (simp_all add: unat_plus)
  have b: "unat r0 < 5 * 2 ^ 26" "unat r1 < 5 * 2 ^ 26" "unat r2 < 5 * 2 ^ 26" "unat r3 < 5 * 2 ^ 26"
    "unat rr0 < 5 * 2 ^ 26" "unat rr1 < 5 * 2 ^ 26" "unat rr2 < 5 * 2 ^ 26" "unat rr3 < 5 * 2 ^ 26"
    using r rr0 rr(1,3,5) by simp_all
  note x = row[OF s(5-8) s4(2) b(1) b(8) b(7) b(6) b(5), folded x0_def] row[OF s(5-8) s4(2) b(2) b(1) b(8) b(7) b(6), folded x1_def]
    row[OF s(5-8) s4(2) b(3) b(2) b(1) b(8) b(7), folded x2_def] row[OF s(5-8) s4(2) b(4) b(3) b(2) b(1) b(8), folded x3_def]
  have "unat rr4 \<le> 3" by (simp add: rr4_def unat_and_3)
  then have "unat s4 * unat rr4 \<le> 5 * 3" using s4(2) by (intro mult_mono) simp_all
  then have x4: "unat (s4 * rr4) = unat s4 * unat rr4" "unat (s4 * rr4) \<le> 15" by (simp_all add: unat_times)
  note red = reduce_limbs[OF x(2) x(4) x(6) x(8) x4(2)]
  show "h_ok (poly_block r inp fin h)" using red(2) unfolding poly_block_def Let_def defs .
  obtain k where k: "unat x0 + 2 ^ 32 * unat x1 + 2 ^ 64 * unat x2 + 2 ^ 96 * unat x3 + 2 ^ 128 * unat (s4 * rr4) =
      hval (poly_block r inp fin h) + poly_p * k"
    using red(1) unfolding poly_block_def Let_def defs by blast
  have S: "hval h + inval inp + 2 ^ 128 * unat fin =
      unat s0 + 2 ^ 32 * unat s1 + 2 ^ 64 * unat s2 + 2 ^ 96 * unat s3 + 2 ^ 128 * unat s4"
    by (simp add: hval_def inval_def s s4(1) distrib_left)
  have R: "rval r = unat r0 + 2 ^ 32 * unat r1 + 2 ^ 64 * unat r2 + 2 ^ 96 * unat r3"
    by (simp only: rval_def r0_def r1_def r2_def r3_def)
  have "\<exists>j. (hval h + inval inp + 2 ^ 128 * unat fin) * rval r = hval (poly_block r inp fin h) + poly_p * k + poly_p * j"
    using fold_product[of "unat s0" "unat s1" "unat s2" "unat s3" "unat s4" "?q r0" "unat rr4" "?q r1" "?q r2" "?q r3"]
    unfolding S R k[symmetric] x4(1) x(1) x(3) x(5) x(7) rr0 rr(1,3,5) r0[symmetric] rr(2,4,6)[symmetric] by (rule exI)
  then obtain j where "(hval h + inval inp + 2 ^ 128 * unat fin) * rval r = hval (poly_block r inp fin h) + poly_p * k + poly_p * j" ..
  then show "hval (poly_block r inp fin h) mod poly_p = (hval h + inval inp + 2 ^ 128 * unat fin) * rval r mod poly_p"
    by (simp only: mod_mult_self2)
qed

subsection \<open>Bytes and numbers\<close>

lemma le_num_append: "le_num (xs @ ys) = le_num xs + 256 ^ length xs * le_num ys"
  by (induction xs) (simp_all add: algebra_simps)

lemma le_num_zeros [simp]: "le_num (zeros n) = 0"
  by (induction n) simp_all

lemma unat_byte_shift:
  fixes b :: byte
  shows "n \<le> 24 \<Longrightarrow> unat (push_bit n (ucast b) :: u32) = 2 ^ n * unat b"
proof -
  assume n: "n \<le> 24"
  have b: "unat b < 2 ^ 8" using unsigned_less[of b] by simp
  have "2 ^ n * unat b < 2 ^ n * 2 ^ 8" using b by simp
  also have "\<dots> \<le> 2 ^ 32" using n power_increasing[of "n + 8" 32 "2 :: nat"] by (simp add: power_add)
  finally have l: "2 ^ n * unat b < 2 ^ 32" .
  have "unat (ucast b :: u32) = unat b" using b by (simp add: unsigned_ucast_eq take_bit_eq_mod)
  then show ?thesis using l unfolding unsigned_push_bit_eq push_bit_eq_mult[where 'a = nat] take_bit_eq_mod[where 'a = nat]
    by (simp add: mult.commute)
qed

lemma unat_load32:
  assumes "4 \<le> length s"
  shows "unat (load32_le s) = le_num (take 4 s)"
proof -
  obtain a b c d t where s: "s = a # b # c # d # t" using assms by (auto simp: numeral_eq_Suc Suc_le_length_iff)
  have disj: "x OR y = x + y" if "\<And>n. \<not> bit x n \<or> \<not> bit y n" for x y :: u32
    using that by (simp add: disjunctive_add)
  have "load32_le s = ucast a + (push_bit 8 (ucast b) + (push_bit 16 (ucast c) + push_bit 24 (ucast d)))"
  proof -
    have "push_bit 16 (ucast c) OR push_bit 24 (ucast d) = (push_bit 16 (ucast c) + push_bit 24 (ucast d) :: u32)"
      by (rule disj) (auto simp: bit_simps dest: bit_byte_le)
    moreover have "push_bit 8 (ucast b) OR (push_bit 16 (ucast c) OR push_bit 24 (ucast d)) =
        (push_bit 8 (ucast b) + (push_bit 16 (ucast c) OR push_bit 24 (ucast d)) :: u32)"
      by (rule disj) (auto simp: bit_simps dest: bit_byte_le)
    moreover have "ucast a OR (push_bit 8 (ucast b) OR (push_bit 16 (ucast c) OR push_bit 24 (ucast d))) =
        (ucast a + (push_bit 8 (ucast b) OR (push_bit 16 (ucast c) OR push_bit 24 (ucast d))) :: u32)"
      by (rule disj) (auto simp: bit_simps dest: bit_byte_le)
    ultimately show ?thesis by (simp add: load32_le_def s)
  qed
  moreover have "unat a < 256" "unat b < 256" "unat c < 256" "unat d < 256"
    using unsigned_less[of a] unsigned_less[of b] unsigned_less[of c] unsigned_less[of d] by simp_all
  moreover have "unat (ucast a :: u32) = unat a" using unat_byte_shift[of 0 a] by simp
  ultimately show ?thesis
    unfolding s by (simp add: unat_word_ariths unat_byte_shift)
qed

lemma inval_le_num:
  assumes "16 \<le> length inp"
  shows "inval inp = le_num (take 16 inp)"
proof -
  have "take 16 inp = take 4 inp @ take 4 (drop 4 inp) @ take 4 (drop 8 inp) @ take 4 (drop 12 inp)"
    using take_add[of 4 12 inp] take_add[of 4 8 "drop 4 inp"] take_add[of 4 4 "drop 8 inp"] by simp
  then show ?thesis using assms by (simp add: inval_def unat_load32 le_num_append distrib_left)
qed

lemma le_num_one: "le_num (b @ [1]) = le_num b + 2 ^ (8 * length b)"
  by (simp add: le_num_append power_mult)

subsection \<open>Pieces of a message\<close>

lemma pieces16_Nil [simp]: "pieces16 [] = []"
  by (simp add: pieces16.simps)

lemma pieces16_append: "16 dvd length a \<Longrightarrow> pieces16 (a @ b) = pieces16 a @ pieces16 b"
proof (induction a rule: pieces16.induct)
  case (1 a)
  show ?case
  proof (cases "a = []")
    case False
    then have l: "16 \<le> length a" using "1.prems" by (metis dvd_imp_le length_greater_0_conv)
    then have "16 dvd length (drop 16 a)" using "1.prems" by (simp add: dvd_minus_self)
    then show ?thesis using "1.IH"[OF False] False l by (subst pieces16.simps, subst (2) pieces16.simps) simp
  qed simp
qed

lemma pieces16_short: "m \<noteq> [] \<Longrightarrow> length m \<le> 16 \<Longrightarrow> pieces16 m = [m]"
  by (subst pieces16.simps) simp

lemma poly_acc_append: "poly_acc r (xs @ ys) acc = poly_acc r ys (poly_acc r xs acc)"
  by (simp add: poly_acc_def)

lemma poly_acc_mod: "poly_acc r xs acc mod poly_p = poly_acc r xs (acc mod poly_p) mod poly_p"
proof (cases xs)
  case (Cons x xs')
  have "(acc mod poly_p + y) * r mod poly_p = (acc + y) * r mod poly_p" for y by (metis mod_add_left_eq mod_mult_left_eq)
  then show ?thesis by (simp add: Cons poly_acc_def)
qed (simp add: poly_acc_def)

lemma poly_p_pos: "0 < poly_p"
  by (simp add: poly_p_def)

lemma poly_acc_less: "xs \<noteq> [] \<Longrightarrow> poly_acc r xs acc < poly_p"
  by (cases xs rule: rev_cases) (simp_all add: poly_acc_def poly_p_pos)

lemma poly_blocks_correct:
  assumes "r_ok r" "h_ok h" "16 * n \<le> length inp"
  shows "hval (poly_blocks r inp n 1 h) mod poly_p = poly_acc (rval r) (pieces16 (take (16 * n) inp)) (hval h) mod poly_p \<and>
    h_ok (poly_blocks r inp n 1 h)"
  using assms(2,3)
proof (induction n arbitrary: inp h)
  case (Suc n)
  let ?h = "poly_block r inp 1 h"
  note b = poly_block_correct[OF assms(1) Suc.prems(1), of 1 inp, simplified]
  have l: "length (take 16 inp) = 16" using Suc.prems by simp
  have "inval inp + 2 ^ 128 = le_num (take 16 inp @ [1])" using Suc.prems l by (simp add: le_num_one inval_le_num)
  then have h: "hval ?h mod poly_p = poly_acc (rval r) [take 16 inp] (hval h) mod poly_p"
    using b(1) by (simp add: poly_acc_def add.assoc)
  have "take (16 * Suc n) inp = take 16 inp @ take (16 * n) (drop 16 inp)" using take_add[of 16 "16 * n" inp] by simp
  then have p: "pieces16 (take (16 * Suc n) inp) = [take 16 inp] @ pieces16 (take (16 * n) (drop 16 inp))"
    using l pieces16_append[of "take 16 inp"] pieces16_short[of "take 16 inp"] by fastforce
  have "hval (poly_blocks r (drop 16 inp) n 1 ?h) mod poly_p =
      poly_acc (rval r) (pieces16 (take (16 * n) (drop 16 inp))) (hval ?h) mod poly_p \<and> h_ok (poly_blocks r (drop 16 inp) n 1 ?h)"
    using Suc.prems b(2) by (intro Suc.IH) simp_all
  then show ?case
    using h poly_acc_mod[of "rval r" _ "hval ?h"] poly_acc_mod[of "rval r" _ "poly_acc (rval r) [take 16 inp] (hval h)"]
    unfolding p poly_acc_append by simp
qed (simp add: poly_acc_def)

subsection \<open>Streaming\<close>

definition absorbed :: "byte list \<Rightarrow> u32 list \<Rightarrow> crypto_poly1305_ctx \<Rightarrow> bool" where
  "absorbed m pad ctx \<longleftrightarrow>
     (\<exists>a t. m = a @ t \<and> 16 dvd length a \<and> length t < 16 \<and> poly_c_idx ctx = length t \<and> length (poly_c ctx) = 16 \<and>
        take (length t) (poly_c ctx) = t \<and> r_ok (poly_r ctx) \<and> h_ok (poly_h ctx) \<and> poly_pad ctx = pad \<and>
        hval (poly_h ctx) mod poly_p = poly_acc (rval (poly_r ctx)) (pieces16 a) 0 mod poly_p)"

lemma poly_r_update [simp]:
  "poly_r (crypto_poly1305_update m ctx) = poly_r ctx"
  by (simp add: crypto_poly1305_update_def Let_def)

text \<open>Whole blocks, processed where the buffer is empty.\<close>

lemma absorb_blocks:
  assumes "r_ok r" "h_ok h" "hval h mod poly_p = poly_acc (rval r) (pieces16 a) 0 mod poly_p" "16 dvd length a" "16 * n \<le> length b"
  shows "h_ok (poly_blocks r b n 1 h)"
    "hval (poly_blocks r b n 1 h) mod poly_p = poly_acc (rval r) (pieces16 (a @ take (16 * n) b)) 0 mod poly_p"
proof -
  note c = poly_blocks_correct[OF assms(1,2,5)]
  then show "h_ok (poly_blocks r b n 1 h)" ..
  have "hval (poly_blocks r b n 1 h) mod poly_p = poly_acc (rval r) (pieces16 (take (16 * n) b)) (hval h mod poly_p) mod poly_p"
    using c poly_acc_mod by metis
  then show "hval (poly_blocks r b n 1 h) mod poly_p = poly_acc (rval r) (pieces16 (a @ take (16 * n) b)) 0 mod poly_p"
    using poly_acc_mod by (metis assms(3,4) pieces16_append poly_acc_append)
qed

lemma absorb_aligned:
  fixes b :: "byte list"
  assumes "r_ok (poly_r ctx)" "h_ok (poly_h ctx)" "length (poly_c ctx) = 16" "poly_c_idx ctx = 0" "16 dvd length a"
    "hval (poly_h ctx) mod poly_p = poly_acc (rval (poly_r ctx)) (pieces16 a) 0 mod poly_p" "poly_pad ctx = pad"
  defines "n \<equiv> length b div 16"
  defines "ctx' \<equiv> ctx\<lparr>poly_h := poly_blocks (poly_r ctx) b n 1 (poly_h ctx)\<rparr>"
  shows "absorbed (a @ b) pad (ctx'\<lparr>poly_c := put_bytes (poly_c_idx ctx') (drop (n * 16) b) (poly_c ctx'),
     poly_c_idx := poly_c_idx ctx' + length (drop (n * 16) b)\<rparr>)"
proof -
  let ?t = "drop (16 * n) b"
  have n: "16 * n \<le> length b" by (simp add: n_def)
  have t: "length ?t = length b mod 16" by (simp add: n_def minus_mult_div_eq_mod)
  have "16 dvd length (a @ take (16 * n) b)" using assms(5) n by simp
  moreover have "take (length ?t) (put_bytes 0 ?t (poly_c ctx)) = ?t" by (simp add: put_bytes_0)
  moreover have "length (put_bytes 0 ?t (poly_c ctx)) = 16" using t assms(3) by simp
  ultimately show ?thesis
    unfolding absorbed_def using absorb_blocks[OF assms(1,2,6,5) n] assms(1,4,7) t
    by (intro exI[of _ "a @ take (16 * n) b"] exI[of _ ?t]) (simp add: ctx'_def mult.commute)
qed

lemma update_absorbs:
  assumes "absorbed m pad ctx"
  shows "absorbed (m @ x) pad (crypto_poly1305_update x ctx)"
proof (cases "x = []")
  case False
  obtain a t where m: "m = a @ t" "16 dvd length a" "length t < 16" "poly_c_idx ctx = length t" "length (poly_c ctx) = 16"
    "take (length t) (poly_c ctx) = t" "r_ok (poly_r ctx)" "h_ok (poly_h ctx)" "poly_pad ctx = pad"
    "hval (poly_h ctx) mod poly_p = poly_acc (rval (poly_r ctx)) (pieces16 a) 0 mod poly_p"
    using assms unfolding absorbed_def by (elim exE conjE)
  have "unat (of_nat (length t) :: u64) = length t" using m(3) by (simp add: unat_of_nat)
  then have g: "unat (gap (of_nat (length t)) 16) = (16 - length t) mod 16" using m(3) by (simp add: gap_value)
  define k where "k = min ((16 - length t) mod 16) (length x)"
  have gk: "min (unat (gap (of_nat (poly_c_idx ctx)) 16)) (length x) = k" by (simp add: k_def m(4) g)
  let ?c = "put_bytes (length t) (take k x) (poly_c ctx)"
  have lk: "length (take k x) = k" by (simp add: k_def)
  have k: "length t + k \<le> 16" using m(3) by (auto simp: k_def mod_le_divisor) 
  have c: "length ?c = 16" "take (length t + k) ?c = t @ take k x"
    using k m(5,6) lk by (simp_all add: take_put_bytes)
  consider (aligned) "t = []" "k = 0" | (full) "length t + k = 16" | (partial) "0 < length t + k" "length t + k < 16" "k = length x"
    using m(3) by (cases "t = []"; cases "16 - length t \<le> length x") (auto simp: k_def min_def)
  then show ?thesis
  proof cases
    case aligned
    then show ?thesis
      using absorb_aligned[OF m(7,8,5) _ m(2,10,9), of x] m False
      unfolding crypto_poly1305_update_def Let_def gk by (simp add: put_bytes_def)
  next
    case full
    let ?ctx = "ctx\<lparr>poly_c := ?c, poly_h := poly_blocks (poly_r ctx) ?c 1 1 (poly_h ctx), poly_c_idx := 0\<rparr>"
    have f: "take 16 ?c = t @ take k x" using c(2) unfolding full .
    then have "a @ take (16 * 1) ?c = a @ t @ take k x" by (simp only: mult_1_right)
    note b = absorb_blocks[OF m(7,8,10,2), of 1 ?c, unfolded this]
    have "absorbed ((a @ t @ take k x) @ drop k x) pad (let n = length (drop k x) div 16;
        ctx' = ?ctx\<lparr>poly_h := poly_blocks (poly_r ?ctx) (drop k x) n 1 (poly_h ?ctx)\<rparr>
      in ctx'\<lparr>poly_c := put_bytes (poly_c_idx ctx') (drop (n * 16) (drop k x)) (poly_c ctx'),
         poly_c_idx := poly_c_idx ctx' + length (drop (n * 16) (drop k x))\<rparr>)"
      unfolding Let_def using m(2,7,9) b c(1) full lk by (intro absorb_aligned) simp_all
    then show ?thesis
      using False full lk m(1,4) unfolding crypto_poly1305_update_def Let_def gk by simp
  next
    case partial
    then have "absorbed (a @ (t @ x)) pad (ctx\<lparr>poly_c := ?c, poly_c_idx := length t + k\<rparr>)"
      unfolding absorbed_def using m c by (intro exI[of _ a] exI[of _ "t @ x"]) simp
    then show ?thesis
      using False partial m(1,4) c(1) unfolding crypto_poly1305_update_def Let_def gk by (simp add: put_bytes_def[of _ "[]"])
  qed
qed (use assms in \<open>simp add: crypto_poly1305_update_def\<close>)

subsection \<open>The key\<close>

lemma clamp_masks: "(0x0fffffff :: u32) = mask 28" "(0x0ffffffc :: u32) = push_bit 2 (mask 26)" "(15 :: byte) = mask 4" "(252 :: byte) = push_bit 2 (mask 6)"
  by (simp_all add: mask_eq_exp_minus_1)

lemma load32_clamp0: "load32_le [a, b, c, d AND 15] = load32_le [a, b, c, d] AND 0x0fffffff"
  unfolding load32_le_def clamp_masks by (rule bit_word_eqI) (auto simp: bit_simps dest: bit_byte_le)

lemma load32_clamp: "load32_le [a AND 252, b, c, d AND 15] = load32_le [a, b, c, d] AND 0x0ffffffc"
  unfolding load32_le_def clamp_masks by (rule bit_word_eqI) (auto simp: bit_simps dest: bit_byte_le)

lemma load32_nth: "load32_le s = load32_le [s ! 0, s ! 1, s ! 2, s ! 3]"
  by (simp add: load32_le_def)

definition clamped_words :: "byte list \<Rightarrow> u32 list" where
  "clamped_words key = map (\<lambda>i. load32_le (drop (4 * i) (clamp key))) [0..<4]"

lemma nth_clamp: "i < 16 \<Longrightarrow> clamp k ! i = (if i \<in> {3, 7, 11, 15} then k ! i AND 15 else if i \<in> {4, 8, 12} then k ! i AND 252 else k ! i)"
  by (simp add: clamp_def del: upt_conv_Cons)

lemma length_clamp [simp]: "length (clamp k) = 16"
  by (simp add: clamp_def)

lemma upt4: "[0..<4] = [0, 1, 2, 3 :: nat]"
  by (simp add: upt_rec)

lemma init_words:
  assumes "16 \<le> length key"
  shows "poly_r (crypto_poly1305_init key ctx) = clamped_words key"
proof -
  have "load32_le (clamp key) = load32_le key AND 0x0fffffff"
    using load32_clamp0[of "key ! 0" "key ! 1" "key ! 2" "key ! 3"] by (subst (1 2) load32_nth) (simp add: nth_clamp)
  moreover have "load32_le (drop 4 (clamp key)) = load32_le (drop 4 key) AND 0x0ffffffc"
    using assms load32_clamp[of "key ! 4" "key ! 5" "key ! 6" "key ! 7"] by (subst (1 2) load32_nth) (simp add: nth_clamp)
  moreover have "load32_le (drop 8 (clamp key)) = load32_le (drop 8 key) AND 0x0ffffffc"
    using assms load32_clamp[of "key ! 8" "key ! 9" "key ! 10" "key ! 11"] by (subst (1 2) load32_nth) (simp add: nth_clamp)
  moreover have "load32_le (drop 12 (clamp key)) = load32_le (drop 12 key) AND 0x0ffffffc"
    using assms load32_clamp[of "key ! 12" "key ! 13" "key ! 14" "key ! 15"] by (subst (1 2) load32_nth) (simp add: nth_clamp)
  ultimately show ?thesis
    by (simp add: crypto_poly1305_init_def Let_def load32_le_buf_def clamped_words_def upt4)
qed

lemma unat_and_bound: "unat (x AND y :: u32) \<le> unat y"
  using word_and_le1[of x y] by (simp add: word_le_nat_alt)

lemma unat_and_fc: "4 dvd unat (x AND 0x0ffffffc :: u32)"
proof -
  have "(x AND 0x0ffffffc) AND 3 = 0" unfolding and.assoc by simp
  then have "unat (x AND 0x0ffffffc) mod 4 = 0" unfolding unat_and_3[symmetric] by simp
  then show ?thesis by auto
qed

lemma r_ok_init: "r_ok (poly_r (crypto_poly1305_init key ctx))"
  using unat_and_bound[of _ "0x0fffffff"] unat_and_bound[of _ "0x0ffffffc"] unat_and_fc
  by (force simp: r_ok_def crypto_poly1305_init_def Let_def intro: le_less_trans)

lemma rval_init:
  assumes "16 \<le> length key"
  shows "rval (poly_r (crypto_poly1305_init key ctx)) = le_num (clamp key)"
proof -
  have "rval (clamped_words key) = inval (clamp key)" by (simp add: rval_def inval_def clamped_words_def)
  then show ?thesis using init_words[OF assms] inval_le_num[of "clamp key"] by simp
qed

lemma init_absorbs:
  assumes "length (poly_c ctx) = 16"
  shows "absorbed [] (load32_le_buf (drop 16 key) 4) (crypto_poly1305_init key ctx)"
proof -
  have "hval (replicate 5 0) = 0" "h_ok (replicate 5 0)" by (simp_all add: hval_def h_ok_def)
  then show ?thesis
    unfolding absorbed_def using r_ok_init[of key ctx] assms
    by (intro exI[of _ "[]"]) (simp add: crypto_poly1305_init_def Let_def poly_acc_def)
qed

subsection \<open>The tag\<close>

lemma length_le_bytes [simp]: "length (le_bytes n v) = n"
  by (simp add: le_bytes_def)

lemma le_bytes_add: "le_bytes (m + n) v = le_bytes m v @ le_bytes n (v div 256 ^ m)"
  by (rule nth_equalityI) (auto simp: le_bytes_def nth_append div_mult2_eq[symmetric] power_add[symmetric])

lemma of_nat_byte_cong: "(of_nat (a + 256 * b) :: byte) = of_nat a"
  by (subst word_of_nat_eq_iff) (simp add: take_bit_eq_mod)

lemma le_bytes_cong: "le_bytes n (a + 256 ^ n * b) = le_bytes n a"
proof -
  have "(of_nat ((a + 256 ^ n * b) div 256 ^ i) :: byte) = of_nat (a div 256 ^ i)" if "i < n" for i
  proof -
    have "(256 :: nat) ^ n * b = 256 ^ i * (256 * (256 ^ (n - Suc i) * b))"
      using that by (simp add: mult.assoc[symmetric] power_add[symmetric] flip: power_Suc)
    moreover have "(a + 256 ^ i * k) div 256 ^ i = a div 256 ^ i + k" for k by simp
    ultimately have "(a + 256 ^ n * b) div 256 ^ i = a div 256 ^ i + 256 * (256 ^ (n - Suc i) * b)" by (simp only:)
    then show ?thesis by (simp only: of_nat_byte_cong)
  qed
  then show ?thesis by (auto simp: le_bytes_def)
qed

lemma store32_le_bytes: "store32_le w = le_bytes 4 (unat w)"
proof -
  have "(ucast (drop_bit k w) :: byte) = of_nat (unat w div 2 ^ k)" for k
    by (simp add: unat_drop_bit_div[symmetric])
  from this[of 0] this[of 8] this[of 16] this[of 24] show ?thesis by (simp add: store32_le_def le_bytes_def upt4)
qed

lemma store_low: "store32_le (ucast (c :: u64)) = le_bytes 4 (unat c)"
proof -
  have "unat c = unat c mod 2 ^ 32 + 256 ^ 4 * (unat c div 2 ^ 32)" by simp
  then show ?thesis using le_bytes_cong[of 4 "unat c mod 2 ^ 32" "unat c div 2 ^ 32"] by (metis store32_le_bytes unat_ucast_down)
qed

text \<open>Adding limbs with carries writes the bytes of the sum.\<close>

lemma le_bytes_carry: "le_bytes 4 v @ le_bytes n (v div 2 ^ 32 + x) = le_bytes (4 + n) (v + 2 ^ 32 * x)"
proof -
  have "(v + 2 ^ 32 * x) div 256 ^ 4 = v div 2 ^ 32 + x" by simp
  moreover have "le_bytes 4 (v + 2 ^ 32 * x) = le_bytes 4 v" using le_bytes_cong[of 4 v x] by simp
  ultimately show ?thesis by (simp only: le_bytes_add)
qed

lemma add_limbs:
  fixes a b :: u32 and c :: u64
  assumes "unat c < 2 ^ 33"
  shows "unat (c + (ucast a + ucast b)) = unat c + (unat a + unat b)" "unat (drop_bit 32 (c + (ucast a + ucast b))) < 2 ^ 33"
proof -
  show u: "unat (c + (ucast a + ucast b)) = unat c + (unat a + unat b)"
    using assms unat_u32[of a] unat_u32[of b] by (simp add: unat_word_ariths unat_ucast_widen)
  then show "unat (drop_bit 32 (c + (ucast a + ucast b))) < 2 ^ 33"
    using assms unat_u32[of a] unat_u32[of b] by (simp add: unat_drop_bit_div)
qed

definition padval :: "u32 list \<Rightarrow> nat" where
  "padval pad = unat (pad ! 0) + 2 ^ 32 * unat (pad ! 1) + 2 ^ 64 * unat (pad ! 2) + 2 ^ 96 * unat (pad ! 3)"

text \<open>How many times \<open>2 ^ 130 - 5\<close> goes into the accumulator.\<close>

lemma quotient_carry:
  fixes h0 h1 h2 h3 h4 :: nat
  shows "(((((5 + h0) div 2 ^ 32 + h1) div 2 ^ 32 + h2) div 2 ^ 32 + h3) div 2 ^ 32 + h4) div 4 =
    (5 + (h0 + 2 ^ 32 * h1 + 2 ^ 64 * h2 + 2 ^ 96 * h3 + 2 ^ 128 * h4)) div 2 ^ 130"
proof -
  have step: "(a div 2 ^ 32 + x) = (a + 2 ^ 32 * x) div 2 ^ 32" for a x :: nat by simp
  have "(((((5 + h0) div 2 ^ 32 + h1) div 2 ^ 32 + h2) div 2 ^ 32 + h3) div 2 ^ 32 + h4) div 4 =
      (5 + h0 + 2 ^ 32 * (h1 + 2 ^ 32 * (h2 + 2 ^ 32 * (h3 + 2 ^ 32 * h4)))) div (2 ^ 32 * 2 ^ 32 * 2 ^ 32 * 2 ^ 32 * 4)"
    by (simp add: div_mult2_eq)
  also have "5 + h0 + 2 ^ 32 * (h1 + 2 ^ 32 * (h2 + 2 ^ 32 * (h3 + 2 ^ 32 * h4))) =
      5 + (h0 + 2 ^ 32 * h1 + 2 ^ 64 * h2 + 2 ^ 96 * h3 + 2 ^ 128 * h4)" by simp
  finally show ?thesis by simp
qed

lemma hval_less: "h_ok h \<Longrightarrow> hval h < 2 * poly_p"
  using unat_u32[of "h ! 0"] unat_u32[of "h ! 1"] unat_u32[of "h ! 2"] unat_u32[of "h ! 3"]
  by (simp add: hval_def h_ok_def poly_p_def)

lemma quotient_p: "n < 2 * poly_p \<Longrightarrow> (5 + n) div 2 ^ 130 = n div poly_p"
proof (cases "n < poly_p")
  case False
  assume n: "n < 2 * poly_p"
  define m where "m = n - poly_p"
  have m: "n = poly_p + m" "m < poly_p" using False n by (simp_all add: m_def)
  then have "5 + n = m + 2 ^ 130" "m < 2 ^ 130" by (simp_all add: poly_p_def)
  then have "(5 + n) div 2 ^ 130 = 1" by (simp add: div_add_self2)
  then show ?thesis using m by (simp add: div_add_self1)
qed (simp add: poly_p_def)

definition poly_finish :: "u32 list \<Rightarrow> u32 list \<Rightarrow> byte list" where
  "poly_finish h pad =
     (let c = fold (\<lambda>i c. drop_bit 32 (c + ucast (h ! i))) [0..<4] (5 :: u64);
          c = c + ucast (h ! 4);
          c = drop_bit 2 c * 5
      in fst (fold (\<lambda>i (mac, c).
           let c = c + (ucast (h ! i) + ucast (pad ! i)) in (mac @ store32_le (ucast c), drop_bit 32 c)) [0..<4] ([], c)))"

lemma add_small:
  fixes a :: u32 and c :: u64
  assumes "unat c \<le> 5"
  shows "unat (c + ucast a) = unat c + unat a" "unat (drop_bit 32 (c + ucast a)) \<le> 5"
    "unat (drop_bit 32 (c + ucast a)) = (unat c + unat a) div 2 ^ 32"
proof -
  show u: "unat (c + ucast a) = unat c + unat a" using assms unat_u32[of a] by (simp add: unat_word_ariths unat_ucast_widen)
  show "unat (drop_bit 32 (c + ucast a)) \<le> 5" using assms unat_u32[of a] by (simp add: unat_drop_bit_div u)
  show "unat (drop_bit 32 (c + ucast a)) = (unat c + unat a) div 2 ^ 32" by (simp add: unat_drop_bit_div u)
qed

lemma poly_finish_correct:
  assumes "h_ok h"
  shows "poly_finish h pad = le_bytes 16 (hval h mod poly_p + padval pad)"
proof -
  let ?H = "\<lambda>i. unat (h ! i)" and ?P = "\<lambda>i. unat (pad ! i)"
  define c1 c2 c3 c4 where "c1 = drop_bit 32 (5 + ucast (h ! 0) :: u64)" and "c2 = drop_bit 32 (c1 + ucast (h ! 1))"
    and "c3 = drop_bit 32 (c2 + ucast (h ! 2))" and "c4 = drop_bit 32 (c3 + ucast (h ! 3))"
  note a1 = add_small[of 5 "h ! 0", folded c1_def, simplified]
  note a2 = add_small[OF a1(2), of "h ! 1", folded c2_def]
  note a3 = add_small[OF a2(2), of "h ! 2", folded c3_def]
  note a4 = add_small[OF a3(2), of "h ! 3", folded c4_def]
  note a5 = add_small[OF a4(2), of "h ! 4"]
  define q where "q = drop_bit 2 (c4 + ucast (h ! 4)) * 5"
  have "unat c4 + ?H 4 \<le> 9" using a4(2) assms by (simp add: h_ok_def)
  then have "unat (drop_bit 2 (c4 + ucast (h ! 4))) \<le> 2" by (simp add: unat_drop_bit_div a5(1))
  then have q5: "unat q = 5 * unat (drop_bit 2 (c4 + ucast (h ! 4)))" "unat q < 2 ^ 33" by (simp_all add: q_def unat_times)
  have "unat (drop_bit 2 (c4 + ucast (h ! 4))) = (5 + hval h) div 2 ^ 130"
    unfolding unat_drop_bit_div a5(1) a4(3) a3(3) a2(3) a1(3) hval_def using quotient_carry[of "?H 0" "?H 1" "?H 2" "?H 3" "?H 4"] by simp
  then have q: "unat q = 5 * (hval h div poly_p)" using q5(1) quotient_p[OF hval_less[OF assms]] by simp
  define d1 d2 d3 d4 where "d1 = q + (ucast (h ! 0) + ucast (pad ! 0))" and "d2 = drop_bit 32 d1 + (ucast (h ! 1) + ucast (pad ! 1))"
    and "d3 = drop_bit 32 d2 + (ucast (h ! 2) + ucast (pad ! 2))" and "d4 = drop_bit 32 d3 + (ucast (h ! 3) + ucast (pad ! 3))"
  note b1 = add_limbs[OF q5(2), of "h ! 0" "pad ! 0", folded d1_def]
  note b2 = add_limbs[OF b1(2), of "h ! 1" "pad ! 1", folded d2_def]
  note b3 = add_limbs[OF b2(2), of "h ! 2" "pad ! 2", folded d3_def]
  note b4 = add_limbs[OF b3(2), of "h ! 3" "pad ! 3", folded d4_def]
  have "poly_finish h pad = le_bytes 4 (unat d1) @ le_bytes 4 (unat d2) @ le_bytes 4 (unat d3) @ le_bytes 4 (unat d4)"
    by (simp add: poly_finish_def Let_def upt4 store_low[symmetric] d4_def d3_def d2_def d1_def q_def c4_def c3_def c2_def c1_def)
  also have "\<dots> = le_bytes 16 (unat q + (?H 0 + ?P 0) + 2 ^ 32 * (?H 1 + ?P 1 + 2 ^ 32 * (?H 2 + ?P 2 + 2 ^ 32 * (?H 3 + ?P 3))))"
  proof -
    have "le_bytes 4 (unat d3) @ le_bytes 4 (unat d4) = le_bytes 8 (unat d3 + 2 ^ 32 * (?H 3 + ?P 3))"
      using le_bytes_carry[of "unat d3" 4 "?H 3 + ?P 3"] by (simp add: b4(1) unat_drop_bit_div)
    moreover have "le_bytes 4 (unat d2) @ le_bytes 8 (unat d3 + 2 ^ 32 * x) = le_bytes 12 (unat d2 + 2 ^ 32 * (?H 2 + ?P 2 + 2 ^ 32 * x))" for x
      using le_bytes_carry[of "unat d2" 8 "?H 2 + ?P 2 + 2 ^ 32 * x"] by (simp add: b3(1) unat_drop_bit_div add.assoc)
    moreover have "le_bytes 4 (unat d1) @ le_bytes 12 (unat d2 + 2 ^ 32 * x) = le_bytes 16 (unat d1 + 2 ^ 32 * (?H 1 + ?P 1 + 2 ^ 32 * x))" for x
      using le_bytes_carry[of "unat d1" 12 "?H 1 + ?P 1 + 2 ^ 32 * x"] by (simp add: b2(1) unat_drop_bit_div add.assoc)
    ultimately show ?thesis by (simp only: b1(1))
  qed
  also have "\<dots> = le_bytes 16 (hval h mod poly_p + padval pad)"
  proof -
    let ?T = "unat q + (?H 0 + ?P 0) + 2 ^ 32 * (?H 1 + ?P 1 + 2 ^ 32 * (?H 2 + ?P 2 + 2 ^ 32 * (?H 3 + ?P 3)))"
    let ?k = "hval h div poly_p"
    have "hval h = hval h mod poly_p + (2 ^ 130 - 5) * ?k" unfolding poly_p_def[symmetric] by simp
    then have "hval h + 5 * ?k = hval h mod poly_p + 2 ^ 130 * ?k" by simp
    then have "?T + 256 ^ 16 * ?H 4 = (hval h mod poly_p + padval pad) + 256 ^ 16 * (4 * ?k)"
      by (simp add: q hval_def padval_def)
    then show ?thesis using le_bytes_cong by metis
  qed
  finally show ?thesis .
qed

lemma final_tag:
  assumes "absorbed m pad ctx"
  shows "crypto_poly1305_final ctx = le_bytes 16 (poly_acc (rval (poly_r ctx)) (pieces16 m) 0 + padval pad)"
proof -
  obtain a t where m: "m = a @ t" "16 dvd length a" "length t < 16" "poly_c_idx ctx = length t" "length (poly_c ctx) = 16"
    "take (length t) (poly_c ctx) = t" "r_ok (poly_r ctx)" "h_ok (poly_h ctx)" "poly_pad ctx = pad"
    "hval (poly_h ctx) mod poly_p = poly_acc (rval (poly_r ctx)) (pieces16 a) 0 mod poly_p"
    using assms unfolding absorbed_def by (elim exE conjE)
  let ?r = "poly_r ctx"
  define h where "h = (if length t \<noteq> 0 then poly_blocks ?r ((t @ zeros (16 - length t))[length t := 1]) 1 0 (poly_h ctx) else poly_h ctx)"
  have f: "crypto_poly1305_final ctx = poly_finish h pad"
    unfolding crypto_poly1305_final_def poly_finish_def Let_def m(4,6,9) h_def ..
  have "h_ok h \<and> hval h mod poly_p = poly_acc (rval ?r) (pieces16 m) 0 mod poly_p"
  proof (cases "t = []")
    case False
    let ?b = "(t @ zeros (16 - length t))[length t := 1]"
    have "zeros (16 - length t) = 0 # zeros (15 - length t)"
      using m(3) by (cases "16 - length t") (simp_all add: replicate_Suc[symmetric] del: replicate_Suc)
    then have b: "?b = (t @ [1]) @ zeros (15 - length t)" by (simp add: list_update_append)
    then have "inval ?b = le_num (t @ [1])" using m(3) inval_le_num[of ?b] by (simp add: le_num_append)
    then have "hval h mod poly_p = (hval (poly_h ctx) + le_num (t @ [1])) * rval ?r mod poly_p" "h_ok h"
      using poly_block_correct[OF m(7,8), of 0 ?b] False by (simp_all add: h_def)
    moreover have "pieces16 m = pieces16 a @ [t]" using m(1,2,3) False by (simp add: pieces16_append pieces16_short)
    moreover have "(hval (poly_h ctx) + x) * rval ?r mod poly_p = (poly_acc (rval ?r) (pieces16 a) 0 + x) * rval ?r mod poly_p" for x
      using m(10) by (metis mod_add_left_eq mod_mult_left_eq)
    ultimately show ?thesis by (simp add: poly_acc_append) (simp add: poly_acc_def)
  qed (use m in \<open>simp add: h_def\<close>)
  moreover have "poly_acc (rval ?r) (pieces16 m) 0 < poly_p"
    using poly_acc_less[of "pieces16 m"] by (cases "pieces16 m = []") (simp_all add: poly_acc_def[of _ "[]"] poly_p_pos)
  ultimately show ?thesis using poly_finish_correct[of h pad] f by simp
qed

lemma padval_le_num: "32 \<le> length key \<Longrightarrow> padval (load32_le_buf (drop 16 key) 4) = le_num (take 16 (drop 16 key))"
  using inval_le_num[of "drop 16 key"] by (simp add: padval_def inval_def load32_le_buf_def upt4 add.commute)

lemma updates_absorb: "absorbed m pad ctx \<Longrightarrow> absorbed (m @ concat chunks) pad (fold crypto_poly1305_update chunks ctx)"
proof (induction chunks arbitrary: m ctx)
  case (Cons x xs)
  from Cons.IH[OF update_absorbs[OF Cons.prems, of x]] show ?case by simp
qed simp

lemma poly_r_updates: "poly_r (fold crypto_poly1305_update chunks ctx) = poly_r ctx"
  by (induction chunks arbitrary: ctx) simp_all

lemma streamed_tag:
  assumes "32 \<le> length key" "length (poly_c ctx) = 16"
  shows "crypto_poly1305_final (fold crypto_poly1305_update chunks (crypto_poly1305_init key ctx)) = poly1305_tag key (concat chunks)"
  using final_tag[OF updates_absorb[OF init_absorbs[OF assms(2)]], of chunks key] assms(1)
  by (simp add: poly_r_updates rval_init padval_le_num poly1305_tag_def)

text \<open>C13: However a message is cut into pieces, also empty ones, initialising with a key, updating with the pieces in
  order and finishing gives the Poly1305 tag of the whole message: the evaluation at the clamped half of the key
  of the message's 16-byte blocks modulo \<open>2 ^ 130 - 5\<close>, plus the other half, in 16 bytes.\<close>

theorem poly1305_streaming:
  assumes "32 \<le> length key" "length (poly_c ctx) = 16"
  shows "crypto_poly1305_final (fold crypto_poly1305_update chunks (crypto_poly1305_init key ctx)) = poly1305_tag key (concat chunks)"
  using assms by (rule streamed_tag)

theorem poly1305_streaming_witness:
  "crypto_poly1305_final (fold crypto_poly1305_update [[1, 2, 3], [], zeros 20]
     (crypto_poly1305_init (zeros 32) \<lparr>poly_c = zeros 16, poly_c_idx = 0, poly_r = [], poly_pad = [], poly_h = []\<rparr>)) =
   poly1305_tag (zeros 32) ([1, 2, 3] @ zeros 20)"
  using poly1305_streaming[of "zeros 32" "\<lparr>poly_c = zeros 16, poly_c_idx = 0, poly_r = [], poly_pad = [], poly_h = []\<rparr>" "[[1, 2, 3], [], zeros 20]"]
  by simp

end
