(* ===== verification/WG_Aead.thy ===== *)
theory WG_Aead
  imports WG_Poly1305 WG_Crypto
begin

text \<open>
  The vendored Monocypher, third part: authenticated encryption (\<open>crypto_aead_write\<close>, \<open>crypto_aead_read\<close>)
  from ChaCha20 and Poly1305. The laws that the protocol theories assume of the authenticated encryption
  of their backend are theorems here.
\<close>

subsection \<open>Model\<close>

record crypto_aead_ctx =
  aead_counter :: u64
  aead_key :: "byte list"
  aead_nonce :: "byte list"

text \<open>The context of Poly1305 is a local variable; \<open>stack\<close> is what the buffer holds before.\<close>

definition poly_ctx :: "byte list \<Rightarrow> crypto_poly1305_ctx" where
  "poly_ctx stack = \<lparr>poly_c = stack, poly_c_idx = 0, poly_r = [], poly_pad = [], poly_h = []\<rparr>"

definition lock_auth :: "byte list \<Rightarrow> byte list \<Rightarrow> byte list \<Rightarrow> byte list \<Rightarrow> byte list" where
  "lock_auth stack auth_key ad cipher_text =
     (let sizes = store64_le (of_nat (length ad)) @ store64_le (of_nat (length cipher_text));
          ctx = crypto_poly1305_init auth_key (poly_ctx stack);
          ctx = crypto_poly1305_update ad ctx;
          ctx = crypto_poly1305_update (zeros (unat (gap (of_nat (length ad)) 16))) ctx;
          ctx = crypto_poly1305_update cipher_text ctx;
          ctx = crypto_poly1305_update (zeros (unat (gap (of_nat (length cipher_text)) 16))) ctx;
          ctx = crypto_poly1305_update sizes ctx
      in crypto_poly1305_final ctx)"

definition crypto_aead_init_x :: "byte list \<Rightarrow> byte list \<Rightarrow> crypto_aead_ctx" where
  "crypto_aead_init_x key nonce =
     \<lparr>aead_counter = 0, aead_key = crypto_chacha20_h key nonce, aead_nonce = take 8 (drop 16 nonce)\<rparr>"

definition crypto_aead_init_ietf :: "byte list \<Rightarrow> byte list \<Rightarrow> crypto_aead_ctx" where
  "crypto_aead_init_ietf key nonce =
     \<lparr>aead_counter = push_bit 32 (ucast (load32_le nonce)), aead_key = take 32 key, aead_nonce = take 8 (drop 4 nonce)\<rparr>"

definition crypto_aead_write ::
  "byte list \<Rightarrow> byte list \<Rightarrow> byte list \<Rightarrow> crypto_aead_ctx \<Rightarrow> byte list \<times> byte list \<times> crypto_aead_ctx" where
  "crypto_aead_write stack ad plain_text ctx =
     (let auth_key = fst (crypto_chacha20_djb None 64 (aead_key ctx) (aead_nonce ctx) (aead_counter ctx));
          cipher_text = fst (crypto_chacha20_djb (Some plain_text) (length plain_text) (aead_key ctx) (aead_nonce ctx)
            (aead_counter ctx + 1));
          mac = lock_auth stack auth_key ad cipher_text
      in (cipher_text, mac, ctx\<lparr>aead_key := take 32 (drop 32 auth_key)\<rparr>))"

text \<open>The result of a read: the mismatch (0 or -1), what the output buffer holds, and the context.\<close>

definition crypto_aead_read ::
  "byte list \<Rightarrow> byte list \<Rightarrow> byte list \<Rightarrow> byte list \<Rightarrow> byte list \<Rightarrow> crypto_aead_ctx \<Rightarrow> int \<times> byte list \<times> crypto_aead_ctx" where
  "crypto_aead_read stack plain_text mac ad cipher_text ctx =
     (let auth_key = fst (crypto_chacha20_djb None 64 (aead_key ctx) (aead_nonce ctx) (aead_counter ctx));
          real_mac = lock_auth stack auth_key ad cipher_text;
          mismatch = crypto_verify16 mac real_mac
      in if mismatch = 0
         then (mismatch,
               fst (crypto_chacha20_djb (Some cipher_text) (length cipher_text) (aead_key ctx) (aead_nonce ctx) (aead_counter ctx + 1)),
               ctx\<lparr>aead_key := take 32 (drop 32 auth_key)\<rparr>)
         else (mismatch, plain_text, ctx))"

definition crypto_aead_lock ::
  "byte list \<Rightarrow> byte list \<Rightarrow> byte list \<Rightarrow> byte list \<Rightarrow> byte list \<Rightarrow> byte list \<times> byte list" where
  "crypto_aead_lock stack key nonce ad plain_text =
     (case crypto_aead_write stack ad plain_text (crypto_aead_init_x key nonce) of (cipher_text, mac, ctx) \<Rightarrow> (cipher_text, mac))"

definition crypto_aead_unlock ::
  "byte list \<Rightarrow> byte list \<Rightarrow> byte list \<Rightarrow> byte list \<Rightarrow> byte list \<Rightarrow> byte list \<Rightarrow> byte list \<Rightarrow> int \<times> byte list" where
  "crypto_aead_unlock stack plain_text mac key nonce ad cipher_text =
     (case crypto_aead_read stack plain_text mac ad cipher_text (crypto_aead_init_x key nonce) of
        (mismatch, plain_text, ctx) \<Rightarrow> (mismatch, plain_text))"

subsection \<open>The tag\<close>

definition pad16 :: "byte list \<Rightarrow> byte list" where
  "pad16 xs = xs @ zeros ((16 - length xs mod 16) mod 16)"

definition aead_message :: "byte list \<Rightarrow> byte list \<Rightarrow> byte list" where
  "aead_message ad cipher_text =
     pad16 ad @ pad16 cipher_text @ store64_le (of_nat (length ad)) @ store64_le (of_nat (length cipher_text))"

lemma gap_length: "unat (gap (of_nat n) 16) = (16 - n mod 16) mod 16"
proof -
  have "n mod 2 ^ 64 mod 16 = n mod 16" by (rule mod_mod_cancel) simp
  then show ?thesis by (simp add: gap_value unat_of_nat)
qed

lemma lock_auth_tag:
  assumes "32 \<le> length auth_key" "length stack = 16"
  shows "lock_auth stack auth_key ad cipher_text = poly1305_tag auth_key (aead_message ad cipher_text)"
  using streamed_tag[OF assms(1), of "poly_ctx stack" "[ad, zeros (unat (gap (of_nat (length ad)) 16)), cipher_text,
      zeros (unat (gap (of_nat (length cipher_text)) 16)), store64_le (of_nat (length ad)) @ store64_le (of_nat (length cipher_text))]"]
    assms(2)
  by (simp add: lock_auth_def Let_def poly_ctx_def aead_message_def pad16_def gap_length)

lemma length_lock_auth:
  assumes "32 \<le> length auth_key" "length stack = 16"
  shows "length (lock_auth stack auth_key ad cipher_text) = 16"
  using lock_auth_tag[OF assms] by (simp add: poly1305_tag_def)

subsection \<open>Encryption and decryption\<close>

lemma write_eq:
  "crypto_aead_write stack ad pt ctx =
     (let auth_key = key_stream (aead_key ctx) (aead_nonce ctx) (aead_counter ctx) 64;
          ct = xor_bytes pt (key_stream (aead_key ctx) (aead_nonce ctx) (aead_counter ctx + 1) (length pt))
      in (ct, lock_auth stack auth_key ad ct, ctx\<lparr>aead_key := drop 32 auth_key\<rparr>))"
  by (simp add: crypto_aead_write_def djb_Some djb_None Let_def)

lemma read_eq:
  assumes "length stack = 16" "length mac = 16"
  shows "crypto_aead_read stack out mac ad ct ctx =
     (let auth_key = key_stream (aead_key ctx) (aead_nonce ctx) (aead_counter ctx) 64 in
      if mac = lock_auth stack auth_key ad ct
      then (0, xor_bytes ct (key_stream (aead_key ctx) (aead_nonce ctx) (aead_counter ctx + 1) (length ct)),
            ctx\<lparr>aead_key := drop 32 auth_key\<rparr>)
      else (- 1, out, ctx))"
  using assms by (simp add: crypto_aead_read_def djb_Some djb_None Let_def crypto_verify16_eq length_lock_auth)

lemma read_iff_write:
  assumes "length stack = 16" "length mac = 16"
  shows "(\<exists>ctx'. crypto_aead_read stack out mac ad ct ctx = (0, pt, ctx')) \<longleftrightarrow> (\<exists>ctx'. crypto_aead_write stack ad pt ctx = (ct, mac, ctx'))"
proof -
  let ?ks = "key_stream (aead_key ctx) (aead_nonce ctx) (aead_counter ctx + 1)"
  have "pt = xor_bytes ct (?ks (length ct)) \<longleftrightarrow> ct = xor_bytes pt (?ks (length pt))"
    using xor_bytes_cancel[of ct "?ks (length ct)"] xor_bytes_cancel[of pt "?ks (length pt)"] by auto
  then show ?thesis unfolding read_eq[OF assms] write_eq Let_def by auto
qed

subsection \<open>The backend of the protocol\<close>

text \<open>The calls of \<open>primitives.cpp\<close>: a context, one write or read, and the context erased.\<close>

definition aead_write_ietf :: "byte list \<Rightarrow> byte list \<Rightarrow> byte list \<Rightarrow> byte list \<Rightarrow> byte list \<Rightarrow> byte list \<times> byte list" where
  "aead_write_ietf stack key nonce ad pt =
     (case crypto_aead_write stack ad pt (crypto_aead_init_ietf key nonce) of (ct, mac, ctx) \<Rightarrow> (ct, mac))"

definition aead_read_ietf ::
  "byte list \<Rightarrow> byte list \<Rightarrow> byte list \<Rightarrow> byte list \<Rightarrow> byte list \<Rightarrow> byte list \<Rightarrow> byte list option" where
  "aead_read_ietf stack key nonce mac ad ct =
     (case crypto_aead_read stack (zeros (length ct)) mac ad ct (crypto_aead_init_ietf key nonce) of
        (mismatch, pt, ctx) \<Rightarrow> if mismatch = 0 then Some pt else None)"

definition aead_write_x :: "byte list \<Rightarrow> byte list \<Rightarrow> byte list \<Rightarrow> byte list \<Rightarrow> byte list \<Rightarrow> byte list \<times> byte list" where
  "aead_write_x stack key nonce ad pt =
     (case crypto_aead_write stack ad pt (crypto_aead_init_x key nonce) of (ct, mac, ctx) \<Rightarrow> (ct, mac))"

definition aead_read_x ::
  "byte list \<Rightarrow> byte list \<Rightarrow> byte list \<Rightarrow> byte list \<Rightarrow> byte list \<Rightarrow> byte list \<Rightarrow> byte list option" where
  "aead_read_x stack key nonce mac ad ct =
     (case crypto_aead_read stack (zeros (length ct)) mac ad ct (crypto_aead_init_x key nonce) of
        (mismatch, pt, ctx) \<Rightarrow> if mismatch = 0 then Some pt else None)"

lemma read_length:
  "crypto_aead_read stack (zeros (length ct)) mac ad ct ctx = (mm, pt, ctx') \<Longrightarrow> length pt = length ct"
  by (auto simp: crypto_aead_read_def Let_def djb_Some split: if_splits)

lemma write_lengths:
  "length stack = 16 \<Longrightarrow> crypto_aead_write stack ad pt ctx = (ct, mac, ctx') \<Longrightarrow> length ct = length pt \<and> length mac = 16"
  by (auto simp: write_eq Let_def length_lock_auth)

lemma write_read_laws:
  assumes "length stack = 16"
  shows "aead_laws (\<lambda>key nonce ad pt. case crypto_aead_write stack ad pt (ini key nonce) of (ct, mac, ctx) \<Rightarrow> (ct, mac))
    (\<lambda>key nonce mac ad ct. case crypto_aead_read stack (zeros (length ct)) mac ad ct (ini key nonce) of
        (mismatch, pt, ctx) \<Rightarrow> if mismatch = 0 then Some pt else None)"
  unfolding aead_laws_def
proof (intro conjI allI impI)
  fix key nonce ad pt
  obtain ct mac c where w: "crypto_aead_write stack ad pt (ini key nonce) = (ct, mac, c)" by (metis prod.exhaust)
  have l: "length ct = length pt" "length mac = 16" using write_lengths[OF assms w] by simp_all
  obtain c' where "crypto_aead_read stack (zeros (length ct)) mac ad ct (ini key nonce) = (0, pt, c')"
    using w read_iff_write[OF assms l(2)] by blast
  then show "case case crypto_aead_write stack ad pt (ini key nonce) of (ct, mac, ctx) \<Rightarrow> (ct, mac) of
      (c, t) \<Rightarrow> length c = length pt \<and> length t = 16 \<and>
        (case crypto_aead_read stack (zeros (length c)) t ad c (ini key nonce) of
           (mismatch, pt, ctx) \<Rightarrow> if mismatch = 0 then Some pt else None) = Some pt"
    using w l by simp
next
  fix key nonce mac ad ct pt
  assume "(case crypto_aead_read stack (zeros (length ct)) mac ad ct (ini key nonce) of
           (mismatch, pt, ctx) \<Rightarrow> if mismatch = 0 then Some pt else None) = Some pt"
  then show "length pt = length ct"
    by (auto split: prod.splits if_splits dest: read_length)
qed

lemma monocypher_aead_laws:
  assumes "length stack = 16"
  shows "aead_laws (aead_write_ietf stack) (aead_read_ietf stack)" "aead_laws (aead_write_x stack) (aead_read_x stack)"
  using write_read_laws[OF assms, of crypto_aead_init_ietf] write_read_laws[OF assms, of crypto_aead_init_x]
  unfolding aead_write_ietf_def[abs_def] aead_read_ietf_def[abs_def] aead_write_x_def[abs_def] aead_read_x_def[abs_def] by simp_all

text \<open>C11: Authenticated encryption with a context gives the exclusive or of the plain text with the key stream from
  the second block, and the Poly1305 tag, under the first 32 bytes of the first block, of the padded additional
  data, the padded cipher text and both lengths. Decryption accepts a cipher text and a tag with a plain text
  exactly when encryption of that plain text gives that cipher text and that tag, and otherwise returns -1 and
  leaves the output and the context as they were.\<close>

theorem aead_reads_what_it_writes:
  assumes "length stack = 16" "length mac = 16"
  shows "(case crypto_aead_write stack ad pt ctx of (c, t, _) \<Rightarrow>
      c = xor_bytes pt (key_stream (aead_key ctx) (aead_nonce ctx) (aead_counter ctx + 1) (length pt)) \<and>
      t = poly1305_tag (key_stream (aead_key ctx) (aead_nonce ctx) (aead_counter ctx) 64) (aead_message ad c)) \<and>
    ((\<exists>ctx'. crypto_aead_read stack out mac ad ct ctx = (0, pt, ctx')) = (\<exists>ctx'. crypto_aead_write stack ad pt ctx = (ct, mac, ctx'))) \<and>
    ((\<nexists>p ctx'. crypto_aead_write stack ad p ctx = (ct, mac, ctx')) = (crypto_aead_read stack out mac ad ct ctx = (- 1, out, ctx)))"
proof (intro conjI)
  show "case crypto_aead_write stack ad pt ctx of (c, t, _) \<Rightarrow>
      c = xor_bytes pt (key_stream (aead_key ctx) (aead_nonce ctx) (aead_counter ctx + 1) (length pt)) \<and>
      t = poly1305_tag (key_stream (aead_key ctx) (aead_nonce ctx) (aead_counter ctx) 64) (aead_message ad c)"
    using assms(1) by (simp add: write_eq Let_def lock_auth_tag)
  show "(\<exists>ctx'. crypto_aead_read stack out mac ad ct ctx = (0, pt, ctx')) = (\<exists>ctx'. crypto_aead_write stack ad pt ctx = (ct, mac, ctx'))"
    using assms by (rule read_iff_write)
  have "(\<exists>p ctx'. crypto_aead_read stack out mac ad ct ctx = (0, p, ctx')) = (crypto_aead_read stack out mac ad ct ctx \<noteq> (- 1, out, ctx))"
    unfolding read_eq[OF assms] Let_def by auto
  then show "(\<nexists>p ctx'. crypto_aead_write stack ad p ctx = (ct, mac, ctx')) = (crypto_aead_read stack out mac ad ct ctx = (- 1, out, ctx))"
    using read_iff_write[OF assms] by blast
qed

theorem aead_reads_what_it_writes_witness:
  "case crypto_aead_write (zeros 16) [7] [1, 2, 3] (crypto_aead_init_ietf (zeros 32) (zeros 12)) of (ct, mac, _) \<Rightarrow>
     \<exists>ctx'. crypto_aead_read (zeros 16) (zeros 3) mac [7] ct (crypto_aead_init_ietf (zeros 32) (zeros 12)) = (0, [1, 2, 3], ctx')"
proof -
  let ?ctx = "crypto_aead_init_ietf (zeros 32) (zeros 12)"
  obtain ct mac c where w: "crypto_aead_write (zeros 16) [7] [1, 2, 3] ?ctx = (ct, mac, c)" by (rule prod_cases3)
  then have "length mac = 16" using write_lengths[OF _ w] by simp
  then show ?thesis using aead_reads_what_it_writes[where stack = "zeros 16" and mac = mac and ad = "[7]" and pt = "[1, 2, 3]" and ctx = ?ctx and out = "zeros 3" and ct = ct] w by auto
qed

end
