(* ===== verification/WG_Blake2s.thy ===== *)
theory WG_Blake2s
  imports WG_ChaCha20
begin

unbundle bit_operations_syntax

text \<open>
  The vendored BLAKE2s reference implementation with its streaming interface. The theorem says that any
  sequence of updates gives the hash that RFC 7693 defines for the concatenated input, with and without a
  key, for every digest size. Functions that return \<open>int\<close> return it together with the state or the buffer
  they write; a failure is -1.
\<close>

subsection \<open>Model\<close>

definition load32 :: "byte list \<Rightarrow> u32" where
  "load32 p = push_bit 0 (ucast (p ! 0)) OR push_bit 8 (ucast (p ! 1)) OR push_bit 16 (ucast (p ! 2)) OR push_bit 24 (ucast (p ! 3))"

definition store16 :: "u16 \<Rightarrow> byte list" where
  "store16 w = [ucast w, ucast (drop_bit 8 w)]"

definition store32 :: "u32 \<Rightarrow> byte list" where
  "store32 w = [ucast (drop_bit 0 w), ucast (drop_bit 8 w), ucast (drop_bit 16 w), ucast (drop_bit 24 w)]"

definition rotr32 :: "u32 \<Rightarrow> nat \<Rightarrow> u32" where
  "rotr32 w c = drop_bit c w OR push_bit (32 - c) w"

definition blake2s_IV :: "u32 list" where
  "blake2s_IV = [0x6A09E667, 0xBB67AE85, 0x3C6EF372, 0xA54FF53A, 0x510E527F, 0x9B05688C, 0x1F83D9AB, 0x5BE0CD19]"

definition blake2s_sigma :: "nat list list" where
  "blake2s_sigma =
     [[0, 1, 2, 3, 4, 5, 6, 7, 8, 9, 10, 11, 12, 13, 14, 15],
      [14, 10, 4, 8, 9, 15, 13, 6, 1, 12, 0, 2, 11, 7, 5, 3],
      [11, 8, 12, 0, 5, 2, 15, 13, 10, 14, 3, 6, 7, 1, 9, 4],
      [7, 9, 3, 1, 13, 12, 11, 14, 2, 6, 5, 10, 4, 0, 15, 8],
      [9, 0, 5, 7, 2, 4, 10, 15, 14, 1, 11, 12, 6, 8, 3, 13],
      [2, 12, 6, 10, 0, 11, 8, 3, 4, 13, 7, 5, 15, 14, 1, 9],
      [12, 5, 1, 15, 14, 13, 4, 10, 0, 7, 6, 3, 9, 2, 8, 11],
      [13, 11, 7, 14, 12, 1, 3, 9, 5, 0, 15, 4, 8, 6, 2, 10],
      [6, 15, 14, 9, 11, 3, 0, 8, 12, 2, 13, 7, 1, 4, 10, 5],
      [10, 2, 8, 4, 7, 6, 1, 5, 15, 11, 9, 14, 3, 12, 13, 0]]"

abbreviation (input) BLAKE2S_BLOCKBYTES :: nat where "BLAKE2S_BLOCKBYTES \<equiv> 64"
abbreviation (input) BLAKE2S_OUTBYTES :: nat where "BLAKE2S_OUTBYTES \<equiv> 32"
abbreviation (input) BLAKE2S_KEYBYTES :: nat where "BLAKE2S_KEYBYTES \<equiv> 32"

record blake2s_state =
  bs_h :: "u32 list"
  bs_t :: "u32 list"
  bs_f :: "u32 list"
  bs_buf :: "byte list"
  bs_buflen :: nat
  bs_outlen :: nat
  bs_last_node :: byte

record blake2s_param =
  p_digest_length :: byte
  p_key_length :: byte
  p_fanout :: byte
  p_depth :: byte
  p_leaf_length :: "byte list"
  p_node_offset :: "byte list"
  p_xof_length :: "byte list"
  p_node_depth :: byte
  p_inner_length :: byte
  p_salt :: "byte list"
  p_personal :: "byte list"

text \<open>The packed bytes of the parameter block.\<close>

definition param_bytes :: "blake2s_param \<Rightarrow> byte list" where
  "param_bytes p =
     [p_digest_length p, p_key_length p, p_fanout p, p_depth p] @ p_leaf_length p @ p_node_offset p @ p_xof_length p @
     [p_node_depth p, p_inner_length p] @ p_salt p @ p_personal p"

definition blake2s_set_lastnode :: "blake2s_state \<Rightarrow> blake2s_state" where
  "blake2s_set_lastnode S = S\<lparr>bs_f := (bs_f S)[1 := - 1]\<rparr>"

definition blake2s_is_lastblock :: "blake2s_state \<Rightarrow> bool" where
  "blake2s_is_lastblock S \<longleftrightarrow> bs_f S ! 0 \<noteq> 0"

definition blake2s_set_lastblock :: "blake2s_state \<Rightarrow> blake2s_state" where
  "blake2s_set_lastblock S =
     (let S = (if bs_last_node S \<noteq> 0 then blake2s_set_lastnode S else S) in S\<lparr>bs_f := (bs_f S)[0 := - 1]\<rparr>)"

definition blake2s_increment_counter :: "u32 \<Rightarrow> blake2s_state \<Rightarrow> blake2s_state" where
  "blake2s_increment_counter inc S =
     (let t = (bs_t S)[0 := bs_t S ! 0 + inc];
          t = t[1 := t ! 1 + (if t ! 0 < inc then 1 else 0)]
      in S\<lparr>bs_t := t\<rparr>)"

definition blake2s_init0 :: blake2s_state where
  "blake2s_init0 =
     \<lparr>bs_h = blake2s_IV, bs_t = [0, 0], bs_f = [0, 0], bs_buf = zeros BLAKE2S_BLOCKBYTES, bs_buflen = 0, bs_outlen = 0, bs_last_node = 0\<rparr>"

definition blake2s_init_param :: "blake2s_param \<Rightarrow> int \<times> blake2s_state" where
  "blake2s_init_param P =
     (let p = param_bytes P; S = blake2s_init0;
          S = S\<lparr>bs_h := map (\<lambda>i. bs_h S ! i XOR load32 (drop (i * 4) p)) [0..<8]\<rparr>
      in (0, S\<lparr>bs_outlen := unat (p_digest_length P)\<rparr>))"

text \<open>The parameter block of both initialisations.\<close>

definition sequential_param :: "nat \<Rightarrow> nat \<Rightarrow> blake2s_param" where
  "sequential_param outlen keylen =
     \<lparr>p_digest_length = of_nat outlen, p_key_length = of_nat keylen, p_fanout = 1, p_depth = 1, p_leaf_length = store32 0,
      p_node_offset = store32 0, p_xof_length = store16 0, p_node_depth = 0, p_inner_length = 0, p_salt = zeros 8,
      p_personal = zeros 8\<rparr>"

definition blake2s_init :: "nat \<Rightarrow> blake2s_state \<Rightarrow> int \<times> blake2s_state" where
  "blake2s_init outlen S =
     (if outlen = 0 \<or> outlen > BLAKE2S_OUTBYTES then (- 1, S) else blake2s_init_param (sequential_param outlen 0))"

definition blake2_G :: "nat \<Rightarrow> nat \<Rightarrow> nat \<Rightarrow> nat \<Rightarrow> nat \<Rightarrow> nat \<Rightarrow> u32 list \<Rightarrow> u32 list \<Rightarrow> u32 list" where
  "blake2_G r i ka kb kc kd m v =
     (let a = v ! ka; b = v ! kb; c = v ! kc; d = v ! kd;
          a = a + b + m ! (blake2s_sigma ! r ! (2 * i + 0));
          d = rotr32 (d XOR a) 16;
          c = c + d;
          b = rotr32 (b XOR c) 12;
          a = a + b + m ! (blake2s_sigma ! r ! (2 * i + 1));
          d = rotr32 (d XOR a) 8;
          c = c + d;
          b = rotr32 (b XOR c) 7
      in v[ka := a, kb := b, kc := c, kd := d])"

definition blake2_ROUND :: "u32 list \<Rightarrow> nat \<Rightarrow> u32 list \<Rightarrow> u32 list" where
  "blake2_ROUND m r v =
     (let v = blake2_G r 0 0 4 8 12 m v;
          v = blake2_G r 1 1 5 9 13 m v;
          v = blake2_G r 2 2 6 10 14 m v;
          v = blake2_G r 3 3 7 11 15 m v;
          v = blake2_G r 4 0 5 10 15 m v;
          v = blake2_G r 5 1 6 11 12 m v;
          v = blake2_G r 6 2 7 8 13 m v
      in blake2_G r 7 3 4 9 14 m v)"

definition blake2s_compress :: "byte list \<Rightarrow> blake2s_state \<Rightarrow> blake2s_state" where
  "blake2s_compress inp S =
     (let m = map (\<lambda>i. load32 (drop (i * 4) inp)) [0..<16];
          v = map (\<lambda>i. bs_h S ! i) [0..<8] @
              [blake2s_IV ! 0, blake2s_IV ! 1, blake2s_IV ! 2, blake2s_IV ! 3,
               bs_t S ! 0 XOR blake2s_IV ! 4, bs_t S ! 1 XOR blake2s_IV ! 5, bs_f S ! 0 XOR blake2s_IV ! 6, bs_f S ! 1 XOR blake2s_IV ! 7];
          v = fold (blake2_ROUND m) [0, 1, 2, 3, 4, 5, 6, 7, 8, 9] v
      in S\<lparr>bs_h := map (\<lambda>i. bs_h S ! i XOR v ! i XOR v ! (i + 8)) [0..<8]\<rparr>)"

text \<open>The loop of \<open>blake2s_update\<close> over whole blocks of the input, which leaves at least one byte.\<close>

function compress_blocks :: "byte list \<Rightarrow> blake2s_state \<Rightarrow> byte list \<times> blake2s_state" where
  "compress_blocks inp S =
     (if length inp > BLAKE2S_BLOCKBYTES
      then compress_blocks (drop BLAKE2S_BLOCKBYTES inp) (blake2s_compress inp (blake2s_increment_counter 64 S))
      else (inp, S))"
  by auto
termination
  by (relation "measure (\<lambda>(inp, S). length inp)") auto

declare compress_blocks.simps [simp del]

definition blake2s_update :: "byte list \<Rightarrow> blake2s_state \<Rightarrow> int \<times> blake2s_state" where
  "blake2s_update inp S =
     (if length inp > 0 then
        let left = bs_buflen S; fill = BLAKE2S_BLOCKBYTES - left;
            (inp, S) =
              (if length inp > fill then
                 let S = S\<lparr>bs_buflen := 0, bs_buf := put_bytes left (take fill inp) (bs_buf S)\<rparr>;
                     S = blake2s_increment_counter 64 S;
                     S = blake2s_compress (bs_buf S) S
                 in compress_blocks (drop fill inp) S
               else (inp, S))
        in (0, S\<lparr>bs_buf := put_bytes (bs_buflen S) inp (bs_buf S), bs_buflen := bs_buflen S + length inp\<rparr>)
      else (0, S))"

definition blake2s_init_key :: "nat \<Rightarrow> byte list \<Rightarrow> blake2s_state \<Rightarrow> int \<times> blake2s_state" where
  "blake2s_init_key outlen key S =
     (if outlen = 0 \<or> outlen > BLAKE2S_OUTBYTES then (- 1, S)
      else if length key = 0 \<or> length key > BLAKE2S_KEYBYTES then (- 1, S)
      else case blake2s_init_param (sequential_param outlen (length key)) of (rc, S) \<Rightarrow>
        if rc < 0 then (- 1, S)
        else (0, snd (blake2s_update (put_bytes 0 key (zeros BLAKE2S_BLOCKBYTES)) S)))"

text \<open>\<open>out\<close> is the output buffer of \<open>outlen\<close> bytes.\<close>

definition blake2s_final :: "byte list \<Rightarrow> blake2s_state \<Rightarrow> int \<times> byte list \<times> blake2s_state" where
  "blake2s_final out S =
     (let outlen = length out in
      if outlen < bs_outlen S then (- 1, out, S)
      else if blake2s_is_lastblock S then (- 1, out, S)
      else
        let S = blake2s_increment_counter (of_nat (bs_buflen S)) S;
            S = blake2s_set_lastblock S;
            S = S\<lparr>bs_buf := put_bytes (bs_buflen S) (zeros (BLAKE2S_BLOCKBYTES - bs_buflen S)) (bs_buf S)\<rparr>;
            S = blake2s_compress (bs_buf S) S;
            buffer = concat (map (\<lambda>i. store32 (bs_h S ! i)) [0..<8])
        in (0, put_bytes 0 (take outlen buffer) out, S))"

definition blake2s :: "byte list \<Rightarrow> byte list \<Rightarrow> byte list \<Rightarrow> blake2s_state \<Rightarrow> int \<times> byte list" where
  "blake2s out inp key S =
     (let outlen = length out in
      if outlen = 0 \<or> outlen > BLAKE2S_OUTBYTES then (- 1, out)
      else if length key > BLAKE2S_KEYBYTES then (- 1, out)
      else case (if length key > 0 then blake2s_init_key outlen key S else blake2s_init outlen S) of (rc, S) \<Rightarrow>
        if rc < 0 then (- 1, out)
        else (0, fst (snd (blake2s_final out (snd (blake2s_update inp S))))))"

subsection \<open>Specification\<close>

text \<open>RFC 7693: the mixing function, the compression function with a byte offset and the final flag, and the
  hash of the padded input; the key, when there is one, is a first block.\<close>

definition mix :: "nat \<Rightarrow> nat \<Rightarrow> nat \<Rightarrow> nat \<Rightarrow> u32 \<Rightarrow> u32 \<Rightarrow> u32 list \<Rightarrow> u32 list" where
  "mix a b c d x y v =
     (let v = v[a := v ! a + v ! b + x];
          v = v[d := word_rotr 16 (v ! d XOR v ! a)];
          v = v[c := v ! c + v ! d];
          v = v[b := word_rotr 12 (v ! b XOR v ! c)];
          v = v[a := v ! a + v ! b + y];
          v = v[d := word_rotr 8 (v ! d XOR v ! a)];
          v = v[c := v ! c + v ! d]
      in v[b := word_rotr 7 (v ! b XOR v ! c)])"

definition mix_round :: "u32 list \<Rightarrow> nat \<Rightarrow> u32 list \<Rightarrow> u32 list" where
  "mix_round m i v =
     (let s = blake2s_sigma ! i;
          v = mix 0 4 8 12 (m ! (s ! 0)) (m ! (s ! 1)) v;
          v = mix 1 5 9 13 (m ! (s ! 2)) (m ! (s ! 3)) v;
          v = mix 2 6 10 14 (m ! (s ! 4)) (m ! (s ! 5)) v;
          v = mix 3 7 11 15 (m ! (s ! 6)) (m ! (s ! 7)) v;
          v = mix 0 5 10 15 (m ! (s ! 8)) (m ! (s ! 9)) v;
          v = mix 1 6 11 12 (m ! (s ! 10)) (m ! (s ! 11)) v;
          v = mix 2 7 8 13 (m ! (s ! 12)) (m ! (s ! 13)) v
      in mix 3 4 9 14 (m ! (s ! 14)) (m ! (s ! 15)) v)"

definition blake2s_F :: "u32 list \<Rightarrow> byte list \<Rightarrow> nat \<Rightarrow> bool \<Rightarrow> u32 list" where
  "blake2s_F h block t f =
     (let m = map (\<lambda>i. LoadLe32 (drop (4 * i) block)) [0..<16];
          v = h @ blake2s_IV;
          v = v[12 := v ! 12 XOR of_nat t, 13 := v ! 13 XOR of_nat (t div 2 ^ 32)];
          v = (if f then v[14 := NOT (v ! 14)] else v);
          v = fold (mix_round m) [0..<10] v
      in map (\<lambda>i. h ! i XOR v ! i XOR v ! (i + 8)) [0..<8])"

function blake2s_blocks :: "u32 list \<Rightarrow> nat \<Rightarrow> byte list \<Rightarrow> u32 list" where
  "blake2s_blocks h t d =
     (if length d > 64 then blake2s_blocks (blake2s_F h (take 64 d) (t + 64) False) (t + 64) (drop 64 d)
      else blake2s_F h (d @ zeros (64 - length d)) (t + length d) True)"
  by auto
termination
  by (relation "measure (\<lambda>(h, t, d). length d)") auto

declare blake2s_blocks.simps [simp del]

definition blake2s_start :: "nat \<Rightarrow> nat \<Rightarrow> u32 list" where
  "blake2s_start nn kk = blake2s_IV[0 := blake2s_IV ! 0 XOR 0x01010000 XOR push_bit 8 (of_nat kk) XOR of_nat nn]"

definition blake2s_hash :: "nat \<Rightarrow> byte list \<Rightarrow> byte list \<Rightarrow> byte list" where
  "blake2s_hash nn key data =
     take nn (concat (map StoreLe32 (blake2s_blocks (blake2s_start nn (length key)) 0
       ((if key = [] then [] else key @ zeros (64 - length key)) @ data))))"

subsection \<open>Compression\<close>

lemma load32_eq: "load32 p = LoadLe32 p"
  by (simp add: load32_def LoadLe32_def)

lemma store32_eq: "store32 w = StoreLe32 w"
  by (simp add: store32_def StoreLe32_def)

lemma rotr32_eq: "0 < c \<Longrightarrow> c < 32 \<Longrightarrow> rotr32 w c = word_rotr c w"
proof (rule bit_word_eqI)
  fix n
  assume c: "0 < c" "c < 32" and n: "n < LENGTH(32)"
  then show "bit (rotr32 w c) n = bit (word_rotr c w) n"
    by (auto simp: rotr32_def bit_simps bit_word_rotr_iff mod_if add.commute[of c n] dest: bit_u32_le)
qed

lemma blake2_G_mix:
  assumes "distinct [a, b, c, d]" "a < length v" "b < length v" "c < length v" "d < length v"
  shows "blake2_G r i a b c d m v = mix a b c d (m ! (blake2s_sigma ! r ! (2 * i))) (m ! (blake2s_sigma ! r ! (2 * i + 1))) v"
  using assms by (auto simp: blake2_G_def mix_def Let_def rotr32_eq list_update_swap intro!: nth_equalityI simp: nth_list_update)

lemma length_mix [simp]: "length (mix a b c d x y v) = length v"
  by (simp add: mix_def Let_def)

lemma ROUND_mix: "length v = 16 \<Longrightarrow> blake2_ROUND m r v = mix_round m r v"
  by (simp add: blake2_ROUND_def mix_round_def Let_def blake2_G_mix)

lemma length_mix_round [simp]: "length (mix_round m i v) = length v"
  by (simp add: mix_round_def Let_def)

lemma rounds_mix: "length v = 16 \<Longrightarrow> fold (blake2_ROUND m) is v = fold (mix_round m) is v"
  by (induction "is" arbitrary: v) (simp_all add: ROUND_mix)

definition offset_words :: "nat \<Rightarrow> u32 list" where
  "offset_words t = [of_nat t, of_nat (t div 2 ^ 32)]"

definition flag_words :: "bool \<Rightarrow> u32 list" where
  "flag_words f = (if f then [- 1, 0] else [0, 0])"

lemma upt10: "[0, 1, 2, 3, 4, 5, 6, 7, 8, 9 :: nat] = [0..<10]"
  by (simp add: upt_rec)

lemma compress_F:
  assumes "bs_t S = offset_words t" "bs_f S = flag_words f" "length (bs_h S) = 8"
  shows "blake2s_compress inp S = S\<lparr>bs_h := blake2s_F (bs_h S) inp t f\<rparr>"
proof -
  let ?v = "(if f then (bs_h S @ blake2s_IV)[12 := (bs_h S @ blake2s_IV) ! 12 XOR of_nat t, 13 := (bs_h S @ blake2s_IV) ! 13 XOR of_nat (t div 2 ^ 32),
      14 := NOT ((bs_h S @ blake2s_IV) ! 14)] else (bs_h S @ blake2s_IV)[12 := (bs_h S @ blake2s_IV) ! 12 XOR of_nat t,
      13 := (bs_h S @ blake2s_IV) ! 13 XOR of_nat (t div 2 ^ 32)])"
  have h: "map (\<lambda>i. bs_h S ! i) [0..<8] = bs_h S" using assms(3) map_nth[of "bs_h S"] by simp
  have v: "map (\<lambda>i. bs_h S ! i) [0..<8] @ [blake2s_IV ! 0, blake2s_IV ! 1, blake2s_IV ! 2, blake2s_IV ! 3,
      bs_t S ! 0 XOR blake2s_IV ! 4, bs_t S ! 1 XOR blake2s_IV ! 5, bs_f S ! 0 XOR blake2s_IV ! 6, bs_f S ! 1 XOR blake2s_IV ! 7] = ?v"
    unfolding h using assms
    by (auto simp: blake2s_IV_def offset_words_def flag_words_def nth_append list_update_append xor.commute)
  have l: "length ?v = 16" using assms(3) by (simp add: blake2s_IV_def)
  have m: "map (\<lambda>i. load32 (drop (i * 4) inp)) [0..<16] = map (\<lambda>i. LoadLe32 (drop (4 * i) inp)) [0..<16]"
    by (simp add: load32_eq mult.commute)
  show ?thesis
    unfolding blake2s_compress_def v m Let_def rounds_mix[OF l] upt10 blake2s_F_def
    by (simp add: assms(3) nth_list_update nth_append)
qed

lemma length_F [simp]: "length (blake2s_F h b t f) = 8"
  by (simp add: blake2s_F_def Let_def)

lemma F_take: "64 \<le> length inp \<Longrightarrow> blake2s_F h (take 64 inp) t f = blake2s_F h inp t f"
proof -
  assume l: "64 \<le> length inp"
  have "LoadLe32 (drop (4 * i) (take 64 inp)) = LoadLe32 (drop (4 * i) inp)" if "i < 16" for i
    using that LoadLe32_take[of "64 - 4 * i" "drop (4 * i) inp"] by (simp add: drop_take)
  then have "map (\<lambda>i. LoadLe32 (drop (4 * i) (take 64 inp))) [0..<16] = map (\<lambda>i. LoadLe32 (drop (4 * i) inp)) [0..<16]"
    by (intro map_cong) simp_all
  then show ?thesis by (simp only: blake2s_F_def)
qed

subsection \<open>The counter\<close>

lemma increment_offset:
  assumes "bs_t S = offset_words t" "k < 2 ^ 32"
  shows "blake2s_increment_counter (of_nat k) S = S\<lparr>bs_t := offset_words (t + k)\<rparr>"
proof -
  have k: "unat (of_nat k :: u32) = k" using assms(2) by (simp add: unat_of_nat)
  have t: "unat (of_nat (t + k) :: u32) = (t + k) mod 2 ^ 32" by (simp only: unat_of_nat) simp
  have c: "(of_nat (t + k) :: u32) < of_nat k \<longleftrightarrow> (t mod 2 ^ 32 + k) \<ge> 2 ^ 32"
  proof -
    have e: "(t + k) mod 2 ^ 32 = (t mod 2 ^ 32 + k) mod 2 ^ 32" by (simp add: mod_simps)
    have b: "t mod 2 ^ 32 < 2 ^ 32" by simp
    show ?thesis unfolding word_less_nat_alt k t e
      using b assms(2) by (cases "t mod 2 ^ 32 + k < 2 ^ 32") (simp_all add: le_mod_geq)
  qed
  have "(t + k) div 2 ^ 32 = t div 2 ^ 32 + (if t mod 2 ^ 32 + k \<ge> 2 ^ 32 then 1 else 0)"
  proof -
    have "(t + k) div 2 ^ 32 = t div 2 ^ 32 + (t mod 2 ^ 32 + k) div 2 ^ 32"
    proof -
      have "t + k = (t mod 2 ^ 32 + k) + 2 ^ 32 * (t div 2 ^ 32)" by simp
      then have "(t + k) div 2 ^ 32 = ((t mod 2 ^ 32 + k) + 2 ^ 32 * (t div 2 ^ 32)) div 2 ^ 32" by (rule arg_cong)
      also have "\<dots> = t div 2 ^ 32 + (t mod 2 ^ 32 + k) div 2 ^ 32" by (rule div_mult_self2) simp
      finally show ?thesis .
    qed
    moreover have "t mod 2 ^ 32 < 2 ^ 32" by simp
    ultimately show ?thesis using assms(2) by (cases "t mod 2 ^ 32 + k < 2 ^ 32") (simp_all add: div_nat_eqI)
  qed
  then show ?thesis
    using c by (simp add: blake2s_increment_counter_def Let_def assms(1) offset_words_def)
qed

subsection \<open>Streaming\<close>

text \<open>The state after the blocks \<open>a\<close> of an input: whatever follows, the hash is that of the rest from here.\<close>

definition compressed :: "u32 list \<Rightarrow> byte list \<Rightarrow> blake2s_state \<Rightarrow> bool" where
  "compressed h0 a S \<longleftrightarrow>
     bs_t S = offset_words (length a) \<and> bs_f S = flag_words False \<and> bs_last_node S = 0 \<and> length (bs_h S) = 8 \<and>
     (\<forall>x. a = [] \<or> x \<noteq> [] \<longrightarrow> blake2s_blocks h0 0 (a @ x) = blake2s_blocks (bs_h S) (length a) x)"

definition hashing :: "u32 list \<Rightarrow> byte list \<Rightarrow> blake2s_state \<Rightarrow> bool" where
  "hashing h0 m S \<longleftrightarrow>
     (\<exists>a t. m = a @ t \<and> length t \<le> 64 \<and> (t = [] \<longrightarrow> a = []) \<and> bs_buflen S = length t \<and> length (bs_buf S) = 64 \<and>
        take (length t) (bs_buf S) = t \<and> compressed h0 a S)"

lemma blocks_step:
  "length b = 64 \<Longrightarrow> x \<noteq> [] \<Longrightarrow> blake2s_blocks h t (b @ x) = blake2s_blocks (blake2s_F h b (t + 64) False) (t + 64) x"
  by (subst blake2s_blocks.simps) simp

lemma compress_next:
  assumes "compressed h0 a S" "64 \<le> length inp"
  shows "compressed h0 (a @ take 64 inp) (blake2s_compress inp (blake2s_increment_counter 64 S))"
    "bs_buf (blake2s_compress inp (blake2s_increment_counter 64 S)) = bs_buf S"
    "bs_buflen (blake2s_compress inp (blake2s_increment_counter 64 S)) = bs_buflen S"
    "bs_outlen (blake2s_compress inp (blake2s_increment_counter 64 S)) = bs_outlen S"
proof -
  let ?S = "S\<lparr>bs_t := offset_words (length a + 64)\<rparr>"
  have i: "blake2s_increment_counter 64 S = ?S"
    using increment_offset[of S "length a" 64] assms(1) by (simp add: compressed_def)
  have c: "blake2s_compress inp ?S = ?S\<lparr>bs_h := blake2s_F (bs_h S) (take 64 inp) (length a + 64) False\<rparr>"
    using compress_F[of ?S "length a + 64" False inp] assms by (simp add: compressed_def F_take)
  show "compressed h0 (a @ take 64 inp) (blake2s_compress inp (blake2s_increment_counter 64 S))"
    using assms blocks_step[of "take 64 inp"] unfolding i c by (cases "inp = []") (simp_all add: compressed_def)
qed (simp_all add: blake2s_compress_def blake2s_increment_counter_def Let_def)

lemma compress_blocks_next:
  assumes "compressed h0 a S" "inp \<noteq> []" "compress_blocks inp S = (rest, S')"
  shows "\<exists>c. inp = c @ rest \<and> rest \<noteq> [] \<and> length rest \<le> 64 \<and> compressed h0 (a @ c) S' \<and>
    bs_buf S' = bs_buf S \<and> bs_buflen S' = bs_buflen S \<and> bs_outlen S' = bs_outlen S"
  using assms
proof (induction inp S arbitrary: a rule: compress_blocks.induct)
  case (1 inp S)
  show ?case
  proof (cases "length inp > 64")
    case True
    let ?S = "blake2s_compress inp (blake2s_increment_counter 64 S)"
    have "64 \<le> length inp" using True by simp
    note n = compress_next[OF "1.prems"(1) this]
    have "compress_blocks (drop 64 inp) ?S = (rest, S')" using True "1.prems"(3) by (simp add: compress_blocks.simps[of inp])
    then obtain c where "drop 64 inp = c @ rest" "rest \<noteq> []" "length rest \<le> 64" "compressed h0 ((a @ take 64 inp) @ c) S'"
      "bs_buf S' = bs_buf ?S" "bs_buflen S' = bs_buflen ?S" "bs_outlen S' = bs_outlen ?S"
      using "1.IH"[OF True n(1)] True by auto
    then show ?thesis using n(2-4) by (intro exI[of _ "take 64 inp @ c"]) (simp, metis append_take_drop_id append.assoc)
  next
    case False
    then show ?thesis using "1.prems" by (intro exI[of _ "[]"]) (simp add: compress_blocks.simps[of inp])
  qed
qed

lemma update_hashing:
  assumes "hashing h0 m S"
  shows "hashing h0 (m @ x) (snd (blake2s_update x S))" "fst (blake2s_update x S) = 0" "bs_outlen (snd (blake2s_update x S)) = bs_outlen S"
proof -
  obtain a t where m: "m = a @ t" "length t \<le> 64" "t = [] \<longrightarrow> a = []" "bs_buflen S = length t" "length (bs_buf S) = 64"
    "take (length t) (bs_buf S) = t" "compressed h0 a S"
    using assms unfolding hashing_def by (elim exE conjE)
  let ?fill = "64 - length t"
  consider (none) "x = []" | (small) "x \<noteq> []" "length x \<le> ?fill" | (large) "length x > ?fill" by fastforce
  then have "hashing h0 (m @ x) (snd (blake2s_update x S)) \<and> fst (blake2s_update x S) = 0 \<and> bs_outlen (snd (blake2s_update x S)) = bs_outlen S"
  proof cases
    case none
    then show ?thesis using assms by (simp add: blake2s_update_def)
  next
    case small
    then have u: "blake2s_update x S = (0, S\<lparr>bs_buf := put_bytes (length t) x (bs_buf S), bs_buflen := length t + length x\<rparr>)"
      using m(4) by (simp add: blake2s_update_def Let_def)
    have "hashing h0 (a @ (t @ x)) (S\<lparr>bs_buf := put_bytes (length t) x (bs_buf S), bs_buflen := length t + length x\<rparr>)"
      unfolding hashing_def using small m
      by (intro exI[of _ a] exI[of _ "t @ x"]) (simp add: take_put_bytes compressed_def)
    then show ?thesis using m(1) by (simp add: u)
  next
    case large
    let ?b = "put_bytes (length t) (take ?fill x) (bs_buf S)"
    let ?S = "S\<lparr>bs_buflen := 0, bs_buf := ?b\<rparr>"
    have b: "length ?b = 64" "?b = t @ take ?fill x"
      using large m(2,5,6) take_put_bytes[of "length t" "take ?fill x" "bs_buf S" 64] by (simp_all add: min_def)
    have c: "compressed h0 a ?S" using m(7) by (simp add: compressed_def)
    note n = compress_next[OF c, of ?b, unfolded b(1), simplified]
    obtain rest S' where cb: "compress_blocks (drop ?fill x) (blake2s_compress ?b (blake2s_increment_counter 64 ?S)) = (rest, S')"
      by (rule prod.exhaust)
    have "drop ?fill x \<noteq> []" using large by simp
    from compress_blocks_next[OF n(1) this cb] obtain c where d: "drop ?fill x = c @ rest" "rest \<noteq> []" "length rest \<le> 64"
      "compressed h0 ((a @ take 64 ?b) @ c) S'" "bs_buf S' = ?b" "bs_buflen S' = 0" "bs_outlen S' = bs_outlen S"
      using n(2-4) by auto
    have u: "blake2s_update x S = (0, S'\<lparr>bs_buf := put_bytes 0 rest ?b, bs_buflen := length rest\<rparr>)"
      using large m(4) cb d(5,6) by (auto simp: blake2s_update_def Let_def blake2s_increment_counter_def blake2s_compress_def)
    have "x = take ?fill x @ c @ rest" using d(1) by (metis append_take_drop_id)
    then have "m @ x = (a @ ?b @ c) @ rest" using m(1) b(2) by simp
    moreover have "take (length rest) (put_bytes 0 rest ?b) = rest" by (simp add: put_bytes_0)
    moreover have "length (put_bytes 0 rest ?b) = 64" using d(3) b(1) by simp
    ultimately show ?thesis
      unfolding hashing_def u using d b(1)
      by (simp, intro exI[of _ "a @ ?b @ c"] exI[of _ rest]) (simp add: compressed_def)
  qed
  then show "hashing h0 (m @ x) (snd (blake2s_update x S))" "fst (blake2s_update x S) = 0" "bs_outlen (snd (blake2s_update x S)) = bs_outlen S"
    by simp_all
qed

lemma final_hashing:
  assumes "hashing h0 m S" "bs_outlen S \<le> length out" "length out \<le> 32"
  shows "fst (blake2s_final out S) = 0"
    "fst (snd (blake2s_final out S)) = take (length out) (concat (map StoreLe32 (blake2s_blocks h0 0 m)))"
proof -
  obtain a t where m: "m = a @ t" "length t \<le> 64" "t = [] \<longrightarrow> a = []" "bs_buflen S = length t" "length (bs_buf S) = 64"
    "take (length t) (bs_buf S) = t" "compressed h0 a S"
    using assms(1) unfolding hashing_def by (elim exE conjE)
  let ?b = "t @ zeros (64 - length t)"
  let ?h = "blake2s_F (bs_h S) ?b (length a + length t) True"
  let ?S = "S\<lparr>bs_t := offset_words (length a + length t), bs_f := flag_words True, bs_buf := ?b\<rparr>"
  have b: "put_bytes (length t) (zeros (64 - length t)) (bs_buf S) = ?b"
    using m(2,5,6) by (simp add: put_bytes_def)
  have i: "blake2s_increment_counter (of_nat (length t)) S = S\<lparr>bs_t := offset_words (length a + length t)\<rparr>"
    using increment_offset[of S "length a" "length t"] m(2,7) by (simp add: compressed_def)
  have f: "blake2s_set_lastblock (S\<lparr>bs_t := offset_words (length a + length t)\<rparr>) = S\<lparr>bs_t := offset_words (length a + length t), bs_f := flag_words True\<rparr>"
    using m(7) by (simp add: blake2s_set_lastblock_def compressed_def flag_words_def)
  have c: "blake2s_compress ?b ?S = ?S\<lparr>bs_h := ?h\<rparr>"
    using compress_F[of ?S "length a + length t" True ?b] m(7) by (simp add: compressed_def)
  have n: "\<not> blake2s_is_lastblock S" using m(7) by (simp add: blake2s_is_lastblock_def compressed_def flag_words_def)
  have h: "blake2s_blocks h0 0 m = ?h"
  proof -
    have "blake2s_blocks h0 0 (a @ t) = blake2s_blocks (bs_h S) (length a) t"
      using m(3,7) by (cases "t = []") (simp_all add: compressed_def)
    then show ?thesis using m(1,2) by (simp add: blake2s_blocks.simps[of "bs_h S"])
  qed
  have e: "blake2s_final out S = (0, put_bytes 0 (take (length out) (concat (map (\<lambda>i. store32 (?h ! i)) [0..<8]))) out, ?S\<lparr>bs_h := ?h\<rparr>)"
    using assms(2) n unfolding blake2s_final_def Let_def m(4) i f by (simp add: m(4) b c)
  have "map (\<lambda>i. store32 (?h ! i)) [0..<8] = map StoreLe32 (map ((!) ?h) [0..<length ?h])"
    by (simp only: length_F map_map store32_eq comp_def)
  then have s: "map (\<lambda>i. store32 (?h ! i)) [0..<8] = map StoreLe32 ?h" by (simp only: map_nth)
  have "length (concat (map StoreLe32 ?h)) = 32" by (simp add: length_concat comp_def sum_list_triv)
  then show "fst (blake2s_final out S) = 0"
    "fst (snd (blake2s_final out S)) = take (length out) (concat (map StoreLe32 (blake2s_blocks h0 0 m)))"
    using assms(3) unfolding e h s by (simp_all add: put_bytes_0)
qed

lemma param_word:
  "push_bit 0 (ucast (a :: byte)) OR push_bit 8 (ucast (b :: byte)) OR push_bit 16 (ucast (1 :: byte)) OR push_bit 24 (ucast (1 :: byte)) =
     (0x01010000 XOR push_bit 8 (ucast b) XOR ucast a :: u32)"
proof -
  define c d e :: u32 where "c = 0x01010000" and "d = push_bit 16 (ucast (1 :: byte))" and "e = push_bit 24 (ucast (1 :: byte))"
  have c: "c = push_bit 16 1 XOR push_bit 24 1" by (simp add: c_def push_bit_eq_mult)
  have q: "bit c n \<longleftrightarrow> n = 16 \<or> n = 24" "bit d n \<longleftrightarrow> n = 16" "bit e n \<longleftrightarrow> n = 24" for n
    unfolding c d_def e_def unsigned_1 bit_xor_iff bit_push_bit_iff bit_1_iff by auto
  show ?thesis
    unfolding c_def[symmetric] d_def[symmetric] e_def[symmetric]
    by (rule bit_word_eqI) (auto simp: q bit_simps dest: bit_imp_le_length)
qed

lemma init_start:
  assumes "nn \<le> 32" "kk \<le> 32"
  shows "blake2s_init_param (sequential_param nn kk) = (0, blake2s_init0\<lparr>bs_h := blake2s_start nn kk, bs_outlen := nn\<rparr>)"
proof -
  have n: "ucast (of_nat nn :: byte) = (of_nat nn :: u32)" "ucast (of_nat kk :: byte) = (of_nat kk :: u32)"
    using assms by (simp_all add: unsigned_of_nat take_bit_nat_eq_self)
  have "[0..<8] = [0, 1, 2, 3, 4, 5, 6, 7 :: nat]" by (simp add: upt_rec)
  then have "map (\<lambda>i. bs_h blake2s_init0 ! i XOR load32 (drop (i * 4) (param_bytes (sequential_param nn kk)))) [0..<8] = blake2s_start nn kk"
    using param_word[of "of_nat nn" "of_nat kk"]
    by (simp add: blake2s_init0_def param_bytes_def sequential_param_def store32_def store16_def load32_def blake2s_start_def blake2s_IV_def n
        numeral_eq_Suc xor.assoc)
  moreover have "unat (of_nat nn :: byte) = nn" using assms by (simp add: unat_of_nat)
  ultimately show ?thesis by (simp add: blake2s_init_param_def Let_def sequential_param_def)
qed

lemma hashing_init: "hashing (blake2s_start nn kk) [] (blake2s_init0\<lparr>bs_h := blake2s_start nn kk, bs_outlen := nn\<rparr>)"
  by (auto simp: hashing_def compressed_def blake2s_init0_def offset_words_def flag_words_def blake2s_start_def blake2s_IV_def)

lemma fold_update:
  assumes "hashing h0 m S"
  shows "hashing h0 (m @ concat chunks) (fold (\<lambda>x S. snd (blake2s_update x S)) chunks S) \<and>
    bs_outlen (fold (\<lambda>x S. snd (blake2s_update x S)) chunks S) = bs_outlen S"
  using assms
proof (induction chunks arbitrary: m S)
  case (Cons x chunks)
  show ?case using Cons.IH[OF update_hashing(1)[OF Cons.prems, of x]] update_hashing(3)[OF Cons.prems, of x] by simp
qed simp

definition key_block :: "byte list \<Rightarrow> byte list" where
  "key_block key = (if key = [] then [] else key @ zeros (64 - length key))"

text \<open>The initialisation that \<open>blake2s\<close> chooses.\<close>

definition keyed_init :: "nat \<Rightarrow> byte list \<Rightarrow> blake2s_state \<Rightarrow> int \<times> blake2s_state" where
  "keyed_init outlen key S = (if length key > 0 then blake2s_init_key outlen key S else blake2s_init outlen S)"

lemma keyed_init_hashing:
  assumes "0 < n" "n \<le> 32" "length key \<le> 32"
  shows "fst (keyed_init n key S) = 0" "bs_outlen (snd (keyed_init n key S)) = n"
    "hashing (blake2s_start n (length key)) (key_block key) (snd (keyed_init n key S))"
proof -
  let ?S = "blake2s_init0\<lparr>bs_h := blake2s_start n (length key), bs_outlen := n\<rparr>"
  note h = hashing_init[of n "length key"]
  have k: "put_bytes 0 key (zeros 64) = key @ zeros (64 - length key)" using assms(3) by (simp add: put_bytes_0)
  consider (no) "key = []" | (some) "key \<noteq> []" by blast
  then have "fst (keyed_init n key S) = 0 \<and> bs_outlen (snd (keyed_init n key S)) = n \<and>
    hashing (blake2s_start n (length key)) (key_block key) (snd (keyed_init n key S))"
  proof cases
    case no
    then show ?thesis using assms h init_start[of n 0] by (simp add: keyed_init_def blake2s_init_def key_block_def)
  next
    case some
    then have "keyed_init n key S = (0, snd (blake2s_update (key @ zeros (64 - length key)) ?S))"
      using assms init_start[of n "length key"] by (simp add: keyed_init_def blake2s_init_key_def k)
    then show ?thesis using update_hashing[OF h, of "key @ zeros (64 - length key)"] some by (simp add: key_block_def)
  qed
  then show "fst (keyed_init n key S) = 0" "bs_outlen (snd (keyed_init n key S)) = n"
    "hashing (blake2s_start n (length key)) (key_block key) (snd (keyed_init n key S))" by simp_all
qed

lemma streamed_hash:
  assumes "0 < length out" "length out \<le> 32" "length key \<le> 32" "keyed_init (length out) key S0 = (rc, S)"
    "blake2s_final out (fold (\<lambda>x S. snd (blake2s_update x S)) chunks S) = (rc', digest, S')"
  shows "rc = 0" "rc' = 0" "digest = blake2s_hash (length out) key (concat chunks)"
proof -
  note i = keyed_init_hashing[OF assms(1-3), of S0]
  note u = fold_update[OF i(3), of chunks]
  show "rc = 0" using i(1) assms(4) by simp
  have "bs_outlen (fold (\<lambda>x S. snd (blake2s_update x S)) chunks (snd (keyed_init (length out) key S0))) \<le> length out"
    using u i(2) by simp
  from final_hashing[OF conjunct1[OF u] this assms(2)] show "rc' = 0" "digest = blake2s_hash (length out) key (concat chunks)"
    using assms(4,5) by (simp_all add: blake2s_hash_def key_block_def)
qed

lemma blake2s_eq:
  assumes "0 < length out" "length out \<le> 32" "length key \<le> 32"
  shows "blake2s out inp key S = (0, blake2s_hash (length out) key inp)"
proof -
  obtain rc S1 where i: "keyed_init (length out) key S = (rc, S1)" by (rule prod.exhaust)
  obtain rc' d S2 where f: "blake2s_final out (fold (\<lambda>x S. snd (blake2s_update x S)) [inp] S1) = (rc', d, S2)" by (rule prod_cases3)
  from streamed_hash[OF assms i f] show ?thesis
    using assms i f by (auto simp: blake2s_def keyed_init_def Let_def)
qed

subsection \<open>The hash\<close>

text \<open>C12: For every digest size from 1 to 32 bytes and every key of at most 32 bytes, initialising, updating with any
  pieces in order and finishing succeeds and gives the BLAKE2s hash of RFC 7693 of the whole input, with the key
  as a padded first block when there is one. The one-shot function gives the same hash, and fails with -1 and
  leaves the output as it was when the digest size is 0 or over 32 or the key is over 32 bytes.\<close>

theorem blake2s_computes_hash:
  assumes "0 < length out" "length out \<le> 32" "length key \<le> 32"
  shows "(case (if length key > 0 then blake2s_init_key (length out) key S else blake2s_init (length out) S) of (rc, S) \<Rightarrow>
      rc = 0 \<and>
      (case blake2s_final out (fold (\<lambda>x S. snd (blake2s_update x S)) chunks S) of (rc, digest, _) \<Rightarrow>
         rc = 0 \<and> digest = blake2s_hash (length out) key (concat chunks))) \<and>
    blake2s out' inp key' S =
      (if length out' = 0 \<or> length out' > 32 \<or> length key' > 32 then (- 1, out') else (0, blake2s_hash (length out') key' inp))"
proof (rule conjI)
  obtain rc S1 where i: "keyed_init (length out) key S = (rc, S1)" by (rule prod.exhaust)
  obtain rc' d S2 where f: "blake2s_final out (fold (\<lambda>x S. snd (blake2s_update x S)) chunks S1) = (rc', d, S2)" by (rule prod_cases3)
  show "case (if length key > 0 then blake2s_init_key (length out) key S else blake2s_init (length out) S) of (rc, S) \<Rightarrow>
      rc = 0 \<and>
      (case blake2s_final out (fold (\<lambda>x S. snd (blake2s_update x S)) chunks S) of (rc, digest, _) \<Rightarrow>
         rc = 0 \<and> digest = blake2s_hash (length out) key (concat chunks))"
    using streamed_hash[OF assms i f] i f unfolding keyed_init_def by auto
  show "blake2s out' inp key' S =
      (if length out' = 0 \<or> length out' > 32 \<or> length key' > 32 then (- 1, out') else (0, blake2s_hash (length out') key' inp))"
    using blake2s_eq[of out' key' inp S] by (auto simp: blake2s_def Let_def)
qed

theorem blake2s_computes_hash_witness:
  "case blake2s_init_key 16 [1, 2] blake2s_init0 of (rc, S) \<Rightarrow>
     rc = 0 \<and>
     (case blake2s_final (zeros 16) (fold (\<lambda>x S. snd (blake2s_update x S)) [[5], [], [6, 7]] S) of (rc, digest, _) \<Rightarrow>
        rc = 0 \<and> digest = blake2s_hash 16 [1, 2] [5, 6, 7])"
  using blake2s_computes_hash[where out = "zeros 16" and key = "[1, 2]" and S = blake2s_init0 and chunks = "[[5], [], [6, 7]]" and out' = "[]"]
  by simp

end
