(* ===== verification/WG_Fe.thy ===== *)
theory WG_Fe
  imports WG_Poly1305
begin

unbundle bit_operations_syntax

text \<open>
  Arithmetic modulo \<open>2 ^ 255 - 19\<close> in ten signed limbs, as the vendored Monocypher does it for X25519. The C
  integers \<open>i32\<close> and \<open>i64\<close> are integers with the wrap-around of their width written at every operation, and
  the lemmas show that the wrap-around never happens on limbs within the bounds the code states, that every
  operation computes its result modulo the prime, and that it keeps the bounds.
\<close>

subsection \<open>Model\<close>

definition i32 :: "int \<Rightarrow> int" where
  "i32 x = signed_take_bit 31 x"

definition i64 :: "int \<Rightarrow> int" where
  "i64 x = signed_take_bit 63 x"

definition load24_le :: "byte list \<Rightarrow> u32" where
  "load24_le s = push_bit 0 (ucast (s ! 0)) OR push_bit 8 (ucast (s ! 1)) OR push_bit 16 (ucast (s ! 2))"

definition x32 :: "byte list \<Rightarrow> byte list \<Rightarrow> u64" where
  "x32 a b = x16 a b OR x16 (drop 16 a) (drop 16 b)"

definition crypto_verify32 :: "byte list \<Rightarrow> byte list \<Rightarrow> int" where
  "crypto_verify32 a b = neq0 (x32 a b)"

type_synonym fe = "int list"

definition sqrtm1 :: fe where
  "sqrtm1 = [- 32595792, - 7943725, 9377950, 3500415, 12389472, - 272473, - 25146209, - 2005654, 326686, 11406482]"

definition fe_0 :: fe where
  "fe_0 = replicate 10 0"

definition fe_1 :: fe where
  "fe_1 = 1 # replicate 9 0"

definition fe_copy :: "fe \<Rightarrow> fe" where
  "fe_copy f = map (\<lambda>i. f ! i) [0..<10]"

definition fe_neg :: "fe \<Rightarrow> fe" where
  "fe_neg f = map (\<lambda>i. i32 (- f ! i)) [0..<10]"

definition fe_add :: "fe \<Rightarrow> fe \<Rightarrow> fe" where
  "fe_add f g = map (\<lambda>i. i32 (f ! i + g ! i)) [0..<10]"

definition fe_sub :: "fe \<Rightarrow> fe \<Rightarrow> fe" where
  "fe_sub f g = map (\<lambda>i. i32 (f ! i - g ! i)) [0..<10]"

definition fe_cswap :: "fe \<Rightarrow> fe \<Rightarrow> int \<Rightarrow> fe \<times> fe" where
  "fe_cswap f g b =
     (let mask = i32 (- b);
          x = (\<lambda>i. (f ! i XOR g ! i) AND mask)
      in (map (\<lambda>i. f ! i XOR x i) [0..<10], map (\<lambda>i. g ! i XOR x i) [0..<10]))"

definition fe_ccopy :: "fe \<Rightarrow> fe \<Rightarrow> int \<Rightarrow> fe" where
  "fe_ccopy f g b =
     (let mask = i32 (- b);
          x = (\<lambda>i. (f ! i XOR g ! i) AND mask)
      in map (\<lambda>i. f ! i XOR x i) [0..<10])"

text \<open>One line of \<open>FE_CARRY\<close>: the carry out of \<open>t\<close>, rounded to the nearest, goes into \<open>u\<close> times \<open>k\<close>.\<close>

definition carry_line :: "nat \<Rightarrow> int \<Rightarrow> int \<Rightarrow> int \<Rightarrow> int \<times> int" where
  "carry_line a k t u =
     (let c = drop_bit a (i64 (t + push_bit (a - 1) 1))
      in (i64 (t - i64 (c * push_bit a 1)), i64 (u + i64 (c * k))))"

definition FE_CARRY :: "int \<Rightarrow> int \<Rightarrow> int \<Rightarrow> int \<Rightarrow> int \<Rightarrow> int \<Rightarrow> int \<Rightarrow> int \<Rightarrow> int \<Rightarrow> int \<Rightarrow> fe" where
  "FE_CARRY t0 t1 t2 t3 t4 t5 t6 t7 t8 t9 =
     (let (t0, t1) = carry_line 26 1 t0 t1;
          (t4, t5) = carry_line 26 1 t4 t5;
          (t1, t2) = carry_line 25 1 t1 t2;
          (t5, t6) = carry_line 25 1 t5 t6;
          (t2, t3) = carry_line 26 1 t2 t3;
          (t6, t7) = carry_line 26 1 t6 t7;
          (t3, t4) = carry_line 25 1 t3 t4;
          (t7, t8) = carry_line 25 1 t7 t8;
          (t4, t5) = carry_line 26 1 t4 t5;
          (t8, t9) = carry_line 26 1 t8 t9;
          (t9, t0) = carry_line 25 19 t9 t0;
          (t0, t1) = carry_line 26 1 t0 t1
      in [i32 t0, i32 t1, i32 t2, i32 t3, i32 t4, i32 t5, i32 t6, i32 t7, i32 t8, i32 t9])"

definition fe_frombytes_mask :: "byte list \<Rightarrow> nat \<Rightarrow> fe" where
  "fe_frombytes_mask s nb_mask =
     (let mask = drop_bit nb_mask (0xffffff :: u32);
          t0 = uint (load32_le s);
          t1 = uint (push_bit 6 (load24_le (drop 4 s)));
          t2 = uint (push_bit 5 (load24_le (drop 7 s)));
          t3 = uint (push_bit 3 (load24_le (drop 10 s)));
          t4 = uint (push_bit 2 (load24_le (drop 13 s)));
          t5 = uint (load32_le (drop 16 s));
          t6 = uint (push_bit 7 (load24_le (drop 20 s)));
          t7 = uint (push_bit 5 (load24_le (drop 23 s)));
          t8 = uint (push_bit 4 (load24_le (drop 26 s)));
          t9 = uint (push_bit 2 (load24_le (drop 29 s) AND mask))
      in FE_CARRY t0 t1 t2 t3 t4 t5 t6 t7 t8 t9)"

definition fe_frombytes :: "byte list \<Rightarrow> fe" where
  "fe_frombytes s = fe_frombytes_mask s 1"

text \<open>The two passes of \<open>fe_tobytes\<close>, each five times over a pair of limbs: the sign, then the reduction.\<close>

definition sign_pass :: "fe \<Rightarrow> int \<Rightarrow> int" where
  "sign_pass t q =
     fold (\<lambda>i q.
       let q = drop_bit 26 (i32 (q + t ! (2 * i)))
       in drop_bit 25 (i32 (q + t ! (2 * i + 1)))) [0, 1, 2, 3, 4] q"

definition reduce_pass :: "fe \<Rightarrow> int \<Rightarrow> fe" where
  "reduce_pass t q =
     fst (fold (\<lambda>i (t, q).
       let t = t[i * 2 := i32 (t ! (i * 2) + q)];
           q = drop_bit 26 (t ! (i * 2));
           t = t[i * 2 := i32 (t ! (i * 2) - i32 (q * push_bit 26 1))];
           t = t[i * 2 + 1 := i32 (t ! (i * 2 + 1) + q)];
           q = drop_bit 25 (t ! (i * 2 + 1));
           t = t[i * 2 + 1 := i32 (t ! (i * 2 + 1) - i32 (q * push_bit 25 1))]
       in (t, q)) [0, 1, 2, 3, 4] (t, q))"

definition fe_tobytes :: "fe \<Rightarrow> byte list" where
  "fe_tobytes h =
     (let t = h;
          q = drop_bit 25 (i32 (i32 (19 * t ! 9) + push_bit 24 1));
          q = sign_pass t q;
          q = i32 (q * 19);
          t = reduce_pass t q;
          u = (\<lambda>i. word_of_int (t ! i) :: u32)
      in store32_le (drop_bit 0 (u 0) OR push_bit 26 (u 1)) @
         store32_le (drop_bit 6 (u 1) OR push_bit 19 (u 2)) @
         store32_le (drop_bit 13 (u 2) OR push_bit 13 (u 3)) @
         store32_le (drop_bit 19 (u 3) OR push_bit 6 (u 4)) @
         store32_le (drop_bit 0 (u 5) OR push_bit 25 (u 6)) @
         store32_le (drop_bit 7 (u 6) OR push_bit 19 (u 7)) @
         store32_le (drop_bit 13 (u 7) OR push_bit 12 (u 8)) @
         store32_le (drop_bit 20 (u 8) OR push_bit 6 (u 9)))"

definition fe_mul_small :: "fe \<Rightarrow> int \<Rightarrow> fe" where
  "fe_mul_small f g =
     FE_CARRY (i64 (f ! 0 * g)) (i64 (f ! 1 * g)) (i64 (f ! 2 * g)) (i64 (f ! 3 * g)) (i64 (f ! 4 * g))
       (i64 (f ! 5 * g)) (i64 (f ! 6 * g)) (i64 (f ! 7 * g)) (i64 (f ! 8 * g)) (i64 (f ! 9 * g))"

definition fe_mul :: "fe \<Rightarrow> fe \<Rightarrow> fe" where
  "fe_mul f g =
     (let f0 = f ! 0; f1 = f ! 1; f2 = f ! 2; f3 = f ! 3; f4 = f ! 4;
          f5 = f ! 5; f6 = f ! 6; f7 = f ! 7; f8 = f ! 8; f9 = f ! 9;
          g0 = g ! 0; g1 = g ! 1; g2 = g ! 2; g3 = g ! 3; g4 = g ! 4;
          g5 = g ! 5; g6 = g ! 6; g7 = g ! 7; g8 = g ! 8; g9 = g ! 9;
          F1 = i32 (f1 * 2); F3 = i32 (f3 * 2); F5 = i32 (f5 * 2); F7 = i32 (f7 * 2); F9 = i32 (f9 * 2);
          G1 = i32 (g1 * 19); G2 = i32 (g2 * 19); G3 = i32 (g3 * 19);
          G4 = i32 (g4 * 19); G5 = i32 (g5 * 19); G6 = i32 (g6 * 19);
          G7 = i32 (g7 * 19); G8 = i32 (g8 * 19); G9 = i32 (g9 * 19)
      in FE_CARRY
        (i64 (f0*g0 + F1*G9 + f2*G8 + F3*G7 + f4*G6 + F5*G5 + f6*G4 + F7*G3 + f8*G2 + F9*G1))
        (i64 (f0*g1 + f1*g0 + f2*G9 + f3*G8 + f4*G7 + f5*G6 + f6*G5 + f7*G4 + f8*G3 + f9*G2))
        (i64 (f0*g2 + F1*g1 + f2*g0 + F3*G9 + f4*G8 + F5*G7 + f6*G6 + F7*G5 + f8*G4 + F9*G3))
        (i64 (f0*g3 + f1*g2 + f2*g1 + f3*g0 + f4*G9 + f5*G8 + f6*G7 + f7*G6 + f8*G5 + f9*G4))
        (i64 (f0*g4 + F1*g3 + f2*g2 + F3*g1 + f4*g0 + F5*G9 + f6*G8 + F7*G7 + f8*G6 + F9*G5))
        (i64 (f0*g5 + f1*g4 + f2*g3 + f3*g2 + f4*g1 + f5*g0 + f6*G9 + f7*G8 + f8*G7 + f9*G6))
        (i64 (f0*g6 + F1*g5 + f2*g4 + F3*g3 + f4*g2 + F5*g1 + f6*g0 + F7*G9 + f8*G8 + F9*G7))
        (i64 (f0*g7 + f1*g6 + f2*g5 + f3*g4 + f4*g3 + f5*g2 + f6*g1 + f7*g0 + f8*G9 + f9*G8))
        (i64 (f0*g8 + F1*g7 + f2*g6 + F3*g5 + f4*g4 + F5*g3 + f6*g2 + F7*g1 + f8*g0 + F9*G9))
        (i64 (f0*g9 + f1*g8 + f2*g7 + f3*g6 + f4*g5 + f5*g4 + f6*g3 + f7*g2 + f8*g1 + f9*g0)))"

definition fe_sq :: "fe \<Rightarrow> fe" where
  "fe_sq f =
     (let f0 = f ! 0; f1 = f ! 1; f2 = f ! 2; f3 = f ! 3; f4 = f ! 4;
          f5 = f ! 5; f6 = f ! 6; f7 = f ! 7; f8 = f ! 8; f9 = f ! 9;
          f0_2 = i32 (f0 * 2); f1_2 = i32 (f1 * 2); f2_2 = i32 (f2 * 2); f3_2 = i32 (f3 * 2);
          f4_2 = i32 (f4 * 2); f5_2 = i32 (f5 * 2); f6_2 = i32 (f6 * 2); f7_2 = i32 (f7 * 2);
          f5_38 = i32 (f5 * 38); f6_19 = i32 (f6 * 19); f7_38 = i32 (f7 * 38);
          f8_19 = i32 (f8 * 19); f9_38 = i32 (f9 * 38)
      in FE_CARRY
        (i64 (f0*f0 + f1_2*f9_38 + f2_2*f8_19 + f3_2*f7_38 + f4_2*f6_19 + f5*f5_38))
        (i64 (f0_2*f1 + f2*f9_38 + f3_2*f8_19 + f4*f7_38 + f5_2*f6_19))
        (i64 (f0_2*f2 + f1_2*f1 + f3_2*f9_38 + f4_2*f8_19 + f5_2*f7_38 + f6*f6_19))
        (i64 (f0_2*f3 + f1_2*f2 + f4*f9_38 + f5_2*f8_19 + f6*f7_38))
        (i64 (f0_2*f4 + f1_2*f3_2 + f2*f2 + f5_2*f9_38 + f6_2*f8_19 + f7*f7_38))
        (i64 (f0_2*f5 + f1_2*f4 + f2_2*f3 + f6*f9_38 + f7_2*f8_19))
        (i64 (f0_2*f6 + f1_2*f5_2 + f2_2*f4 + f3_2*f3 + f7_2*f9_38 + f8*f8_19))
        (i64 (f0_2*f7 + f1_2*f6 + f2_2*f5 + f3_2*f4 + f8*f9_38))
        (i64 (f0_2*f8 + f1_2*f7_2 + f2_2*f6 + f3_2*f5_2 + f4*f4 + f9*f9_38))
        (i64 (f0_2*f9 + f1_2*f8 + f2_2*f7 + f3_2*f6 + f4*f5_2)))"

definition fe_isequal :: "fe \<Rightarrow> fe \<Rightarrow> int" where
  "fe_isequal f g =
     (let fs = fe_tobytes f; gs = fe_tobytes g; isdifferent = crypto_verify32 fs gs in 1 + isdifferent)"

text \<open>The names that \<open>invsqrt\<close> gives to its temporaries are those of the code; a loop of squarings is a power of \<open>fe_sq\<close>.\<close>

definition invsqrt :: "fe \<Rightarrow> int \<times> fe" where
  "invsqrt x =
     (let t0 = fe_sq x;
          t1 = fe_sq t0; t1 = fe_sq t1; t1 = fe_mul x t1;
          t0 = fe_mul t0 t1;
          t0 = fe_sq t0; t0 = fe_mul t1 t0;
          t1 = fe_sq t0; t1 = (fe_sq ^^ 4) t1; t0 = fe_mul t1 t0;
          t1 = fe_sq t0; t1 = (fe_sq ^^ 9) t1; t1 = fe_mul t1 t0;
          t2 = fe_sq t1; t2 = (fe_sq ^^ 19) t2; t1 = fe_mul t2 t1;
          t1 = fe_sq t1; t1 = (fe_sq ^^ 9) t1; t0 = fe_mul t1 t0;
          t1 = fe_sq t0; t1 = (fe_sq ^^ 49) t1; t1 = fe_mul t1 t0;
          t2 = fe_sq t1; t2 = (fe_sq ^^ 99) t2; t1 = fe_mul t2 t1;
          t1 = fe_sq t1; t1 = (fe_sq ^^ 49) t1; t0 = fe_mul t1 t0;
          t0 = fe_sq t0; t0 = (fe_sq ^^ 1) t0; t0 = fe_mul t0 x;
          quartic = fe_sq t0;
          quartic = fe_mul quartic x;
          check = fe_0; z0 = fe_isequal x check;
          check = fe_1; p1 = fe_isequal quartic check;
          check = fe_neg check; m1 = fe_isequal quartic check;
          check = fe_neg sqrtm1; ms = fe_isequal quartic check;
          isr = fe_mul t0 sqrtm1;
          isr = fe_ccopy isr t0 (1 - (m1 OR ms))
      in (p1 OR m1 OR z0, isr))"

definition fe_invert :: "fe \<Rightarrow> fe" where
  "fe_invert x =
     (let tmp = fe_sq x;
          tmp = snd (invsqrt tmp);
          tmp = fe_sq tmp
      in fe_mul tmp x)"

subsection \<open>Values and bounds\<close>

abbreviation (input) fe_p :: int where "fe_p \<equiv> 2 ^ 255 - 19"

definition limbs :: "int \<Rightarrow> int \<Rightarrow> int \<Rightarrow> int \<Rightarrow> int \<Rightarrow> int \<Rightarrow> int \<Rightarrow> int \<Rightarrow> int \<Rightarrow> int \<Rightarrow> int" where
  "limbs t0 t1 t2 t3 t4 t5 t6 t7 t8 t9 =
     t0 + 2 ^ 26 * t1 + 2 ^ 51 * t2 + 2 ^ 77 * t3 + 2 ^ 102 * t4 + 2 ^ 128 * t5 + 2 ^ 153 * t6 + 2 ^ 179 * t7 + 2 ^ 204 * t8 + 2 ^ 230 * t9"

definition fe_val :: "fe \<Rightarrow> int" where
  "fe_val h = limbs (h ! 0) (h ! 1) (h ! 2) (h ! 3) (h ! 4) (h ! 5) (h ! 6) (h ! 7) (h ! 8) (h ! 9)"

definition within :: "int \<Rightarrow> int \<Rightarrow> bool" where
  "within b t \<longleftrightarrow> - b \<le> t \<and> t \<le> b"

text \<open>Limbs within \<open>1.1 * 2 ^ 25\<close> and \<open>1.1 * 2 ^ 24\<close>, as \<open>FE_CARRY\<close> leaves them, and within \<open>1.65 * 2 ^ 26\<close> and
  \<open>1.65 * 2 ^ 25\<close>, as the multiplications accept them.\<close>

definition limb_bounds :: "int \<Rightarrow> int \<Rightarrow> fe \<Rightarrow> bool" where
  "limb_bounds e d h \<longleftrightarrow> length h = 10 \<and>
     (within e (h ! 0) \<and> within e (h ! 2) \<and> within e (h ! 4) \<and> within e (h ! 6) \<and> within e (h ! 8)) \<and>
     (within d (h ! 1) \<and> within d (h ! 3) \<and> within d (h ! 5) \<and> within d (h ! 7) \<and> within d (h ! 9))"

definition fe_tight :: "fe \<Rightarrow> bool" where
  "fe_tight h \<longleftrightarrow> limb_bounds 36909875 18454937 h"

definition fe_wide :: "fe \<Rightarrow> bool" where
  "fe_wide h \<longleftrightarrow> limb_bounds 110729625 55364812 h"

lemma i32_id: "- (2 ^ 31) \<le> x \<Longrightarrow> x < 2 ^ 31 \<Longrightarrow> i32 x = x"
  unfolding i32_def by (rule signed_take_bit_int_eq_self)

lemma i64_id: "- (2 ^ 63) \<le> x \<Longrightarrow> x < 2 ^ 63 \<Longrightarrow> i64 x = x"
  unfolding i64_def by (rule signed_take_bit_int_eq_self)

lemma tight_wide: "fe_tight h \<Longrightarrow> fe_wide h"
  by (simp add: fe_tight_def fe_wide_def limb_bounds_def within_def)

subsection \<open>Carry propagation\<close>

lemma carry26:
  assumes t: "within T t" "T \<le> 2 ^ 62" and u: "within U u" "U + k * (T div 2 ^ 26 + 1) \<le> V" "V \<le> 2 ^ 62" and k: "k \<in> {1, 19}"
  obtains c where "carry_line 26 k t u = (t - c * 2 ^ 26, u + c * k)" "within (2 ^ 25) (t - c * 2 ^ 26)" "within V (u + c * k)"
proof
  define c where "c = (t + 2 ^ 25) div 2 ^ 26"
  have c: "2 ^ 26 * c \<le> t + 2 ^ 25" "t + 2 ^ 25 < 2 ^ 26 * c + 2 ^ 26" unfolding c_def by simp_all
  have T: "T < 2 ^ 26 * (T div 2 ^ 26 + 1)" by simp
  then have c1: "- (T div 2 ^ 26 + 1) \<le> c" "c \<le> T div 2 ^ 26 + 1" using c t(1) unfolding within_def by simp_all
  have ck: "- (k * (T div 2 ^ 26 + 1)) \<le> c * k" "c * k \<le> k * (T div 2 ^ 26 + 1)" using c1 k by auto
  show "within (2 ^ 25) (t - c * 2 ^ 26)" using c by (simp add: within_def)
  show w: "within V (u + c * k)" using ck u by (simp add: within_def)
  have "T div 2 ^ 26 \<le> 2 ^ 62 div 2 ^ 26" using t(2) by (rule zdiv_mono1) simp
  then have ck': "- (2 ^ 63) \<le> c * k" "c * k < 2 ^ 63" using c1 k by auto
  have b: "i64 (t + 2 ^ 25) = t + 2 ^ 25" "i64 (c * 2 ^ 26) = c * 2 ^ 26" "i64 (t - c * 2 ^ 26) = t - c * 2 ^ 26"
    "i64 (c * k) = c * k" "i64 (u + c * k) = u + c * k"
    using c t w u(3) ck' by (simp_all add: within_def i64_id)
  show "carry_line 26 k t u = (t - c * 2 ^ 26, u + c * k)"
    using b unfolding carry_line_def Let_def c_def by (simp add: drop_bit_eq_div push_bit_eq_mult)
qed

lemma carry25:
  assumes t: "within T t" "T \<le> 2 ^ 62" and u: "within U u" "U + k * (T div 2 ^ 25 + 1) \<le> V" "V \<le> 2 ^ 62" and k: "k \<in> {1, 19}"
  obtains c where "carry_line 25 k t u = (t - c * 2 ^ 25, u + c * k)" "within (2 ^ 24) (t - c * 2 ^ 25)" "within V (u + c * k)"
proof
  define c where "c = (t + 2 ^ 24) div 2 ^ 25"
  have c: "2 ^ 25 * c \<le> t + 2 ^ 24" "t + 2 ^ 24 < 2 ^ 25 * c + 2 ^ 25" unfolding c_def by simp_all
  have T: "T < 2 ^ 25 * (T div 2 ^ 25 + 1)" by simp
  then have c1: "- (T div 2 ^ 25 + 1) \<le> c" "c \<le> T div 2 ^ 25 + 1" using c t(1) unfolding within_def by simp_all
  have ck: "- (k * (T div 2 ^ 25 + 1)) \<le> c * k" "c * k \<le> k * (T div 2 ^ 25 + 1)" using c1 k by auto
  show "within (2 ^ 24) (t - c * 2 ^ 25)" using c by (simp add: within_def)
  show w: "within V (u + c * k)" using ck u by (simp add: within_def)
  have "T div 2 ^ 25 \<le> 2 ^ 62 div 2 ^ 25" using t(2) by (rule zdiv_mono1) simp
  then have ck': "- (2 ^ 63) \<le> c * k" "c * k < 2 ^ 63" using c1 k by auto
  have b: "i64 (t + 2 ^ 24) = t + 2 ^ 24" "i64 (c * 2 ^ 25) = c * 2 ^ 25" "i64 (t - c * 2 ^ 25) = t - c * 2 ^ 25"
    "i64 (c * k) = c * k" "i64 (u + c * k) = u + c * k"
    using c t w u(3) ck' by (simp_all add: within_def i64_id)
  show "carry_line 25 k t u = (t - c * 2 ^ 25, u + c * k)"
    using b unfolding carry_line_def Let_def c_def by (simp add: drop_bit_eq_div push_bit_eq_mult)
qed

lemma FE_CARRY_correct:
  assumes "within (3 * 2 ^ 60) t0" "within (3 * 2 ^ 60) t1" "within (3 * 2 ^ 60) t2" "within (3 * 2 ^ 60) t3" "within (3 * 2 ^ 60) t4" "within (3 * 2 ^ 60) t5" "within (3 * 2 ^ 60) t6" "within (3 * 2 ^ 60) t7" "within (3 * 2 ^ 60) t8" "within (3 * 2 ^ 60) t9"
  shows "fe_tight (FE_CARRY t0 t1 t2 t3 t4 t5 t6 t7 t8 t9) \<and> (\<exists>k. fe_val (FE_CARRY t0 t1 t2 t3 t4 t5 t6 t7 t8 t9) = limbs t0 t1 t2 t3 t4 t5 t6 t7 t8 t9 - k * fe_p)"
proof -
  obtain ca t0' t1' where s0: "carry_line 26 1 t0 t1 = (t0', t1')" "t0' = t0 - ca * 2 ^ 26" "t1' = t1 + ca * 1"
    "within (2 ^ 25) t0'" "within (3 * 2 ^ 60 + 2 ^ 37) t1'"
    by (rule carry26[of "3 * 2 ^ 60" t0 "3 * 2 ^ 60" t1 1 "3 * 2 ^ 60 + 2 ^ 37"]) (use assms(1) assms(2) in simp_all)
  obtain cb t4' t5' where s1: "carry_line 26 1 t4 t5 = (t4', t5')" "t4' = t4 - cb * 2 ^ 26" "t5' = t5 + cb * 1"
    "within (2 ^ 25) t4'" "within (3 * 2 ^ 60 + 2 ^ 37) t5'"
    by (rule carry26[of "3 * 2 ^ 60" t4 "3 * 2 ^ 60" t5 1 "3 * 2 ^ 60 + 2 ^ 37"]) (use assms(5) assms(6) in simp_all)
  obtain cc t1'' t2' where s2: "carry_line 25 1 t1' t2 = (t1'', t2')" "t1'' = t1' - cc * 2 ^ 25" "t2' = t2 + cc * 1"
    "within (2 ^ 24) t1''" "within (3 * 2 ^ 60 + 2 ^ 37) t2'"
    by (rule carry25[of "3 * 2 ^ 60 + 2 ^ 37" t1' "3 * 2 ^ 60" t2 1 "3 * 2 ^ 60 + 2 ^ 37"]) (use s0(5) assms(3) in simp_all)
  obtain cd t5'' t6' where s3: "carry_line 25 1 t5' t6 = (t5'', t6')" "t5'' = t5' - cd * 2 ^ 25" "t6' = t6 + cd * 1"
    "within (2 ^ 24) t5''" "within (3 * 2 ^ 60 + 2 ^ 37) t6'"
    by (rule carry25[of "3 * 2 ^ 60 + 2 ^ 37" t5' "3 * 2 ^ 60" t6 1 "3 * 2 ^ 60 + 2 ^ 37"]) (use s1(5) assms(7) in simp_all)
  obtain ce t2'' t3' where s4: "carry_line 26 1 t2' t3 = (t2'', t3')" "t2'' = t2' - ce * 2 ^ 26" "t3' = t3 + ce * 1"
    "within (2 ^ 25) t2''" "within (3 * 2 ^ 60 + 2 ^ 37) t3'"
    by (rule carry26[of "3 * 2 ^ 60 + 2 ^ 37" t2' "3 * 2 ^ 60" t3 1 "3 * 2 ^ 60 + 2 ^ 37"]) (use s2(5) assms(4) in simp_all)
  obtain cf t6'' t7' where s5: "carry_line 26 1 t6' t7 = (t6'', t7')" "t6'' = t6' - cf * 2 ^ 26" "t7' = t7 + cf * 1"
    "within (2 ^ 25) t6''" "within (3 * 2 ^ 60 + 2 ^ 37) t7'"
    by (rule carry26[of "3 * 2 ^ 60 + 2 ^ 37" t6' "3 * 2 ^ 60" t7 1 "3 * 2 ^ 60 + 2 ^ 37"]) (use s3(5) assms(8) in simp_all)
  obtain cg t3'' t4'' where s6: "carry_line 25 1 t3' t4' = (t3'', t4'')" "t3'' = t3' - cg * 2 ^ 25" "t4'' = t4' + cg * 1"
    "within (2 ^ 24) t3''" "within (2 ^ 38) t4''"
    by (rule carry25[of "3 * 2 ^ 60 + 2 ^ 37" t3' "2 ^ 25" t4' 1 "2 ^ 38"]) (use s4(5) s1(4) in simp_all)
  obtain ch t7'' t8' where s7: "carry_line 25 1 t7' t8 = (t7'', t8')" "t7'' = t7' - ch * 2 ^ 25" "t8' = t8 + ch * 1"
    "within (2 ^ 24) t7''" "within (3 * 2 ^ 60 + 2 ^ 37) t8'"
    by (rule carry25[of "3 * 2 ^ 60 + 2 ^ 37" t7' "3 * 2 ^ 60" t8 1 "3 * 2 ^ 60 + 2 ^ 37"]) (use s5(5) assms(9) in simp_all)
  obtain ci t4''' t5''' where s8: "carry_line 26 1 t4'' t5'' = (t4''', t5''')" "t4''' = t4'' - ci * 2 ^ 26" "t5''' = t5'' + ci * 1"
    "within (2 ^ 25) t4'''" "within (2 ^ 24 + 2 ^ 13) t5'''"
    by (rule carry26[of "2 ^ 38" t4'' "2 ^ 24" t5'' 1 "2 ^ 24 + 2 ^ 13"]) (use s6(5) s3(4) in simp_all)
  obtain cj t8'' t9' where s9: "carry_line 26 1 t8' t9 = (t8'', t9')" "t8'' = t8' - cj * 2 ^ 26" "t9' = t9 + cj * 1"
    "within (2 ^ 25) t8''" "within (3 * 2 ^ 60 + 2 ^ 37) t9'"
    by (rule carry26[of "3 * 2 ^ 60 + 2 ^ 37" t8' "3 * 2 ^ 60" t9 1 "3 * 2 ^ 60 + 2 ^ 37"]) (use s7(5) assms(10) in simp_all)
  obtain ck t9'' t0'' where s10: "carry_line 25 19 t9' t0' = (t9'', t0'')" "t9'' = t9' - ck * 2 ^ 25" "t0'' = t0' + ck * 19"
    "within (2 ^ 24) t9''" "within (2 ^ 43) t0''"
    by (rule carry25[of "3 * 2 ^ 60 + 2 ^ 37" t9' "2 ^ 25" t0' 19 "2 ^ 43"]) (use s9(5) s0(4) in simp_all)
  obtain cl t0''' t1''' where s11: "carry_line 26 1 t0'' t1'' = (t0''', t1''')" "t0''' = t0'' - cl * 2 ^ 26" "t1''' = t1'' + cl * 1"
    "within (2 ^ 25) t0'''" "within (2 ^ 24 + 2 ^ 18) t1'''"
    by (rule carry26[of "2 ^ 43" t0'' "2 ^ 24" t1'' 1 "2 ^ 24 + 2 ^ 18"]) (use s10(5) s2(4) in simp_all)
  have r: "within 36909875 t0'''" "within 18454937 t1'''" "within 36909875 t2''" "within 18454937 t3''" "within 36909875 t4'''"
    "within 18454937 t5'''" "within 36909875 t6''" "within 18454937 t7''" "within 36909875 t8''" "within 18454937 t9''"
    using s11(4) s11(5) s4(4) s6(4) s8(4) s8(5) s5(4) s7(4) s9(4) s10(4) by (simp_all add: within_def)
  have f: "FE_CARRY t0 t1 t2 t3 t4 t5 t6 t7 t8 t9 = [t0''', t1''', t2'', t3'', t4''', t5''', t6'', t7'', t8'', t9'']"
    unfolding FE_CARRY_def s0(1) s1(1) s2(1) s3(1) s4(1) s5(1) s6(1) s7(1) s8(1) s9(1) s10(1) s11(1) Let_def prod.case
    using r by (simp add: within_def i32_id)
  have "limbs t0''' t1''' t2'' t3'' t4''' t5''' t6'' t7'' t8'' t9'' = limbs t0 t1 t2 t3 t4 t5 t6 t7 t8 t9 - ck * fe_p"
    unfolding limbs_def s11(2,3) s10(2,3) s9(2,3) s8(2,3) s7(2,3) s6(2,3) s5(2,3) s4(2,3) s3(2,3) s2(2,3) s1(2,3) s0(2,3) by simp
  then show ?thesis
    unfolding f using r by (auto simp: fe_tight_def limb_bounds_def fe_val_def intro!: exI[of _ ck])
qed

subsection \<open>Multiplication\<close>

lemma within_mult:
  assumes "within a x" "within b y"
  shows "within (a * b) (x * y)"
proof -
  have "\<bar>x * y\<bar> \<le> a * b"
    unfolding abs_mult using assms by (intro mult_mono) (auto simp: within_def)
  then show ?thesis by (auto simp: within_def)
qed

lemma within_mono: "within a x \<Longrightarrow> a \<le> b \<Longrightarrow> within b x"
  by (auto simp: within_def)

lemma within_add: "within a x \<Longrightarrow> within b y \<Longrightarrow> within (a + b) (x + y)"
  by (auto simp: within_def)

lemma within_i64: "within (3 * 2 ^ 60) x \<Longrightarrow> i64 x = x"
  by (simp add: within_def i64_id)

lemma within_i32: "within 2103862875 x \<Longrightarrow> i32 x = x"
  by (simp add: within_def i32_id)

lemma sum_of_products:
  assumes "within 110729625 a0" "within 110729625 a1" "within 110729625 a2" "within 110729625 a3" "within 110729625 a4"
    "within 110729625 a5" "within 110729625 a6" "within 110729625 a7" "within 110729625 a8" "within 110729625 a9"
    "within 2103862875 b0" "within 2103862875 b1" "within 2103862875 b2" "within 2103862875 b3" "within 2103862875 b4"
    "within 2103862875 b5" "within 2103862875 b6" "within 2103862875 b7" "within 2103862875 b8" "within 2103862875 b9"
  shows "within (3 * 2 ^ 60) (a0*b0 + a1*b1 + a2*b2 + a3*b3 + a4*b4 + a5*b5 + a6*b6 + a7*b7 + a8*b8 + a9*b9)"
  by (rule within_mono, (rule within_add within_mult assms)+) simp

lemma wide_limbs:
  assumes "fe_wide f"
  shows "within 110729625 (f ! 0)" "within 55364812 (f ! 1)" "within 110729625 (f ! 2)" "within 55364812 (f ! 3)" "within 110729625 (f ! 4)"
    "within 55364812 (f ! 5)" "within 110729625 (f ! 6)" "within 55364812 (f ! 7)" "within 110729625 (f ! 8)" "within 55364812 (f ! 9)"
  using assms by (simp_all add: fe_wide_def limb_bounds_def)

text \<open>The schoolbook product, with \<open>2 ^ 255\<close> replaced by 19.\<close>

lemma product_limbs:
  fixes f0 f1 f2 f3 f4 f5 f6 f7 f8 f9 g0 g1 g2 g3 g4 g5 g6 g7 g8 g9 :: int
  shows "limbs
      (f0*g0 + (f1 * 2) * (g9 * 19) + f2*(g8 * 19) + (f3 * 2) * (g7 * 19) + f4*(g6 * 19) + (f5 * 2) * (g5 * 19) + f6*(g4 * 19) + (f7 * 2) * (g3 * 19) + f8*(g2 * 19) + (f9 * 2) * (g1 * 19))
      (f0*g1 + f1*g0 + f2*(g9 * 19) + f3*(g8 * 19) + f4*(g7 * 19) + f5*(g6 * 19) + f6*(g5 * 19) + f7*(g4 * 19) + f8*(g3 * 19) + f9*(g2 * 19))
      (f0*g2 + (f1 * 2)*g1 + f2*g0 + (f3 * 2) * (g9 * 19) + f4*(g8 * 19) + (f5 * 2) * (g7 * 19) + f6*(g6 * 19) + (f7 * 2) * (g5 * 19) + f8*(g4 * 19) + (f9 * 2) * (g3 * 19))
      (f0*g3 + f1*g2 + f2*g1 + f3*g0 + f4*(g9 * 19) + f5*(g8 * 19) + f6*(g7 * 19) + f7*(g6 * 19) + f8*(g5 * 19) + f9*(g4 * 19))
      (f0*g4 + (f1 * 2)*g3 + f2*g2 + (f3 * 2)*g1 + f4*g0 + (f5 * 2) * (g9 * 19) + f6*(g8 * 19) + (f7 * 2) * (g7 * 19) + f8*(g6 * 19) + (f9 * 2) * (g5 * 19))
      (f0*g5 + f1*g4 + f2*g3 + f3*g2 + f4*g1 + f5*g0 + f6*(g9 * 19) + f7*(g8 * 19) + f8*(g7 * 19) + f9*(g6 * 19))
      (f0*g6 + (f1 * 2)*g5 + f2*g4 + (f3 * 2)*g3 + f4*g2 + (f5 * 2)*g1 + f6*g0 + (f7 * 2) * (g9 * 19) + f8*(g8 * 19) + (f9 * 2) * (g7 * 19))
      (f0*g7 + f1*g6 + f2*g5 + f3*g4 + f4*g3 + f5*g2 + f6*g1 + f7*g0 + f8*(g9 * 19) + f9*(g8 * 19))
      (f0*g8 + (f1 * 2)*g7 + f2*g6 + (f3 * 2)*g5 + f4*g4 + (f5 * 2)*g3 + f6*g2 + (f7 * 2)*g1 + f8*g0 + (f9 * 2) * (g9 * 19))
      (f0*g9 + f1*g8 + f2*g7 + f3*g6 + f4*g5 + f5*g4 + f6*g3 + f7*g2 + f8*g1 + f9*g0) =
    limbs f0 f1 f2 f3 f4 f5 f6 f7 f8 f9 * limbs g0 g1 g2 g3 g4 g5 g6 g7 g8 g9 -
      (2 ^ 1 * (f1 * g9) + 2 ^ 0 * (f2 * g8) + 2 ^ 26 * (f2 * g9) + 2 ^ 1 * (f3 * g7) + 2 ^ 26 * (f3 * g8) + 2 ^ 52 * (f3 * g9) + 2 ^ 0 * (f4 * g6) + 2 ^ 26 * (f4 * g7) + 2 ^ 51 * (f4 * g8) + 2 ^ 77 * (f4 * g9) + 2 ^ 1 * (f5 * g5) + 2 ^ 26 * (f5 * g6) + 2 ^ 52 * (f5 * g7) + 2 ^ 77 * (f5 * g8) + 2 ^ 103 * (f5 * g9) + 2 ^ 0 * (f6 * g4) + 2 ^ 26 * (f6 * g5) + 2 ^ 51 * (f6 * g6) + 2 ^ 77 * (f6 * g7) + 2 ^ 102 * (f6 * g8) + 2 ^ 128 * (f6 * g9) + 2 ^ 1 * (f7 * g3) + 2 ^ 26 * (f7 * g4) + 2 ^ 52 * (f7 * g5) + 2 ^ 77 * (f7 * g6) + 2 ^ 103 * (f7 * g7) + 2 ^ 128 * (f7 * g8) + 2 ^ 154 * (f7 * g9) + 2 ^ 0 * (f8 * g2) + 2 ^ 26 * (f8 * g3) + 2 ^ 51 * (f8 * g4) + 2 ^ 77 * (f8 * g5) + 2 ^ 102 * (f8 * g6) + 2 ^ 128 * (f8 * g7) + 2 ^ 153 * (f8 * g8) + 2 ^ 179 * (f8 * g9) + 2 ^ 1 * (f9 * g1) + 2 ^ 26 * (f9 * g2) + 2 ^ 52 * (f9 * g3) + 2 ^ 77 * (f9 * g4) + 2 ^ 103 * (f9 * g5) + 2 ^ 128 * (f9 * g6) + 2 ^ 154 * (f9 * g7) + 2 ^ 179 * (f9 * g8) + 2 ^ 205 * (f9 * g9)) * fe_p"
  unfolding limbs_def by algebra

lemma carried_product:
  assumes "within (3 * 2 ^ 60) t0" "within (3 * 2 ^ 60) t1" "within (3 * 2 ^ 60) t2" "within (3 * 2 ^ 60) t3" "within (3 * 2 ^ 60) t4" "within (3 * 2 ^ 60) t5" "within (3 * 2 ^ 60) t6" "within (3 * 2 ^ 60) t7" "within (3 * 2 ^ 60) t8" "within (3 * 2 ^ 60) t9" "limbs t0 t1 t2 t3 t4 t5 t6 t7 t8 t9 = v - k * fe_p"
  shows "fe_tight (FE_CARRY t0 t1 t2 t3 t4 t5 t6 t7 t8 t9) \<and> (\<exists>k. fe_val (FE_CARRY t0 t1 t2 t3 t4 t5 t6 t7 t8 t9) = v - k * fe_p)"
proof -
  obtain k' where "fe_tight (FE_CARRY t0 t1 t2 t3 t4 t5 t6 t7 t8 t9)" "fe_val (FE_CARRY t0 t1 t2 t3 t4 t5 t6 t7 t8 t9) = limbs t0 t1 t2 t3 t4 t5 t6 t7 t8 t9 - k' * fe_p"
    using FE_CARRY_correct[OF assms(1-10)] by blast
  then show ?thesis using assms(11) by (intro conjI exI[of _ "k + k'"]) (simp_all add: algebra_simps)
qed

lemma doubled: "within 55364812 x \<Longrightarrow> i32 (x * 2) = x * 2 \<and> within 110729625 (x * 2)"
  by (simp add: within_def i32_id)

lemma times19: "within 110729625 x \<Longrightarrow> i32 (x * 19) = x * 19 \<and> within 2103862875 (x * 19)"
  by (simp add: within_def i32_id)

lemma odd_even: "within 55364812 x \<Longrightarrow> within 110729625 x"
  by (simp add: within_def)

lemma even_any: "within 110729625 x \<Longrightarrow> within 2103862875 x"
  by (simp add: within_def)

lemma fe_mul_correct:
  assumes "fe_wide f" "fe_wide g"
  shows "fe_tight (fe_mul f g) \<and> (\<exists>k. fe_val (fe_mul f g) = fe_val f * fe_val g - k * fe_p)"
proof -
  note f = wide_limbs[OF assms(1)] and g = wide_limbs[OF assms(2)]
  note fo = f(2,4,6,8,10)[THEN odd_even] and fd = f(2,4,6,8,10)[THEN doubled, THEN conjunct2]
  note ge = g(1,3,5,7,9) g(2,4,6,8,10)[THEN odd_even]
  note gb = ge[THEN even_any] ge[THEN times19, THEN conjunct2]
  note e = f(2,4,6,8,10)[THEN doubled, THEN conjunct1] ge[THEN times19, THEN conjunct1]
  note w = sum_of_products f(1,3,5,7,9) fo fd gb
  show ?thesis
    unfolding fe_mul_def Let_def e
    apply (subst within_i64, (rule w)+)+
    apply (rule carried_product, (rule w)+)
    unfolding fe_val_def by (rule product_limbs)
qed

lemma FE_CARRY_cong:
  "t0 = u0 \<Longrightarrow> t1 = u1 \<Longrightarrow> t2 = u2 \<Longrightarrow> t3 = u3 \<Longrightarrow> t4 = u4 \<Longrightarrow> t5 = u5 \<Longrightarrow> t6 = u6 \<Longrightarrow> t7 = u7 \<Longrightarrow> t8 = u8 \<Longrightarrow> t9 = u9 \<Longrightarrow>
    FE_CARRY (i64 t0) (i64 t1) (i64 t2) (i64 t3) (i64 t4) (i64 t5) (i64 t6) (i64 t7) (i64 t8) (i64 t9) =
    FE_CARRY (i64 u0) (i64 u1) (i64 u2) (i64 u3) (i64 u4) (i64 u5) (i64 u6) (i64 u7) (i64 u8) (i64 u9)"
  by (simp only:)

lemma fe_sq_mul:
  assumes "fe_wide f"
  shows "fe_sq f = fe_mul f f"
proof -
  note f = wide_limbs[OF assms]
  have e: "i32 (x * 2) = x * 2" "i32 (x * 19) = x * 19" if "within 110729625 x" for x using that by (simp_all add: within_def i32_id)
  have d: "i32 (x * 38) = x * 38" if "within 55364812 x" for x using that by (simp add: within_def i32_id)
  note o = f(2,4,6,8,10)[THEN odd_even]
  show ?thesis
    unfolding fe_sq_def fe_mul_def Let_def e[OF f(1)] e[OF f(3)] e[OF f(5)] e[OF f(7)] e[OF f(9)] e[OF o(1)] e[OF o(2)] e[OF o(3)]
      e[OF o(4)] e[OF o(5)] d[OF f(6)] d[OF f(8)] d[OF f(10)]
    by (rule FE_CARRY_cong) algebra+
qed

subsection \<open>Representations of field elements\<close>

definition p25519 :: int where
  "p25519 = 2 ^ 255 - 19"

definition rep :: "fe \<Rightarrow> int \<Rightarrow> bool" where
  "rep h x \<longleftrightarrow> fe_tight h \<and> fe_val h mod p25519 = x mod p25519"

definition wide_rep :: "fe \<Rightarrow> int \<Rightarrow> bool" where
  "wide_rep h x \<longleftrightarrow> fe_wide h \<and> fe_val h mod p25519 = x mod p25519"

lemma rep_wide [simp, intro]: "rep h x \<Longrightarrow> wide_rep h x"
  by (simp add: rep_def wide_rep_def tight_wide)

lemma rep_cong: "rep h x \<Longrightarrow> x mod p25519 = y mod p25519 \<Longrightarrow> rep h y"
  by (simp add: rep_def)

lemma mod_minus_p [simp]: "(x - k * p25519) mod p25519 = x mod p25519"
  by (simp add: mod_diff_eq[symmetric, of x])

lemma mul_rep:
  assumes "wide_rep f x" "wide_rep g y"
  shows "rep (fe_mul f g) (x * y)"
proof -
  have w: "fe_wide f" "fe_wide g" using assms by (simp_all add: wide_rep_def)
  obtain k where "fe_tight (fe_mul f g)" "fe_val (fe_mul f g) = fe_val f * fe_val g - k * p25519"
    using fe_mul_correct[OF w] unfolding p25519_def by blast
  moreover have "(fe_val f * fe_val g) mod p25519 = (x * y) mod p25519"
    using assms unfolding wide_rep_def by (blast intro: mod_mult_cong)
  ultimately show ?thesis by (simp add: rep_def)
qed

lemma sq_rep: "wide_rep f x \<Longrightarrow> rep (fe_sq f) (x * x)"
  using mul_rep[of f x f x] fe_sq_mul[of f] by (simp add: wide_rep_def)

lemma mul_small_rep:
  assumes "wide_rep f x" "within (2 ^ 31) g"
  shows "rep (fe_mul_small f g) (x * g)"
proof -
  have "fe_wide f" using assms(1) by (simp add: wide_rep_def)
  note f = wide_limbs[OF this]
  have w: "within (3 * 2 ^ 60) (y * g)" if "within 110729625 y" for y
    using within_mult[OF that assms(2)] by (rule within_mono) simp
  note fw = f(1,3,5,7,9)[THEN w] f(2,4,6,8,10)[THEN odd_even, THEN w]
  have "fe_tight (fe_mul_small f g) \<and> (\<exists>k. fe_val (fe_mul_small f g) = fe_val f * g - k * fe_p)"
    unfolding fe_mul_small_def fw[THEN within_i64]
    by (rule carried_product[where k = 0], (rule fw)+) (simp add: fe_val_def limbs_def algebra_simps)
  then obtain k where "fe_tight (fe_mul_small f g)" "fe_val (fe_mul_small f g) = fe_val f * g - k * p25519"
    unfolding p25519_def by blast
  moreover have "(fe_val f * g) mod p25519 = (x * g) mod p25519"
    using assms unfolding wide_rep_def by (blast intro: mod_mult_cong)
  ultimately show ?thesis by (simp add: rep_def)
qed

lemma upt_10: "[0..<10] = [0, 1, 2, 3, 4, 5, 6, 7, 8, 9 :: nat]"
  by (simp add: upt_rec)

lemma add_rep:
  assumes "rep f x" "rep g y"
  shows "wide_rep (fe_add f g) (x + y)"
proof -
  have "fe_wide (fe_add f g) \<and> fe_val (fe_add f g) = fe_val f + fe_val g"
    using assms unfolding rep_def fe_tight_def fe_wide_def limb_bounds_def within_def fe_add_def upt_10 fe_val_def limbs_def
    by (simp add: i32_id)
  then show ?thesis using assms by (auto simp: wide_rep_def rep_def intro: mod_add_cong)
qed

lemma sub_rep:
  assumes "rep f x" "rep g y"
  shows "wide_rep (fe_sub f g) (x - y)"
proof -
  have "fe_wide (fe_sub f g) \<and> fe_val (fe_sub f g) = fe_val f - fe_val g"
    using assms unfolding rep_def fe_tight_def fe_wide_def limb_bounds_def within_def fe_sub_def upt_10 fe_val_def limbs_def
    by (simp add: i32_id)
  then show ?thesis using assms by (auto simp: wide_rep_def rep_def intro: mod_diff_cong)
qed

lemma neg_rep:
  assumes "rep f x"
  shows "rep (fe_neg f) (- x)"
proof -
  have "fe_tight (fe_neg f) \<and> fe_val (fe_neg f) = - fe_val f"
    using assms unfolding rep_def fe_tight_def limb_bounds_def within_def fe_neg_def upt_10 fe_val_def limbs_def
    by (simp add: i32_id)
  then show ?thesis using assms by (simp add: rep_def) (metis mod_minus_eq)
qed

lemma rep_0: "rep fe_0 0"
  by (simp add: rep_def fe_tight_def limb_bounds_def within_def fe_0_def fe_val_def limbs_def)

lemma rep_1: "rep fe_1 1"
  by (simp add: rep_def fe_tight_def limb_bounds_def within_def fe_1_def fe_val_def limbs_def numeral_eq_Suc)

lemma rep_length: "rep f x \<Longrightarrow> length f = 10"
  by (simp add: rep_def fe_tight_def limb_bounds_def)

lemma copy_rep: "length f = 10 \<Longrightarrow> fe_copy f = f"
  unfolding fe_copy_def using map_nth[of f] by simp

lemma cswap_eq:
  assumes "length f = 10" "length g = 10" "b \<in> {0, 1}"
  shows "fe_cswap f g b = (if b = 1 then (g, f) else (f, g))"
proof -
  have "i32 0 = 0" "i32 (- 1) = - 1" by (simp_all add: i32_id)
  moreover have "a XOR (a XOR c) = c" for a c :: int by (auto simp: bit_eq_iff bit_xor_iff)
  moreover have "c XOR (a XOR c) = a" for a c :: int by (auto simp: bit_eq_iff bit_xor_iff)
  ultimately show ?thesis
    using assms copy_rep[of f] copy_rep[of g] by (auto simp: fe_cswap_def fe_copy_def simp del: upt_conv_Cons)
qed

lemma ccopy_eq:
  assumes "length f = 10" "length g = 10" "b \<in> {0, 1}"
  shows "fe_ccopy f g b = (if b = 1 then g else f)"
  using cswap_eq[OF assms] by (auto simp: fe_cswap_def fe_ccopy_def Let_def split: if_splits)

subsection \<open>Canonical bytes\<close>

definition nonneg_limbs :: "fe \<Rightarrow> bool" where
  "nonneg_limbs t \<longleftrightarrow> length t = 10 \<and>
     (0 \<le> t ! 0 \<and> t ! 0 < 2 ^ 26) \<and> (0 \<le> t ! 1 \<and> t ! 1 < 2 ^ 25) \<and> (0 \<le> t ! 2 \<and> t ! 2 < 2 ^ 26) \<and> (0 \<le> t ! 3 \<and> t ! 3 < 2 ^ 25) \<and>
     (0 \<le> t ! 4 \<and> t ! 4 < 2 ^ 26) \<and> (0 \<le> t ! 5 \<and> t ! 5 < 2 ^ 25) \<and> (0 \<le> t ! 6 \<and> t ! 6 < 2 ^ 26) \<and> (0 \<le> t ! 7 \<and> t ! 7 < 2 ^ 25) \<and>
     (0 \<le> t ! 8 \<and> t ! 8 < 2 ^ 26) \<and> (0 \<le> t ! 9 \<and> t ! 9 < 2 ^ 25)"

text \<open>The carry out of the limbs, from the bottom: each shift is a division rounded down.\<close>

lemma shift_step:
  fixes q t :: int
  assumes "within 100000000 t" "within 1000 q" "a = 25 \<or> a = 26"
  shows "i32 (q + t) = q + t" "drop_bit a (q + t) = (q + t) div 2 ^ a" "within 1000 ((q + t) div 2 ^ a)"
    "i32 (q + t - i32 ((q + t) div 2 ^ a * push_bit a 1)) = (q + t) mod 2 ^ a"
proof -
  define d m where "d = (q + t) div 2 ^ a" and "m = (q + t) mod 2 ^ a"
  show "i32 (q + t) = q + t" using assms by (simp add: within_def i32_id)
  show "drop_bit a (q + t) = (q + t) div 2 ^ a" by (simp add: drop_bit_eq_div)
  have e: "d * 2 ^ a + m = q + t" unfolding d_def m_def by (rule div_mult_mod_eq)
  have m: "0 \<le> m" "m < 2 ^ a" unfolding m_def by simp_all
  have a: "2 ^ a \<le> (67108864 :: int)" using assms(3) by auto
  have q: "- 100001000 \<le> q + t" "q + t \<le> 100001000" using assms by (simp_all add: within_def)
  have "- 200000000 \<le> d * 2 ^ a" "d * 2 ^ a \<le> 200000000" using e m a q by linarith+
  then have "i32 (d * push_bit a 1) = d * 2 ^ a" by (simp add: push_bit_eq_mult i32_id)
  moreover have "i32 m = m" using m a by (simp add: i32_id)
  moreover have "q + t - d * 2 ^ a = m" using e by linarith
  ultimately show "i32 (q + t - i32 ((q + t) div 2 ^ a * push_bit a 1)) = (q + t) mod 2 ^ a"
    unfolding d_def[symmetric] m_def[symmetric] by simp
  show "within 1000 ((q + t) div 2 ^ a)" using assms by (auto simp: within_def)
qed

lemma tight_limbs:
  assumes "fe_tight f"
  shows "within 100000000 (f ! 0)" "within 100000000 (f ! 1)" "within 100000000 (f ! 2)" "within 100000000 (f ! 3)" "within 100000000 (f ! 4)"
    "within 100000000 (f ! 5)" "within 100000000 (f ! 6)" "within 100000000 (f ! 7)" "within 100000000 (f ! 8)" "within 100000000 (f ! 9)"
  using assms by (simp_all add: fe_tight_def limb_bounds_def within_def)

lemma limbs_range:
  assumes "0 \<le> r0 \<and> r0 < 2 ^ 26" "0 \<le> r1 \<and> r1 < 2 ^ 25" "0 \<le> r2 \<and> r2 < 2 ^ 26" "0 \<le> r3 \<and> r3 < 2 ^ 25" "0 \<le> r4 \<and> r4 < 2 ^ 26" "0 \<le> r5 \<and> r5 < 2 ^ 25" "0 \<le> r6 \<and> r6 < 2 ^ 26" "0 \<le> r7 \<and> r7 < 2 ^ 25" "0 \<le> r8 \<and> r8 < 2 ^ 26" "0 \<le> r9 \<and> r9 < 2 ^ 25"
  shows "0 \<le> limbs r0 r1 r2 r3 r4 r5 r6 r7 r8 r9" "limbs r0 r1 r2 r3 r4 r5 r6 r7 r8 r9 < 2 ^ 255"
  using assms unfolding limbs_def by simp_all

lemma mod_range: "0 \<le> x mod 2 ^ 26 \<and> x mod 2 ^ 26 < 2 ^ 26" "0 \<le> x mod 2 ^ 25 \<and> x mod 2 ^ 25 < 2 ^ 25" for x :: int
  by simp_all

lemma quotient_unique:
  fixes x q m r :: int
  assumes "x = q * m + r" "0 \<le> r" "r < m"
  shows "q = x div m" "r = x mod m"
  using assms by simp_all

lemma ten_carries:
  assumes "fe_tight t" "within 1000 q0"
    and q1: "q1 = (q0 + t ! 0) div 2 ^ 26"
    and q2: "q2 = (q1 + t ! 1) div 2 ^ 25"
    and q3: "q3 = (q2 + t ! 2) div 2 ^ 26"
    and q4: "q4 = (q3 + t ! 3) div 2 ^ 25"
    and q5: "q5 = (q4 + t ! 4) div 2 ^ 26"
    and q6: "q6 = (q5 + t ! 5) div 2 ^ 25"
    and q7: "q7 = (q6 + t ! 6) div 2 ^ 26"
    and q8: "q8 = (q7 + t ! 7) div 2 ^ 25"
    and q9: "q9 = (q8 + t ! 8) div 2 ^ 26"
    and q10: "q10 = (q9 + t ! 9) div 2 ^ 25"
  shows "within 1000 q1" "within 1000 q2" "within 1000 q3" "within 1000 q4" "within 1000 q5" "within 1000 q6" "within 1000 q7" "within 1000 q8" "within 1000 q9" "within 1000 q10"
    "q10 = (q0 + fe_val t) div 2 ^ 255" "limbs ((q0 + t ! 0) mod 2 ^ 26) ((q1 + t ! 1) mod 2 ^ 25) ((q2 + t ! 2) mod 2 ^ 26) ((q3 + t ! 3) mod 2 ^ 25) ((q4 + t ! 4) mod 2 ^ 26) ((q5 + t ! 5) mod 2 ^ 25) ((q6 + t ! 6) mod 2 ^ 26) ((q7 + t ! 7) mod 2 ^ 25) ((q8 + t ! 8) mod 2 ^ 26) ((q9 + t ! 9) mod 2 ^ 25) = (q0 + fe_val t) mod 2 ^ 255"
proof -
  note t = tight_limbs[OF assms(1)]
  show w1: "within 1000 q1" using shift_step(3)[OF t(1) assms(2), of 26] unfolding q1 by blast
  show w2: "within 1000 q2" using shift_step(3)[OF t(2) w1, of 25] unfolding q2 by blast
  show w3: "within 1000 q3" using shift_step(3)[OF t(3) w2, of 26] unfolding q3 by blast
  show w4: "within 1000 q4" using shift_step(3)[OF t(4) w3, of 25] unfolding q4 by blast
  show w5: "within 1000 q5" using shift_step(3)[OF t(5) w4, of 26] unfolding q5 by blast
  show w6: "within 1000 q6" using shift_step(3)[OF t(6) w5, of 25] unfolding q6 by blast
  show w7: "within 1000 q7" using shift_step(3)[OF t(7) w6, of 26] unfolding q7 by blast
  show w8: "within 1000 q8" using shift_step(3)[OF t(8) w7, of 25] unfolding q8 by blast
  show w9: "within 1000 q9" using shift_step(3)[OF t(9) w8, of 26] unfolding q9 by blast
  show w10: "within 1000 q10" using shift_step(3)[OF t(10) w9, of 25] unfolding q10 by blast
  have m: "(q0 + t ! 0) mod 2 ^ 26 = q0 + t ! 0 - q1 * 2 ^ 26" "(q1 + t ! 1) mod 2 ^ 25 = q1 + t ! 1 - q2 * 2 ^ 25" "(q2 + t ! 2) mod 2 ^ 26 = q2 + t ! 2 - q3 * 2 ^ 26" "(q3 + t ! 3) mod 2 ^ 25 = q3 + t ! 3 - q4 * 2 ^ 25" "(q4 + t ! 4) mod 2 ^ 26 = q4 + t ! 4 - q5 * 2 ^ 26" "(q5 + t ! 5) mod 2 ^ 25 = q5 + t ! 5 - q6 * 2 ^ 25" "(q6 + t ! 6) mod 2 ^ 26 = q6 + t ! 6 - q7 * 2 ^ 26" "(q7 + t ! 7) mod 2 ^ 25 = q7 + t ! 7 - q8 * 2 ^ 25" "(q8 + t ! 8) mod 2 ^ 26 = q8 + t ! 8 - q9 * 2 ^ 26" "(q9 + t ! 9) mod 2 ^ 25 = q9 + t ! 9 - q10 * 2 ^ 25"
    unfolding q1 q2 q3 q4 q5 q6 q7 q8 q9 q10 by (rule minus_div_mult_eq_mod[symmetric])+
  have "q0 + fe_val t = q10 * 2 ^ 255 + limbs ((q0 + t ! 0) mod 2 ^ 26) ((q1 + t ! 1) mod 2 ^ 25) ((q2 + t ! 2) mod 2 ^ 26) ((q3 + t ! 3) mod 2 ^ 25) ((q4 + t ! 4) mod 2 ^ 26) ((q5 + t ! 5) mod 2 ^ 25) ((q6 + t ! 6) mod 2 ^ 26) ((q7 + t ! 7) mod 2 ^ 25) ((q8 + t ! 8) mod 2 ^ 26) ((q9 + t ! 9) mod 2 ^ 25)"
    unfolding m fe_val_def limbs_def by algebra
  moreover have "0 \<le> limbs ((q0 + t ! 0) mod 2 ^ 26) ((q1 + t ! 1) mod 2 ^ 25) ((q2 + t ! 2) mod 2 ^ 26) ((q3 + t ! 3) mod 2 ^ 25) ((q4 + t ! 4) mod 2 ^ 26) ((q5 + t ! 5) mod 2 ^ 25) ((q6 + t ! 6) mod 2 ^ 26) ((q7 + t ! 7) mod 2 ^ 25) ((q8 + t ! 8) mod 2 ^ 26) ((q9 + t ! 9) mod 2 ^ 25)" "limbs ((q0 + t ! 0) mod 2 ^ 26) ((q1 + t ! 1) mod 2 ^ 25) ((q2 + t ! 2) mod 2 ^ 26) ((q3 + t ! 3) mod 2 ^ 25) ((q4 + t ! 4) mod 2 ^ 26) ((q5 + t ! 5) mod 2 ^ 25) ((q6 + t ! 6) mod 2 ^ 26) ((q7 + t ! 7) mod 2 ^ 25) ((q8 + t ! 8) mod 2 ^ 26) ((q9 + t ! 9) mod 2 ^ 25) < 2 ^ 255"
    by (rule limbs_range; rule mod_range)+
  ultimately show "q10 = (q0 + fe_val t) div 2 ^ 255" "limbs ((q0 + t ! 0) mod 2 ^ 26) ((q1 + t ! 1) mod 2 ^ 25) ((q2 + t ! 2) mod 2 ^ 26) ((q3 + t ! 3) mod 2 ^ 25) ((q4 + t ! 4) mod 2 ^ 26) ((q5 + t ! 5) mod 2 ^ 25) ((q6 + t ! 6) mod 2 ^ 26) ((q7 + t ! 7) mod 2 ^ 25) ((q8 + t ! 8) mod 2 ^ 26) ((q9 + t ! 9) mod 2 ^ 25) = (q0 + fe_val t) mod 2 ^ 255"
    by (rule quotient_unique)+
qed

lemma sign_pass_eq:
  assumes "fe_tight t" "within 1000 q0"
  shows "sign_pass t q0 = (q0 + fe_val t) div 2 ^ 255"
proof -
  define q1 where "q1 = (q0 + t ! 0) div 2 ^ 26"
  define q2 where "q2 = (q1 + t ! 1) div 2 ^ 25"
  define q3 where "q3 = (q2 + t ! 2) div 2 ^ 26"
  define q4 where "q4 = (q3 + t ! 3) div 2 ^ 25"
  define q5 where "q5 = (q4 + t ! 4) div 2 ^ 26"
  define q6 where "q6 = (q5 + t ! 5) div 2 ^ 25"
  define q7 where "q7 = (q6 + t ! 6) div 2 ^ 26"
  define q8 where "q8 = (q7 + t ! 7) div 2 ^ 25"
  define q9 where "q9 = (q8 + t ! 8) div 2 ^ 26"
  define q10 where "q10 = (q9 + t ! 9) div 2 ^ 25"
  note t = tight_limbs[OF assms(1)] and c = ten_carries[OF assms q1_def q2_def q3_def q4_def q5_def q6_def q7_def q8_def q9_def q10_def]
  note w = assms(2) c(1-9)
  have e: "drop_bit a (i32 (q + x)) = (q + x) div 2 ^ a" if "within 1000 q" "within 100000000 x" "a = 25 \<or> a = 26" for q x a
    using shift_step(1,2)[OF that(2,1,3)] by simp
  have e: "drop_bit 26 (i32 (q0 + t ! 0)) = q1" "drop_bit 25 (i32 (q1 + t ! 1)) = q2" "drop_bit 26 (i32 (q2 + t ! 2)) = q3" "drop_bit 25 (i32 (q3 + t ! 3)) = q4" "drop_bit 26 (i32 (q4 + t ! 4)) = q5" "drop_bit 25 (i32 (q5 + t ! 5)) = q6" "drop_bit 26 (i32 (q6 + t ! 6)) = q7" "drop_bit 25 (i32 (q7 + t ! 7)) = q8" "drop_bit 26 (i32 (q8 + t ! 8)) = q9" "drop_bit 25 (i32 (q9 + t ! 9)) = q10"
    unfolding q1_def q2_def q3_def q4_def q5_def q6_def q7_def q8_def q9_def q10_def using e[OF w(1) t(1), of 26] e[OF w(2) t(2), of 25] e[OF w(3) t(3), of 26] e[OF w(4) t(4), of 25] e[OF w(5) t(5), of 26] e[OF w(6) t(6), of 25] e[OF w(7) t(7), of 26] e[OF w(8) t(8), of 25] e[OF w(9) t(9), of 26] e[OF w(10) t(10), of 25] unfolding q1_def q2_def q3_def q4_def q5_def q6_def q7_def q8_def q9_def q10_def by blast+
  have ix: "2 * 0 = (0 :: nat)" "0 + 1 = (1 :: nat)" "2 * 1 = (2 :: nat)" "2 + 1 = (3 :: nat)" "2 * 2 = (4 :: nat)" "4 + 1 = (5 :: nat)" "2 * 3 = (6 :: nat)" "6 + 1 = (7 :: nat)" "2 * 4 = (8 :: nat)" "8 + 1 = (9 :: nat)" by simp_all
  show ?thesis unfolding c(11)[symmetric] sign_pass_def fold_simps Let_def ix e by (rule refl)
qed

lemma list_of_ten: "length t = 10 \<Longrightarrow> t = [t ! 0, t ! 1, t ! 2, t ! 3, t ! 4, t ! 5, t ! 6, t ! 7, t ! 8, t ! 9]"
  using map_nth[of t] by (simp add: upt_10)

lemma reduce_pass_eq:
  assumes "fe_tight t" "within 1000 q0"
  shows "nonneg_limbs (reduce_pass t q0) \<and> fe_val (reduce_pass t q0) = (q0 + fe_val t) mod 2 ^ 255"
proof -
  define q1 where "q1 = (q0 + t ! 0) div 2 ^ 26"
  define q2 where "q2 = (q1 + t ! 1) div 2 ^ 25"
  define q3 where "q3 = (q2 + t ! 2) div 2 ^ 26"
  define q4 where "q4 = (q3 + t ! 3) div 2 ^ 25"
  define q5 where "q5 = (q4 + t ! 4) div 2 ^ 26"
  define q6 where "q6 = (q5 + t ! 5) div 2 ^ 25"
  define q7 where "q7 = (q6 + t ! 6) div 2 ^ 26"
  define q8 where "q8 = (q7 + t ! 7) div 2 ^ 25"
  define q9 where "q9 = (q8 + t ! 8) div 2 ^ 26"
  define q10 where "q10 = (q9 + t ! 9) div 2 ^ 25"
  note t = tight_limbs[OF assms(1)] and c = ten_carries[OF assms q1_def q2_def q3_def q4_def q5_def q6_def q7_def q8_def q9_def q10_def]
  note w = assms(2) c(1-9)
  have e: "i32 (x + q) = q + x" "drop_bit a (q + x) = (q + x) div 2 ^ a" "i32 (q + x - i32 ((q + x) div 2 ^ a * push_bit a 1)) = (q + x) mod 2 ^ a"
    if "within 1000 q" "within 100000000 x" "a = 25 \<or> a = 26" for q x a
    using shift_step[OF that(2,1,3)] by (simp_all add: add.commute)
  note e0 = e[OF w(1) t(1), of 26, folded q1_def, simplified]
  note e1 = e[OF w(2) t(2), of 25, folded q2_def, simplified]
  note e2 = e[OF w(3) t(3), of 26, folded q3_def, simplified]
  note e3 = e[OF w(4) t(4), of 25, folded q4_def, simplified]
  note e4 = e[OF w(5) t(5), of 26, folded q5_def, simplified]
  note e5 = e[OF w(6) t(6), of 25, folded q6_def, simplified]
  note e6 = e[OF w(7) t(7), of 26, folded q7_def, simplified]
  note e7 = e[OF w(8) t(8), of 25, folded q8_def, simplified]
  note e8 = e[OF w(9) t(9), of 26, folded q9_def, simplified]
  note e9 = e[OF w(10) t(10), of 25, folded q10_def, simplified]
  have "reduce_pass [t ! 0, t ! 1, t ! 2, t ! 3, t ! 4, t ! 5, t ! 6, t ! 7, t ! 8, t ! 9] q0 = [(q0 + t ! 0) mod 2 ^ 26, (q1 + t ! 1) mod 2 ^ 25, (q2 + t ! 2) mod 2 ^ 26, (q3 + t ! 3) mod 2 ^ 25, (q4 + t ! 4) mod 2 ^ 26, (q5 + t ! 5) mod 2 ^ 25, (q6 + t ! 6) mod 2 ^ 26, (q7 + t ! 7) mod 2 ^ 25, (q8 + t ! 8) mod 2 ^ 26, (q9 + t ! 9) mod 2 ^ 25]"
    unfolding reduce_pass_def by (simp add: e0 e1 e2 e3 e4 e5 e6 e7 e8 e9)
  then have r: "reduce_pass t q0 = [(q0 + t ! 0) mod 2 ^ 26, (q1 + t ! 1) mod 2 ^ 25, (q2 + t ! 2) mod 2 ^ 26, (q3 + t ! 3) mod 2 ^ 25, (q4 + t ! 4) mod 2 ^ 26, (q5 + t ! 5) mod 2 ^ 25, (q6 + t ! 6) mod 2 ^ 26, (q7 + t ! 7) mod 2 ^ 25, (q8 + t ! 8) mod 2 ^ 26, (q9 + t ! 9) mod 2 ^ 25]"
    using list_of_ten[of t] assms(1) by (simp add: fe_tight_def limb_bounds_def)
  show ?thesis unfolding c(12)[symmetric] r by (simp add: nonneg_limbs_def fe_val_def)
qed

lemma pack_word:
  assumes "n < 2 ^ 32" "n div 2 ^ a < 2 ^ b" "b < 32"
  shows "store32_le (drop_bit a (of_nat n) OR push_bit b (of_nat m :: u32)) = le_bytes 4 (n div 2 ^ a + 2 ^ b * m)"
proof -
  let ?c = "n div 2 ^ a"
  have u: "unat (drop_bit a (of_nat n) :: u32) = ?c"
    unfolding unat_drop_bit_eq using assms(1) by (simp add: drop_bit_eq_div unat_of_nat)
  then have d: "drop_bit a (of_nat n) = (of_nat ?c :: u32)" using word_of_nat_eq_iff[of "unat (drop_bit a (of_nat n) :: u32)" ?c] by (metis of_nat_unat ucast_id)
  have b: "bit (of_nat ?c :: u32) i \<Longrightarrow> i < b" for i
  proof (rule ccontr)
    assume "bit (of_nat ?c :: u32) i" "\<not> i < b"
    moreover have "?c < 2 ^ i" using assms(2) \<open>\<not> i < b\<close> by (meson leI less_le_trans one_le_numeral power_increasing)
    ultimately show False by (simp add: bit_of_nat_iff bit_nat_def)
  qed
  have "(of_nat ?c :: u32) OR push_bit b (of_nat m) = of_nat ?c + push_bit b (of_nat m)"
    by (rule disjunctive_add[symmetric]) (auto simp: bit_push_bit_iff dest: b)
  also have "\<dots> = of_nat (?c + 2 ^ b * m)" by (simp add: push_bit_eq_mult)
  finally have "store32_le (drop_bit a (of_nat n) OR push_bit b (of_nat m :: u32)) = le_bytes 4 ((?c + 2 ^ b * m) mod 2 ^ 32)"
    unfolding d store32_le_bytes by (simp only: unat_of_nat) simp
  then show ?thesis using le_bytes_cong[of 4 "(?c + 2 ^ b * m) mod 2 ^ 32" "(?c + 2 ^ b * m) div 2 ^ 32"] by simp
qed

lemma pack_step:
  assumes "c < 2 ^ b" "b \<le> 32"
  shows "le_bytes 4 (c + 2 ^ b * m) @ le_bytes k (m div 2 ^ (32 - b) + x) = le_bytes (4 + k) (c + 2 ^ b * m + 2 ^ 32 * x)"
proof -
  have "(2 :: nat) ^ 32 = 2 ^ b * 2 ^ (32 - b)" using assms(2) by (simp add: power_add[symmetric])
  then have "(c + 2 ^ b * m) div 2 ^ 32 = (c + 2 ^ b * m) div 2 ^ b div 2 ^ (32 - b)" by (simp only: div_mult2_eq)
  then have "(c + 2 ^ b * m) div 2 ^ 32 = m div 2 ^ (32 - b)" using assms(1) by simp
  then show ?thesis using le_bytes_carry[of "c + 2 ^ b * m" k x] by simp
qed

lemma pack_limbs:
  assumes "n0 < 2 ^ 26" "n1 < 2 ^ 25" "n2 < 2 ^ 26" "n3 < 2 ^ 25" "n4 < 2 ^ 26" "n5 < 2 ^ 25" "n6 < 2 ^ 26" "n7 < 2 ^ 25" "n8 < 2 ^ 26" "n9 < 2 ^ 25"
  shows "le_bytes 4 (n0 + 2 ^ 26 * n1) @ le_bytes 4 (n1 div 2 ^ 6 + 2 ^ 19 * n2) @ le_bytes 4 (n2 div 2 ^ 13 + 2 ^ 13 * n3) @
      le_bytes 4 (n3 div 2 ^ 19 + 2 ^ 6 * n4) @ le_bytes 4 (n5 + 2 ^ 25 * n6) @ le_bytes 4 (n6 div 2 ^ 7 + 2 ^ 19 * n7) @
      le_bytes 4 (n7 div 2 ^ 13 + 2 ^ 12 * n8) @ le_bytes 4 (n8 div 2 ^ 20 + 2 ^ 6 * n9) =
    le_bytes 32 (n0 + 2 ^ 26 * n1 + 2 ^ 51 * n2 + 2 ^ 77 * n3 + 2 ^ 102 * n4 + 2 ^ 128 * n5 + 2 ^ 153 * n6 + 2 ^ 179 * n7 + 2 ^ 204 * n8 + 2 ^ 230 * n9)"
proof -
  have d: "n1 div 2 ^ 6 < 2 ^ 19" "n2 div 2 ^ 13 < 2 ^ 13" "n3 div 2 ^ 19 < 2 ^ 6" "n6 div 2 ^ 7 < 2 ^ 19" "n7 div 2 ^ 13 < 2 ^ 12"
    using assms by simp_all
  have z: "n4 div 2 ^ 26 = 0" using assms(5) by simp
  define x7 x6 x5 x4 x3 x2 x1 where x: "x7 = 2 ^ 6 * n9" "x6 = 2 ^ 12 * n8 + 2 ^ 32 * x7" "x5 = 2 ^ 19 * n7 + 2 ^ 32 * x6"
    "x4 = n5 + 2 ^ 25 * n6 + 2 ^ 32 * x5" "x3 = 2 ^ 6 * n4 + 2 ^ 32 * x4" "x2 = 2 ^ 13 * n3 + 2 ^ 32 * x3" "x1 = 2 ^ 19 * n2 + 2 ^ 32 * x2"
  have p: "le_bytes 4 (n7 div 2 ^ 13 + 2 ^ 12 * n8) @ le_bytes 4 (n8 div 2 ^ 20 + x7) = le_bytes 8 (n7 div 2 ^ 13 + x6)"
    "le_bytes 4 (n6 div 2 ^ 7 + 2 ^ 19 * n7) @ le_bytes 8 (n7 div 2 ^ 13 + x6) = le_bytes 12 (n6 div 2 ^ 7 + x5)"
    "le_bytes 4 (n5 + 2 ^ 25 * n6) @ le_bytes 12 (n6 div 2 ^ 7 + x5) = le_bytes 16 x4"
    "le_bytes 4 (n3 div 2 ^ 19 + 2 ^ 6 * n4) @ le_bytes 16 x4 = le_bytes 20 (n3 div 2 ^ 19 + x3)"
    "le_bytes 4 (n2 div 2 ^ 13 + 2 ^ 13 * n3) @ le_bytes 20 (n3 div 2 ^ 19 + x3) = le_bytes 24 (n2 div 2 ^ 13 + x2)"
    "le_bytes 4 (n1 div 2 ^ 6 + 2 ^ 19 * n2) @ le_bytes 24 (n2 div 2 ^ 13 + x2) = le_bytes 28 (n1 div 2 ^ 6 + x1)"
    "le_bytes 4 (n0 + 2 ^ 26 * n1) @ le_bytes 28 (n1 div 2 ^ 6 + x1) = le_bytes 32 (n0 + 2 ^ 26 * n1 + 2 ^ 32 * x1)"
    using pack_step[OF d(5), of n8 4 x7] pack_step[OF d(4), of n7 8 x6] pack_step[OF assms(6), of n6 12 x5] pack_step[OF d(3), of n4 16 x4]
      pack_step[OF d(2), of n3 20 x3] pack_step[OF d(1), of n2 24 x2] pack_step[OF assms(1), of n1 28 x1] z
    by (simp_all add: x(2-7) add.assoc)
  have "n0 + 2 ^ 26 * n1 + 2 ^ 32 * x1 =
      n0 + 2 ^ 26 * n1 + 2 ^ 51 * n2 + 2 ^ 77 * n3 + 2 ^ 102 * n4 + 2 ^ 128 * n5 + 2 ^ 153 * n6 + 2 ^ 179 * n7 + 2 ^ 204 * n8 + 2 ^ 230 * n9"
    unfolding x by simp
  then show ?thesis unfolding x(1)[symmetric] p by (simp only:)
qed

lemma nonneg_bytes:
  assumes "nonneg_limbs t"
  defines "u \<equiv> \<lambda>i. word_of_int (t ! i) :: u32"
  shows "store32_le (drop_bit 0 (u 0) OR push_bit 26 (u 1)) @ store32_le (drop_bit 6 (u 1) OR push_bit 19 (u 2)) @
      store32_le (drop_bit 13 (u 2) OR push_bit 13 (u 3)) @ store32_le (drop_bit 19 (u 3) OR push_bit 6 (u 4)) @
      store32_le (drop_bit 0 (u 5) OR push_bit 25 (u 6)) @ store32_le (drop_bit 7 (u 6) OR push_bit 19 (u 7)) @
      store32_le (drop_bit 13 (u 7) OR push_bit 12 (u 8)) @ store32_le (drop_bit 20 (u 8) OR push_bit 6 (u 9)) =
    le_bytes 32 (nat (fe_val t))"
proof -
  have ex: "\<exists>n. x = int n \<and> n < 2 ^ a" if "0 \<le> x \<and> x < 2 ^ a" for x :: int and a
    using that by (intro exI[of _ "nat x"]) (simp add: nat_less_iff)
  obtain n0 n1 n2 n3 n4 where n: "t ! 0 = int n0" "n0 < 2 ^ 26" "t ! 1 = int n1" "n1 < 2 ^ 25" "t ! 2 = int n2" "n2 < 2 ^ 26"
    "t ! 3 = int n3" "n3 < 2 ^ 25" "t ! 4 = int n4" "n4 < 2 ^ 26"
    using assms(1) unfolding nonneg_limbs_def by (elim conjE) (metis ex)
  obtain n5 n6 n7 n8 n9 where m: "t ! 5 = int n5" "n5 < 2 ^ 25" "t ! 6 = int n6" "n6 < 2 ^ 26" "t ! 7 = int n7" "n7 < 2 ^ 25"
    "t ! 8 = int n8" "n8 < 2 ^ 26" "t ! 9 = int n9" "n9 < 2 ^ 25"
    using assms(1) unfolding nonneg_limbs_def by (elim conjE) (metis ex)
  have u: "u 0 = of_nat n0" "u 1 = of_nat n1" "u 2 = of_nat n2" "u 3 = of_nat n3" "u 4 = of_nat n4"
    "u 5 = of_nat n5" "u 6 = of_nat n6" "u 7 = of_nat n7" "u 8 = of_nat n8" "u 9 = of_nat n9"
    unfolding u_def n m by simp_all
  have w: "store32_le (drop_bit 0 (u 0) OR push_bit 26 (u 1)) = le_bytes 4 (n0 + 2 ^ 26 * n1)"
    "store32_le (drop_bit 6 (u 1) OR push_bit 19 (u 2)) = le_bytes 4 (n1 div 2 ^ 6 + 2 ^ 19 * n2)"
    "store32_le (drop_bit 13 (u 2) OR push_bit 13 (u 3)) = le_bytes 4 (n2 div 2 ^ 13 + 2 ^ 13 * n3)"
    "store32_le (drop_bit 19 (u 3) OR push_bit 6 (u 4)) = le_bytes 4 (n3 div 2 ^ 19 + 2 ^ 6 * n4)"
    "store32_le (drop_bit 0 (u 5) OR push_bit 25 (u 6)) = le_bytes 4 (n5 + 2 ^ 25 * n6)"
    "store32_le (drop_bit 7 (u 6) OR push_bit 19 (u 7)) = le_bytes 4 (n6 div 2 ^ 7 + 2 ^ 19 * n7)"
    "store32_le (drop_bit 13 (u 7) OR push_bit 12 (u 8)) = le_bytes 4 (n7 div 2 ^ 13 + 2 ^ 12 * n8)"
    "store32_le (drop_bit 20 (u 8) OR push_bit 6 (u 9)) = le_bytes 4 (n8 div 2 ^ 20 + 2 ^ 6 * n9)"
    unfolding u using n m pack_word[of n0 0 26 n1] pack_word[of n5 0 25 n6] by (simp_all add: pack_word)
  have "nat (fe_val t) = n0 + 2 ^ 26 * n1 + 2 ^ 51 * n2 + 2 ^ 77 * n3 + 2 ^ 102 * n4 + 2 ^ 128 * n5 + 2 ^ 153 * n6 + 2 ^ 179 * n7 + 2 ^ 204 * n8 + 2 ^ 230 * n9"
    unfolding fe_val_def limbs_def n m by (simp add: nat_eq_iff)
  then show ?thesis unfolding w using pack_limbs[OF n(2,4,6,8,10) m(2,4,6,8,10)] by (simp only:)
qed

text \<open>The sign is decided by the top limb: the others are too small to change it.\<close>

lemma sign_quotient:
  assumes "fe_tight h" "q0 = (19 * h ! 9 + 2 ^ 24) div 2 ^ 25"
  shows "within 1000 q0" "(q0 + fe_val h) div 2 ^ 255 = (if fe_val h < 0 then - 1 else 0)" "- p25519 < fe_val h" "fe_val h < p25519"
proof -
  let ?l = "limbs (h ! 0) (h ! 1) (h ! 2) (h ! 3) (h ! 4) (h ! 5) (h ! 6) (h ! 7) (h ! 8) 0"
  have v: "fe_val h = ?l + 2 ^ 230 * h ! 9" by (simp add: fe_val_def limbs_def)
  have l: "- (2 ^ 230) < ?l" "?l < 2 ^ 230" using assms(1) by (simp_all add: fe_tight_def limb_bounds_def within_def limbs_def)
  have t: "- 18454937 \<le> h ! 9" "h ! 9 \<le> 18454937" using assms(1) by (simp_all add: fe_tight_def limb_bounds_def within_def)
  show w: "within 1000 q0" using t unfolding assms(2) within_def by auto
  have s: "fe_val h < 0 \<Longrightarrow> h ! 9 \<le> 0" "0 \<le> fe_val h \<Longrightarrow> 0 \<le> h ! 9" using l unfolding v by simp_all
  have q: "h ! 9 \<le> 0 \<Longrightarrow> q0 \<le> 0" "0 \<le> h ! 9 \<Longrightarrow> 0 \<le> q0" unfolding assms(2) by simp_all
  show b: "- p25519 < fe_val h" "fe_val h < p25519" using l t unfolding v p25519_def by simp_all
  have "fe_val h < 0 \<Longrightarrow> (q0 + fe_val h) div 2 ^ 255 = - 1" "0 \<le> fe_val h \<Longrightarrow> (q0 + fe_val h) div 2 ^ 255 = 0"
    using s q w l t unfolding within_def v by (simp_all add: div_eq_minus1)
  then show "(q0 + fe_val h) div 2 ^ 255 = (if fe_val h < 0 then - 1 else 0)" by simp
qed

lemma mod_negative: "x < 0 \<Longrightarrow> - m \<le> x \<Longrightarrow> x mod m = x + m" for x m :: int
  using mod_add_self2[of x m] mod_pos_pos_trivial[of "x + m" m] by simp

lemma tobytes_eq:
  assumes "fe_tight h"
  shows "fe_tobytes h = le_bytes 32 (nat (fe_val h mod p25519))"
proof -
  define q0 where "q0 = (19 * h ! 9 + 2 ^ 24) div 2 ^ 25"
  define s where "s = (if fe_val h < 0 then - 1 else 0 :: int)"
  note q = sign_quotient[OF assms q0_def]
  have t: "- 18454937 \<le> h ! 9" "h ! 9 \<le> 18454937" using assms by (simp_all add: fe_tight_def limb_bounds_def within_def)
  have e1: "drop_bit 25 (i32 (i32 (19 * h ! 9) + push_bit 24 1)) = q0"
    using t by (simp add: q0_def i32_id drop_bit_eq_div push_bit_eq_mult)
  have e2: "sign_pass h q0 = s" using sign_pass_eq[OF assms q(1)] q(2) by (simp add: s_def)
  have e3: "i32 (s * 19) = s * 19" "within 1000 (s * 19)" by (simp_all add: s_def i32_id within_def)
  note r = reduce_pass_eq[OF assms e3(2)]
  have "(s * 19 + fe_val h) mod 2 ^ 255 = fe_val h mod p25519"
  proof (cases "fe_val h < 0")
    case True
    then have "(s * 19 + fe_val h) mod 2 ^ 255 = s * 19 + fe_val h + 2 ^ 255" "fe_val h mod p25519 = fe_val h + p25519"
      using q(3) mod_negative[of "s * 19 + fe_val h" "2 ^ 255"] mod_negative[of "fe_val h" p25519] by (simp_all add: s_def p25519_def)
    then show ?thesis using True by (simp add: s_def p25519_def)
  next
    case False
    then show ?thesis using q(4) by (simp add: s_def p25519_def)
  qed
  then show ?thesis
    using r nonneg_bytes[of "reduce_pass h (s * 19)"] unfolding fe_tobytes_def Let_def e1 e2 e3(1) by simp
qed

lemma tobytes_rep: "rep h x \<Longrightarrow> fe_tobytes h = le_bytes 32 (nat (x mod p25519))"
  by (simp add: rep_def tobytes_eq)

subsection \<open>Reading bytes\<close>

lemma unat_load24:
  assumes "3 \<le> length s"
  shows "unat (load24_le s) = le_num (take 3 s)" "unat (load24_le s) < 2 ^ 24"
proof -
  let ?s = "take 3 s @ [0]"
  have e: "load24_le s = load32_le ?s"
    using assms by (simp add: load24_le_def load32_le_def nth_append)
  have "unat (load32_le ?s) = le_num (take 4 ?s)" using assms by (intro unat_load32) simp
  then show n: "unat (load24_le s) = le_num (take 3 s)" using assms by (simp add: e le_num_append)
  have u: "unat x < 256" for x :: byte using unsigned_less[of x, where ?'a = nat] by simp
  obtain a b c r where "s = a # b # c # r" using assms by (metis Suc_le_length_iff numeral_3_eq_3)
  then show "unat (load24_le s) < 2 ^ 24"
    using u[of a] u[of b] u[of c] unfolding n by (simp add: numeral_3_eq_3)
qed

lemma shifted24:
  assumes "3 \<le> length s" "k \<le> 8"
  shows "uint (push_bit k (load24_le s)) = 2 ^ k * int (le_num (take 3 s))"
proof -
  have "unat (load24_le s) * 2 ^ k < 2 ^ 24 * 2 ^ 8"
    using unat_load24(2)[OF assms(1)] power_increasing[OF assms(2), of "2 :: nat"] by (intro mult_less_le_imp_less) simp_all
  then have "unat (push_bit k (load24_le s)) = unat (load24_le s) * 2 ^ k"
    unfolding unsigned_push_bit_eq by (simp add: push_bit_eq_mult take_bit_eq_mod)
  then show ?thesis using unat_load24(1)[OF assms(1)] by (simp add: uint_nat mult.commute)
qed

lemma le_num_split: "k \<le> length xs \<Longrightarrow> le_num xs = le_num (take k xs) + 2 ^ (8 * k) * le_num (drop k xs)"
  using le_num_append[of "take k xs" "drop k xs"] by (simp add: power_mult)

lemma le_num_less: "le_num xs < 2 ^ (8 * length xs)"
proof (induction xs)
  case (Cons x xs)
  have "unat x < 256" using unsigned_less[of x, where ?'a = nat] by simp
  then show ?case using Cons by (simp add: power_add)
qed simp

lemma le_num_pieces:
  assumes "length s = 32"
  shows "le_num (take 29 s) = le_num (take 4 s) + 2 ^ 32 * le_num (take 3 (drop 4 s)) + 2 ^ 56 * le_num (take 3 (drop 7 s)) + 2 ^ 80 * le_num (take 3 (drop 10 s)) + 2 ^ 104 * le_num (take 3 (drop 13 s)) + 2 ^ 128 * le_num (take 4 (drop 16 s)) + 2 ^ 160 * le_num (take 3 (drop 20 s)) + 2 ^ 184 * le_num (take 3 (drop 23 s)) + 2 ^ 208 * le_num (take 3 (drop 26 s))"
    "le_num s = le_num (take 29 s) + 2 ^ 232 * le_num (take 3 (drop 29 s))"
proof -
  define r p where "r i = le_num (drop i (take 29 s))" and "p k i = le_num (take k (drop i s))" for i k
  have d: "r i = p k i + 2 ^ (8 * k) * r (i + k)" if "i + k \<le> 29" for i k
  proof -
    have "k \<le> length (drop i (take 29 s))" using assms that by simp
    moreover have "take k (drop i (take 29 s)) = take k (drop i s)" using that by (simp add: drop_take)
    ultimately show ?thesis using le_num_split[of k "drop i (take 29 s)"] by (simp only: r_def p_def drop_drop add.commute)
  qed
  have z: "r 29 = 0" "r 0 = le_num (take 29 s)" by (simp_all add: r_def)
  note e = d[of 0 4] d[of 4 3] d[of 7 3] d[of 10 3] d[of 13 3] d[of 16 4] d[of 20 3] d[of 23 3] d[of 26 3]
  have "r 0 = p 4 0 + 2 ^ 32 * p 3 4 + 2 ^ 56 * p 3 7 + 2 ^ 80 * p 3 10 + 2 ^ 104 * p 3 13 + 2 ^ 128 * p 4 16 +
      2 ^ 160 * p 3 20 + 2 ^ 184 * p 3 23 + 2 ^ 208 * p 3 26"
    using e z(1) by simp
  then show "le_num (take 29 s) = le_num (take 4 s) + 2 ^ 32 * le_num (take 3 (drop 4 s)) + 2 ^ 56 * le_num (take 3 (drop 7 s)) + 2 ^ 80 * le_num (take 3 (drop 10 s)) + 2 ^ 104 * le_num (take 3 (drop 13 s)) + 2 ^ 128 * le_num (take 4 (drop 16 s)) + 2 ^ 160 * le_num (take 3 (drop 20 s)) + 2 ^ 184 * le_num (take 3 (drop 23 s)) + 2 ^ 208 * le_num (take 3 (drop 26 s))"
    unfolding z(2) p_def by simp
  show "le_num s = le_num (take 29 s) + 2 ^ 232 * le_num (take 3 (drop 29 s))"
    using le_num_split[of 29 s] assms by simp
qed

lemma top_limb:
  assumes "3 \<le> length s"
  shows "uint (push_bit 2 (load24_le s AND drop_bit 1 0xffffff)) = 2 ^ 2 * int (le_num (take 3 s) mod 2 ^ 23)"
proof -
  let ?w = "load24_le s AND drop_bit 1 0xffffff"
  have "drop_bit 1 (0xffffff :: u32) = mask 23" by (simp add: mask_eq_exp_minus_1 drop_bit_eq_div)
  then have w: "unat ?w = le_num (take 3 s) mod 2 ^ 23"
    using unat_load24(1)[OF assms] by (simp only: take_bit_eq_mask[symmetric] unsigned_take_bit_eq) (simp add: take_bit_eq_mod)
  have "le_num (take 3 s) mod 2 ^ 23 < 2 ^ 23" by simp
  then have "unat (push_bit 2 ?w) = unat ?w * 2 ^ 2"
    unfolding unsigned_push_bit_eq using w by (simp add: push_bit_eq_mult take_bit_eq_mod)
  then show ?thesis unfolding w by (simp add: uint_nat)
qed

lemma frombytes_rep:
  assumes "length s = 32"
  shows "rep (fe_frombytes s) (int (le_num s mod 2 ^ 255))"
proof -
  have l: "uint (load32_le (drop i s)) = int (le_num (take 4 (drop i s)))" if "i + 4 \<le> 32" for i
    using unat_load32[of "drop i s"] assms that by (simp add: uint_nat)
  note l0 = l[of 0, simplified] and l5 = l[of 16, simplified]
  have h: "uint (push_bit k (load24_le (drop i s))) = 2 ^ k * int (le_num (take 3 (drop i s)))" if "i + 3 \<le> 32" "k \<le> 8" for i k
    using shifted24[of "drop i s" k] assms that by simp
  have t: "uint (push_bit 2 (load24_le (drop 29 s) AND drop_bit 1 0xffffff)) = 2 ^ 2 * int (le_num (take 3 (drop 29 s)) mod 2 ^ 23)"
    using top_limb[of "drop 29 s"] assms by simp
  have w: "within (3 * 2 ^ 60) (uint (x :: u32))" for x
  proof -
    have "- (3 * 2 ^ 60) \<le> (0 :: int)" by simp
    also have "0 \<le> uint x" by simp
    finally show ?thesis using unsigned_less[of x, where ?'a = int] by (simp add: within_def)
  qed
  have "le_num s mod 2 ^ 255 = le_num (take 29 s) + 2 ^ 232 * (le_num (take 3 (drop 29 s)) mod 2 ^ 23)"
  proof -
    have "le_num (take 29 s) < 2 ^ 232" using le_num_less[of "take 29 s"] assms by simp
    moreover have "(a + m * b) mod (m * k) = a + m * (b mod k)" if "a < m" for a b m k :: nat
      using that by (simp add: mod_mult2_eq)
    ultimately have "(le_num (take 29 s) + 2 ^ 232 * le_num (take 3 (drop 29 s))) mod (2 ^ 232 * 2 ^ 23) =
        le_num (take 29 s) + 2 ^ 232 * (le_num (take 3 (drop 29 s)) mod 2 ^ 23)" by blast
    then show ?thesis using le_num_pieces(2)[OF assms] by simp
  qed
  then have v: "int (le_num s mod 2 ^ 255) = limbs (uint (load32_le s)) (uint (push_bit 6 (load24_le (drop 4 s))))
      (uint (push_bit 5 (load24_le (drop 7 s)))) (uint (push_bit 3 (load24_le (drop 10 s)))) (uint (push_bit 2 (load24_le (drop 13 s))))
      (uint (load32_le (drop 16 s))) (uint (push_bit 7 (load24_le (drop 20 s)))) (uint (push_bit 5 (load24_le (drop 23 s))))
      (uint (push_bit 4 (load24_le (drop 26 s)))) (uint (push_bit 2 (load24_le (drop 29 s) AND drop_bit 1 0xffffff)))"
    unfolding le_num_pieces(1)[OF assms] limbs_def t l0 l5 by (simp add: h)
  have c: "rep (FE_CARRY (uint t0) (uint t1) (uint t2) (uint t3) (uint t4) (uint t5) (uint t6) (uint t7) (uint t8) (uint t9))
      (limbs (uint t0) (uint t1) (uint t2) (uint t3) (uint t4) (uint t5) (uint t6) (uint t7) (uint t8) (uint t9))"
    for t0 t1 t2 t3 t4 t5 t6 t7 t8 t9 :: u32
    using FE_CARRY_correct[OF w w w w w w w w w w, of t0 t1 t2 t3 t4 t5 t6 t7 t8 t9] unfolding p25519_def[symmetric] rep_def by auto
  show ?thesis unfolding v fe_frombytes_def fe_frombytes_mask_def Let_def by (rule c)
qed

subsection \<open>Comparison\<close>

lemma x16_zero:
  assumes "16 \<le> length a" "16 \<le> length b"
  shows "x16 a b = 0 \<longleftrightarrow> take 16 a = take 16 b"
proof -
  have t: "load64_le (take k c) = load64_le c" if "8 \<le> k" for k c
    using that LoadLe64_take[of k c] by (simp add: load64_le_eq)
  have "x16 a b = x16 (take 16 a) (take 16 b)" by (simp add: x16_def drop_take t)
  then show ?thesis
    using crypto_verify16_eq[of "take 16 a" "take 16 b"] assms by (auto simp: crypto_verify16_def neq0_zero split: if_splits)
qed

lemma crypto_verify32_eq:
  assumes "length a = 32" "length b = 32"
  shows "crypto_verify32 a b = (if a = b then 0 else - 1)"
proof -
  have "a = b \<longleftrightarrow> take 16 a = take 16 b \<and> drop 16 a = drop 16 b" by (metis append_take_drop_id)
  moreover have "take 16 (drop 16 a) = drop 16 a" "take 16 (drop 16 b) = drop 16 b" using assms by simp_all
  ultimately have "a = b \<longleftrightarrow> take 16 a = take 16 b \<and> take 16 (drop 16 a) = take 16 (drop 16 b)" by (simp only:)
  then show ?thesis
    using assms by (auto simp: crypto_verify32_def neq0_zero x32_def or_eq_0_iff x16_zero)
qed

lemma le_num_le_bytes: "le_num (le_bytes n v) = v mod 256 ^ n"
proof (induction n arbitrary: v)
  case (Suc n)
  have "le_bytes (1 + n) v = le_bytes 1 v @ le_bytes n (v div 256 ^ 1)" by (rule le_bytes_add)
  then have "le_num (le_bytes (Suc n) v) = v mod 256 + 256 * (v div 256 mod 256 ^ n)"
    using Suc by (simp add: le_num_append le_bytes_def unat_of_nat)
  then show ?case by (simp add: mod_mult2_eq)
qed (simp add: le_bytes_def)

lemma isequal_rep:
  assumes "rep f x" "rep g y"
  shows "fe_isequal f g = (if x mod p25519 = y mod p25519 then 1 else 0)"
proof -
  have p: "0 < p25519" "p25519 < 256 ^ 32" by (simp_all add: p25519_def)
  have b: "0 \<le> z mod p25519" "nat (z mod p25519) < 256 ^ 32" for z
  proof -
    show z: "0 \<le> z mod p25519" using p(1) by (rule pos_mod_sign)
    have "z mod p25519 < 256 ^ 32" using pos_mod_bound[OF p(1), of z] p(2) by (rule less_trans)
    then show "nat (z mod p25519) < 256 ^ 32" unfolding nat_less_iff[OF z] of_nat_power by (simp only: of_nat_numeral)
  qed
  have "fe_tobytes f = fe_tobytes g \<longleftrightarrow> x mod p25519 = y mod p25519"
  proof
    assume "fe_tobytes f = fe_tobytes g"
    then have "le_num (le_bytes 32 (nat (x mod p25519))) = le_num (le_bytes 32 (nat (y mod p25519)))"
      unfolding tobytes_rep[OF assms(1)] tobytes_rep[OF assms(2)] by (rule arg_cong)
    then have "nat (x mod p25519) = nat (y mod p25519)"
      unfolding le_num_le_bytes mod_less[OF b(2)] .
    then show "x mod p25519 = y mod p25519" using eq_nat_nat_iff[OF b(1) b(1)] by blast
  qed (simp add: tobytes_rep[OF assms(1)] tobytes_rep[OF assms(2)])
  then show ?thesis
    using crypto_verify32_eq[of "fe_tobytes f" "fe_tobytes g"] tobytes_rep[OF assms(1)] tobytes_rep[OF assms(2)]
    by (simp add: fe_isequal_def)
qed

end
