(* ===== verification/Spec2Isabelle.thy ===== *)
theory Spec2Isabelle
  imports WG_PeerSockets WG_PeerBudget WG_Aead WG_Blake2s WG_Fe
begin

text \<open>
  A verification development for WireGuard-NX, a userspace WireGuard implementation for Horizon.

  \<^bold>\<open>The program.\<close> The system module under \<open>wg-sysmodule/src\<close> has three layers. The protocol layer
  (\<open>wireguard/\<close>) is a set of functions on plain structs: wire messages, key material, sessions, the Noise
  handshake, admission of handshakes under load, transport packets, inner IP packets, queues, timers. It calls
  vendored C code (\<open>wireguard/crypto/monocypher.c\<close>, \<open>third_party/blake2\<close>) through the wrappers of
  \<open>crypto/primitives.cpp\<close>. The runtime layer (\<open>runtime/\<close>) keeps one \<open>PeerRuntime\<close> per configured peer: an
  event goes to a handler, which changes the peer and returns a batch of effects (open a socket, send a
  datagram, schedule a timer) that other threads carry out and answer with further events. Around them are
  configuration, IPC services, platform code and a socket interception module (\<open>mitm-sysmodule/\<close>).

  \<^bold>\<open>How code becomes definitions.\<close> A struct is a record and an enum a datatype with the source's
  constructors. Machine integers are words of their width; lengths (\<open>size_t\<close>) are natural numbers; the signed
  C integers of the field arithmetic are integers with the wrap-around of their width at every operation. A
  buffer is a list of bytes. A method takes the state of its object and returns the new one; an
  out-parameter is a further result; \<open>std::optional\<close> and pointers that may be null are options. Steps that
  succeed or stop are \<open>'s step\<close> values run by \<open>all_steps\<close> (theory WG_Prelude). Logging and the wiping of
  locals that are not used again are left out; the wiping of fields is kept. Every definition has the name of
  the function or type it translates, or that of the enclosing function's part.

  \<^bold>\<open>Parameters.\<close> Clock and random source are a record \<open>platform\<close> of functions on an arbitrary world, so two
  reads may differ. The protocol layer is written over a record \<open>crypto_backend\<close> with the functions the
  wrappers call. What the theorems of the protocol need of it is \<open>crypto_laws\<close>: decryption undoes encryption,
  the lengths of results, and that the two sides of an exchange compute the same shared secret. The theories
  on the vendored code show that its AEAD has the first (\<open>monocypher_aead_laws\<close> in WG_Aead).

  \<^bold>\<open>Theories and what they show.\<close>

  \<^item> WG_Prelude, WG_Endian: shared vocabulary, byte order helpers (\<open>endian.hpp\<close>).
  \<^item> WG_Messages (\<open>messages.hpp/.cpp\<close>, \<open>constants.hpp\<close>, \<open>dispatch.cpp\<close>): readers, writers, parsers and
    serialisers of the four messages. The locale \<open>wire_codec\<close> is the contract of a message format, with one
    interpretation per message. Parsing undoes serialising, and a parser accepts exactly the well-formed packets.
  \<^item> WG_Crypto (\<open>crypto/primitives\<close>): the wrappers; HMAC is that of RFC 2104.
  \<^item> WG_ChaCha20, WG_Poly1305, WG_Aead, WG_Blake2s, WG_Fe (\<open>monocypher.c\<close>, \<open>blake2s-ref.c\<close>): the vendored
    code is compared with the definitions of RFC 8439 and RFC 7693: the stream cipher is the exclusive or with
    the key stream; the 32-bit limbs of Poly1305 compute modulo \<open>2 ^ 130 - 5\<close> with no overflow; streaming in any
    pieces gives the tag and the hash of the whole; AEAD decryption accepts exactly what encryption gives. The
    ten-limb arithmetic modulo \<open>2 ^ 255 - 19\<close> never overflows within the bounds the code states.
  \<^item> WG_Replay, WG_Keys, WG_Keypair (\<open>session.hpp/.cpp\<close>): the ring of 128 blocks behaves as the sliding window
    of its specification on every sequence of counters (locale \<open>replay_filter\<close>), and accepts no counter twice;
    key text round trips; a sending key never gives a counter twice and stops at its limits of time and messages.
  \<^item> WG_Queue, WG_InnerPacket (\<open>inner_packet.hpp/.cpp\<close>): the packet ring is a bounded queue (locale
    \<open>bounded_fifo\<close>); checksum, padding and allowed-source checks are exact. \<open>ParseIpv6Address\<close> accepts a trailing
    colon.
  \<^item> WG_Counter, WG_Timers (\<open>timers\<close>, \<open>timer_coordinator\<close>): a timer token is current exactly when it was the
    last one issued for its hook and neither cancelled nor fired, up to \<open>2 ^ 32\<close> generations (locale
    \<open>nonzero_counter\<close>, which also gives fresh session indices).
  \<^item> WG_Peer, WG_Device (\<open>peer\<close>, \<open>device\<close>, \<open>index_allocator\<close>): initialisation, the bounded retry sequence,
    scrubbing of keys, index registry.
  \<^item> WG_Noise, WG_Cookie, WG_Handshake (\<open>handshake.hpp/.cpp\<close>): the whole handshake. WG_Agreement shows that an
    honest run ends with sessions whose keys are crossed. WG_Freshness: which initiations are accepted, none
    twice, and a rejected packet changes nothing. WG_Cookie: rate limits by a token bucket (locale
    \<open>token_bucket\<close>). WG_CookieExchange: the cookie of a loaded responder is understood and honoured.
  \<^item> WG_Data, WG_Session, WG_Controller (\<open>data\<close>, \<open>peer_controller\<close>): transport packets arrive as sent, each once,
    under loss, reordering and replay; the first data packet after a handshake is accepted.
  \<^item> WG_Events, WG_PeerRuntime, WG_PeerHandlers (\<open>runtime/domain_types.hpp\<close>, \<open>runtime_events.hpp\<close>,
    \<open>udp_binding\<close>, \<open>runtime/peer/\<close>): the state of a peer and its fourteen event handlers. \<open>Handle\<close> is the entry
    point; its value \<open>None\<close> is \<open>std::abort\<close>.
  \<^item> WG_PeerRuns: the locales \<open>run_relation\<close> and \<open>active_relation\<close> say what a relation between two moments of a
    handler needs so that every protocol handler respects it. They are interpreted for the ownership of
    sockets (WG_PeerSockets: a socket is never lost and never closed twice), for the lifecycle
    (WG_PeerLifecycle: states reachable, transitions, stale events ignored) and for the number of effects
    (WG_PeerBudget: a handler exceeds its budget exactly when it enters the error state with an open socket;
    an expired timer that finds a send pending can do so and ends the process).

  \<^bold>\<open>Termination and bounds.\<close> Every function is total. Loops over buffers are structural or have a measure; no
  fuel is used. The loops that poll until a resource is exhausted (\<open>process_outbound_loop\<close>, index allocation)
  recurse on the number of queued packets and on the attempt counter of the source.

  \<^bold>\<open>Not modelled.\<close>

  \<^item> \<open>runtime/daemon_runtime\<close>, \<open>runtime_effect_executor\<close>, \<open>encrypted_receive_pump\<close>, \<open>timer_scheduler\<close>,
    \<open>horizon_dispatcher\<close>, \<open>endpoint_resolver\<close>, \<open>debug_probe_runner\<close>: threads, mutexes and system calls that
    carry out effects. The model takes their answers as events in any order.
  \<^item> \<open>runtime/tunnel_flow_plane\<close>, \<open>packet_data_plane\<close>, \<open>userspace_ip_adapter\<close>: flows over the lwIP stack, whose
    code is a submodule that is not part of the sources.
  \<^item> \<open>config_loader\<close>, \<open>fs_runtime\<close>, \<open>logger\<close>, \<open>ipc_service\<close>, \<open>tunnel_service\<close>, \<open>platform/horizon\<close>: file
    system, logging, IPC marshalling and platform calls.
  \<^item> \<open>mitm-sysmodule\<close>, \<open>manager\<close>, \<open>overlay\<close>: other programs of the repository, mostly IPC and user interface.
  \<^item> The parts of \<open>monocypher.c\<close> and \<open>blake2.h\<close> that nothing in the repository calls (signatures, Argon2,
    BLAKE2b, Elligator, tree hashing).
\<close>

end
